(* ===== verification/Urd_Prelude.thy ===== *)
theory Urd_Prelude
  imports Main "HOL-Library.Word"
begin

text \<open>
  The types and generic lemmas the components share.  A Go \<open>uint64\<close> is a 64-bit word, so
  that \<open>+\<close> wraps as in the source; a Go \<open>string\<close> or \<open>[]byte\<close> is a list of characters,
  one per byte; a Go \<open>int64\<close> timestamp is an \<open>int\<close>.  The second part of the theory models
  what the source uses of Go's \<open>unicode/utf8\<close>, \<open>unicode\<close> and \<open>strings\<close> packages, and the
  conversion \<open>int(x)\<close> of a \<open>uint64\<close>, which is negative from \<open>2 ^ 63\<close> on.
\<close>

section \<open>Types and collections of rules\<close>

type_synonym u64 = "64 word"
type_synonym bytes = string

named_theorems go_defs \<open>definitions of Go's standard library, unfolded together\<close>

section \<open>Lists and options\<close>

lemma filter_id_iff_length: "(length (filter P xs) = length xs) = (\<forall>x\<in>set xs. P x)"
proof
  assume len: "length (filter P xs) = length xs"
  show "\<forall>x\<in>set xs. P x"
  proof (rule ccontr)
    assume "\<not> (\<forall>x\<in>set xs. P x)"
    then obtain x where "x \<in> set xs" "\<not> P x" by blast
    then have "length (filter P xs) < length xs" by (rule length_filter_less)
    with len show False by simp
  qed
qed simp

lemma fold_max_ge: "(a::'a::linorder) \<le> fold max xs a"
proof (induction xs arbitrary: a)
  case Nil
  then show ?case by simp
next
  case (Cons x xs)
  have "max x a \<le> fold max xs (max x a)" by (rule Cons.IH)
  then show ?case by simp
qed

lemma fold_max_ge_mem: "(x::'a::linorder) \<in> set xs \<Longrightarrow> x \<le> fold max xs a"
proof (induction xs arbitrary: a)
  case Nil
  then show ?case by simp
next
  case (Cons y ys)
  show ?case
  proof (cases "x \<in> set ys")
    case True
    then show ?thesis using Cons.IH by simp
  next
    case False
    with Cons.prems have "x \<le> max y a" by simp
    also have "\<dots> \<le> fold max ys (max y a)" by (rule fold_max_ge)
    finally show ?thesis by simp
  qed
qed

lemma fold_max_in: "fold max xs (a::'a::linorder) \<in> insert a (set xs)"
proof (induction xs arbitrary: a)
  case Nil
  then show ?case by simp
next
  case (Cons x xs)
  from Cons.IH [of "max x a"] show ?case by (auto simp: max_def split: if_splits)
qed

lemma fold_max_shift: "fold max xs (max a (b::'a::linorder)) = max a (fold max xs b)"
proof (induction xs arbitrary: b)
  case (Cons x xs)
  have "fold max (x # xs) (max a b) = fold max xs (max a (max x b))" by (simp add: max.left_commute)
  with Cons show ?case by simp
qed simp

lemma sorted_le_last: "sorted xs \<Longrightarrow> x \<in> set xs \<Longrightarrow> x \<le> last xs"
  by (induction xs) auto

lemma map_sort_key: "\<forall>x \<in> set xs. h (f x) = g x \<Longrightarrow> map f (sort_key g xs) = sort_key h (map f xs)"
proof (induction xs)
  case (Cons x xs)
  have "map f (insort_key g x ys) = insort_key h (f x) (map f ys)" if "\<forall>y \<in> insert x (set ys). h (f y) = g y" for ys
    using that by (induction ys) auto
  from this [of "sort_key g xs"] Cons show ?case by simp
qed simp

lemma sort_key_key_unique_map_of:
  assumes "distinct (map f xs)" and "distinct (map f ys)" and "set xs = set ys"
  shows "sort_key f xs = sort_key f ys"
proof (rule map_sorted_distinct_set_unique [of f])
  show "inj_on f (set (sort_key f xs) \<union> set (sort_key f ys))"
    using assms by (simp add: distinct_map)
  show "sorted (map f (sort_key f xs))" "sorted (map f (sort_key f ys))" by simp_all
  show "distinct (map f (sort_key f xs))" "distinct (map f (sort_key f ys))"
    using assms(1,2) by (auto simp: distinct_map)
  show "set (sort_key f xs) = set (sort_key f ys)" using assms(3) by simp
qed

section \<open>Early returns\<close>

text \<open>
  A Go function that returns a value and an error is a value of a sum type, the error on the
  left.  \<open>sum_bind\<close> is \<open>if err != nil { return err }\<close> followed by the rest of the function.
\<close>

fun sum_bind :: "'e + 'a \<Rightarrow> ('a \<Rightarrow> 'e + 'b) \<Rightarrow> 'e + 'b" where
  "sum_bind (Inl e) f = Inl e"
| "sum_bind (Inr x) f = f x"

fun or_fail :: "'e \<Rightarrow> 'a option \<Rightarrow> 'e + 'a" where
  "or_fail e None = Inl e"
| "or_fail e (Some x) = Inr x"

text \<open>A check that returns only an error.\<close>

fun check_err :: "'e option \<Rightarrow> 'e + 'b \<Rightarrow> 'e + 'b" where
  "check_err (Some e) k = Inl e"
| "check_err None k = k"

lemma sum_bind_Inr_iff: "sum_bind x f = Inr y \<longleftrightarrow> (\<exists>a. x = Inr a \<and> f a = Inr y)"
  by (cases x) auto

lemma or_fail_Inr_iff: "or_fail e x = Inr y \<longleftrightarrow> x = Some y"
  by (cases x) auto

lemma check_err_Inr_iff: "check_err e k = Inr y \<longleftrightarrow> e = None \<and> k = Inr y"
  by (cases e) auto

lemma sum_bind_assoc: "sum_bind (sum_bind m f) g = sum_bind m (\<lambda>x. sum_bind (f x) g)"
  by (cases m) simp_all

lemmas return_iffs = sum_bind_Inr_iff or_fail_Inr_iff check_err_Inr_iff

section \<open>Go's conversion of an unsigned to a signed integer\<close>

definition go_int :: "u64 \<Rightarrow> int" where
  "go_int x = (if unat x < 2 ^ 63 then int (unat x) else int (unat x) - 2 ^ 64)"

lemma go_int_small: "unat x < 2 ^ 63 \<Longrightarrow> go_int x = int (unat x)"
  by (simp add: go_int_def)

lemma go_int_large: "2 ^ 63 \<le> unat x \<Longrightarrow> go_int x < 0"
proof -
  assume "2 ^ 63 \<le> unat x"
  moreover have "uint x < 2 ^ 64" using uint_lt2p [of x] by simp
  ultimately show ?thesis by (simp add: go_int_def)
qed

section \<open>Go's UTF-8 decoding, \<open>unicode.IsSpace\<close>, \<open>unicode.IsControl\<close>, \<open>strings.TrimSpace\<close>\<close>

text \<open>
  \<open>decode_rune\<close> is \<open>utf8.DecodeRuneInString\<close> on a non-empty string: the code point and its
  width, or the replacement character with width 1 when the bytes are not a shortest-form
  encoding of a scalar value.
\<close>

definition rune_error :: nat where
  "rune_error = 65533"

definition cont_byte :: "nat \<Rightarrow> bool" where
  "cont_byte b \<longleftrightarrow> 128 \<le> b \<and> b \<le> 191"

definition second_range :: "nat \<Rightarrow> nat \<times> nat" where
  "second_range b =
     (if b = 224 then (160, 191) else if b = 237 then (128, 159)
      else if b = 240 then (144, 191) else if b = 244 then (128, 143) else (128, 191))"

fun decode_bytes :: "nat list \<Rightarrow> (nat \<times> nat) option" where
  "decode_bytes [] = None"
| "decode_bytes (b # bs) =
     (if b < 128 then Some (b, 1)
      else if b < 194 \<or> 244 < b then None
      else (case bs of
              [] \<Rightarrow> None
            | c # cs \<Rightarrow>
                if c < fst (second_range b) \<or> snd (second_range b) < c then None
                else if b < 224 then Some ((b - 192) * 64 + (c - 128), 2)
                else (case cs of
                        [] \<Rightarrow> None
                      | d # ds \<Rightarrow>
                          if \<not> cont_byte d then None
                          else if b < 240 then
                            Some ((b - 224) * 4096 + (c - 128) * 64 + (d - 128), 3)
                          else (case ds of
                                  [] \<Rightarrow> None
                                | e # es \<Rightarrow>
                                    if \<not> cont_byte e then None
                                    else Some ((b - 240) * 262144 + (c - 128) * 4096
                                               + (d - 128) * 64 + (e - 128), 4)))))"

definition byte_val :: "char \<Rightarrow> nat" where
  "byte_val c = of_char c"

definition decode_rune :: "string \<Rightarrow> nat \<times> nat" where
  "decode_rune s = (case decode_bytes (map byte_val s) of Some r \<Rightarrow> r | None \<Rightarrow> (rune_error, 1))"

lemma decode_bytes_width: "decode_bytes bs = Some (r, w) \<Longrightarrow> 0 < w \<and> w \<le> length bs"
  by (cases bs) (auto split: if_splits list.splits)

lemma decode_rune_width: "s \<noteq> [] \<Longrightarrow> 0 < snd (decode_rune s) \<and> snd (decode_rune s) \<le> length s"
proof (cases "decode_bytes (map byte_val s)")
  case (Some p)
  obtain r w where "p = (r, w)" by (cases p)
  with Some decode_bytes_width [of "map byte_val s" r w] show ?thesis by (simp add: decode_rune_def)
qed (simp add: decode_rune_def Suc_leI)

text \<open>The segments a \<open>range\<close> loop over a string visits: each code point with its bytes.\<close>

function rune_segments :: "string \<Rightarrow> (nat \<times> string) list" where
  "rune_segments s =
     (if s = [] then []
      else (fst (decode_rune s), take (snd (decode_rune s)) s)
             # rune_segments (drop (snd (decode_rune s)) s))"
  by pat_completeness auto
termination
  by (relation "measure length") (auto dest: decode_rune_width)

declare rune_segments.simps [simp del]

definition runes :: "string \<Rightarrow> nat list" where
  "runes s = map fst (rune_segments s)"

function utf8_ValidString :: "string \<Rightarrow> bool" where
  "utf8_ValidString s =
     (if s = [] then True
      else decode_bytes (map byte_val s) \<noteq> None
           \<and> utf8_ValidString (drop (snd (decode_rune s)) s))"
  by pat_completeness auto
termination
  by (relation "measure length") (auto dest: decode_rune_width)

declare utf8_ValidString.simps [simp del]

lemma ascii_ValidString: "list_all (\<lambda>c. byte_val c < 128) s \<Longrightarrow> utf8_ValidString s"
proof (induction s)
  case (Cons c s)
  then have "decode_bytes (map byte_val (c # s)) = Some (byte_val c, 1)" by simp
  with Cons show ?case by (subst utf8_ValidString.simps) (simp add: decode_rune_def)
qed (simp add: utf8_ValidString.simps)

definition unicode_IsSpace :: "nat \<Rightarrow> bool" where
  "unicode_IsSpace r \<longleftrightarrow>
     r \<in> {9, 10, 11, 12, 13, 32, 133, 160, 5760, 8232, 8233, 8239, 8287, 12288}
     \<or> (8192 \<le> r \<and> r \<le> 8202)"

definition unicode_IsControl :: "nat \<Rightarrow> bool" where
  "unicode_IsControl r \<longleftrightarrow> r < 32 \<or> (127 \<le> r \<and> r < 160)"

definition strings_TrimSpace :: "string \<Rightarrow> string" where
  "strings_TrimSpace s =
     concat (map snd (rev (dropWhile (unicode_IsSpace \<circ> fst)
                            (rev (dropWhile (unicode_IsSpace \<circ> fst) (rune_segments s))))))"

lemma rune_segments_Nil [simp]: "rune_segments [] = []"
  by (subst rune_segments.simps) simp

lemma rune_segments_Nil_iff [simp]: "rune_segments s = [] \<longleftrightarrow> s = []"
  by (subst rune_segments.simps) simp

lemma concat_rune_segments: "concat (map snd (rune_segments s)) = s"
proof (induction s rule: rune_segments.induct)
  case (1 s)
  show ?case
  proof (cases "s = []")
    case False
    with "1.IH" show ?thesis by (simp add: rune_segments.simps [of s])
  qed simp
qed

lemma strings_TrimSpace_Nil [simp]: "strings_TrimSpace [] = []"
  by (simp add: strings_TrimSpace_def)

text \<open>The rules that evaluate the functions above on a literal string.\<close>

lemmas go_string_eval = rune_segments.simps utf8_ValidString.simps decode_rune_def byte_val_def
  runes_def strings_TrimSpace_def unicode_IsSpace_def unicode_IsControl_def

section \<open>Go's \<open>strings.CutPrefix\<close> and \<open>strings.HasPrefix\<close>\<close>

fun strings_CutPrefix :: "string \<Rightarrow> string \<Rightarrow> string option" where
  "strings_CutPrefix s [] = Some s"
| "strings_CutPrefix [] (p # ps) = None"
| "strings_CutPrefix (c # s) (p # ps) = (if c = p then strings_CutPrefix s ps else None)"

definition strings_HasPrefix :: "string \<Rightarrow> string \<Rightarrow> bool" where
  "strings_HasPrefix s p \<longleftrightarrow> strings_CutPrefix s p \<noteq> None"

lemma strings_CutPrefix_append [simp]: "strings_CutPrefix (p @ s) p = Some s"
  by (induction p) auto

lemma strings_CutPrefix_Some: "strings_CutPrefix s p = Some r \<longleftrightarrow> s = p @ r"
  by (induction s p rule: strings_CutPrefix.induct) auto

lemma strings_HasPrefix_append [simp]: "strings_HasPrefix (p @ s) p"
  by (simp add: strings_HasPrefix_def)

lemma strings_HasPrefix_iff: "strings_HasPrefix s p \<longleftrightarrow> (\<exists>r. s = p @ r)"
  by (auto simp: strings_HasPrefix_def strings_CutPrefix_Some)

end
