(* ===== verification/Tenancy.thy ===== *)
theory Tenancy
  imports Urd_Prelude
begin

text \<open>
  The package \<open>src/tenancy\<close>: tenant identifiers, the tenant context an execution carries, its
  flat metadata form, the context value \<open>Attach\<close>, \<open>From\<close> and \<open>Require\<close> work on, and the
  tenant resolvers.  A \<open>TenantContext\<close> is a record with the fields of the struct, so that
  HOL equality is Go's \<open>==\<close> on it; its zero value is \<open>noTenantContext\<close>.
\<close>

section \<open>Errors\<close>

datatype tenancy_reason = ReasonUnset | ReasonMissing | ReasonInvalid | ReasonDenied

text \<open>Every call of the package passes a nil cause, so the struct's \<open>cause\<close> is left out.\<close>

record tenancy_error =
  te_reason :: tenancy_reason
  te_message :: string
  te_tenant :: string
  te_hasTenant :: bool

definition tenancy_newError :: "tenancy_reason \<Rightarrow> string \<Rightarrow> tenancy_error" where
  "tenancy_newError r msg =
     \<lparr>te_reason = r, te_message = msg, te_tenant = '''', te_hasTenant = False\<rparr>"

definition tenancy_newErrorWithTenant :: "tenancy_reason \<Rightarrow> string \<Rightarrow> string \<Rightarrow> tenancy_error" where
  "tenancy_newErrorWithTenant r tenant msg =
     \<lparr>te_reason = r, te_message = msg, te_tenant = tenant, te_hasTenant = True\<rparr>"

fun tenancy_Reason_String :: "tenancy_reason \<Rightarrow> string" where
  "tenancy_Reason_String ReasonMissing = ''missing''"
| "tenancy_Reason_String ReasonInvalid = ''invalid''"
| "tenancy_Reason_String ReasonDenied = ''denied''"
| "tenancy_Reason_String ReasonUnset = ''unknown''"

section \<open>Tenant identifiers\<close>

definition maxTenantIDBytes :: nat where
  "maxTenantIDBytes = 128"

definition NewTenantID :: "string \<Rightarrow> tenancy_error + string" where
  "NewTenantID s =
     (if s = [] then
        Inl (tenancy_newError ReasonInvalid ''tenancy: tenant id must not be empty'')
      else if \<not> utf8_ValidString s then
        Inl (tenancy_newError ReasonInvalid ''tenancy: tenant id must be valid UTF-8'')
      else if maxTenantIDBytes < length s then
        Inl (tenancy_newError ReasonInvalid ''tenancy: tenant id exceeds 128 bytes'')
      else if strings_TrimSpace s \<noteq> s then
        Inl (tenancy_newError ReasonInvalid
               ''tenancy: tenant id must not have leading or trailing whitespace'')
      else if list_ex unicode_IsControl (runes s) then
        Inl (tenancy_newError ReasonInvalid
               ''tenancy: tenant id must not contain control characters'')
      else Inr s)"

lemma NewTenantID_InrD: "NewTenantID s = Inr t \<Longrightarrow> t = s"
  by (auto simp: NewTenantID_def split: if_splits)

lemma NewTenantID_idem: "NewTenantID s = Inr t \<Longrightarrow> NewTenantID t = Inr t"
  by (frule NewTenantID_InrD) simp

lemma NewTenantID_Inl_reason: "NewTenantID s = Inl e \<Longrightarrow> te_reason e = ReasonInvalid"
  by (auto simp: NewTenantID_def tenancy_newError_def split: if_splits)

section \<open>Tenant contexts\<close>

datatype tenancy_scope = ScopeUnset | ScopeTenant | ScopeAdministrative

fun tenancy_Scope_String :: "tenancy_scope \<Rightarrow> string" where
  "tenancy_Scope_String ScopeTenant = ''tenant''"
| "tenancy_Scope_String ScopeAdministrative = ''administrative''"
| "tenancy_Scope_String ScopeUnset = ''unknown''"

record Administrative =
  adm_actor :: string
  adm_reason :: string
  adm_correlationID :: string
  adm_hasCorrelationID :: bool

definition zeroAdministrative :: Administrative where
  "zeroAdministrative =
     \<lparr>adm_actor = '''', adm_reason = '''', adm_correlationID = '''', adm_hasCorrelationID = False\<rparr>"

definition NewAdministrative :: "string \<Rightarrow> string \<Rightarrow> tenancy_error + Administrative" where
  "NewAdministrative actor reason =
     (if strings_TrimSpace actor = [] then
        Inl (tenancy_newError ReasonInvalid ''tenancy: administrative actor must not be empty'')
      else if strings_TrimSpace reason = [] then
        Inl (tenancy_newError ReasonInvalid ''tenancy: administrative reason must not be empty'')
      else Inr (zeroAdministrative\<lparr>adm_actor := actor, adm_reason := reason\<rparr>))"

definition adm_WithCorrelationID :: "Administrative \<Rightarrow> string \<Rightarrow> Administrative" where
  "adm_WithCorrelationID a cid = a\<lparr>adm_correlationID := cid, adm_hasCorrelationID := cid \<noteq> []\<rparr>"

definition adm_CorrelationID :: "Administrative \<Rightarrow> string option" where
  "adm_CorrelationID a = (if adm_hasCorrelationID a then Some (adm_correlationID a) else None)"

record TenantContext =
  tc_scope :: tenancy_scope
  tc_tenant :: string
  tc_admin :: Administrative

definition noTenantContext :: TenantContext where
  "noTenantContext =
     \<lparr>tc_scope = ScopeUnset, tc_tenant = '''', tc_admin = zeroAdministrative\<rparr>"

definition NewTenantContext :: "string \<Rightarrow> tenancy_error + TenantContext" where
  "NewTenantContext tid =
     (case NewTenantID tid of
        Inl e \<Rightarrow> Inl e
      | Inr validated \<Rightarrow>
          Inr \<lparr>tc_scope = ScopeTenant, tc_tenant = validated, tc_admin = zeroAdministrative\<rparr>)"

definition NewAdministrativeContext :: "Administrative \<Rightarrow> tenancy_error + TenantContext" where
  "NewAdministrativeContext a =
     (if adm_actor a = [] \<or> adm_reason a = [] then
        Inl (tenancy_newError ReasonInvalid
               ''tenancy: administrative context requires actor and reason'')
      else Inr \<lparr>tc_scope = ScopeAdministrative, tc_tenant = '''', tc_admin = a\<rparr>)"

definition tc_Tenant :: "TenantContext \<Rightarrow> string option" where
  "tc_Tenant c = (if tc_scope c \<noteq> ScopeTenant then None else Some (tc_tenant c))"

definition tc_Administrative :: "TenantContext \<Rightarrow> Administrative option" where
  "tc_Administrative c = (if tc_scope c \<noteq> ScopeAdministrative then None else Some (tc_admin c))"

definition tc_valid :: "TenantContext \<Rightarrow> bool" where
  "tc_valid c = (case tc_scope c of ScopeTenant \<Rightarrow> True | ScopeAdministrative \<Rightarrow> True | _ \<Rightarrow> False)"

text \<open>
  The contexts the constructors can build: what an \<open>Administrative\<close> built by
  \<open>NewAdministrative\<close>, and possibly \<open>WithCorrelationID\<close>, or a tenant identifier gives.
\<close>

definition wf_Administrative :: "Administrative \<Rightarrow> bool" where
  "wf_Administrative a \<longleftrightarrow>
     strings_TrimSpace (adm_actor a) \<noteq> [] \<and> strings_TrimSpace (adm_reason a) \<noteq> []
     \<and> adm_hasCorrelationID a = (adm_correlationID a \<noteq> [])"

definition wf_TenantContext :: "TenantContext \<Rightarrow> bool" where
  "wf_TenantContext c =
     (case tc_scope c of
        ScopeTenant \<Rightarrow> NewTenantID (tc_tenant c) = Inr (tc_tenant c) \<and> tc_admin c = zeroAdministrative
      | ScopeAdministrative \<Rightarrow> wf_Administrative (tc_admin c) \<and> tc_tenant c = []
      | ScopeUnset \<Rightarrow> False)"

lemma wf_Administrative_nonempty:
  "wf_Administrative a \<Longrightarrow> adm_actor a \<noteq> [] \<and> adm_reason a \<noteq> []"
  by (auto simp: wf_Administrative_def)

lemma NewAdministrative_wf: "NewAdministrative ac re = Inr a \<Longrightarrow> wf_Administrative a"
  by (auto simp: NewAdministrative_def wf_Administrative_def zeroAdministrative_def split: if_splits)

lemma adm_WithCorrelationID_wf: "wf_Administrative a \<Longrightarrow> wf_Administrative (adm_WithCorrelationID a i)"
  by (simp add: wf_Administrative_def adm_WithCorrelationID_def)

lemma NewTenantContext_wf: "NewTenantContext t = Inr c \<Longrightarrow> wf_TenantContext c"
  by (auto simp: NewTenantContext_def wf_TenantContext_def split: sum.splits intro: NewTenantID_idem)

lemma NewAdministrativeContext_wf:
  "wf_Administrative a \<Longrightarrow> NewAdministrativeContext a = Inr c \<Longrightarrow> wf_TenantContext c"
  by (auto simp: NewAdministrativeContext_def wf_TenantContext_def split: if_splits)

lemma wf_TenantContext_valid: "wf_TenantContext c \<Longrightarrow> tc_valid c"
  by (simp add: wf_TenantContext_def tc_valid_def split: tenancy_scope.splits)

lemma tc_valid_noTenantContext [simp]: "\<not> tc_valid noTenantContext"
  by (simp add: tc_valid_def noTenantContext_def)

lemma wf_TenantContext_neq [simp]: "wf_TenantContext c \<Longrightarrow> c \<noteq> noTenantContext"
  using wf_TenantContext_valid by fastforce

section \<open>The context value\<close>

record gocontext =
  tenant_value :: "TenantContext option"

definition tenancy_From :: "'a gocontext_scheme \<Rightarrow> TenantContext option" where
  "tenancy_From ctx = tenant_value ctx"

definition tenancy_Attach ::
    "'a gocontext_scheme \<Rightarrow> TenantContext \<Rightarrow> tenancy_error + 'a gocontext_scheme" where
  "tenancy_Attach ctx tc =
     (if \<not> tc_valid tc then
        Inl (tenancy_newError ReasonInvalid
               ''tenancy: cannot attach an invalid (zero-value) tenant context'')
      else case tenancy_From ctx of
             Some bound \<Rightarrow>
               if bound = tc then Inr ctx
               else Inl (tenancy_newError ReasonDenied
                      ''tenancy: cannot change the tenant identity already attached to this context'')
           | None \<Rightarrow> Inr (ctx\<lparr>tenant_value := Some tc\<rparr>))"

definition tenancy_Require :: "'a gocontext_scheme \<Rightarrow> tenancy_error + TenantContext" where
  "tenancy_Require ctx =
     (case tenancy_From ctx of
        None \<Rightarrow> Inl (tenancy_newError ReasonMissing
                       ''tenancy: no tenant identity attached to context'')
      | Some tc \<Rightarrow>
          if \<not> tc_valid tc then
            Inl (tenancy_newError ReasonInvalid
                   ''tenancy: tenant identity attached to context is invalid'')
          else Inr tc)"

definition tenancy_VerifyUnchanged :: "TenantContext \<Rightarrow> TenantContext \<Rightarrow> tenancy_error option" where
  "tenancy_VerifyUnchanged bound incoming =
     (if bound \<noteq> incoming then
        Some (tenancy_newError ReasonDenied ''tenancy: tenant identity changed across a boundary'')
      else None)"

lemma VerifyUnchanged_None [simp]: "tenancy_VerifyUnchanged a b = None \<longleftrightarrow> a = b"
  by (simp add: tenancy_VerifyUnchanged_def)

lemma VerifyUnchanged_refl [simp]: "tenancy_VerifyUnchanged a a = None"
  by simp

lemma Require_Inr_iff:
  "tenancy_Require ctx = Inr tc \<longleftrightarrow> tenant_value ctx = Some tc \<and> tc_valid tc"
  by (auto simp: tenancy_Require_def tenancy_From_def split: option.splits)

text \<open>Once attached, an identity is what \<open>Require\<close> returns, and no later \<open>Attach\<close> changes it.\<close>

lemma Attach_Require: "tenancy_Attach ctx tc = Inr ctx' \<Longrightarrow> tenancy_Require ctx' = Inr tc"
  by (auto simp: tenancy_Attach_def tenancy_From_def Require_Inr_iff split: if_splits option.splits)

lemma Attach_keeps_binding:
  "tenant_value ctx = Some tc \<Longrightarrow> tenancy_Attach ctx tc' = Inr ctx' \<Longrightarrow> ctx' = ctx \<and> tc' = tc"
  by (auto simp: tenancy_Attach_def tenancy_From_def split: if_splits)

section \<open>Resolvers\<close>

text \<open>
  A resolver is application code behind an interface: its \<open>Resolve\<close>, and \<open>FixedTenant\<close> when
  it implements \<open>FixedTenantResolver\<close> (\<open>None\<close> when it does not).
\<close>

record ('c, 'e) TenantResolver =
  tr_Resolve :: "'c \<Rightarrow> 'e + TenantContext"
  tr_FixedTenant :: "string option option"

definition singleTenantResolver :: "TenantContext \<Rightarrow> ('c, 'e) TenantResolver" where
  "singleTenantResolver tc = \<lparr>tr_Resolve = (\<lambda>_. Inr tc), tr_FixedTenant = Some (tc_Tenant tc)\<rparr>"

definition WithSingleTenant :: "string \<Rightarrow> tenancy_error + ('c, 'e) TenantResolver" where
  "WithSingleTenant tid =
     (case NewTenantContext tid of Inl e \<Rightarrow> Inl e | Inr tc \<Rightarrow> Inr (singleTenantResolver tc))"

text \<open>The resolver itself may be nil.\<close>

definition AsFixedTenantResolver :: "('c, 'e) TenantResolver option \<Rightarrow> string option option" where
  "AsFixedTenantResolver r = (case r of None \<Rightarrow> None | Some res \<Rightarrow> tr_FixedTenant res)"

definition FixedTenantOf :: "('c, 'e) TenantResolver option \<Rightarrow> string option" where
  "FixedTenantOf r =
     (case AsFixedTenantResolver r of
        None \<Rightarrow> None
      | Some fixed \<Rightarrow> (case fixed of None \<Rightarrow> None | Some t \<Rightarrow> Some t))"

lemma FixedTenantOf_single:
  "WithSingleTenant tid = Inr r \<Longrightarrow> FixedTenantOf (Some r) = Some tid"
  by (auto simp: WithSingleTenant_def NewTenantContext_def singleTenantResolver_def
      FixedTenantOf_def AsFixedTenantResolver_def tc_Tenant_def
      split: sum.splits dest: NewTenantID_InrD)

section \<open>Flat metadata\<close>

type_synonym metadata = "string \<rightharpoonup> string"

definition md_get :: "metadata \<Rightarrow> string \<Rightarrow> string" where
  "md_get md k = (case md k of Some v \<Rightarrow> v | None \<Rightarrow> '''')"

definition metaKeyScope :: string where "metaKeyScope = ''ego.tenant.scope''"
definition metaKeyID :: string where "metaKeyID = ''ego.tenant.id''"
definition metaKeyAdminActor :: string where "metaKeyAdminActor = ''ego.tenant.admin_actor''"
definition metaKeyAdminReason :: string where "metaKeyAdminReason = ''ego.tenant.admin_reason''"
definition metaKeyAdminCorrelation :: string where
  "metaKeyAdminCorrelation = ''ego.tenant.admin_correlation_id''"

lemmas meta_key_defs = metaKeyScope_def metaKeyID_def metaKeyAdminActor_def metaKeyAdminReason_def
  metaKeyAdminCorrelation_def

definition tenancy_MarshalMetadata :: "TenantContext \<Rightarrow> metadata" where
  "tenancy_MarshalMetadata tc =
     (case tc_scope tc of
        ScopeTenant \<Rightarrow> [metaKeyScope \<mapsto> ''tenant'', metaKeyID \<mapsto> tc_tenant tc]
      | ScopeAdministrative \<Rightarrow>
          (let md = [metaKeyScope \<mapsto> ''administrative'',
                     metaKeyAdminActor \<mapsto> adm_actor (tc_admin tc),
                     metaKeyAdminReason \<mapsto> adm_reason (tc_admin tc)]
           in case adm_CorrelationID (tc_admin tc) of
                Some c \<Rightarrow> md(metaKeyAdminCorrelation \<mapsto> c)
              | None \<Rightarrow> md)
      | ScopeUnset \<Rightarrow> Map.empty)"

definition tenancy_UnmarshalMetadata :: "metadata \<Rightarrow> tenancy_error + TenantContext" where
  "tenancy_UnmarshalMetadata md =
     (if md_get md metaKeyScope = ''tenant'' then
        (case NewTenantID (md_get md metaKeyID) of
           Inl e \<Rightarrow> Inl e
         | Inr tid \<Rightarrow> NewTenantContext tid)
      else if md_get md metaKeyScope = ''administrative'' then
        (case NewAdministrative (md_get md metaKeyAdminActor) (md_get md metaKeyAdminReason) of
           Inl e \<Rightarrow> Inl e
         | Inr admin \<Rightarrow>
             NewAdministrativeContext
               (case md metaKeyAdminCorrelation of
                  Some c \<Rightarrow> if c \<noteq> [] then adm_WithCorrelationID admin c else admin
                | None \<Rightarrow> admin))
      else Inl (tenancy_newError ReasonInvalid
                  ''tenancy: metadata missing or unrecognized tenant scope''))"

lemma UnmarshalMetadata_wf: "tenancy_UnmarshalMetadata md = Inr tc \<Longrightarrow> wf_TenantContext tc"
  by (auto simp: tenancy_UnmarshalMetadata_def
      split: if_splits sum.splits option.splits
      intro: NewTenantContext_wf NewAdministrativeContext_wf NewAdministrative_wf
        adm_WithCorrelationID_wf)

lemma Unmarshal_Marshal_tenant:
  "wf_TenantContext c \<Longrightarrow> tc_scope c = ScopeTenant \<Longrightarrow>
     tenancy_UnmarshalMetadata (tenancy_MarshalMetadata c) = Inr c"
  by (simp add: tenancy_UnmarshalMetadata_def tenancy_MarshalMetadata_def md_get_def meta_key_defs
      wf_TenantContext_def NewTenantContext_def)

lemma Unmarshal_Marshal_admin:
  assumes "wf_TenantContext c" and "tc_scope c = ScopeAdministrative"
  shows "tenancy_UnmarshalMetadata (tenancy_MarshalMetadata c) = Inr c"
proof -
  from assms have wf: "wf_Administrative (tc_admin c)" "tc_tenant c = []"
    by (simp_all add: wf_TenantContext_def)
  note ne = wf_Administrative_nonempty [OF wf(1)]
  show ?thesis
    using assms(2) wf ne
    by (cases "adm_hasCorrelationID (tc_admin c)")
      (simp_all add: tenancy_UnmarshalMetadata_def tenancy_MarshalMetadata_def md_get_def
        meta_key_defs NewAdministrative_def NewAdministrativeContext_def adm_CorrelationID_def
        wf_Administrative_def zeroAdministrative_def adm_WithCorrelationID_def)
qed

lemma Unmarshal_Marshal: "wf_TenantContext c \<Longrightarrow> tenancy_UnmarshalMetadata (tenancy_MarshalMetadata c) = Inr c"
  using Unmarshal_Marshal_tenant Unmarshal_Marshal_admin
  by (cases "tc_scope c") (auto simp: wf_TenantContext_def)

text \<open>
  C18. Carrying a tenant identity as flat metadata loses nothing: every context the constructors
  can build is reconstructed exactly from its own metadata, and whatever metadata is accepted
  yields a context the constructors can build (never the zero value).
\<close>

theorem tenant_metadata_roundtrip:
  "(\<forall>md tc. tenancy_UnmarshalMetadata md = Inr tc \<longrightarrow> wf_TenantContext tc \<and> tc \<noteq> noTenantContext)
   \<and> (\<forall>tc. wf_TenantContext tc \<longrightarrow> tenancy_UnmarshalMetadata (tenancy_MarshalMetadata tc) = Inr tc)"
  using UnmarshalMetadata_wf wf_TenantContext_neq Unmarshal_Marshal by blast

lemma NewTenantID_acme: "NewTenantID ''acme'' = Inr ''acme''"
  by (simp add: NewTenantID_def maxTenantIDBytes_def go_string_eval)

theorem tenant_metadata_roundtrip_witness:
  "\<exists>tc. NewTenantContext ''acme'' = Inr tc
     \<and> tenancy_UnmarshalMetadata (tenancy_MarshalMetadata tc) = Inr tc"
proof -
  obtain tc where tc: "NewTenantContext ''acme'' = Inr tc"
    by (simp add: NewTenantContext_def NewTenantID_acme)
  then have "wf_TenantContext tc" by (rule NewTenantContext_wf)
  then have "tenancy_UnmarshalMetadata (tenancy_MarshalMetadata tc) = Inr tc"
    using tenant_metadata_roundtrip by blast
  with tc show ?thesis by blast
qed

text \<open>Metadata that JSON carries unchanged: finitely many entries, all of them valid UTF-8.\<close>

definition text_metadata :: "metadata \<Rightarrow> bool" where
  "text_metadata md \<longleftrightarrow>
     finite (dom md) \<and> (\<forall>k v. md k = Some v \<longrightarrow> utf8_ValidString k \<and> utf8_ValidString v)"

lemma text_metadata_empty [simp]: "text_metadata Map.empty"
  by (simp add: text_metadata_def)

lemma tenant_metadata_text:
  assumes "wf_TenantContext tc" and "tc_scope tc = ScopeTenant"
  shows "text_metadata (tenancy_MarshalMetadata tc)"
proof -
  from assms have "NewTenantID (tc_tenant tc) = Inr (tc_tenant tc)" by (simp add: wf_TenantContext_def)
  then have "utf8_ValidString (tc_tenant tc)" by (auto simp: NewTenantID_def split: if_splits)
  moreover have "utf8_ValidString metaKeyScope" "utf8_ValidString metaKeyID" "utf8_ValidString ''tenant''"
    by (rule ascii_ValidString, simp add: meta_key_defs byte_val_def)+
  ultimately show ?thesis using assms(2) by (auto simp: text_metadata_def tenancy_MarshalMetadata_def)
qed

end
