(* ===== verification/Go_Strconv.thy ===== *)
theory Go_Strconv
  imports Urd_Prelude
begin

text \<open>
  What the source uses of Go's \<open>strconv\<close>: \<open>FormatUint\<close> and \<open>ParseUint\<close> in base 10 and 64
  bits, \<open>Quote\<close>, \<open>QuotedPrefix\<close> and \<open>Unquote\<close> of double-quoted strings.  The Unicode table
  behind \<open>strconv.IsPrint\<close> above \<open>U+00FF\<close> is a parameter \<open>ip\<close>: the lemmas hold for any table.
\<close>

section \<open>Decimal numbers\<close>

definition digit_char :: "nat \<Rightarrow> char" where
  "digit_char d = char_of (48 + d)"

definition digit_val :: "char \<Rightarrow> nat option" where
  "digit_val c =
     (let v = byte_val c in if 48 \<le> v \<and> v \<le> 57 then Some (v - 48) else None)"

fun decimal :: "nat \<Rightarrow> string" where
  "decimal n = (if n < 10 then [digit_char n] else decimal (n div 10) @ [digit_char (n mod 10)])"

declare decimal.simps [simp del]

definition strconv_FormatUint :: "u64 \<Rightarrow> string" where
  "strconv_FormatUint x = decimal (unat x)"

fun digits_val :: "nat \<Rightarrow> string \<Rightarrow> nat option" where
  "digits_val acc [] = Some acc"
| "digits_val acc (c # cs) =
     (case digit_val c of None \<Rightarrow> None | Some d \<Rightarrow> digits_val (10 * acc + d) cs)"

definition strconv_ParseUint :: "string \<Rightarrow> u64 option" where
  "strconv_ParseUint s =
     (if s = [] then None
      else case digits_val 0 s of
             None \<Rightarrow> None
           | Some n \<Rightarrow> if n < 2 ^ 64 then Some (of_nat n) else None)"

lemma digit_val_digit_char [simp]: "d < 10 \<Longrightarrow> digit_val (digit_char d) = Some d"
  by (simp add: digit_val_def digit_char_def byte_val_def Let_def)

lemma digits_val_append:
  "digits_val acc (s @ t) = (case digits_val acc s of None \<Rightarrow> None | Some n \<Rightarrow> digits_val n t)"
  by (induction acc s rule: digits_val.induct) (auto split: option.splits)

lemma decimal_nonempty [simp]: "decimal n \<noteq> []"
  by (subst decimal.simps) simp

lemma digits_val_decimal: "digits_val 0 (decimal n) = Some n"
proof (induction n rule: decimal.induct)
  case (1 n)
  show ?case
  proof (cases "n < 10")
    case True
    then show ?thesis by (simp add: decimal.simps [of n])
  next
    case False
    with "1.IH" show ?thesis by (simp add: decimal.simps [of n] digits_val_append)
  qed
qed

text \<open>Why \<open>ParseUint\<close> fails: the first offending byte or overflow decides.\<close>

fun parse_uint_reason :: "nat \<Rightarrow> string \<Rightarrow> string" where
  "parse_uint_reason n [] = ''invalid syntax''"
| "parse_uint_reason n (c # cs) =
     (case digit_val c of
        None \<Rightarrow> ''invalid syntax''
      | Some d \<Rightarrow> if 2 ^ 64 \<le> 10 * n + d then ''value out of range''
                  else parse_uint_reason (10 * n + d) cs)"

lemma ParseUint_FormatUint [simp]: "strconv_ParseUint (strconv_FormatUint x) = Some x"
proof -
  have "unat x < 2 ^ 64" using unsigned_less [of x] by simp
  then show ?thesis
    by (simp add: strconv_ParseUint_def strconv_FormatUint_def digits_val_decimal)
qed

definition is_digit :: "char \<Rightarrow> bool" where
  "is_digit c \<longleftrightarrow> digit_val c \<noteq> None"

lemma decimal_digits: "list_all is_digit (decimal n)"
proof (induction n rule: decimal.induct)
  case (1 n)
  then show ?case by (cases "n < 10") (simp_all add: decimal.simps [of n] is_digit_def)
qed

section \<open>Quoting\<close>

definition strconv_IsPrint :: "(nat \<Rightarrow> bool) \<Rightarrow> nat \<Rightarrow> bool" where
  "strconv_IsPrint ip r =
     (if r \<le> 255 then (32 \<le> r \<and> r < 127) \<or> (161 \<le> r \<and> r \<noteq> 173) else ip r)"

definition hex_char :: "nat \<Rightarrow> char" where
  "hex_char d = (if d < 10 then char_of (48 + d) else char_of (87 + d))"

fun hex_digits :: "nat \<Rightarrow> nat \<Rightarrow> string" where
  "hex_digits 0 v = []"
| "hex_digits (Suc n) v = hex_digits n (v div 16) @ [hex_char (v mod 16)]"

definition unhex :: "char \<Rightarrow> nat option" where
  "unhex c =
     (let v = byte_val c in
      if 48 \<le> v \<and> v \<le> 57 then Some (v - 48)
      else if 97 \<le> v \<and> v \<le> 102 then Some (v - 87)
      else if 65 \<le> v \<and> v \<le> 70 then Some (v - 55)
      else None)"

definition utf8_ValidRune :: "nat \<Rightarrow> bool" where
  "utf8_ValidRune r \<longleftrightarrow> r < 55296 \<or> (57343 < r \<and> r \<le> 1114111)"

definition utf8_AppendRune :: "nat \<Rightarrow> string" where
  "utf8_AppendRune r =
     (if r < 128 then [char_of r]
      else if r < 2048 then [char_of (192 + r div 64), char_of (128 + r mod 64)]
      else if \<not> utf8_ValidRune r then [char_of (239::nat), char_of (191::nat), char_of (189::nat)]
      else if r < 65536 then
        [char_of (224 + r div 4096), char_of (128 + r div 64 mod 64), char_of (128 + r mod 64)]
      else
        [char_of (240 + r div 262144), char_of (128 + r div 4096 mod 64),
         char_of (128 + r div 64 mod 64), char_of (128 + r mod 64)])"

text \<open>One segment of the quoted string: \<open>strconv.appendEscapedRune\<close>, and the \<open>\x\<close> escape
  of a byte that is not UTF-8.\<close>

definition bslash :: char where
  "bslash = CHR 0x5C"

definition dquote :: char where
  "dquote = CHR 0x22"

definition quote_segment :: "(nat \<Rightarrow> bool) \<Rightarrow> nat \<times> string \<Rightarrow> string" where
  "quote_segment ip = (\<lambda>(r, seg).
     if r = rune_error \<and> length seg = 1 then bslash # CHR ''x'' # hex_digits 2 (byte_val (hd seg))
     else if r = 34 \<or> r = 92 then [bslash, char_of r]
     else if strconv_IsPrint ip r then seg
     else if r = 7 then [bslash, CHR ''a''] else if r = 8 then [bslash, CHR ''b'']
     else if r = 12 then [bslash, CHR ''f''] else if r = 10 then [bslash, CHR ''n'']
     else if r = 13 then [bslash, CHR ''r''] else if r = 9 then [bslash, CHR ''t'']
     else if r = 11 then [bslash, CHR ''v'']
     else if r < 32 \<or> r = 127 then bslash # CHR ''x'' # hex_digits 2 r
     else if r < 65536 then bslash # CHR ''u'' # hex_digits 4 r
     else bslash # CHR ''U'' # hex_digits 8 r)"

definition strconv_Quote :: "(nat \<Rightarrow> bool) \<Rightarrow> string \<Rightarrow> string" where
  "strconv_Quote ip s = dquote # concat (map (quote_segment ip) (rune_segments s)) @ [dquote]"

section \<open>Unquoting\<close>

fun unhex_all :: "nat \<Rightarrow> string \<Rightarrow> nat option" where
  "unhex_all acc [] = Some acc"
| "unhex_all acc (c # cs) =
     (case unhex c of None \<Rightarrow> None | Some d \<Rightarrow> unhex_all (16 * acc + d) cs)"

fun octal_val :: "char \<Rightarrow> nat option" where
  "octal_val c = (let v = byte_val c in if 48 \<le> v \<and> v \<le> 55 then Some (v - 48) else None)"

text \<open>
  \<open>strconv.UnquoteChar(s, '"')\<close>: the rune, whether it is to be written as a multi-byte
  rune, and the rest; \<open>None\<close> for \<open>ErrSyntax\<close>.
\<close>

definition unquote_hex :: "nat \<Rightarrow> bool \<Rightarrow> string \<Rightarrow> (nat \<times> bool \<times> string) option" where
  "unquote_hex n multi s =
     (if length s < n then None
      else case unhex_all 0 (take n s) of
             None \<Rightarrow> None
           | Some v \<Rightarrow>
               if multi \<and> \<not> utf8_ValidRune v then None else Some (v, multi, drop n s))"

definition unquote_octal :: "nat \<Rightarrow> string \<Rightarrow> (nat \<times> bool \<times> string) option" where
  "unquote_octal v s =
     (case s of
        a # b # rest \<Rightarrow>
          (case (octal_val a, octal_val b) of
             (Some x, Some y) \<Rightarrow>
               let w = (v * 8 + x) * 8 + y in if 255 < w then None else Some (w, False, rest)
           | _ \<Rightarrow> None)
      | _ \<Rightarrow> None)"

definition unquote_escape :: "char \<Rightarrow> string \<Rightarrow> (nat \<times> bool \<times> string) option" where
  "unquote_escape c s =
     (if c = CHR ''a'' then Some (7, False, s) else if c = CHR ''b'' then Some (8, False, s)
      else if c = CHR ''f'' then Some (12, False, s) else if c = CHR ''n'' then Some (10, False, s)
      else if c = CHR ''r'' then Some (13, False, s) else if c = CHR ''t'' then Some (9, False, s)
      else if c = CHR ''v'' then Some (11, False, s)
      else if c = CHR ''x'' then unquote_hex 2 False s
      else if c = CHR ''u'' then unquote_hex 4 True s
      else if c = CHR ''U'' then unquote_hex 8 True s
      else if c = bslash then Some (92, False, s)
      else if c = dquote then Some (34, False, s)
      else case octal_val c of Some v \<Rightarrow> unquote_octal v s | None \<Rightarrow> None)"

definition unquote_char :: "string \<Rightarrow> (nat \<times> bool \<times> string) option" where
  "unquote_char s =
     (case s of
        [] \<Rightarrow> None
      | c # rest \<Rightarrow>
          if c = dquote then None
          else if 128 \<le> byte_val c then
            Some (fst (decode_rune s), True, drop (snd (decode_rune s)) s)
          else if c \<noteq> bslash then Some (byte_val c, False, rest)
          else (case rest of [] \<Rightarrow> None | e # es \<Rightarrow> unquote_escape e es))"

definition rune_bytes :: "nat \<Rightarrow> bool \<Rightarrow> string" where
  "rune_bytes r multi = (if r < 128 \<or> \<not> multi then [char_of (r mod 256)] else utf8_AppendRune r)"

lemma unquote_hex_shorter: "unquote_hex n m s = Some (r, mb, rest) \<Longrightarrow> length rest \<le> length s"
  by (auto simp: unquote_hex_def split: if_splits option.splits)

lemma unquote_octal_shorter: "unquote_octal v s = Some (r, mb, rest) \<Longrightarrow> length rest \<le> length s"
  by (auto simp: unquote_octal_def Let_def split: list.splits option.splits if_splits)

lemma unquote_escape_shorter: "unquote_escape c s = Some (r, mb, rest) \<Longrightarrow> length rest \<le> length s"
  unfolding unquote_escape_def
  by (auto split: if_splits option.splits dest: unquote_hex_shorter unquote_octal_shorter
      simp del: octal_val.simps)

lemma unquote_char_shorter: "unquote_char s = Some (r, m, rest) \<Longrightarrow> length rest < length s"
proof -
  assume h: "unquote_char s = Some (r, m, rest)"
  then obtain c cs where s: "s = c # cs" by (cases s) (auto simp: unquote_char_def)
  show ?thesis
  proof (cases "128 \<le> byte_val c \<and> c \<noteq> dquote")
    case True
    with h s have "rest = drop (snd (decode_rune s)) s" by (auto simp: unquote_char_def)
    with decode_rune_width [of s] s show ?thesis by auto
  next
    case False
    with h s show ?thesis
      by (auto simp: unquote_char_def split: if_splits list.splits dest: unquote_escape_shorter)
  qed
qed

text \<open>
  The loop of \<open>strconv.unquote\<close> after the opening quote: the unescaped bytes and what follows
  the closing quote.  The fast path of the source (no backslash and no newline, valid UTF-8)
  returns the same pair and is not separate here.
\<close>

function unquote_loop :: "string \<Rightarrow> (string \<times> string) option" where
  "unquote_loop s =
     (case s of
        [] \<Rightarrow> None
      | c # cs \<Rightarrow>
          if c = dquote then Some ([], cs)
          else if byte_val c = 10 then None
          else case unquote_char s of
                 None \<Rightarrow> None
               | Some (r, m, rest) \<Rightarrow>
                   (case unquote_loop rest of
                      None \<Rightarrow> None
                    | Some (out, rem) \<Rightarrow> Some (rune_bytes r m @ out, rem)))"
  by pat_completeness auto
termination
  by (relation "measure length") (auto dest: unquote_char_shorter)

declare unquote_loop.simps [simp del]

text \<open>\<open>strconv.QuotedPrefix\<close> and \<open>strconv.Unquote\<close> of a string that starts with a double quote.\<close>

definition strconv_QuotedPrefix :: "string \<Rightarrow> string option" where
  "strconv_QuotedPrefix s =
     (case s of
        [] \<Rightarrow> None
      | c # cs \<Rightarrow>
          if c = dquote then
            map_option (\<lambda>(out, rem). take (length s - length rem) s) (unquote_loop cs)
          else None)"

definition strconv_Unquote :: "string \<Rightarrow> string option" where
  "strconv_Unquote s =
     (case s of
        [] \<Rightarrow> None
      | c # cs \<Rightarrow>
          if c = dquote then
            (case unquote_loop cs of
               Some (out, rem) \<Rightarrow> if rem = [] then Some out else None
             | None \<Rightarrow> None)
          else None)"

section \<open>Round trips\<close>

lemma byte_val_less: "byte_val c < 256"
  by (simp add: byte_val_def)

lemma char_of_byte_val [simp]: "char_of (byte_val c) = c"
  by (simp add: byte_val_def)

lemma byte_val_char_of: "n < 256 \<Longrightarrow> byte_val (char_of n) = n"
  by (simp add: byte_val_def)

lemma byte_val_eq_iff: "byte_val c = byte_val d \<longleftrightarrow> c = d"
  by (simp add: byte_val_def)

lemma byte_val_dquote [simp]: "byte_val dquote = 34"
  by (simp add: dquote_def byte_val_def)

lemma byte_val_bslash [simp]: "byte_val bslash = 92"
  by (simp add: bslash_def byte_val_def)

lemma char_of_quotes [simp]: "char_of (34::nat) = dquote" "char_of (92::nat) = bslash"
  by (simp_all add: byte_val_eq_iff [symmetric] byte_val_char_of)

lemma bslash_neq_dquote [simp]: "bslash \<noteq> dquote" "dquote \<noteq> bslash"
  by (auto simp: byte_val_eq_iff [symmetric])

lemma map_char_of_byte_val [simp]: "map (char_of \<circ> byte_val) s = s" "map char_of (map byte_val s) = s"
  by (induction s) simp_all

lemma unhex_hex_char: "d < 16 \<Longrightarrow> unhex (hex_char d) = Some d"
  by (auto simp: unhex_def hex_char_def Let_def byte_val_char_of)

lemma unhex_all_append:
  "unhex_all acc (s @ t) = (case unhex_all acc s of None \<Rightarrow> None | Some n \<Rightarrow> unhex_all n t)"
  by (induction acc s rule: unhex_all.induct) (auto split: option.splits)

lemma length_hex_digits [simp]: "length (hex_digits n v) = n"
  by (induction n arbitrary: v) simp_all

lemma unhex_all_hex_digits: "v < 16 ^ n \<Longrightarrow> unhex_all 0 (hex_digits n v) = Some v"
proof (induction n arbitrary: v)
  case 0
  then show ?case by simp
next
  case (Suc n)
  from Suc.prems have "v div 16 < 16 ^ n" by (simp add: less_mult_imp_div_less mult.commute)
  with Suc.IH show ?case by (simp add: unhex_all_append unhex_hex_char)
qed

lemma unquote_hex_hex_digits:
  "v < 16 ^ n \<Longrightarrow> \<not> multi \<or> utf8_ValidRune v \<Longrightarrow>
     unquote_hex n multi (hex_digits n v @ t) = Some (v, multi, t)"
  by (simp add: unquote_hex_def unhex_all_hex_digits)

text \<open>The four shapes of an encoded rune, without subtraction.\<close>

lemma decode_bytes_two:
  assumes "decode_bytes (b # c # t) = Some (r, w)" and "194 \<le> b" and "b < 224"
  obtains x y where "b = 192 + x" "c = 128 + y" "2 \<le> x" "x < 32" "y < 64" "r = x * 64 + y" "w = 2"
proof (rule that [of "b - 192" "c - 128"])
  have "second_range b = (128, 191)" using assms(2,3) by (simp add: second_range_def)
  then show "b = 192 + (b - 192)" "c = 128 + (c - 128)" "2 \<le> b - 192" "b - 192 < 32"
    "c - 128 < 64" "r = (b - 192) * 64 + (c - 128)" "w = 2"
    using assms by (auto split: if_splits)
qed

lemma decode_bytes_three:
  assumes "decode_bytes (b # c # d # t) = Some (r, w)" and "224 \<le> b" and "b < 240"
  obtains x y z where "b = 224 + x" "c = 128 + y" "d = 128 + z" "x < 16" "y < 64" "z < 64"
    "x = 0 \<Longrightarrow> 32 \<le> y" "x = 13 \<Longrightarrow> y < 32" "r = x * 4096 + y * 64 + z" "w = 3"
proof (rule that [of "b - 224" "c - 128" "d - 128"])
  have cd: "fst (second_range b) \<le> c" "c \<le> snd (second_range b)" "cont_byte d"
    and r: "r = (b - 224) * 4096 + (c - 128) * 64 + (d - 128)" "w = 3"
    using assms by (auto split: if_splits)
  show "b = 224 + (b - 224)" "b - 224 < 16" using assms by auto
  show "c = 128 + (c - 128)" "c - 128 < 64" "b - 224 = 0 \<Longrightarrow> 32 \<le> c - 128"
    "b - 224 = 13 \<Longrightarrow> c - 128 < 32"
    using cd(1,2) assms(2,3) by (auto simp: second_range_def split: if_splits)
  show "d = 128 + (d - 128)" "d - 128 < 64" using cd(3) by (auto simp: cont_byte_def)
  show "r = (b - 224) * 4096 + (c - 128) * 64 + (d - 128)" "w = 3" by (fact r)+
qed

lemma decode_bytes_four:
  assumes "decode_bytes (b # c # d # e # t) = Some (r, w)" and "240 \<le> b" and "b \<le> 244"
  obtains x y z u where "b = 240 + x" "c = 128 + y" "d = 128 + z" "e = 128 + u"
    "x \<le> 4" "y < 64" "z < 64" "u < 64" "x = 0 \<Longrightarrow> 16 \<le> y" "x = 4 \<Longrightarrow> y < 16"
    "r = x * 262144 + y * 4096 + z * 64 + u" "w = 4"
proof (rule that [of "b - 240" "c - 128" "d - 128" "e - 128"])
  have cd: "fst (second_range b) \<le> c" "c \<le> snd (second_range b)" "cont_byte d" "cont_byte e"
    and r: "r = (b - 240) * 262144 + (c - 128) * 4096 + (d - 128) * 64 + (e - 128)" "w = 4"
    using assms by (auto split: if_splits)
  show "b = 240 + (b - 240)" "b - 240 \<le> 4" using assms by auto
  show "c = 128 + (c - 128)" "c - 128 < 64" "b - 240 = 0 \<Longrightarrow> 16 \<le> c - 128"
    "b - 240 = 4 \<Longrightarrow> c - 128 < 16"
    using cd(1,2) assms(2,3) by (auto simp: second_range_def split: if_splits)
  show "d = 128 + (d - 128)" "d - 128 < 64" using cd(3) by (auto simp: cont_byte_def)
  show "e = 128 + (e - 128)" "e - 128 < 64" using cd(4) by (auto simp: cont_byte_def)
  show "r = (b - 240) * 262144 + (c - 128) * 4096 + (d - 128) * 64 + (e - 128)" "w = 4"
    by (fact r)+
qed

lemma decode_bytes_cases [consumes 1, case_names one two three four]:
  assumes dec: "decode_bytes bs = Some (r, w)"
  obtains b t where "bs = b # t" "b < 128" "r = b" "w = 1"
  | x y t where "bs = (192 + x) # (128 + y) # t" "2 \<le> x" "x < 32" "y < 64" "r = x * 64 + y" "w = 2"
  | x y z t where "bs = (224 + x) # (128 + y) # (128 + z) # t" "x < 16" "y < 64" "z < 64"
      "x = 0 \<Longrightarrow> 32 \<le> y" "x = 13 \<Longrightarrow> y < 32" "r = x * 4096 + y * 64 + z" "w = 3"
  | x y z u t where "bs = (240 + x) # (128 + y) # (128 + z) # (128 + u) # t"
      "x \<le> 4" "y < 64" "z < 64" "u < 64" "x = 0 \<Longrightarrow> 16 \<le> y" "x = 4 \<Longrightarrow> y < 16"
      "r = x * 262144 + y * 4096 + z * 64 + u" "w = 4"
proof -
  obtain b t where bs: "bs = b # t" using dec by (cases bs) auto
  consider (a) "b < 128" | (b) "194 \<le> b" "b < 224" | (c) "224 \<le> b" "b < 240" | (d) "240 \<le> b" "b \<le> 244"
    using dec bs by (fastforce split: if_splits)
  then show thesis
  proof cases
    case a
    with dec bs that(1) show thesis by simp
  next
    case b
    then obtain c t' where t: "t = c # t'" using dec bs by (cases t) (auto split: if_splits)
    from decode_bytes_two [OF dec [unfolded bs t] b] show thesis
      using that(2) bs t by metis
  next
    case c
    then obtain c' d t' where t: "t = c' # d # t'"
      using dec bs by (auto split: if_splits list.splits)
    from decode_bytes_three [OF dec [unfolded bs t] c] show thesis
      using that(3) bs t by metis
  next
    case d
    then obtain c' d e t' where t: "t = c' # d # e # t'"
      using dec bs by (auto split: if_splits list.splits)
    from decode_bytes_four [OF dec [unfolded bs t] d] show thesis
      using that(4) bs t by metis
  qed
qed

lemma decode_bytes_prefix:
  "decode_bytes bs = Some (r, w) \<Longrightarrow> decode_bytes (take w bs @ t) = Some (r, w)"
proof (induction rule: decode_bytes_cases)
  case (three x y z t')
  then show ?case
    by (cases "x = 0"; cases "x = 13") (simp_all add: second_range_def cont_byte_def)
next
  case (four x y z u t')
  then show ?case
    by (cases "x = 0"; cases "x = 4") (simp_all add: second_range_def cont_byte_def)
qed (simp_all add: second_range_def)

lemma split64: "z < 64 \<Longrightarrow> (n * 64 + z) div 64 = n" "z < 64 \<Longrightarrow> (n * 64 + z) mod 64 = (z::nat)"
  by simp_all

lemma div4096: "(n::nat) div 4096 = n div 64 div 64"
  by (simp add: div_mult2_eq [symmetric])

lemma div262144: "(n::nat) div 262144 = n div 64 div 64 div 64"
  by (simp add: div_mult2_eq [symmetric])

lemma decode_bytes_encode:
  "decode_bytes bs = Some (r, w) \<Longrightarrow> utf8_AppendRune r = map char_of (take w bs)"
proof (induction rule: decode_bytes_cases)
  case (one b t)
  then show ?case by (simp add: utf8_AppendRune_def)
next
  case (two x y t)
  then show ?case by (simp add: utf8_AppendRune_def)
next
  case (three x y z t)
  have big: "2048 \<le> r" and small: "r < 65536"
    using three by (cases "x = 0"; simp)+
  have valid: "utf8_ValidRune r"
    using three unfolding utf8_ValidRune_def by (cases "x < 13"; cases "x = 13"; simp)
  have "r = (x * 64 + y) * 64 + z" using three by simp
  then have "r div 64 = x * 64 + y" "r mod 64 = z"
    using three(4) by (simp_all only: split64)
  moreover from this(1) have "r div 4096 = x" "r div 64 mod 64 = y"
    using three(3) by (simp_all only: split64 div4096)
  ultimately show ?case using three(1,8) big small valid by (simp add: utf8_AppendRune_def)
next
  case (four x y z u t)
  have big: "65536 \<le> r" and small: "r \<le> 1114111"
    using four by (cases "x = 0"; cases "x = 4"; simp)+
  have valid: "utf8_ValidRune r" using big small by (simp add: utf8_ValidRune_def)
  have "r = ((x * 64 + y) * 64 + z) * 64 + u" using four by simp
  then have 1: "r div 64 = (x * 64 + y) * 64 + z" "r mod 64 = u"
    using four(5) by (simp_all only: split64)
  then have 2: "r div 4096 = x * 64 + y" "r div 64 mod 64 = z"
    using four(4) by (simp_all only: split64 div4096)
  then have "r div 262144 = x" "r div 4096 mod 64 = y"
    using four(3) by (simp_all only: split64 div262144 div4096)
  with 1 2 four(1,9) big valid show ?case by (simp add: utf8_AppendRune_def)
qed

lemma decode_bytes_valid: "decode_bytes bs = Some (r, w) \<Longrightarrow> utf8_ValidRune r"
proof (induction rule: decode_bytes_cases)
  case (three x y z t)
  then show ?case unfolding utf8_ValidRune_def by (cases "x < 13"; cases "x = 13"; simp)
next
  case (four x y z u t)
  then show ?case unfolding utf8_ValidRune_def by (cases "x = 0"; cases "x = 4"; simp)
qed (auto simp: utf8_ValidRune_def)

lemma decode_bytes_low: "decode_bytes bs = Some (r, w) \<Longrightarrow> r < 128 \<Longrightarrow> w = 1 \<and> (\<exists>t. bs = r # t)"
proof (induction rule: decode_bytes_cases)
  case (three x y z t)
  then show ?case by (cases "x = 0") simp_all
next
  case (four x y z u t)
  then show ?case by (cases "x = 0") simp_all
qed auto

lemma decode_bytes_high: "decode_bytes bs = Some (r, w) \<Longrightarrow> 128 \<le> r \<Longrightarrow> 128 \<le> hd bs \<and> 1 < w"
  by (induction rule: decode_bytes_cases) auto

lemma map_byte_val_ConsD: "map byte_val s = r # t \<Longrightarrow> \<exists>s'. s = char_of r # s'"
  by (cases s) auto

text \<open>One quoted segment is read back by one step of the unquoting loop.\<close>

definition segment_read :: "string \<Rightarrow> string \<Rightarrow> bool" where
  "segment_read q seg \<longleftrightarrow>
     q \<noteq> [] \<and> hd q \<noteq> dquote \<and> byte_val (hd q) \<noteq> 10
     \<and> (\<exists>r m. (\<forall>t. unquote_char (q @ t) = Some (r, m, t)) \<and> rune_bytes r m = seg)"

lemma segment_readI:
  assumes "q \<noteq> []" "hd q \<noteq> dquote" "byte_val (hd q) \<noteq> 10"
    "\<And>t. unquote_char (q @ t) = Some (r, m, t)" "rune_bytes r m = seg"
  shows "segment_read q seg"
  using assms unfolding segment_read_def by blast

lemma segment_read_escape:
  assumes "\<And>t. unquote_escape c (q @ t) = Some (r, m, t)" and "rune_bytes r m = seg"
  shows "segment_read (bslash # c # q) seg"
  by (rule segment_readI [of _ r m]) (simp_all add: assms unquote_char_def)

lemma unquote_escape_hex:
  "unquote_escape (CHR ''x'') s = unquote_hex 2 False s"
  "unquote_escape (CHR ''u'') s = unquote_hex 4 True s"
  "unquote_escape (CHR ''U'') s = unquote_hex 8 True s"
  by (simp_all add: unquote_escape_def)

lemma unquote_escape_self:
  "unquote_escape bslash s = Some (92, False, s)" "unquote_escape dquote s = Some (34, False, s)"
  by (simp_all add: unquote_escape_def dquote_def bslash_def)

lemma segment_read_raw_low:
  assumes "32 \<le> (r::nat)" "r < 127" "r \<noteq> 34" "r \<noteq> 92"
  shows "segment_read [char_of r] [char_of r]"
proof (rule segment_readI [of _ r False])
  have b: "byte_val (char_of r) = r" using assms by (simp add: byte_val_char_of)
  show "hd [char_of r] \<noteq> dquote" "byte_val (hd [char_of r]) \<noteq> 10"
    using assms b by (auto simp: byte_val_eq_iff [symmetric])
  show "unquote_char ([char_of r] @ t) = Some (r, False, t)" for t
    using assms b by (auto simp: unquote_char_def byte_val_eq_iff [symmetric])
  show "rune_bytes r False = [char_of r]" using assms by (simp add: rune_bytes_def)
qed simp

lemma segment_read_raw_high:
  assumes dec: "decode_bytes (map byte_val s) = Some (r, w)" and high: "128 \<le> r"
  shows "segment_read (take w s) (take w s)"
proof (rule segment_readI [of _ r True])
  have w: "1 < w" "w \<le> length s" and hd: "128 \<le> byte_val (hd s)"
    using decode_bytes_high [OF dec high] decode_bytes_width [OF dec]
    by (cases s; auto)+
  from w have hd_take: "hd (take w s) = hd s" by (cases s) auto
  show ne: "take w s \<noteq> []" using w by auto
  show "hd (take w s) \<noteq> dquote" "byte_val (hd (take w s)) \<noteq> 10"
    using hd hd_take by (auto simp: byte_val_eq_iff [symmetric])
  show "unquote_char (take w s @ t) = Some (r, True, t)" for t
  proof -
    have "decode_bytes (map byte_val (take w s @ t)) = Some (r, w)"
      using decode_bytes_prefix [OF dec, of "map byte_val t"] by (simp add: take_map)
    then have "decode_rune (take w s @ t) = (r, w)" by (simp add: decode_rune_def)
    moreover have "drop w (take w s @ t) = t" using w by simp
    moreover obtain c cs where "take w s = c # cs" using ne by (cases "take w s") auto
    ultimately show ?thesis
      using hd hd_take by (simp add: unquote_char_def byte_val_eq_iff [symmetric])
  qed
  show "rune_bytes r True = take w s"
    using decode_bytes_encode [OF dec] high by (simp add: rune_bytes_def take_map)
qed

lemma segment_read_quote_segment:
  assumes ne: "s \<noteq> []"
  shows "segment_read (quote_segment ip (fst (decode_rune s), take (snd (decode_rune s)) s))
           (take (snd (decode_rune s)) s)"
proof (cases "decode_bytes (map byte_val s)")
  case None
  obtain c cs where s: "s = c # cs" using ne by (cases s) auto
  have v: "byte_val c < 16 ^ 2" using byte_val_less [of c] by simp
  have "segment_read (bslash # CHR ''x'' # hex_digits 2 (byte_val c)) [c]"
    by (rule segment_read_escape [of _ _ "byte_val c" False])
      (simp_all add: unquote_escape_hex unquote_hex_hex_digits [OF v] rune_bytes_def byte_val_less)
  with None s show ?thesis by (simp add: decode_rune_def quote_segment_def)
next
  case (Some p)
  obtain r w where dec: "decode_bytes (map byte_val s) = Some (r, w)" using Some by (cases p) auto
  have d: "decode_rune s = (r, w)" using dec by (simp add: decode_rune_def)
  show ?thesis
  proof (cases "r < 128")
    case True
    from decode_bytes_low [OF dec True] obtain s' where s: "s = char_of r # s'" "w = 1"
      by (auto dest: map_byte_val_ConsD)
    have seg: "take w s = [char_of r]" using s by simp
    have v: "r < 16 ^ 2" using True by simp
    have x: "segment_read (bslash # CHR ''x'' # hex_digits 2 r) [char_of r]"
      by (rule segment_read_escape [of _ _ r False])
        (use True in \<open>simp_all add: unquote_escape_hex unquote_hex_hex_digits [OF v] rune_bytes_def\<close>)
    have e: "segment_read [bslash, c] [char_of r]"
      if "\<And>t. unquote_escape c t = Some (r, False, t)" for c
      using segment_read_escape [of c "[]" r False] that True by (simp add: rune_bytes_def)
    have notx: "(r = rune_error \<and> length [char_of r :: char] = 1) = False"
      using True by (simp add: rune_error_def)
    have print: "strconv_IsPrint ip r = (32 \<le> r \<and> r < 127)"
      using True by (auto simp: strconv_IsPrint_def)
    have "(32 \<le> r \<and> r < 127) \<or> r < 32 \<or> r = 127" using True by linarith
    then consider (q) "r = 34" | (b) "r = 92" | "r = 7" | "r = 8" | "r = 12" | "r = 10" | "r = 13" | "r = 9"
      | "r = 11" | (raw) "32 \<le> r" "r < 127" "r \<noteq> 34" "r \<noteq> 92"
      | (hex) "r < 32 \<or> r = 127" "r \<noteq> 7" "r \<noteq> 8" "r \<noteq> 12" "r \<noteq> 10" "r \<noteq> 13" "r \<noteq> 9" "r \<noteq> 11"
      by blast
    then have "segment_read (quote_segment ip (r, [char_of r])) [char_of r]"
    proof cases
      case q
      then show ?thesis using e [of dquote] by (simp add: quote_segment_def rune_error_def
          unquote_escape_self)
    next
      case b
      then show ?thesis using e [of bslash] by (simp add: quote_segment_def rune_error_def
          unquote_escape_self)
    next
      case raw
      then show ?thesis
        unfolding quote_segment_def prod.case notx using print segment_read_raw_low [OF raw] by simp
    next
      case hex
      then have "r \<noteq> 34" "r \<noteq> 92" "\<not> strconv_IsPrint ip r" using print by auto
      with hex x show ?thesis unfolding quote_segment_def prod.case notx by simp
    qed (use e in \<open>simp_all add: quote_segment_def rune_error_def strconv_IsPrint_def
           unquote_escape_def dquote_def bslash_def\<close>)
    then show ?thesis unfolding d fst_conv snd_conv seg .
  next
    case False
    then have high: "128 \<le> r" by simp
    note w = decode_bytes_high [OF dec high] decode_bytes_width [OF dec]
    have enc: "rune_bytes r True = take w s"
      using decode_bytes_encode [OF dec] high by (simp add: rune_bytes_def take_map)
    note valid = decode_bytes_valid [OF dec]
    have r8: "r < 16 ^ 8" using valid by (auto simp: utf8_ValidRune_def)
    have u4: "segment_read (bslash # CHR ''u'' # hex_digits 4 r) (take w s)" if "r < 65536"
      by (rule segment_read_escape [of _ _ r True])
        (use that valid enc in \<open>simp_all add: unquote_escape_hex unquote_hex_hex_digits\<close>)
    have u8: "segment_read (bslash # CHR ''U'' # hex_digits 8 r) (take w s)"
      by (rule segment_read_escape [of _ _ r True])
        (use r8 valid enc in \<open>simp_all add: unquote_escape_hex unquote_hex_hex_digits\<close>)
    show ?thesis
      unfolding d fst_conv snd_conv
      using high u4 u8 segment_read_raw_high [OF dec high] w
      by (auto simp: quote_segment_def)
  qed
qed

lemma unquote_loop_quote:
  "unquote_loop (concat (map (quote_segment ip) (rune_segments s)) @ dquote # rest) = Some (s, rest)"
proof (induction s rule: rune_segments.induct)
  case (1 s)
  show ?case
  proof (cases "s = []")
    case True
    then show ?thesis by (simp add: unquote_loop.simps)
  next
    case False
    let ?w = "snd (decode_rune s)"
    let ?q = "quote_segment ip (fst (decode_rune s), take ?w s)"
    let ?t = "concat (map (quote_segment ip) (rune_segments (drop ?w s))) @ dquote # rest"
    from segment_read_quote_segment [OF False, of ip] obtain r m where
      q: "?q \<noteq> []" "hd ?q \<noteq> dquote" "byte_val (hd ?q) \<noteq> 10"
        "unquote_char (?q @ ?t) = Some (r, m, ?t)" "rune_bytes r m = take ?w s"
      unfolding segment_read_def by blast
    obtain c cs where qc: "?q = c # cs" using q(1) by (cases ?q) auto
    have "unquote_loop (?q @ ?t) = Some (s, rest)"
      using q "1.IH" [OF False] unfolding qc by (subst unquote_loop.simps) simp
    with False show ?thesis by (subst rune_segments.simps) simp
  qed
qed

lemma QuotedPrefix_Quote [simp]:
  "strconv_QuotedPrefix (strconv_Quote ip v @ rest) = Some (strconv_Quote ip v)"
  by (simp add: strconv_QuotedPrefix_def strconv_Quote_def unquote_loop_quote)

lemma Unquote_Quote [simp]: "strconv_Unquote (strconv_Quote ip v) = Some v"
  using unquote_loop_quote [of ip v "[]"] by (simp add: strconv_Unquote_def strconv_Quote_def)

end
