(* ===== verification/Persistence.thy ===== *)
theory Persistence
  imports Tenancy Go_Strconv
begin

text \<open>
  The value types of \<open>src/persistence\<close>: the tenant boundary \<open>Scope\<close> of a record, the
  \<open>WritePrecondition\<close> of a conditional write and the \<open>ConflictError\<close> a failed one returns with
  its textual grammar; the persisted records of \<open>protos/ego\<close> the stores hold; and the Go
  errors the components return, as one datatype.
\<close>

section \<open>Scopes\<close>

datatype scope_kind = scopeUnspecified | scopeUnscoped | scopeTenant

record Scope =
  sc_kind :: scope_kind
  sc_tenant :: string

definition zeroScope :: Scope where
  "zeroScope = \<lparr>sc_kind = scopeUnspecified, sc_tenant = ''''\<rparr>"

definition Unscoped :: Scope where
  "Unscoped = \<lparr>sc_kind = scopeUnscoped, sc_tenant = ''''\<rparr>"

definition scope_Valid :: "Scope \<Rightarrow> bool" where
  "scope_Valid s = (case sc_kind s of scopeUnscoped \<Rightarrow> True | scopeTenant \<Rightarrow> True | _ \<Rightarrow> False)"

definition scope_IsUnscoped :: "Scope \<Rightarrow> bool" where
  "scope_IsUnscoped s \<longleftrightarrow> sc_kind s = scopeUnscoped"

definition scope_TenantID :: "Scope \<Rightarrow> string" where
  "scope_TenantID s = (if sc_kind s \<noteq> scopeTenant then '''' else sc_tenant s)"

definition scope_Equal :: "Scope \<Rightarrow> Scope \<Rightarrow> bool" where
  "scope_Equal s other =
     (if sc_kind s \<noteq> sc_kind other then False
      else case sc_kind s of
             scopeUnscoped \<Rightarrow> True
           | scopeTenant \<Rightarrow> sc_tenant s = sc_tenant other
           | scopeUnspecified \<Rightarrow> False)"

definition scope_String :: "Scope \<Rightarrow> string" where
  "scope_String s =
     (case sc_kind s of
        scopeUnscoped \<Rightarrow> ''unscoped''
      | scopeTenant \<Rightarrow> ''tenant:'' @ sc_tenant s
      | scopeUnspecified \<Rightarrow> ''unspecified'')"

text \<open>The scopes the constructors build; on them \<open>Equal\<close> is equality.\<close>

definition wf_scope :: "Scope \<Rightarrow> bool" where
  "wf_scope s \<longleftrightarrow>
     s = Unscoped \<or> (sc_kind s = scopeTenant \<and> NewTenantID (sc_tenant s) = Inr (sc_tenant s))"

lemma wf_scope_Unscoped [simp]: "wf_scope Unscoped"
  by (simp add: wf_scope_def)

lemma scope_Valid_Unscoped [simp]: "scope_Valid Unscoped"
  by (simp add: scope_Valid_def Unscoped_def)

lemma wf_scope_Valid: "wf_scope s \<Longrightarrow> scope_Valid s"
  by (auto simp: wf_scope_def scope_Valid_def Unscoped_def)

lemma scope_Equal_iff: "wf_scope s \<Longrightarrow> wf_scope t \<Longrightarrow> scope_Equal s t \<longleftrightarrow> s = t"
  by (cases s; cases t) (auto simp: wf_scope_def scope_Equal_def Unscoped_def split: scope_kind.splits)

section \<open>Write preconditions\<close>

datatype precondition_mode =
  preconditionUnspecified | preconditionUnconditional | preconditionGenesis | preconditionExactRevision

record WritePrecondition =
  wp_mode :: precondition_mode
  wp_revision :: u64

definition zeroPrecondition :: WritePrecondition where
  "zeroPrecondition = \<lparr>wp_mode = preconditionUnspecified, wp_revision = 0\<rparr>"

definition Unconditional :: WritePrecondition where
  "Unconditional = \<lparr>wp_mode = preconditionUnconditional, wp_revision = 0\<rparr>"

definition ExpectGenesis :: WritePrecondition where
  "ExpectGenesis = \<lparr>wp_mode = preconditionGenesis, wp_revision = 0\<rparr>"

definition ExpectRevision :: "u64 \<Rightarrow> WritePrecondition" where
  "ExpectRevision r = \<lparr>wp_mode = preconditionExactRevision, wp_revision = r\<rparr>"

definition wp_IsUnconditional :: "WritePrecondition \<Rightarrow> bool" where
  "wp_IsUnconditional p \<longleftrightarrow> wp_mode p = preconditionUnconditional"

definition wp_IsGenesis :: "WritePrecondition \<Rightarrow> bool" where
  "wp_IsGenesis p \<longleftrightarrow> wp_mode p = preconditionGenesis"

definition wp_Revision :: "WritePrecondition \<Rightarrow> u64 \<times> bool" where
  "wp_Revision p =
     (if wp_mode p \<noteq> preconditionExactRevision then (0, False) else (wp_revision p, True))"

definition wp_Valid :: "WritePrecondition \<Rightarrow> bool" where
  "wp_Valid p \<longleftrightarrow> wp_mode p \<noteq> preconditionUnspecified"

definition wp_String :: "WritePrecondition \<Rightarrow> string" where
  "wp_String p =
     (case wp_mode p of
        preconditionUnconditional \<Rightarrow> ''unconditional''
      | preconditionGenesis \<Rightarrow> ''genesis''
      | preconditionExactRevision \<Rightarrow> strconv_FormatUint (wp_revision p)
      | preconditionUnspecified \<Rightarrow> ''unspecified'')"

text \<open>The preconditions the constructors build.\<close>

definition wf_precondition :: "WritePrecondition \<Rightarrow> bool" where
  "wf_precondition p \<longleftrightarrow>
     p = Unconditional \<or> p = ExpectGenesis \<or> p = ExpectRevision (wp_revision p)"

lemmas wp_defs = Unconditional_def ExpectGenesis_def ExpectRevision_def wp_IsUnconditional_def
  wp_IsGenesis_def wp_Revision_def wp_Valid_def

lemma wf_precondition_cases [consumes 1, case_names Unconditional ExpectGenesis ExpectRevision]:
  assumes "wf_precondition p"
  obtains "p = Unconditional" | "p = ExpectGenesis" | r where "p = ExpectRevision r"
  using assms unfolding wf_precondition_def by blast

lemma wp_String_simps [simp]:
  "wp_String Unconditional = ''unconditional''" "wp_String ExpectGenesis = ''genesis''"
  "wp_String (ExpectRevision r) = strconv_FormatUint r"
  by (simp_all add: wp_String_def wp_defs)

lemma wp_constructors [simp]:
  "wp_Valid Unconditional" "wp_Valid ExpectGenesis" "wp_Valid (ExpectRevision r)"
  "wp_IsUnconditional Unconditional" "\<not> wp_IsUnconditional ExpectGenesis"
  "\<not> wp_IsUnconditional (ExpectRevision r)"
  by (simp_all add: wp_defs)

lemma wf_precondition_Valid: "wf_precondition p \<Longrightarrow> wp_Valid p"
  by (elim wf_precondition_cases) simp_all

lemma wf_precondition_constructors [simp]:
  "wf_precondition Unconditional" "wf_precondition ExpectGenesis" "wf_precondition (ExpectRevision r)"
  by (simp_all add: wf_precondition_def wp_defs)

section \<open>Conflict errors\<close>

record conflict_error =
  ce_scope :: Scope
  ce_persistenceID :: string
  ce_expected :: WritePrecondition
  ce_actualRevision :: u64
  ce_hasActual :: bool

section \<open>Errors\<close>

text \<open>
  The errors the modelled code returns.  \<open>ErrNew\<close> is an \<open>errors.New\<close> value, a package
  sentinel or not, named by its text (the sentinels have pairwise different texts);
  \<open>ErrWrap pre e post\<close> is \<open>fmt.Errorf\<close> with one \<open>%w\<close> between two fixed texts,
  \<open>ErrWrap2\<close> is \<open>"%w: %w"\<close>, \<open>ErrJoin\<close> is \<open>errors.Join\<close> of two errors, \<open>ErrCommand\<close> is
  \<open>command.Error\<close> with its sentinel, message, cause and, when it comes from a result, the
  outcome and failure code, \<open>ErrNumError\<close> is \<open>strconv.NumError\<close> with its function, input and
  reason.  \<open>ErrPanic\<close> is a run-time panic, which unwinds the caller.
\<close>

datatype command_outcome =
  OutcomeUnset | OutcomeSuccess | OutcomeSuccessNoState | OutcomeRejected | OutcomeFailed
  | OutcomeTimedOut | OutcomeCanceled

datatype command_sentinel =
  ErrRejected | ErrFailed | ErrTimedOut | ErrCanceled | ErrInvalidMetadata | ErrInvalidEnvelope
  | ErrInvalidResult | ErrInvalidPrincipal | ErrReservedKey | ErrSameOperationID
  | ErrDeadlineExtension

datatype goerr =
  ErrNew string
  | ErrTenancy tenancy_error
  | ErrConflict conflict_error
  | ErrWrap string goerr string
  | ErrWrap2 goerr goerr
  | ErrJoin goerr goerr
  | ErrCommand command_sentinel string "goerr option" "(command_outcome \<times> string option) option"
  | ErrNumError string string string
  | ErrPanic string

text \<open>\<open>errors.As\<close> with a \<open>*ConflictError\<close> target, and \<open>errors.Is\<close> against a sentinel.\<close>

primrec errors_As_conflict :: "goerr \<Rightarrow> conflict_error option" where
  "errors_As_conflict (ErrNew t) = None"
| "errors_As_conflict (ErrTenancy t) = None"
| "errors_As_conflict (ErrConflict c) = Some c"
| "errors_As_conflict (ErrWrap pre e post) = errors_As_conflict e"
| "errors_As_conflict (ErrWrap2 e f) =
     (case errors_As_conflict e of Some c \<Rightarrow> Some c | None \<Rightarrow> errors_As_conflict f)"
| "errors_As_conflict (ErrJoin e f) =
     (case errors_As_conflict e of Some c \<Rightarrow> Some c | None \<Rightarrow> errors_As_conflict f)"
| "errors_As_conflict (ErrCommand s m cause oc) =
     (case map_option errors_As_conflict cause of Some r \<Rightarrow> r | None \<Rightarrow> None)"
| "errors_As_conflict (ErrNumError f n r) = None"
| "errors_As_conflict (ErrPanic t) = None"

definition ErrConcurrencyConflict_text :: string where
  "ErrConcurrencyConflict_text = ''ego: concurrency conflict''"

definition conflict_Is :: "conflict_error \<Rightarrow> string \<Rightarrow> bool" where
  "conflict_Is e target \<longleftrightarrow> target = ErrConcurrencyConflict_text"

primrec errors_Is :: "string \<Rightarrow> goerr \<Rightarrow> bool" where
  "errors_Is target (ErrNew t) \<longleftrightarrow> t = target"
| "errors_Is target (ErrTenancy t) \<longleftrightarrow> False"
| "errors_Is target (ErrConflict c) \<longleftrightarrow> conflict_Is c target"
| "errors_Is target (ErrWrap pre e post) \<longleftrightarrow> errors_Is target e"
| "errors_Is target (ErrWrap2 e f) \<longleftrightarrow> errors_Is target e \<or> errors_Is target f"
| "errors_Is target (ErrJoin e f) \<longleftrightarrow> errors_Is target e \<or> errors_Is target f"
| "errors_Is target (ErrCommand s m cause oc) \<longleftrightarrow>
     (case map_option (errors_Is target) cause of Some r \<Rightarrow> r | None \<Rightarrow> False)"
| "errors_Is target (ErrNumError f n r) \<longleftrightarrow> r = target"
| "errors_Is target (ErrPanic t) \<longleftrightarrow> False"

definition ErrConcurrencyConflict :: goerr where
  "ErrConcurrencyConflict = ErrNew ErrConcurrencyConflict_text"

definition ErrInvalidPrecondition :: goerr where
  "ErrInvalidPrecondition = ErrNew ''persistence: write precondition is not valid''"

definition ErrPreconditionScope :: goerr where
  "ErrPreconditionScope = ErrNew ''persistence: conditional write spans multiple persistence ids''"

definition ErrInvalidScope :: goerr where
  "ErrInvalidScope = ErrNew ''persistence: scope is not valid''"

definition context_DeadlineExceeded :: goerr where
  "context_DeadlineExceeded = ErrNew ''context deadline exceeded''"

definition context_Canceled :: goerr where
  "context_Canceled = ErrNew ''context canceled''"

lemma errors_As_conflict_Is:
  "errors_As_conflict e \<noteq> None \<Longrightarrow> errors_Is ErrConcurrencyConflict_text e"
  by (induction e) (auto simp: conflict_Is_def split: option.splits)

section \<open>Tenant scopes\<close>

definition NewTenantScope :: "string \<Rightarrow> goerr + Scope" where
  "NewTenantScope tid =
     (case NewTenantID tid of
        Inl e \<Rightarrow> Inl (ErrJoin ErrInvalidScope (ErrTenancy e))
      | Inr validated \<Rightarrow> Inr \<lparr>sc_kind = scopeTenant, sc_tenant = validated\<rparr>)"

lemma NewTenantScope_wf: "NewTenantScope t = Inr s \<Longrightarrow> wf_scope s"
  by (auto simp: NewTenantScope_def wf_scope_def split: sum.splits intro: NewTenantID_idem)

lemma NewTenantScope_InrD:
  "NewTenantScope t = Inr s \<Longrightarrow> s = \<lparr>sc_kind = scopeTenant, sc_tenant = t\<rparr>"
  by (auto simp: NewTenantScope_def split: sum.splits dest: NewTenantID_InrD)

lemma NewTenantScope_tenant:
  "wf_scope s \<Longrightarrow> sc_kind s = scopeTenant \<Longrightarrow> NewTenantScope (sc_tenant s) = Inr s"
  by (cases s) (auto simp: NewTenantScope_def wf_scope_def Unscoped_def)

section \<open>The conflict grammar\<close>

text \<open>The only option is \<open>WithActualRevision\<close>, given here as an optional revision.\<close>

definition NewConflictError ::
    "Scope \<Rightarrow> string \<Rightarrow> WritePrecondition \<Rightarrow> u64 option \<Rightarrow> conflict_error" where
  "NewConflictError scope pid expected actual =
     (let e = \<lparr>ce_scope = scope, ce_persistenceID = pid, ce_expected = expected,
               ce_actualRevision = 0, ce_hasActual = False\<rparr>
      in case actual of
           None \<Rightarrow> e
         | Some r \<Rightarrow> e\<lparr>ce_actualRevision := r, ce_hasActual := True\<rparr>)"

definition ce_ActualRevision :: "conflict_error \<Rightarrow> u64 option" where
  "ce_ActualRevision e = (if ce_hasActual e then Some (ce_actualRevision e) else None)"

lemma ce_ActualRevision_New [simp]: "ce_ActualRevision (NewConflictError s p w a) = a"
  by (cases a) (simp_all add: ce_ActualRevision_def NewConflictError_def Let_def)

definition conflictGrammarPrefix :: string where
  "conflictGrammarPrefix = ''ego: concurrency conflict: grammar=v1, scope=''"

definition conflictTenantScopePrefix :: string where
  "conflictTenantScopePrefix = ''tenant:''"
definition conflictPersistenceIDField :: string where
  "conflictPersistenceIDField = '', persistence_id=''"
definition conflictExpectedField :: string where
  "conflictExpectedField = '', expected=''"
definition conflictActualField :: string where
  "conflictActualField = '', actual=''"
definition conflictUnknownActualToken :: string where
  "conflictUnknownActualToken = ''unknown''"
definition conflictUnscopedToken :: string where
  "conflictUnscopedToken = ''unscoped''"

definition formatConflictScope :: "(nat \<Rightarrow> bool) \<Rightarrow> Scope \<Rightarrow> string" where
  "formatConflictScope ip scope =
     (if scope_IsUnscoped scope then conflictUnscopedToken
      else if scope_Valid scope then conflictTenantScopePrefix @ strconv_Quote ip (scope_TenantID scope)
      else scope_String scope)"

definition conflict_Error :: "(nat \<Rightarrow> bool) \<Rightarrow> conflict_error \<Rightarrow> string" where
  "conflict_Error ip e =
     conflictGrammarPrefix @ formatConflictScope ip (ce_scope e)
     @ conflictPersistenceIDField @ strconv_Quote ip (ce_persistenceID e)
     @ conflictExpectedField @ wp_String (ce_expected e)
     @ conflictActualField @ (if ce_hasActual e then strconv_FormatUint (ce_actualRevision e)
                                 else conflictUnknownActualToken)"

text \<open>\<open>strings.Cut\<close> around the first occurrence of a separator.\<close>

fun strings_Cut :: "string \<Rightarrow> string \<Rightarrow> (string \<times> string) option" where
  "strings_Cut s sep =
     (case strings_CutPrefix s sep of
        Some rest \<Rightarrow> Some ([], rest)
      | None \<Rightarrow>
          (case s of
             [] \<Rightarrow> None
           | c # cs \<Rightarrow>
               (case strings_Cut cs sep of
                  None \<Rightarrow> None
                | Some (before, after) \<Rightarrow> Some (c # before, after))))"

declare strings_Cut.simps [simp del]

definition cutQuoted :: "(nat \<Rightarrow> bool) \<Rightarrow> string \<Rightarrow> (string \<times> string) option" where
  "cutQuoted ip s =
     (if \<not> strings_HasPrefix s [dquote] then None
      else case strconv_QuotedPrefix s of
             None \<Rightarrow> None
           | Some quoted \<Rightarrow>
               (case strconv_Unquote quoted of
                  None \<Rightarrow> None
                | Some v \<Rightarrow>
                    if strconv_Quote ip v \<noteq> quoted then None
                    else Some (v, drop (length quoted) s)))"

definition parseCanonicalUint :: "string \<Rightarrow> u64 option" where
  "parseCanonicalUint token =
     (case strconv_ParseUint token of
        None \<Rightarrow> None
      | Some v \<Rightarrow> if strconv_FormatUint v \<noteq> token then None else Some v)"

definition parsePreconditionToken :: "string \<Rightarrow> WritePrecondition option" where
  "parsePreconditionToken token =
     (if token = ''unconditional'' then Some Unconditional
      else if token = ''genesis'' then Some ExpectGenesis
      else map_option ExpectRevision (parseCanonicalUint token))"

definition cutConflictScope :: "(nat \<Rightarrow> bool) \<Rightarrow> string \<Rightarrow> (Scope \<times> string) option" where
  "cutConflictScope ip s =
     (case strings_CutPrefix s conflictUnscopedToken of
        Some rest \<Rightarrow> Some (Unscoped, rest)
      | None \<Rightarrow>
          (case strings_CutPrefix s conflictTenantScopePrefix of
             None \<Rightarrow> None
           | Some rest \<Rightarrow>
               (case cutQuoted ip rest of
                  None \<Rightarrow> None
                | Some (tid, rest') \<Rightarrow>
                    (case NewTenantScope tid of
                       Inl _ \<Rightarrow> None
                     | Inr scope \<Rightarrow> Some (scope, rest')))))"

definition ParseConflictError :: "(nat \<Rightarrow> bool) \<Rightarrow> string \<Rightarrow> conflict_error option" where
  "ParseConflictError ip message =
     (case strings_CutPrefix message conflictGrammarPrefix of None \<Rightarrow> None | Some rest1 \<Rightarrow>
     (case cutConflictScope ip rest1 of None \<Rightarrow> None | Some (scope, rest2) \<Rightarrow>
     (case strings_CutPrefix rest2 conflictPersistenceIDField of None \<Rightarrow> None | Some rest3 \<Rightarrow>
     (case cutQuoted ip rest3 of None \<Rightarrow> None | Some (pid, rest4) \<Rightarrow>
     (case strings_CutPrefix rest4 conflictExpectedField of None \<Rightarrow> None | Some rest5 \<Rightarrow>
     (case strings_Cut rest5 conflictActualField of None \<Rightarrow> None | Some (expectedPart, actualPart) \<Rightarrow>
     (case parsePreconditionToken expectedPart of None \<Rightarrow> None | Some expected \<Rightarrow>
        if actualPart \<noteq> conflictUnknownActualToken then
          (case parseCanonicalUint actualPart of
             None \<Rightarrow> None
           | Some actual \<Rightarrow> Some (NewConflictError scope pid expected (Some actual)))
        else Some (NewConflictError scope pid expected None))))))))"

section \<open>The text of an error\<close>

primrec error_text :: "(nat \<Rightarrow> bool) \<Rightarrow> goerr \<Rightarrow> string" where
  "error_text ip (ErrNew t) = t"
| "error_text ip (ErrTenancy e) = te_message e"
| "error_text ip (ErrConflict c) = conflict_Error ip c"
| "error_text ip (ErrWrap pre e post) = pre @ error_text ip e @ post"
| "error_text ip (ErrWrap2 e f) = error_text ip e @ '': '' @ error_text ip f"
| "error_text ip (ErrJoin e f) = error_text ip e @ [CHR 0x0A] @ error_text ip f"
| "error_text ip (ErrCommand s m cause oc) = m"
| "error_text ip (ErrNumError f n r) = ''strconv.'' @ f @ '': parsing '' @ strconv_Quote ip n @ '': '' @ r"
| "error_text ip (ErrPanic t) = t"

section \<open>The grammar is exactly invertible\<close>

text \<open>The errors \<open>NewConflictError\<close> builds from a constructed scope and precondition.\<close>

definition wf_conflict :: "conflict_error \<Rightarrow> bool" where
  "wf_conflict e \<longleftrightarrow>
     wf_scope (ce_scope e) \<and> wf_precondition (ce_expected e)
     \<and> (ce_hasActual e \<or> ce_actualRevision e = 0)"

lemma wf_conflict_New:
  "wf_scope s \<Longrightarrow> wf_precondition w \<Longrightarrow> wf_conflict (NewConflictError s p w a)"
  by (cases a) (simp_all add: wf_conflict_def NewConflictError_def)

lemma wf_conflict_eq_New:
  "wf_conflict e \<Longrightarrow>
     e = NewConflictError (ce_scope e) (ce_persistenceID e) (ce_expected e) (ce_ActualRevision e)"
  by (cases e) (auto simp: wf_conflict_def NewConflictError_def ce_ActualRevision_def)

lemma QuotedPrefix_prefix: "strconv_QuotedPrefix s = Some q \<Longrightarrow> s = q @ drop (length q) s"
  by (auto simp: strconv_QuotedPrefix_def min_def split: list.splits if_splits)

lemma cutQuoted_Some_iff: "cutQuoted ip s = Some (v, rest) \<longleftrightarrow> s = strconv_Quote ip v @ rest"
proof
  assume "cutQuoted ip s = Some (v, rest)"
  then show "s = strconv_Quote ip v @ rest"
    by (auto simp: cutQuoted_def split: if_splits option.splits dest: QuotedPrefix_prefix)
next
  assume s: "s = strconv_Quote ip v @ rest"
  have "strings_HasPrefix s [dquote]"
    by (simp add: s strconv_Quote_def strings_HasPrefix_def)
  then show "cutQuoted ip s = Some (v, rest)"
    by (simp add: cutQuoted_def s)
qed

lemma parseCanonicalUint_Some_iff:
  "parseCanonicalUint t = Some v \<longleftrightarrow> t = strconv_FormatUint v"
  by (auto simp: parseCanonicalUint_def split: option.splits)

lemma strings_Cut_append: "strings_Cut s sep = Some (a, b) \<Longrightarrow> s = a @ sep @ b"
proof (induction s arbitrary: a)
  case Nil
  then show ?case
    by (subst (asm) strings_Cut.simps) (auto split: option.splits simp: strings_CutPrefix_Some)
next
  case (Cons c s)
  then show ?case
    by (subst (asm) strings_Cut.simps) (auto split: option.splits simp: strings_CutPrefix_Some)
qed

lemma strings_Cut_first:
  "\<forall>x \<in> set a. x \<noteq> c \<Longrightarrow> strings_Cut (a @ (c # sep) @ b) (c # sep) = Some (a, b)"
proof (induction a)
  case Nil
  show ?case by (subst strings_Cut.simps) simp
next
  case (Cons x a)
  then show ?case by (subst strings_Cut.simps) simp
qed

lemma FormatUint_digits: "x \<in> set (strconv_FormatUint v) \<Longrightarrow> 48 \<le> byte_val x \<and> byte_val x \<le> 57"
  using decimal_digits [of "unat v"]
  by (fastforce simp: strconv_FormatUint_def list_all_iff is_digit_def digit_val_def Let_def split: if_splits)

lemma FormatUint_no_comma: "\<forall>x \<in> set (strconv_FormatUint v). x \<noteq> CHR '',''"
  using FormatUint_digits [of "CHR '',''" v] by (auto simp: byte_val_def)

lemma FormatUint_not_word:
  "strconv_FormatUint v \<noteq> ''unknown''" "strconv_FormatUint v \<noteq> ''unconditional''"
  "strconv_FormatUint v \<noteq> ''genesis''"
  using FormatUint_digits [of "CHR ''n''" v] by (auto simp: byte_val_def)

lemma parsePreconditionToken_String:
  "wf_precondition w \<Longrightarrow> parsePreconditionToken (wp_String w) = Some w"
  by (elim wf_precondition_cases)
    (simp_all add: parsePreconditionToken_def parseCanonicalUint_def FormatUint_not_word)

lemma parsePreconditionToken_Some:
  "parsePreconditionToken t = Some w \<Longrightarrow> wf_precondition w \<and> t = wp_String w"
  by (auto simp: parsePreconditionToken_def parseCanonicalUint_Some_iff split: if_splits)

lemma wp_String_no_comma: "wf_precondition w \<Longrightarrow> \<forall>x \<in> set (wp_String w). x \<noteq> CHR '',''"
  by (elim wf_precondition_cases) (simp_all add: FormatUint_no_comma)

lemma strings_Cut_wp_String:
  "wf_precondition w \<Longrightarrow>
     strings_Cut (wp_String w @ conflictActualField @ b) conflictActualField = Some (wp_String w, b)"
  using strings_Cut_first [OF wp_String_no_comma, of w "'' actual=''" b]
  by (simp add: conflictActualField_def)

lemma formatConflictScope_simps:
  "formatConflictScope ip Unscoped = conflictUnscopedToken"
  "sc_kind s = scopeTenant \<Longrightarrow>
     formatConflictScope ip s = conflictTenantScopePrefix @ strconv_Quote ip (sc_tenant s)"
  by (simp_all add: formatConflictScope_def scope_IsUnscoped_def scope_Valid_def
      scope_TenantID_def Unscoped_def)

lemma CutPrefix_unscoped_tenant:
  "strings_CutPrefix (conflictTenantScopePrefix @ r) conflictUnscopedToken = None"
  by (simp add: conflictTenantScopePrefix_def conflictUnscopedToken_def)

lemma cutConflictScope_format:
  assumes "wf_scope s"
  shows "cutConflictScope ip (formatConflictScope ip s @ rest) = Some (s, rest)"
proof (cases "s = Unscoped")
  case True
  then show ?thesis by (simp add: cutConflictScope_def formatConflictScope_simps)
next
  case False
  with assms have k: "sc_kind s = scopeTenant" by (auto simp: wf_scope_def)
  have "cutQuoted ip (strconv_Quote ip (sc_tenant s) @ rest) = Some (sc_tenant s, rest)"
    by (simp add: cutQuoted_Some_iff)
  with k NewTenantScope_tenant [OF assms k] show ?thesis
    by (simp add: cutConflictScope_def formatConflictScope_simps CutPrefix_unscoped_tenant)
qed

lemma cutConflictScope_Some:
  assumes "cutConflictScope ip s = Some (scope, rest)"
  shows "wf_scope scope \<and> s = formatConflictScope ip scope @ rest"
proof (cases "strings_CutPrefix s conflictUnscopedToken")
  case (Some r)
  with assms show ?thesis
    by (auto simp: cutConflictScope_def strings_CutPrefix_Some formatConflictScope_simps)
next
  case None
  with assms obtain tid where
    s: "s = conflictTenantScopePrefix @ strconv_Quote ip tid @ rest" and
    n: "NewTenantScope tid = Inr scope"
    by (auto simp: cutConflictScope_def strings_CutPrefix_Some cutQuoted_Some_iff
        split: option.splits sum.splits)
  with NewTenantScope_InrD [OF n] NewTenantScope_wf [OF n] show ?thesis
    by (simp add: formatConflictScope_simps)
qed

lemma ParseConflictError_Error:
  assumes "wf_conflict e"
  shows "ParseConflictError ip (conflict_Error ip e) = Some e"
proof -
  have s: "wf_scope (ce_scope e)" and w: "wf_precondition (ce_expected e)"
    using assms by (simp_all add: wf_conflict_def)
  have q: "cutQuoted ip (strconv_Quote ip p @ r) = Some (p, r)" for p r
    by (simp add: cutQuoted_Some_iff)
  have u: "parseCanonicalUint (strconv_FormatUint v) = Some v" for v
    by (simp add: parseCanonicalUint_Some_iff)
  have k: "strconv_FormatUint v \<noteq> conflictUnknownActualToken" for v
    by (simp add: conflictUnknownActualToken_def FormatUint_not_word)
  have "ParseConflictError ip (conflict_Error ip e) =
      Some (NewConflictError (ce_scope e) (ce_persistenceID e) (ce_expected e) (ce_ActualRevision e))"
    by (simp add: ParseConflictError_def conflict_Error_def cutConflictScope_format [OF s] q
        strings_Cut_wp_String [OF w] parsePreconditionToken_String [OF w] u k ce_ActualRevision_def)
  with wf_conflict_eq_New [OF assms] show ?thesis by simp
qed

lemma ParseConflictError_Some:
  assumes "ParseConflictError ip m = Some e"
  shows "wf_conflict e \<and> conflict_Error ip e = m"
proof -
  from assms obtain rest1 scope rest2 rest3 pid rest4 rest5 ex ac w where
    "m = conflictGrammarPrefix @ rest1" "cutConflictScope ip rest1 = Some (scope, rest2)"
    "rest2 = conflictPersistenceIDField @ rest3" "rest3 = strconv_Quote ip pid @ rest4"
    "rest4 = conflictExpectedField @ rest5" "strings_Cut rest5 conflictActualField = Some (ex, ac)"
    "parsePreconditionToken ex = Some w" and
    a: "(\<exists>v. ac = strconv_FormatUint v \<and> e = NewConflictError scope pid w (Some v))
        \<or> (ac = conflictUnknownActualToken \<and> e = NewConflictError scope pid w None)"
    by (auto simp: ParseConflictError_def strings_CutPrefix_Some cutQuoted_Some_iff
        parseCanonicalUint_Some_iff split: option.splits if_splits) blast+
  then have m: "m = conflictGrammarPrefix @ formatConflictScope ip scope @ conflictPersistenceIDField
      @ strconv_Quote ip pid @ conflictExpectedField @ wp_String w @ conflictActualField @ ac"
    and wf: "wf_scope scope" "wf_precondition w"
    by (auto dest!: cutConflictScope_Some strings_Cut_append parsePreconditionToken_Some)
  from a obtain act where e: "e = NewConflictError scope pid w act" and
    ac: "ac = (case act of Some v \<Rightarrow> strconv_FormatUint v | None \<Rightarrow> conflictUnknownActualToken)"
    by (metis option.case)
  have "conflict_Error ip e = m"
    by (cases act) (simp_all add: m e ac conflict_Error_def NewConflictError_def)
  with wf show ?thesis by (simp add: e wf_conflict_New)
qed

text \<open>
  C19. The wire text of a concurrency conflict is unambiguous: \<open>ParseConflictError\<close> accepts a
  message exactly when it is the rendering of a constructed conflict error, and then returns
  that very error.  Identifiers may contain any bytes, the grammar's own separators included.
\<close>

theorem conflict_grammar_exact:
  "ParseConflictError ip m = Some e \<longleftrightarrow> wf_conflict e \<and> m = conflict_Error ip e"
  using ParseConflictError_Error ParseConflictError_Some by metis

end
