(* ===== verification/Proto.thy ===== *)
theory Proto
  imports Persistence
begin

text \<open>
  The protocol-buffer messages of \<open>src/protos/ego/ego.proto\<close> the engine persists and exchanges.
  A packed message (\<open>google.protobuf.Any\<close>) is its type URL and its bytes; a nil message field is
  \<open>None\<close>; an enum or a \<open>oneof\<close> is a datatype.
\<close>

record any_pb =
  any_type_url :: string
  any_value :: bytes

record Event =
  ev_persistence_id :: string
  ev_sequence_number :: u64
  ev_is_deleted :: bool
  ev_event :: "any_pb option"
  ev_timestamp :: int
  ev_shard :: u64
  ev_encryption_key_id :: string
  ev_is_encrypted :: bool
  ev_tenant_metadata :: metadata

record Snapshot =
  sn_persistence_id :: string
  sn_sequence_number :: u64
  sn_state :: "any_pb option"
  sn_timestamp :: int
  sn_encryption_key_id :: string
  sn_is_encrypted :: bool
  sn_tenant_metadata :: metadata

record DurableState =
  du_persistence_id :: string
  du_version_number :: u64
  du_resulting_state :: "any_pb option"
  du_timestamp :: int
  du_shard :: u64
  du_tenant_metadata :: metadata

datatype SagaLifecycleStatus =
  SAGA_LIFECYCLE_STATUS_NONE | SAGA_LIFECYCLE_STATUS_RUNNING | SAGA_LIFECYCLE_STATUS_COMPLETED
  | SAGA_LIFECYCLE_STATUS_COMPENSATING | SAGA_LIFECYCLE_STATUS_FAILED

record StateReply =
  sr_persistence_id :: string
  sr_state :: "any_pb option"
  sr_sequence_number :: u64
  sr_timestamp :: int
  sr_saga_status :: SagaLifecycleStatus

text \<open>The \<open>oneof\<close> of a reply; \<open>ReplyUnset\<close> is a reply with neither field set.\<close>

datatype CommandReply = Reply_StateReply StateReply | Reply_ErrorReply string | ReplyUnset

record OffsetPb =
  of_shard_number :: u64
  of_projection_name :: string
  of_value :: int
  of_timestamp :: int

record ProjectionId =
  pj_projection_name :: string
  pj_shard_number :: u64

record TenantBindingReply =
  tb_tenant_aware :: bool
  tb_matches :: bool

end
