(* ===== verification/Sync_Map.thy ===== *)
theory Sync_Map
  imports Urd_Prelude "HOL-Library.AList"
begin

text \<open>
  Go's \<open>sync.Map\<close> as the stores of \<open>src/testkit\<close> use it: an association list with distinct
  keys, in the order \<open>Range\<close> visits them, which the language leaves open.  A published value is
  a pointer, and \<open>CompareAndSwap\<close> compares pointers, so a stored value is a reference: the
  address it was allocated at, and the immutable value behind it.
\<close>

type_synonym ('k, 'v) sync_map = "('k \<times> 'v) list"

record 'v ref =
  ref_ptr :: nat
  ref_val :: 'v

definition sm_ok :: "('k, 'v) sync_map \<Rightarrow> bool" where
  "sm_ok m \<longleftrightarrow> distinct (map fst m)"

definition sm_Load :: "('k, 'v) sync_map \<Rightarrow> 'k \<Rightarrow> 'v option" where
  "sm_Load m k = map_of m k"

definition sm_Store :: "'k \<Rightarrow> 'v \<Rightarrow> ('k, 'v) sync_map \<Rightarrow> ('k, 'v) sync_map" where
  "sm_Store k v m = AList.update k v m"

definition sm_Delete :: "'k \<Rightarrow> ('k, 'v) sync_map \<Rightarrow> ('k, 'v) sync_map" where
  "sm_Delete k m = AList.delete k m"

text \<open>The value and \<open>loaded\<close>, and the map afterwards.\<close>

definition sm_LoadOrStore :: "'k \<Rightarrow> 'v \<Rightarrow> ('k, 'v) sync_map \<Rightarrow> ('v \<times> bool) \<times> ('k, 'v) sync_map" where
  "sm_LoadOrStore k v m =
     (case sm_Load m k of
        Some actual \<Rightarrow> ((actual, True), m)
      | None \<Rightarrow> ((v, False), sm_Store k v m))"

definition sm_CompareAndSwap ::
    "'k \<Rightarrow> 'v ref \<Rightarrow> 'v ref \<Rightarrow> ('k, 'v ref) sync_map \<Rightarrow> bool \<times> ('k, 'v ref) sync_map" where
  "sm_CompareAndSwap k old new m =
     (case sm_Load m k of
        Some cur \<Rightarrow> if ref_ptr cur = ref_ptr old then (True, sm_Store k new m) else (False, m)
      | None \<Rightarrow> (False, m))"

text \<open>\<open>Range\<close> with a body that deletes the keys of the entries it selects.\<close>

fun sm_RangeDelete ::
    "('k \<Rightarrow> bool) \<Rightarrow> ('k \<times> 'v) list \<Rightarrow> ('k, 'v) sync_map \<Rightarrow> ('k, 'v) sync_map" where
  "sm_RangeDelete p [] m = m"
| "sm_RangeDelete p ((k, v) # es) m = sm_RangeDelete p es (if p k then sm_Delete k m else m)"

lemma sm_Load_Store [simp]: "sm_Load (sm_Store k v m) = (sm_Load m)(k \<mapsto> v)"
  by (simp add: sm_Load_def sm_Store_def update_conv' fun_eq_iff)

lemma sm_Load_Delete [simp]: "sm_Load (sm_Delete k m) = (sm_Load m)(k := None)"
  by (simp add: sm_Load_def sm_Delete_def delete_conv' fun_eq_iff)

lemma sm_ok_Nil [simp]: "sm_ok []"
  by (simp add: sm_ok_def)

lemma sm_ok_Store [simp]: "sm_ok m \<Longrightarrow> sm_ok (sm_Store k v m)"
  by (simp add: sm_ok_def sm_Store_def distinct_update)

lemma sm_ok_Delete [simp]: "sm_ok m \<Longrightarrow> sm_ok (sm_Delete k m)"
  by (simp add: sm_ok_def sm_Delete_def distinct_delete)

lemma sm_Load_Nil [simp]: "sm_Load [] k = None"
  by (simp add: sm_Load_def)

lemma sm_Load_mem: "sm_ok m \<Longrightarrow> (k, v) \<in> set m \<longleftrightarrow> sm_Load m k = Some v"
  by (simp add: sm_ok_def sm_Load_def)

lemma sm_Load_RangeDelete:
  "sm_Load (sm_RangeDelete p es m) k =
     (if p k \<and> k \<in> fst ` set es then None else sm_Load m k)"
  by (induction p es m rule: sm_RangeDelete.induct) auto

lemma sm_ok_RangeDelete [simp]: "sm_ok m \<Longrightarrow> sm_ok (sm_RangeDelete p es m)"
  by (induction p es m rule: sm_RangeDelete.induct) auto

lemma sm_Load_RangeDelete_self:
  "sm_Load (sm_RangeDelete p m m) k = (if p k then None else sm_Load m k)"
  by (simp add: sm_Load_RangeDelete) (auto simp: sm_Load_def map_of_eq_None_iff)

lemma sm_RangeDelete_all: "sm_RangeDelete (\<lambda>_. True) m m = []"
proof (cases "sm_RangeDelete (\<lambda>_. True) m m")
  case (Cons e es)
  moreover have "sm_Load (sm_RangeDelete (\<lambda>_. True) m m) (fst e) = None"
    by (simp add: sm_Load_RangeDelete_self)
  ultimately show ?thesis by (simp add: sm_Load_def)
qed

lemma sm_CompareAndSwap_same [simp]:
  "sm_Load m k = Some old \<Longrightarrow> sm_CompareAndSwap k old new m = (True, sm_Store k new m)"
  by (simp add: sm_CompareAndSwap_def)

lemma sm_LoadOrStore_absent [simp]:
  "sm_Load m k = None \<Longrightarrow> sm_LoadOrStore k v m = ((v, False), sm_Store k v m)"
  by (simp add: sm_LoadOrStore_def)

end
