(* ===== verification/Events_Store.thy ===== *)
theory Events_Store
  imports Proto Sync_Map "HOL-Library.List_Lexorder" "HOL-Library.Char_ord"
begin

text \<open>
  The events journal of \<open>src/testkit/eventstore.go\<close>: an immutable log per (scope, persistence
  id), published with one \<open>LoadOrStore\<close> or \<open>CompareAndSwap\<close>.  Allocating a log takes the next
  address, so that \<open>CompareAndSwap\<close> compares what the code compares.  The abstract view of a
  record is a map from sequence numbers to events and a revision.
\<close>

section \<open>The store\<close>

record eventLog =
  el_revision :: u64
  el_events :: "Event list"

record eventStoreKey =
  ek_scope :: Scope
  ek_persistenceID :: string

record EventStore =
  es_db :: "(eventStoreKey, eventLog ref) sync_map"
  es_connected :: bool
  es_next :: nat

definition NewEventsStore :: EventStore where
  "NewEventsStore = \<lparr>es_db = [], es_connected = False, es_next = 0\<rparr>"

definition es_Connect :: "EventStore \<Rightarrow> EventStore" where
  "es_Connect x = (if es_connected x then x else x\<lparr>es_connected := True\<rparr>)"

definition es_Disconnect :: "EventStore \<Rightarrow> EventStore" where
  "es_Disconnect x =
     (if \<not> es_connected x then x
      else x\<lparr>es_db := sm_RangeDelete (\<lambda>_. True) (es_db x) (es_db x), es_connected := False\<rparr>)"

definition es_Ping :: "EventStore \<Rightarrow> EventStore" where
  "es_Ping x = (if \<not> es_connected x then es_Connect x else x)"

text \<open>\<open>newEventLog\<close>: the loop body, then the loop; a nil \<open>old\<close> is \<open>None\<close>.\<close>

fun newEventLog_step ::
    "Event list \<times> (u64 \<rightharpoonup> nat) \<times> u64 \<Rightarrow> Event \<Rightarrow> Event list \<times> (u64 \<rightharpoonup> nat) \<times> u64" where
  "newEventLog_step (merged, indexBySequence, revision) event =
     (let sn = ev_sequence_number event;
          revision' = (if revision < sn then sn else revision)
      in case indexBySequence sn of
           Some i \<Rightarrow> (merged[i := event], indexBySequence, revision')
         | None \<Rightarrow> (merged @ [event], indexBySequence(sn \<mapsto> length merged), revision'))"

definition indexBySequence :: "Event list \<Rightarrow> u64 \<rightharpoonup> nat" where
  "indexBySequence merged =
     foldl (\<lambda>m (i, event). m(ev_sequence_number event \<mapsto> i)) Map.empty (enumerate 0 merged)"

definition newEventLog :: "eventLog option \<Rightarrow> Event list \<Rightarrow> eventLog" where
  "newEventLog old newEvents =
     (let revision = (case old of Some l \<Rightarrow> el_revision l | None \<Rightarrow> 0);
          existing = (case old of Some l \<Rightarrow> el_events l | None \<Rightarrow> []);
          (merged, ix, revision') =
            foldl newEventLog_step (existing, indexBySequence existing, revision) newEvents
      in \<lparr>el_revision = revision', el_events = merged\<rparr>)"

definition es_alloc :: "eventLog \<Rightarrow> EventStore \<Rightarrow> eventLog ref \<times> EventStore" where
  "es_alloc l x = (\<lparr>ref_ptr = es_next x, ref_val = l\<rparr>, x\<lparr>es_next := Suc (es_next x)\<rparr>)"

text \<open>
  \<open>writeConditional\<close> between its first \<open>Load\<close> and its one access that publishes: either the
  result is known, or a log is to be published by \<open>LoadOrStore\<close> or \<open>CompareAndSwap\<close>.
\<close>

datatype wc_action =
  WC_return "goerr option" | WC_loadOrStore eventLog | WC_compareAndSwap "eventLog ref" eventLog

definition writeConditional_decide ::
    "Scope \<Rightarrow> string \<Rightarrow> Event list \<Rightarrow> WritePrecondition \<Rightarrow> eventLog ref option \<Rightarrow> wc_action" where
  "writeConditional_decide scope persistenceID events precondition raw =
     (if wp_IsGenesis precondition then
        (case raw of
           Some old \<Rightarrow>
             WC_return (Some (ErrConflict (NewConflictError scope persistenceID precondition
                                             (Some (el_revision (ref_val old))))))
         | None \<Rightarrow> WC_loadOrStore (newEventLog None events))
      else
        (case raw of
           None \<Rightarrow> WC_return (Some (ErrConflict (NewConflictError scope persistenceID precondition None)))
         | Some old \<Rightarrow>
             if el_revision (ref_val old) \<noteq> fst (wp_Revision precondition) then
               WC_return (Some (ErrConflict (NewConflictError scope persistenceID precondition
                                               (Some (el_revision (ref_val old))))))
             else WC_compareAndSwap old (newEventLog (Some (ref_val old)) events)))"

definition writeConditional_publish_genesis ::
    "Scope \<Rightarrow> string \<Rightarrow> WritePrecondition \<Rightarrow> eventLog \<Rightarrow> EventStore \<Rightarrow> goerr option \<times> EventStore" where
  "writeConditional_publish_genesis scope persistenceID precondition newLog x =
     (let key = \<lparr>ek_scope = scope, ek_persistenceID = persistenceID\<rparr>;
          (r, x') = es_alloc newLog x;
          ((actual, loaded), db) = sm_LoadOrStore key r (es_db x')
      in (if loaded then
            Some (ErrConflict (NewConflictError scope persistenceID precondition
                                 (Some (el_revision (ref_val actual)))))
          else None, x'\<lparr>es_db := db\<rparr>))"

text \<open>\<open>Inr\<close> when the swap is made; \<open>Inl\<close> when it fails and the error is still to be built.\<close>

definition writeConditional_publish_swap ::
    "eventStoreKey \<Rightarrow> eventLog ref \<Rightarrow> eventLog \<Rightarrow> EventStore \<Rightarrow> (unit + unit) \<times> EventStore" where
  "writeConditional_publish_swap key old newLog x =
     (let (r, x') = es_alloc newLog x;
          (swapped, db) = sm_CompareAndSwap key old r (es_db x')
      in (if swapped then Inr () else Inl (), x'\<lparr>es_db := db\<rparr>))"

definition writeConditional_swap_failed ::
    "Scope \<Rightarrow> string \<Rightarrow> WritePrecondition \<Rightarrow> EventStore \<Rightarrow> goerr" where
  "writeConditional_swap_failed scope persistenceID precondition x =
     ErrConflict (NewConflictError scope persistenceID precondition
       (map_option (\<lambda>actual. el_revision (ref_val actual))
          (sm_Load (es_db x) \<lparr>ek_scope = scope, ek_persistenceID = persistenceID\<rparr>)))"

definition writeConditional ::
    "Scope \<Rightarrow> string \<Rightarrow> Event list \<Rightarrow> WritePrecondition \<Rightarrow> EventStore \<Rightarrow> goerr option \<times> EventStore" where
  "writeConditional scope persistenceID events precondition x =
     (let key = \<lparr>ek_scope = scope, ek_persistenceID = persistenceID\<rparr> in
      case writeConditional_decide scope persistenceID events precondition (sm_Load (es_db x) key) of
        WC_return err \<Rightarrow> (err, x)
      | WC_loadOrStore newLog \<Rightarrow>
          writeConditional_publish_genesis scope persistenceID precondition newLog x
      | WC_compareAndSwap old newLog \<Rightarrow>
          (case writeConditional_publish_swap key old newLog x of
             (Inr _, x') \<Rightarrow> (None, x')
           | (Inl _, x') \<Rightarrow> (Some (writeConditional_swap_failed scope persistenceID precondition x'), x')))"

text \<open>
  \<open>writeUnconditional\<close>: the grouping of the batch by persistence id in order of first
  occurrence, one attempt for a group, the retry loop (which may run for ever under contention,
  so not returning is \<open>None\<close>), and the loop over the groups.
\<close>

fun group_events ::
    "(string \<rightharpoonup> Event list) \<times> string list \<Rightarrow> Event list \<Rightarrow> (string \<rightharpoonup> Event list) \<times> string list" where
  "group_events (grouped, pids) [] = (grouped, pids)"
| "group_events (grouped, pids) (event # events) =
     (let pid = ev_persistence_id event in
      case grouped pid of
        None \<Rightarrow> group_events (grouped(pid \<mapsto> [event]), pids @ [pid]) events
      | Some es \<Rightarrow> group_events (grouped(pid \<mapsto> es @ [event]), pids) events)"

text \<open>An attempt loads the record, allocates the successor log and publishes it.\<close>

definition wu_publish ::
    "eventStoreKey \<Rightarrow> eventLog ref option \<Rightarrow> Event list \<Rightarrow> EventStore \<Rightarrow> bool \<times> EventStore" where
  "wu_publish key raw grp x =
     (let (r, x') = es_alloc (newEventLog (map_option ref_val raw) grp) x in
      case raw of
        None \<Rightarrow>
          (let ((actual, loaded), db) = sm_LoadOrStore key r (es_db x') in
           (\<not> loaded, x'\<lparr>es_db := db\<rparr>))
      | Some old \<Rightarrow>
          (let (swapped, db) = sm_CompareAndSwap key old r (es_db x') in
           (swapped, x'\<lparr>es_db := db\<rparr>)))"

definition wu_attempt :: "eventStoreKey \<Rightarrow> Event list \<Rightarrow> EventStore \<Rightarrow> bool \<times> EventStore" where
  "wu_attempt key grp x = wu_publish key (sm_Load (es_db x) key) grp x"

partial_function (option) wu_loop ::
    "eventStoreKey \<Rightarrow> Event list \<Rightarrow> EventStore \<Rightarrow> EventStore option" where
  "wu_loop key grp x =
     (let (ok, x') = wu_attempt key grp x in if ok then Some x' else wu_loop key grp x')"

fun wu_groups ::
    "Scope \<Rightarrow> (string \<rightharpoonup> Event list) \<Rightarrow> string list \<Rightarrow> EventStore \<Rightarrow> EventStore option" where
  "wu_groups scope grouped [] x = Some x"
| "wu_groups scope grouped (pid # pids) x =
     (case wu_loop \<lparr>ek_scope = scope, ek_persistenceID = pid\<rparr>
             (case grouped pid of Some es \<Rightarrow> es | None \<Rightarrow> []) x of
        None \<Rightarrow> None
      | Some x' \<Rightarrow> wu_groups scope grouped pids x')"

definition writeUnconditional :: "Scope \<Rightarrow> Event list \<Rightarrow> EventStore \<Rightarrow> EventStore option" where
  "writeUnconditional scope events x =
     (if events = [] then Some x
      else let (grouped, pids) = group_events (Map.empty, []) events
           in wu_groups scope grouped pids x)"

text \<open>\<open>None\<close> is a call that does not return.\<close>

definition es_WriteEvents ::
    "Scope \<Rightarrow> Event list \<Rightarrow> WritePrecondition \<Rightarrow> EventStore \<Rightarrow> (goerr option \<times> EventStore) option" where
  "es_WriteEvents scope events precondition x =
     (if \<not> scope_Valid scope then Some (Some ErrInvalidScope, x)
      else if \<not> wp_Valid precondition then Some (Some ErrInvalidPrecondition, x)
      else if wp_IsUnconditional precondition then
        map_option (Pair None) (writeUnconditional scope events x)
      else case events of
             [] \<Rightarrow> Some (Some ErrPreconditionScope, x)
           | e # es \<Rightarrow>
               if \<exists>event \<in> set es. ev_persistence_id event \<noteq> ev_persistence_id e then
                 Some (Some ErrPreconditionScope, x)
               else Some (writeConditional scope (ev_persistence_id e) events precondition x))"

text \<open>\<open>DeleteEvents\<close>: one attempt (\<open>True\<close> when the loop is left), and the loop.\<close>

definition de_publish ::
    "eventStoreKey \<Rightarrow> eventLog ref option \<Rightarrow> u64 \<Rightarrow> EventStore \<Rightarrow> bool \<times> EventStore" where
  "de_publish key raw toSequenceNumber x =
     (case raw of
        None \<Rightarrow> (True, x)
      | Some old \<Rightarrow>
          (let retained = filter (\<lambda>event. toSequenceNumber < ev_sequence_number event)
                            (el_events (ref_val old)) in
           if length retained = length (el_events (ref_val old)) then (True, x)
           else let (r, x') = es_alloc \<lparr>el_revision = el_revision (ref_val old), el_events = retained\<rparr> x;
                    (swapped, db) = sm_CompareAndSwap key old r (es_db x')
                in (swapped, x'\<lparr>es_db := db\<rparr>)))"

definition de_attempt :: "eventStoreKey \<Rightarrow> u64 \<Rightarrow> EventStore \<Rightarrow> bool \<times> EventStore" where
  "de_attempt key toSequenceNumber x = de_publish key (sm_Load (es_db x) key) toSequenceNumber x"

partial_function (option) de_loop ::
    "eventStoreKey \<Rightarrow> u64 \<Rightarrow> EventStore \<Rightarrow> EventStore option" where
  "de_loop key toSequenceNumber x =
     (let (ok, x') = de_attempt key toSequenceNumber x in
      if ok then Some x' else de_loop key toSequenceNumber x')"

definition es_DeleteEvents ::
    "Scope \<Rightarrow> string \<Rightarrow> u64 \<Rightarrow> EventStore \<Rightarrow> (goerr option \<times> EventStore) option" where
  "es_DeleteEvents scope persistenceID toSequenceNumber x =
     (if \<not> scope_Valid scope then Some (Some ErrInvalidScope, x)
      else map_option (Pair None)
             (de_loop \<lparr>ek_scope = scope, ek_persistenceID = persistenceID\<rparr> toSequenceNumber x))"

text \<open>A slice bound \<open>int(limit)\<close> below zero panics.\<close>

definition slice_panic :: goerr where
  "slice_panic = ErrPanic ''runtime error: slice bounds out of range''"

definition es_ReplayEvents ::
    "Scope \<Rightarrow> string \<Rightarrow> u64 \<Rightarrow> u64 \<Rightarrow> u64 \<Rightarrow> EventStore \<Rightarrow> goerr + Event list" where
  "es_ReplayEvents scope persistenceID fromSequenceNumber toSequenceNumber limit x =
     (if \<not> scope_Valid scope then Inl ErrInvalidScope
      else case sm_Load (es_db x) \<lparr>ek_scope = scope, ek_persistenceID = persistenceID\<rparr> of
             None \<Rightarrow> Inr []
           | Some raw \<Rightarrow>
               (let events = sort_key ev_sequence_number
                      (filter (\<lambda>event. fromSequenceNumber \<le> ev_sequence_number event
                                     \<and> ev_sequence_number event \<le> toSequenceNumber)
                        (el_events (ref_val raw)))
                in if go_int limit < int (length events) then
                     (if go_int limit < 0 then Inl slice_panic
                      else Inr (take (nat (go_int limit)) events))
                   else Inr events))"

fun latest_event :: "Event \<Rightarrow> Event list \<Rightarrow> Event" where
  "latest_event latest [] = latest"
| "latest_event latest (event # events) =
     latest_event (if ev_sequence_number latest < ev_sequence_number event then event else latest) events"

definition es_GetLatestEvent :: "Scope \<Rightarrow> string \<Rightarrow> EventStore \<Rightarrow> goerr + Event option" where
  "es_GetLatestEvent scope persistenceID x =
     (if \<not> scope_Valid scope then Inl ErrInvalidScope
      else case sm_Load (es_db x) \<lparr>ek_scope = scope, ek_persistenceID = persistenceID\<rparr> of
             None \<Rightarrow> Inr None
           | Some raw \<Rightarrow>
               (case el_events (ref_val raw) of
                  [] \<Rightarrow> Inr None
                | e # es \<Rightarrow> Inr (Some (latest_event e es))))"

fun first_after :: "string \<Rightarrow> nat \<Rightarrow> string list \<Rightarrow> nat" where
  "first_after pageToken i [] = 0"
| "first_after pageToken i (key # keys) =
     (if pageToken < key then i else first_after pageToken (Suc i) keys)"

text \<open>\<open>int\<close> addition wraps: the stop is taken on 64 bits and read as signed.\<close>

definition es_PersistenceIDs ::
    "Scope \<Rightarrow> u64 \<Rightarrow> string \<Rightarrow> EventStore \<Rightarrow> goerr + string list \<times> string" where
  "es_PersistenceIDs scope pageSize pageToken x =
     (if \<not> scope_Valid scope then Inl ErrInvalidScope
      else
        (let keys = sort (map (ek_persistenceID \<circ> fst)
                       (filter (\<lambda>kv. scope_Equal (ek_scope (fst kv)) scope) (es_db x)));
             startIndex = (if pageToken \<noteq> [] then first_after pageToken 0 keys else 0);
             stop = go_int (of_nat startIndex + pageSize);
             endIndex = (if int (length keys) < stop then int (length keys) else stop)
         in if endIndex < int startIndex then Inl slice_panic
            else let persistenceIDs = drop startIndex (take (nat endIndex) keys)
                 in Inr (persistenceIDs,
                         if endIndex < int (length keys) \<and> 0 < length persistenceIDs
                         then last persistenceIDs else '''')))"

fun shard_offsets_step :: "(u64 \<rightharpoonup> int) \<Rightarrow> Event \<Rightarrow> (u64 \<rightharpoonup> int)" where
  "shard_offsets_step offsets event =
     (if (case offsets (ev_shard event) of Some t \<Rightarrow> t | None \<Rightarrow> 0) < ev_timestamp event
      then offsets(ev_shard event \<mapsto> ev_timestamp event) else offsets)"

definition es_ShardOffsets :: "EventStore \<Rightarrow> u64 \<rightharpoonup> int" where
  "es_ShardOffsets x =
     foldl (foldl shard_offsets_step) Map.empty (map (\<lambda>kv. el_events (ref_val (snd kv))) (es_db x))"

section \<open>Logs\<close>

text \<open>The abstract journal of a list of events: the event at each sequence number.\<close>

definition ev_map :: "Event list \<Rightarrow> u64 \<rightharpoonup> Event" where
  "ev_map evs = map_of (map (\<lambda>e. (ev_sequence_number e, e)) evs)"

definition ev_override :: "(u64 \<rightharpoonup> Event) \<Rightarrow> Event list \<Rightarrow> u64 \<rightharpoonup> Event" where
  "ev_override j evs = foldl (\<lambda>m e. m(ev_sequence_number e \<mapsto> e)) j evs"

definition rev_advance :: "u64 option \<Rightarrow> Event list \<Rightarrow> u64" where
  "rev_advance r evs = fold max (map ev_sequence_number evs) (case r of Some v \<Rightarrow> v | None \<Rightarrow> 0)"

definition log_ok :: "string \<Rightarrow> eventLog \<Rightarrow> bool" where
  "log_ok pid l \<longleftrightarrow>
     distinct (map ev_sequence_number (el_events l))
     \<and> (\<forall>e \<in> set (el_events l). ev_sequence_number e \<le> el_revision l \<and> ev_persistence_id e = pid)"

definition ix_ok :: "Event list \<Rightarrow> (u64 \<rightharpoonup> nat) \<Rightarrow> bool" where
  "ix_ok merged ix \<longleftrightarrow>
     (\<forall>sn i. ix sn = Some i \<longleftrightarrow> i < length merged \<and> ev_sequence_number (merged ! i) = sn)"

lemma ix_ok_distinct: "ix_ok merged ix \<Longrightarrow> distinct (map ev_sequence_number merged)"
  unfolding ix_ok_def distinct_conv_nth by (metis length_map nth_map option.inject)

lemma indexBySequence_snoc:
  "indexBySequence (xs @ [x]) = (indexBySequence xs)(ev_sequence_number x \<mapsto> length xs)"
  by (simp add: indexBySequence_def enumerate_append_eq)

lemma ix_ok_snoc:
  assumes ok: "ix_ok xs ix" and new: "ev_sequence_number x \<notin> ev_sequence_number ` set xs"
  shows "ix_ok (xs @ [x]) (ix(ev_sequence_number x \<mapsto> length xs))"
  unfolding ix_ok_def
proof (intro allI)
  fix sn i
  have "i < length xs \<Longrightarrow> ev_sequence_number (xs ! i) \<noteq> ev_sequence_number x"
    using new by (metis image_eqI nth_mem)
  moreover have "ix sn = Some i \<longleftrightarrow> i < length xs \<and> ev_sequence_number (xs ! i) = sn"
    using ok by (simp add: ix_ok_def)
  ultimately show "(ix(ev_sequence_number x \<mapsto> length xs)) sn = Some i \<longleftrightarrow>
      i < length (xs @ [x]) \<and> ev_sequence_number ((xs @ [x]) ! i) = sn"
    by (cases "i < length xs"; cases "i = length xs"; cases "sn = ev_sequence_number x")
      (simp_all add: nth_append)
qed

lemma ix_ok_indexBySequence:
  "distinct (map ev_sequence_number merged) \<Longrightarrow> ix_ok merged (indexBySequence merged)"
proof (induction merged rule: rev_induct)
  case Nil
  then show ?case by (simp add: ix_ok_def indexBySequence_def)
next
  case (snoc x xs)
  then have "ix_ok xs (indexBySequence xs)"
    and "ev_sequence_number x \<notin> ev_sequence_number ` set xs" by simp_all
  then show ?case unfolding indexBySequence_snoc by (rule ix_ok_snoc)
qed

lemma ev_map_eq_Some:
  "distinct (map ev_sequence_number evs) \<Longrightarrow>
     ev_map evs sn = Some e \<longleftrightarrow> e \<in> set evs \<and> ev_sequence_number e = sn"
  by (auto simp: ev_map_def map_of_eq_Some_iff o_def)

lemma ev_map_Nil [simp]: "ev_map [] = Map.empty"
  by (simp add: ev_map_def)

lemma ev_map_Cons [simp]: "ev_map (e # evs) = (ev_map evs)(ev_sequence_number e \<mapsto> e)"
  by (simp add: ev_map_def)

lemma dom_ev_map: "dom (ev_map evs) = ev_sequence_number ` set evs"
  by (simp add: ev_map_def dom_map_of_conv_image_fst image_image)

lemma ev_map_snoc:
  "ev_sequence_number e \<notin> ev_sequence_number ` set evs \<Longrightarrow>
     ev_map (evs @ [e]) = (ev_map evs)(ev_sequence_number e \<mapsto> e)"
  by (induction evs) (auto simp: fun_upd_twist)

lemma ev_map_update:
  "i < length evs \<Longrightarrow> ev_sequence_number (evs ! i) = ev_sequence_number e \<Longrightarrow>
     distinct (map ev_sequence_number evs) \<Longrightarrow>
     ev_map (evs[i := e]) = (ev_map evs)(ev_sequence_number e \<mapsto> e)"
proof (induction evs arbitrary: i)
  case (Cons x evs)
  show ?case
  proof (cases i)
    case 0
    with Cons.prems show ?thesis by (simp add: fun_eq_iff)
  next
    case (Suc j)
    with Cons.prems have j: "j < length evs" "ev_sequence_number (evs ! j) = ev_sequence_number e"
      "distinct (map ev_sequence_number evs)" by simp_all
    from Cons.prems(3) j have ne: "ev_sequence_number e \<noteq> ev_sequence_number x"
      by (metis distinct.simps(2) length_map list.simps(9) nth_map nth_mem)
    have "ev_map ((x # evs)[i := e]) = (ev_map (evs[j := e]))(ev_sequence_number x \<mapsto> x)"
      unfolding Suc by (simp only: list_update.simps nat.case ev_map_Cons)
    also have "\<dots> = (ev_map evs)(ev_sequence_number e \<mapsto> e, ev_sequence_number x \<mapsto> x)"
      unfolding Cons.IH [OF j] ..
    also have "\<dots> = (ev_map (x # evs))(ev_sequence_number e \<mapsto> e)"
      unfolding ev_map_Cons by (rule fun_upd_twist [OF ne])
    finally show ?thesis .
  qed
qed simp

lemma ix_ok_update:
  assumes "ix_ok merged ix" and "i < length merged"
    and "ev_sequence_number (merged ! i) = ev_sequence_number e"
  shows "ix_ok (merged[i := e]) ix"
  unfolding ix_ok_def
proof (intro allI)
  fix sn j
  have "j < length merged \<Longrightarrow>
      ev_sequence_number (merged[i := e] ! j) = ev_sequence_number (merged ! j)"
    using assms(2,3) by (cases "j = i") simp_all
  with assms(1) show "ix sn = Some j \<longleftrightarrow>
      j < length (merged[i := e]) \<and> ev_sequence_number (merged[i := e] ! j) = sn"
    unfolding ix_ok_def by auto
qed

lemma newEventLog_step_ok:
  assumes ok: "ix_ok merged ix"
    and st: "newEventLog_step (merged, ix, r) e = (merged', ix', r')"
  shows "ix_ok merged' ix'" "ev_map merged' = (ev_map merged)(ev_sequence_number e \<mapsto> e)"
    "r' = max (ev_sequence_number e) r" "set merged' \<subseteq> insert e (set merged)"
proof -
  show "r' = max (ev_sequence_number e) r"
    using st by (auto simp: Let_def max_def split: option.splits)
  have "ix_ok merged' ix' \<and> ev_map merged' = (ev_map merged)(ev_sequence_number e \<mapsto> e)
      \<and> set merged' \<subseteq> insert e (set merged)"
  proof (cases "ix (ev_sequence_number e)")
    case None
    with st have eq: "merged' = merged @ [e]" "ix' = ix(ev_sequence_number e \<mapsto> length merged)"
      by (simp_all add: Let_def)
    have new: "ev_sequence_number e \<notin> ev_sequence_number ` set merged"
    proof
      assume "ev_sequence_number e \<in> ev_sequence_number ` set merged"
      then obtain i where "i < length merged" "ev_sequence_number (merged ! i) = ev_sequence_number e"
        by (metis imageE in_set_conv_nth)
      with ok have "ix (ev_sequence_number e) = Some i" by (simp add: ix_ok_def)
      with None show False by simp
    qed
    from ix_ok_snoc [OF ok new] ev_map_snoc [OF new] show ?thesis
      unfolding eq by auto
  next
    case (Some i)
    with st have eq: "merged' = merged[i := e]" "ix' = ix" by (simp_all add: Let_def)
    from Some ok have i: "i < length merged" "ev_sequence_number (merged ! i) = ev_sequence_number e"
      unfolding ix_ok_def by blast+
    from ix_ok_update [OF ok i] ev_map_update [OF i ix_ok_distinct [OF ok]] show ?thesis
      unfolding eq using set_update_subset_insert [of merged i e] by blast
  qed
  then show "ix_ok merged' ix'" "ev_map merged' = (ev_map merged)(ev_sequence_number e \<mapsto> e)"
    "set merged' \<subseteq> insert e (set merged)" by blast+
qed

lemma newEventLog_fold_ok:
  assumes "ix_ok merged ix"
    and "foldl newEventLog_step (merged, ix, r) evs = (merged', ix', r')"
  shows "ix_ok merged' ix' \<and> ev_map merged' = ev_override (ev_map merged) evs
    \<and> r' = fold max (map ev_sequence_number evs) r \<and> set merged' \<subseteq> set evs \<union> set merged"
  using assms
proof (induction evs arbitrary: merged ix r)
  case Nil
  then show ?case by (simp add: ev_override_def)
next
  case (Cons e evs)
  obtain m1 ix1 r1 where st: "newEventLog_step (merged, ix, r) e = (m1, ix1, r1)"
    by (metis prod_cases3)
  note one = newEventLog_step_ok [OF Cons.prems(1) st]
  from Cons.prems(2) st have "foldl newEventLog_step (m1, ix1, r1) evs = (merged', ix', r')"
    by (simp del: newEventLog_step.simps)
  note rest = Cons.IH [OF one(1) this]
  moreover have "ev_override (ev_map m1) evs = ev_override (ev_map merged) (e # evs)"
    unfolding ev_override_def one(2) by simp
  ultimately show ?case using one(3,4) by auto
qed

lemma newEventLog_spec:
  assumes "case old of Some l \<Rightarrow> log_ok pid l | None \<Rightarrow> True"
    and "\<forall>e \<in> set evs. ev_persistence_id e = pid"
  defines "l \<equiv> newEventLog old evs"
  shows "log_ok pid l"
    "ev_map (el_events l) = ev_override (case old of Some o' \<Rightarrow> ev_map (el_events o') | None \<Rightarrow> Map.empty) evs"
    "el_revision l = rev_advance (map_option el_revision old) evs"
proof -
  define existing where "existing = (case old of Some o' \<Rightarrow> el_events o' | None \<Rightarrow> [])"
  define r where "r = (case old of Some o' \<Rightarrow> el_revision o' | None \<Rightarrow> 0)"
  obtain merged ix r' where f:
    "foldl newEventLog_step (existing, indexBySequence existing, r) evs = (merged, ix, r')"
    by (metis prod_cases3)
  then have l: "l = \<lparr>el_revision = r', el_events = merged\<rparr>"
    by (simp add: l_def newEventLog_def Let_def existing_def r_def)
  have ex: "distinct (map ev_sequence_number existing)"
    "\<forall>e \<in> set existing. ev_sequence_number e \<le> r \<and> ev_persistence_id e = pid"
    using assms(1) by (auto simp: existing_def r_def log_ok_def split: option.splits)
  from newEventLog_fold_ok [OF ix_ok_indexBySequence [OF ex(1)] f]
  have ok: "ix_ok merged ix" and m: "ev_map merged = ev_override (ev_map existing) evs"
    and rr: "r' = fold max (map ev_sequence_number evs) r" and sub: "set merged \<subseteq> set evs \<union> set existing"
    by auto
  show "ev_map (el_events l) = ev_override (case old of Some o' \<Rightarrow> ev_map (el_events o') | None \<Rightarrow> Map.empty) evs"
    by (cases old) (simp_all add: l m existing_def)
  show "el_revision l = rev_advance (map_option el_revision old) evs"
    by (cases old) (simp_all add: l rr r_def rev_advance_def)
  have "ev_sequence_number e \<le> r'" if "e \<in> set merged" for e
  proof (cases "e \<in> set evs")
    case True
    then show ?thesis unfolding rr by (intro fold_max_ge_mem) simp
  next
    case False
    with that sub ex(2) have "ev_sequence_number e \<le> r" by auto
    also have "r \<le> r'" unfolding rr by (rule fold_max_ge)
    finally show ?thesis .
  qed
  with ix_ok_distinct [OF ok] sub assms(2) ex(2) show "log_ok pid l"
    by (auto simp: log_ok_def l)
qed

end
