(* ===== verification/Events_Contract.thy ===== *)
theory Events_Contract
  imports Events_Store
begin

text \<open>
  What \<open>src/persistence/events_store.go\<close> promises of an events store, as a locale over the
  operations its clients call, and the journal of \<open>src/testkit\<close> as its instance.  The abstract
  state of a record is a journal (the event at each sequence number) and a revision, absent
  before the first commit.
\<close>

section \<open>The contract\<close>

text \<open>The methods of the interface that the actors call.\<close>

record 's EventsStore =
  WriteEvents :: "Scope \<Rightarrow> Event list \<Rightarrow> WritePrecondition \<Rightarrow> 's \<Rightarrow> goerr option \<times> 's"
  DeleteEvents :: "Scope \<Rightarrow> string \<Rightarrow> u64 \<Rightarrow> 's \<Rightarrow> goerr option \<times> 's"
  ReplayEvents :: "Scope \<Rightarrow> string \<Rightarrow> u64 \<Rightarrow> u64 \<Rightarrow> u64 \<Rightarrow> 's \<Rightarrow> goerr + Event list"
  GetLatestEvent :: "Scope \<Rightarrow> string \<Rightarrow> 's \<Rightarrow> goerr + Event option"

definition precondition_holds :: "WritePrecondition \<Rightarrow> u64 option \<Rightarrow> bool" where
  "precondition_holds p r =
     (case wp_mode p of
        preconditionUnconditional \<Rightarrow> True
      | preconditionGenesis \<Rightarrow> r = None
      | preconditionExactRevision \<Rightarrow> r = Some (wp_revision p)
      | preconditionUnspecified \<Rightarrow> False)"

lemma precondition_holds_simps [simp]:
  "precondition_holds Unconditional r" "precondition_holds ExpectGenesis r \<longleftrightarrow> r = None"
  "precondition_holds (ExpectRevision n) r \<longleftrightarrow> r = Some n"
  by (simp_all add: precondition_holds_def wp_defs)

text \<open>The events of a journal in a range, in order, and its last event.\<close>

definition journal_range :: "(u64 \<rightharpoonup> Event) \<Rightarrow> u64 \<Rightarrow> u64 \<Rightarrow> Event list" where
  "journal_range j a b = map (\<lambda>n. the (j n)) (sorted_list_of_set {n \<in> dom j. a \<le> n \<and> n \<le> b})"

definition journal_latest :: "(u64 \<rightharpoonup> Event) \<Rightarrow> Event option" where
  "journal_latest j = (if j = Map.empty then None else j (Max (dom j)))"

text \<open>
  An event every store can give back as it was written: it has a payload, and the text of its
  tenant metadata is valid UTF-8.
\<close>

definition plain_event :: "Event \<Rightarrow> bool" where
  "plain_event e \<longleftrightarrow> ev_event e \<noteq> None \<and> text_metadata (ev_tenant_metadata e)"

text \<open>Sequence numbers that a journal does not hold yet, each used once.\<close>

definition fresh_events :: "(u64 \<rightharpoonup> Event) \<Rightarrow> Event list \<Rightarrow> bool" where
  "fresh_events j evs \<longleftrightarrow>
     distinct (map ev_sequence_number evs) \<and> (\<forall>e \<in> set evs. ev_sequence_number e \<notin> dom j)"

text \<open>
  The laws.  A write that reports success has committed the whole batch; what the record then holds
  is said of fresh sequence numbers only, because the stores differ on the others under
  \<open>Unconditional\<close>: one replaces the event, one keeps it.  A write that reports an error has
  changed nothing.
\<close>

locale events_store =
  fixes api :: "'s EventsStore"
    and inv :: "'s \<Rightarrow> bool"
    and journal :: "'s \<Rightarrow> Scope \<Rightarrow> string \<Rightarrow> u64 \<rightharpoonup> Event"
    and revision :: "'s \<Rightarrow> Scope \<Rightarrow> string \<Rightarrow> u64 option"
  assumes write_ok:
    "\<lbrakk>inv s; wf_scope sc; evs \<noteq> []; \<forall>e \<in> set evs. ev_persistence_id e = pid; list_all plain_event evs;
      WriteEvents api sc evs pre s = (None, s')\<rbrakk> \<Longrightarrow>
       inv s' \<and> precondition_holds pre (revision s sc pid)
       \<and> (fresh_events (journal s sc pid) evs \<longrightarrow>
            journal s' = (journal s)(sc := (journal s sc)(pid := ev_override (journal s sc pid) evs)))
       \<and> revision s' = (revision s)(sc := (revision s sc)(pid \<mapsto> rev_advance (revision s sc pid) evs))"
    and write_err:
    "\<lbrakk>inv s; WriteEvents api sc evs pre s = (Some err, s')\<rbrakk> \<Longrightarrow>
       inv s' \<and> journal s' = journal s \<and> revision s' = revision s"
    and write_conflict:
    "\<lbrakk>inv s; wf_scope sc; evs \<noteq> []; \<forall>e \<in> set evs. ev_persistence_id e = pid; wp_Valid pre;
      \<not> precondition_holds pre (revision s sc pid)\<rbrakk> \<Longrightarrow>
       \<exists>err s'. WriteEvents api sc evs pre s = (Some err, s')
         \<and> (\<forall>c. err = ErrConflict c \<longrightarrow>
              (\<exists>act. c = NewConflictError sc pid pre act \<and> (act = None \<or> act = revision s sc pid)))"
    and delete_ok:
    "\<lbrakk>inv s; wf_scope sc; DeleteEvents api sc pid n s = (None, s')\<rbrakk> \<Longrightarrow>
       inv s' \<and> journal s' = (journal s)(sc := (journal s sc)(pid := journal s sc pid |` {k. n < k}))
       \<and> revision s' = revision s"
    and delete_err:
    "\<lbrakk>inv s; DeleteEvents api sc pid n s = (Some err, s')\<rbrakk> \<Longrightarrow>
       inv s' \<and> journal s' = journal s \<and> revision s' = revision s"
    and replay_ok:
    "\<lbrakk>inv s; wf_scope sc; unat lim < 2 ^ 63; ReplayEvents api sc pid a b lim s = Inr evs\<rbrakk> \<Longrightarrow>
       evs = take (unat lim) (journal_range (journal s sc pid) a b)"
    and latest_ok:
    "\<lbrakk>inv s; wf_scope sc; GetLatestEvent api sc pid s = Inr r\<rbrakk> \<Longrightarrow>
       r = journal_latest (journal s sc pid)"
    and journal_key:
    "\<lbrakk>inv s; journal s sc pid n = Some e\<rbrakk> \<Longrightarrow> ev_sequence_number e = n \<and> ev_persistence_id e = pid"
    and revision_bound:
    "\<lbrakk>inv s; n \<in> dom (journal s sc pid)\<rbrakk> \<Longrightarrow> \<exists>r. revision s sc pid = Some r \<and> n \<le> r"

text \<open>
  What a store behind a network can promise.  It differs in what an error says: a write or a deletion
  that reports one has changed nothing or has done all it was asked to, and the caller cannot tell.
  Only a precondition that does not hold is certain to have changed nothing.
\<close>

locale remote_events_store =
  fixes api :: "'s EventsStore"
    and inv :: "'s \<Rightarrow> bool"
    and journal :: "'s \<Rightarrow> Scope \<Rightarrow> string \<Rightarrow> u64 \<rightharpoonup> Event"
    and revision :: "'s \<Rightarrow> Scope \<Rightarrow> string \<Rightarrow> u64 option"
  assumes write_done:
    "\<lbrakk>inv s; wf_scope sc; evs \<noteq> []; \<forall>e \<in> set evs. ev_persistence_id e = pid; list_all plain_event evs;
      WriteEvents api sc evs pre s = (res, s')\<rbrakk> \<Longrightarrow>
       inv s' \<and> (res \<noteq> None \<and> journal s' = journal s \<and> revision s' = revision s
         \<or> precondition_holds pre (revision s sc pid)
           \<and> (fresh_events (journal s sc pid) evs \<longrightarrow>
                journal s' = (journal s)(sc := (journal s sc)(pid := ev_override (journal s sc pid) evs)))
           \<and> revision s' = (revision s)(sc := (revision s sc)(pid \<mapsto> rev_advance (revision s sc pid) evs)))"
    and write_refused:
    "\<lbrakk>inv s; wf_scope sc; evs \<noteq> []; \<forall>e \<in> set evs. ev_persistence_id e = pid; wp_Valid pre;
      \<not> precondition_holds pre (revision s sc pid)\<rbrakk> \<Longrightarrow>
       \<exists>err s'. WriteEvents api sc evs pre s = (Some err, s') \<and> journal s' = journal s \<and> revision s' = revision s
         \<and> (\<forall>c. err = ErrConflict c \<longrightarrow>
              (\<exists>act. c = NewConflictError sc pid pre act \<and> (act = None \<or> act = revision s sc pid)))"
    and delete_done:
    "\<lbrakk>inv s; wf_scope sc; DeleteEvents api sc pid n s = (res, s')\<rbrakk> \<Longrightarrow>
       inv s' \<and> revision s' = revision s
       \<and> (res \<noteq> None \<and> journal s' = journal s
          \<or> journal s' = (journal s)(sc := (journal s sc)(pid := journal s sc pid |` {k. n < k})))"
    and replay_holds:
    "\<lbrakk>inv s; wf_scope sc; unat lim < 2 ^ 63; ReplayEvents api sc pid a b lim s = Inr evs\<rbrakk> \<Longrightarrow>
       evs = take (unat lim) (journal_range (journal s sc pid) a b)"
    and latest_holds:
    "\<lbrakk>inv s; wf_scope sc; GetLatestEvent api sc pid s = Inr r\<rbrakk> \<Longrightarrow> r = journal_latest (journal s sc pid)"
begin

text \<open>
  A conditional write may be repeated after an error: however the first attempt ended, the batch is
  stored once or not at all, and a repetition that reports success has stored it.
\<close>

lemma retry_commits_once:
  assumes h: "inv s" "wf_scope sc" "evs \<noteq> []" "\<forall>e \<in> set evs. ev_persistence_id e = pid" "list_all plain_event evs"
    and fresh: "fresh_events (journal s sc pid) evs" and valid: "wp_Valid pre"
    and cond: "wp_mode pre = preconditionGenesis
      \<or> wp_mode pre = preconditionExactRevision \<and> wp_revision pre \<noteq> rev_advance (revision s sc pid) evs"
    and first: "WriteEvents api sc evs pre s = (Some err, s1)" and second: "WriteEvents api sc evs pre s1 = (res, s2)"
  shows "res \<noteq> None \<and> journal s2 sc pid = journal s sc pid \<or> journal s2 sc pid = ev_override (journal s sc pid) evs"
proof -
  note d1 = write_done [OF h first]
  then have i1: "inv s1" by blast
  note d2 = write_done [OF i1 h(2-5) second]
  show ?thesis
  proof (cases "journal s1 = journal s \<and> revision s1 = revision s")
    case True
    with d2 fresh show ?thesis by auto
  next
    case False
    with d1 fresh have j: "journal s1 sc pid = ev_override (journal s sc pid) evs"
      and r: "revision s1 sc pid = Some (rev_advance (revision s sc pid) evs)" by auto
    from cond have "\<not> precondition_holds pre (revision s1 sc pid)" by (auto simp: r precondition_holds_def)
    from write_refused [OF i1 h(2-4) valid this] second have "journal s2 = journal s1" by auto
    with j show ?thesis by simp
  qed
qed

end

sublocale events_store \<subseteq> remote: remote_events_store api inv journal revision
proof
  fix s s' sc pid pre res and evs :: "Event list"
  assume h: "inv s" "wf_scope sc" "evs \<noteq> []" "\<forall>e \<in> set evs. ev_persistence_id e = pid" "list_all plain_event evs"
    and w: "WriteEvents api sc evs pre s = (res, s')"
  show "inv s' \<and> (res \<noteq> None \<and> journal s' = journal s \<and> revision s' = revision s
      \<or> precondition_holds pre (revision s sc pid)
        \<and> (fresh_events (journal s sc pid) evs \<longrightarrow>
             journal s' = (journal s)(sc := (journal s sc)(pid := ev_override (journal s sc pid) evs)))
        \<and> revision s' = (revision s)(sc := (revision s sc)(pid \<mapsto> rev_advance (revision s sc pid) evs)))"
  proof (cases res)
    case None
    with write_ok [OF h, of pre s'] w show ?thesis by blast
  next
    case (Some err)
    with write_err [OF h(1), of sc evs pre err s'] w show ?thesis by blast
  qed
next
  fix s sc pid pre and evs :: "Event list"
  assume h: "inv s" "wf_scope sc" "evs \<noteq> []" "\<forall>e \<in> set evs. ev_persistence_id e = pid" "wp_Valid pre"
    "\<not> precondition_holds pre (revision s sc pid)"
  from write_conflict [OF this] write_err [OF h(1)]
  show "\<exists>err s'. WriteEvents api sc evs pre s = (Some err, s') \<and> journal s' = journal s \<and> revision s' = revision s
      \<and> (\<forall>c. err = ErrConflict c \<longrightarrow>
           (\<exists>act. c = NewConflictError sc pid pre act \<and> (act = None \<or> act = revision s sc pid)))"
    by blast
next
  fix s s' sc pid n res
  assume h: "inv s" "wf_scope sc" "DeleteEvents api sc pid n s = (res, s')"
  show "inv s' \<and> revision s' = revision s
    \<and> (res \<noteq> None \<and> journal s' = journal s
       \<or> journal s' = (journal s)(sc := (journal s sc)(pid := journal s sc pid |` {k. n < k})))"
  proof (cases res)
    case None
    with delete_ok [OF h(1,2)] h(3) show ?thesis by blast
  next
    case (Some err)
    with delete_err [OF h(1)] h(3) show ?thesis by blast
  qed
qed (fact replay_ok latest_ok)+

section \<open>The journal of the test kit\<close>

definition es_record :: "EventStore \<Rightarrow> Scope \<Rightarrow> string \<Rightarrow> eventLog option" where
  "es_record x sc pid =
     map_option ref_val (sm_Load (es_db x) \<lparr>ek_scope = sc, ek_persistenceID = pid\<rparr>)"

definition es_journal :: "EventStore \<Rightarrow> Scope \<Rightarrow> string \<Rightarrow> u64 \<rightharpoonup> Event" where
  "es_journal x sc pid =
     (case es_record x sc pid of Some l \<Rightarrow> ev_map (el_events l) | None \<Rightarrow> Map.empty)"

definition es_revision :: "EventStore \<Rightarrow> Scope \<Rightarrow> string \<Rightarrow> u64 option" where
  "es_revision x sc pid = map_option el_revision (es_record x sc pid)"

definition es_ok :: "EventStore \<Rightarrow> bool" where
  "es_ok x \<longleftrightarrow>
     sm_ok (es_db x)
     \<and> (\<forall>k r. sm_Load (es_db x) k = Some r \<longrightarrow>
          log_ok (ek_persistenceID k) (ref_val r) \<and> ref_ptr r < es_next x \<and> wf_scope (ek_scope k))"

text \<open>Publishing a log: a fresh reference to it is stored at the key.\<close>

definition es_publish :: "eventStoreKey \<Rightarrow> eventLog \<Rightarrow> EventStore \<Rightarrow> EventStore" where
  "es_publish key l x =
     x\<lparr>es_db := sm_Store key \<lparr>ref_ptr = es_next x, ref_val = l\<rparr> (es_db x),
       es_next := Suc (es_next x)\<rparr>"

lemma es_ok_New [simp]: "es_ok NewEventsStore"
  by (simp add: es_ok_def NewEventsStore_def)

lemma es_ok_record: "es_ok x \<Longrightarrow> es_record x sc pid = Some l \<Longrightarrow> log_ok pid l"
  by (fastforce simp: es_ok_def es_record_def)

lemma es_ok_publish:
  assumes ok: "es_ok x" and l: "log_ok (ek_persistenceID key) l" and sc: "wf_scope (ek_scope key)"
  shows "es_ok (es_publish key l x)"
  unfolding es_ok_def
proof (intro conjI allI impI)
  show "sm_ok (es_db (es_publish key l x))" using ok by (simp add: es_publish_def es_ok_def)
  fix k r assume "sm_Load (es_db (es_publish key l x)) k = Some r"
  then have "k = key \<and> r = \<lparr>ref_ptr = es_next x, ref_val = l\<rparr> \<or> sm_Load (es_db x) k = Some r"
    by (simp add: es_publish_def split: if_splits)
  with ok l sc show "log_ok (ek_persistenceID k) (ref_val r)"
    "ref_ptr r < es_next (es_publish key l x)" "wf_scope (ek_scope k)"
    by (auto simp: es_ok_def es_publish_def less_Suc_eq)
qed

lemma es_ok_record_scope: "es_ok x \<Longrightarrow> es_record x sc pid = Some l \<Longrightarrow> wf_scope sc"
  by (fastforce simp: es_ok_def es_record_def)

lemma es_record_publish:
  "es_record (es_publish \<lparr>ek_scope = sc, ek_persistenceID = pid\<rparr> l x) =
     (es_record x)(sc := (es_record x sc)(pid \<mapsto> l))"
  by (intro ext) (simp add: es_record_def es_publish_def)

lemma es_journal_publish:
  "es_journal (es_publish \<lparr>ek_scope = sc, ek_persistenceID = pid\<rparr> l x) =
     (es_journal x)(sc := (es_journal x sc)(pid := ev_map (el_events l)))"
  by (intro ext) (simp add: es_journal_def es_record_publish)

lemma es_revision_publish:
  "es_revision (es_publish \<lparr>ek_scope = sc, ek_persistenceID = pid\<rparr> l x) =
     (es_revision x)(sc := (es_revision x sc)(pid \<mapsto> el_revision l))"
  by (intro ext) (simp add: es_revision_def es_record_publish)

section \<open>Every call returns, and what it does\<close>

lemma writeConditional_eq:
  assumes "wp_Valid pre" and "\<not> wp_IsUnconditional pre"
  shows "writeConditional sc pid evs pre x =
    (if precondition_holds pre (es_revision x sc pid)
     then (None, es_publish \<lparr>ek_scope = sc, ek_persistenceID = pid\<rparr>
                   (newEventLog (es_record x sc pid) evs) x)
     else (Some (ErrConflict (NewConflictError sc pid pre (es_revision x sc pid))), x))"
proof -
  from assms consider "wp_mode pre = preconditionGenesis" | "wp_mode pre = preconditionExactRevision"
    by (cases "wp_mode pre") (auto simp: wp_defs)
  then show ?thesis
    by cases
      (auto simp: writeConditional_def writeConditional_decide_def wp_defs precondition_holds_def
        es_revision_def es_record_def writeConditional_publish_genesis_def
        writeConditional_publish_swap_def es_alloc_def es_publish_def Let_def
        split: option.splits)
qed

lemma wu_attempt_eq:
  "wu_attempt key grp x =
     (True, es_publish key (newEventLog (map_option ref_val (sm_Load (es_db x) key)) grp) x)"
  by (auto simp: wu_attempt_def wu_publish_def es_alloc_def es_publish_def Let_def split: option.splits)

lemma wu_loop_eq:
  "wu_loop key grp x =
     Some (es_publish key (newEventLog (map_option ref_val (sm_Load (es_db x) key)) grp) x)"
  by (subst wu_loop.simps) (simp add: wu_attempt_eq)

lemma wu_groups_returns: "\<exists>x'. wu_groups sc grouped pids x = Some x'"
  by (induction sc grouped pids x rule: wu_groups.induct) (auto simp: wu_loop_eq)

definition de_result :: "eventStoreKey \<Rightarrow> u64 \<Rightarrow> EventStore \<Rightarrow> EventStore" where
  "de_result key n x =
     (case sm_Load (es_db x) key of
        None \<Rightarrow> x
      | Some old \<Rightarrow>
          if \<forall>e \<in> set (el_events (ref_val old)). n < ev_sequence_number e then x
          else es_publish key
                 \<lparr>el_revision = el_revision (ref_val old),
                  el_events = filter (\<lambda>e. n < ev_sequence_number e) (el_events (ref_val old))\<rparr> x)"

lemma de_attempt_eq: "de_attempt key n x = (True, de_result key n x)"
  by (auto simp: de_attempt_def de_publish_def de_result_def es_alloc_def es_publish_def Let_def
      filter_id_iff_length split: option.splits)

lemma de_loop_eq: "de_loop key n x = Some (de_result key n x)"
  by (subst de_loop.simps) (simp add: de_attempt_eq)

lemma es_WriteEvents_returns: "\<exists>err x'. es_WriteEvents sc evs pre x = Some (err, x')"
proof -
  have "\<exists>x'. writeUnconditional sc evs x = Some x'"
    by (simp add: writeUnconditional_def split: prod.splits) (metis wu_groups_returns)
  then show ?thesis
    by (cases evs) (auto simp: es_WriteEvents_def intro: prod.exhaust)
qed

lemma es_DeleteEvents_returns: "\<exists>err x'. es_DeleteEvents sc pid n x = Some (err, x')"
  by (simp add: es_DeleteEvents_def de_loop_eq)

text \<open>A batch for one persistence id is one group.\<close>

lemma group_events_same:
  "\<forall>e \<in> set evs. ev_persistence_id e = pid \<Longrightarrow> grouped pid = Some es \<Longrightarrow>
     group_events (grouped, pids) evs = (grouped(pid \<mapsto> es @ evs), pids)"
proof (induction evs arbitrary: grouped es)
  case Nil
  then show ?case by (simp add: map_upd_triv)
next
  case (Cons e evs)
  then show ?case by (simp del: fun_upd_apply add: fun_upd_same)
qed

lemma es_WriteEvents_one:
  assumes sc: "scope_Valid sc" and pre: "wp_Valid pre" and ne: "evs \<noteq> []"
    and pid: "\<forall>e \<in> set evs. ev_persistence_id e = pid"
  shows "es_WriteEvents sc evs pre x =
    Some (if precondition_holds pre (es_revision x sc pid)
          then (None, es_publish \<lparr>ek_scope = sc, ek_persistenceID = pid\<rparr>
                        (newEventLog (es_record x sc pid) evs) x)
          else (Some (ErrConflict (NewConflictError sc pid pre (es_revision x sc pid))), x))"
proof (cases "wp_IsUnconditional pre")
  case True
  from ne obtain e es where evs: "evs = e # es" by (cases evs) auto
  have g: "group_events (Map.empty, []) evs = ([pid \<mapsto> evs], [pid])"
    using pid group_events_same [of es pid "[pid \<mapsto> [e]]" "[e]" "[pid]"] by (simp add: evs)
  have "precondition_holds pre r" for r
    using True by (simp add: precondition_holds_def wp_defs)
  with True g ne sc pre show ?thesis
    by (simp add: es_WriteEvents_def writeUnconditional_def wu_loop_eq es_record_def)
next
  case False
  from ne obtain e es where evs: "evs = e # es" by (cases evs) auto
  with pid have "ev_persistence_id e = pid" "\<not> (\<exists>event \<in> set es. ev_persistence_id event \<noteq> pid)"
    by auto
  with False sc pre show ?thesis
    by (simp add: es_WriteEvents_def evs writeConditional_eq)
qed

lemma es_WriteEvents_err:
  assumes "es_WriteEvents sc evs pre x = Some (Some err, x')"
  shows "x' = x"
proof (cases "scope_Valid sc \<and> wp_Valid pre \<and> \<not> wp_IsUnconditional pre")
  case False
  with assms show ?thesis by (auto simp: es_WriteEvents_def split: if_splits)
next
  case True
  with assms show ?thesis
    by (auto simp: es_WriteEvents_def writeConditional_eq split: if_splits list.splits)
qed

section \<open>Reads\<close>

lemma filter_ev_map:
  "distinct (map ev_sequence_number evs) \<Longrightarrow>
     ev_map (filter (\<lambda>e. P (ev_sequence_number e)) evs) = ev_map evs |` {k. P k}"
proof (induction evs)
  case (Cons e evs)
  then have ih: "ev_map (filter (\<lambda>e. P (ev_sequence_number e)) evs) = ev_map evs |` {k. P k}" by simp
  from Cons.prems have "ev_sequence_number e \<notin> dom (ev_map evs)" by (simp add: dom_ev_map)
  with ih show ?case by (auto simp: restrict_map_def fun_eq_iff)
qed simp

lemma replay_journal_range:
  assumes d: "distinct (map ev_sequence_number evs)"
  shows "sort_key ev_sequence_number
           (filter (\<lambda>e. a \<le> ev_sequence_number e \<and> ev_sequence_number e \<le> b) evs)
         = journal_range (ev_map evs) a b" (is "?l = ?r")
proof (rule map_sorted_distinct_set_unique [of ev_sequence_number])
  let ?D = "{n \<in> dom (ev_map evs). a \<le> n \<and> n \<le> b}"
  have lookup: "the (ev_map evs n) \<in> set evs \<and> ev_sequence_number (the (ev_map evs n)) = n"
    if "n \<in> dom (ev_map evs)" for n
    using that ev_map_eq_Some [OF d] by (metis domD option.sel)
  then have seqs: "map ev_sequence_number ?r = sorted_list_of_set ?D"
    unfolding journal_range_def map_map by (intro map_idI) simp
  show "sorted (map ev_sequence_number ?l)" by simp
  show "sorted (map ev_sequence_number ?r)" "distinct (map ev_sequence_number ?r)"
    by (simp_all add: seqs)
  have dl: "distinct (map ev_sequence_number
      (filter (\<lambda>e. a \<le> ev_sequence_number e \<and> ev_sequence_number e \<le> b) evs))"
    by (rule distinct_map_filter [OF d])
  then show "distinct (map ev_sequence_number ?l)"
    unfolding distinct_map by simp
  have "set ?r = (\<lambda>n. the (ev_map evs n)) ` ?D" by (simp add: journal_range_def)
  also have "\<dots> = {e \<in> set evs. a \<le> ev_sequence_number e \<and> ev_sequence_number e \<le> b}"
  proof (intro equalityI subsetI)
    fix e assume "e \<in> (\<lambda>n. the (ev_map evs n)) ` ?D"
    then obtain n where n: "n \<in> ?D" "e = the (ev_map evs n)" by blast
    with lookup [of n] show "e \<in> {e \<in> set evs. a \<le> ev_sequence_number e \<and> ev_sequence_number e \<le> b}"
      by simp
  next
    fix e assume e: "e \<in> {e \<in> set evs. a \<le> ev_sequence_number e \<and> ev_sequence_number e \<le> b}"
    then have "ev_map evs (ev_sequence_number e) = Some e" by (simp add: ev_map_eq_Some [OF d])
    with e show "e \<in> (\<lambda>n. the (ev_map evs n)) ` ?D"
      by (intro image_eqI [of _ _ "ev_sequence_number e"]) auto
  qed
  finally show s: "set ?l = set ?r" by (simp add: conj_commute)
  show "inj_on ev_sequence_number (set ?l \<union> set ?r)"
    unfolding s [symmetric] using d by (auto simp: distinct_map intro: inj_on_subset)
qed

lemma latest_event_in: "latest_event e es \<in> set (e # es)"
  by (induction e es rule: latest_event.induct) auto

lemma latest_event_ge:
  "ev_sequence_number e \<le> ev_sequence_number (latest_event e es)
   \<and> (\<forall>x \<in> set es. ev_sequence_number x \<le> ev_sequence_number (latest_event e es))"
proof (induction es arbitrary: e)
  case (Cons y es)
  define m where "m = (if ev_sequence_number e < ev_sequence_number y then y else e)"
  have "ev_sequence_number e \<le> ev_sequence_number m" "ev_sequence_number y \<le> ev_sequence_number m"
    by (auto simp: m_def)
  with Cons.IH [of m] show ?case by (auto simp flip: m_def intro: order_trans)
qed simp

lemma latest_journal:
  assumes d: "distinct (map ev_sequence_number (e # es))"
  shows "journal_latest (ev_map (e # es)) = Some (latest_event e es)"
proof -
  let ?m = "latest_event e es"
  have "Max (dom (ev_map (e # es))) = ev_sequence_number ?m"
    unfolding dom_ev_map using latest_event_in [of e es] latest_event_ge [of e es]
    by (intro Max_eqI) auto
  moreover have "ev_map (e # es) (ev_sequence_number ?m) = Some ?m"
    using latest_event_in [of e es] by (simp only: ev_map_eq_Some [OF d] simp_thms)
  moreover from this have "ev_map (e # es) \<noteq> Map.empty" by (metis option.distinct(1))
  ultimately show ?thesis by (simp only: journal_latest_def if_False)
qed

section \<open>The test kit's journal keeps the contract\<close>

text \<open>The interface's methods on \<open>testkit.EventStore\<close>; every call returns.\<close>

definition testkit_EventsStore :: "EventStore EventsStore" where
  "testkit_EventsStore =
     \<lparr>WriteEvents = (\<lambda>sc evs pre x. the (es_WriteEvents sc evs pre x)),
      DeleteEvents = (\<lambda>sc pid n x. the (es_DeleteEvents sc pid n x)),
      ReplayEvents = es_ReplayEvents,
      GetLatestEvent = es_GetLatestEvent\<rparr>"

lemma newEventLog_record:
  fixes sc :: Scope
  assumes "es_ok x" and "\<forall>e \<in> set evs. ev_persistence_id e = pid"
  defines "l \<equiv> newEventLog (es_record x sc pid) evs"
  shows "log_ok pid l" "ev_map (el_events l) = ev_override (es_journal x sc pid) evs"
    "el_revision l = rev_advance (es_revision x sc pid) evs"
proof -
  have "case es_record x sc pid of Some l \<Rightarrow> log_ok pid l | None \<Rightarrow> True"
    using es_ok_record [OF assms(1)] by (auto split: option.splits)
  note spec = newEventLog_spec [OF this assms(2)]
  show "log_ok pid l" unfolding l_def by (rule spec(1))
  show "ev_map (el_events l) = ev_override (es_journal x sc pid) evs"
    unfolding l_def spec(2) es_journal_def by (auto split: option.splits)
  show "el_revision l = rev_advance (es_revision x sc pid) evs"
    unfolding l_def spec(3) es_revision_def ..
qed

lemma es_write_committed:
  fixes sc :: Scope
  assumes "es_ok x" and "\<forall>e \<in> set evs. ev_persistence_id e = pid" and "wf_scope sc"
  defines "x' \<equiv> es_publish \<lparr>ek_scope = sc, ek_persistenceID = pid\<rparr> (newEventLog (es_record x sc pid) evs) x"
  shows "es_ok x'"
    "es_journal x' = (es_journal x)(sc := (es_journal x sc)(pid := ev_override (es_journal x sc pid) evs))"
    "es_revision x' = (es_revision x)(sc := (es_revision x sc)(pid \<mapsto> rev_advance (es_revision x sc pid) evs))"
  using newEventLog_record [OF assms(1,2), of sc] assms(1,3)
  by (simp_all add: x'_def es_ok_publish es_journal_publish es_revision_publish del: fun_upd_apply)

lemma es_delete_committed:
  fixes sc :: Scope and pid :: string and n :: u64
  assumes ok: "es_ok x"
  defines "x' \<equiv> de_result \<lparr>ek_scope = sc, ek_persistenceID = pid\<rparr> n x"
  shows "es_ok x'"
    "es_journal x' = (es_journal x)(sc := (es_journal x sc)(pid := es_journal x sc pid |` {k. n < k}))"
    "es_revision x' = es_revision x"
proof -
  let ?key = "\<lparr>ek_scope = sc, ek_persistenceID = pid\<rparr>"
  have "es_ok x'
    \<and> es_journal x' = (es_journal x)(sc := (es_journal x sc)(pid := es_journal x sc pid |` {k. n < k}))
    \<and> es_revision x' = es_revision x"
  proof (cases "es_record x sc pid")
    case None
    then have "x' = x" by (simp add: x'_def de_result_def es_record_def)
    moreover from None have "es_journal x sc pid = Map.empty" by (simp add: es_journal_def)
    ultimately show ?thesis using ok by (simp add: restrict_map_def fun_upd_idem)
  next
    case (Some l)
    then obtain r where r: "sm_Load (es_db x) ?key = Some r" "ref_val r = l"
      by (auto simp: es_record_def)
    let ?l' = "\<lparr>el_revision = el_revision l, el_events = filter (\<lambda>e. n < ev_sequence_number e) (el_events l)\<rparr>"
    from es_ok_record [OF ok Some] have l: "log_ok pid l" .
    then have d: "distinct (map ev_sequence_number (el_events l))" by (simp add: log_ok_def)
    have j: "ev_map (el_events ?l') = es_journal x sc pid |` {k. n < k}"
      using filter_ev_map [OF d, of "\<lambda>k. n < k"] Some by (simp add: es_journal_def)
    show ?thesis
    proof (cases "\<forall>e \<in> set (el_events l). n < ev_sequence_number e")
      case True
      with r have x': "x' = x" by (simp add: x'_def de_result_def)
      from True have "?l' = l" by simp
      with j Some have "es_journal x sc pid |` {k. n < k} = es_journal x sc pid"
        by (simp add: es_journal_def)
      with x' ok show ?thesis by (simp add: fun_upd_idem)
    next
      case False
      with r have x': "x' = es_publish ?key ?l' x" by (auto simp: x'_def de_result_def)
      have "log_ok pid ?l'" using l by (auto simp: log_ok_def distinct_map_filter)
      with ok x' es_ok_record_scope [OF ok Some] have "es_ok x'" by (simp add: es_ok_publish)
      moreover have "es_revision x' = es_revision x"
        unfolding x' es_revision_publish using Some by (simp add: es_revision_def fun_upd_idem)
      moreover have "es_journal x' = (es_journal x)(sc := (es_journal x sc)(pid := es_journal x sc pid |` {k. n < k}))"
        unfolding x' es_journal_publish j ..
      ultimately show ?thesis by blast
    qed
  qed
  then show "es_ok x'"
    "es_journal x' = (es_journal x)(sc := (es_journal x sc)(pid := es_journal x sc pid |` {k. n < k}))"
    "es_revision x' = es_revision x" by blast+
qed

lemma es_replay_eq:
  assumes "es_ok x" and "scope_Valid sc" and "unat lim < 2 ^ 63"
  shows "es_ReplayEvents sc pid a b lim x = Inr (take (unat lim) (journal_range (es_journal x sc pid) a b))"
proof (cases "es_record x sc pid")
  case None
  then have "es_journal x sc pid = Map.empty" by (simp add: es_journal_def)
  with None assms show ?thesis by (simp add: es_ReplayEvents_def es_record_def journal_range_def)
next
  case (Some l)
  then obtain r where r: "sm_Load (es_db x) \<lparr>ek_scope = sc, ek_persistenceID = pid\<rparr> = Some r" "ref_val r = l"
    by (auto simp: es_record_def)
  from es_ok_record [OF assms(1) Some] have d: "distinct (map ev_sequence_number (el_events l))"
    by (simp add: log_ok_def)
  let ?evs = "journal_range (ev_map (el_events l)) a b"
  have "es_ReplayEvents sc pid a b lim x =
      (if go_int lim < int (length ?evs) then
         (if go_int lim < 0 then Inl slice_panic else Inr (take (nat (go_int lim)) ?evs))
       else Inr ?evs)"
    using assms(2) r unfolding es_ReplayEvents_def Let_def replay_journal_range [OF d, symmetric] by simp
  moreover have "go_int lim < int (length ?evs) \<longleftrightarrow> unat lim < length ?evs" "\<not> go_int lim < 0"
    "nat (go_int lim) = unat lim"
    unfolding go_int_small [OF assms(3)] by (simp_all only: of_nat_less_iff nat_int of_nat_less_0_iff not_False_eq_True)
  ultimately show ?thesis using Some by (simp add: es_journal_def)
qed

lemma es_latest_eq:
  assumes "es_ok x" and "scope_Valid sc"
  shows "es_GetLatestEvent sc pid x = Inr (journal_latest (es_journal x sc pid))"
proof (cases "es_record x sc pid")
  case None
  with assms show ?thesis
    by (simp add: es_GetLatestEvent_def es_record_def es_journal_def journal_latest_def)
next
  case (Some l)
  then obtain r where r: "sm_Load (es_db x) \<lparr>ek_scope = sc, ek_persistenceID = pid\<rparr> = Some r" "ref_val r = l"
    by (auto simp: es_record_def)
  from es_ok_record [OF assms(1) Some] have d: "distinct (map ev_sequence_number (el_events l))"
    by (simp add: log_ok_def)
  show ?thesis
  proof (cases "el_events l")
    case Nil
    with Some r assms show ?thesis
      by (simp add: es_GetLatestEvent_def es_journal_def journal_latest_def)
  next
    case (Cons e es)
    have "es_journal x sc pid = ev_map (e # es)" using Some Cons by (simp add: es_journal_def del: ev_map_Cons)
    with latest_journal [of e es] d Cons r assms show ?thesis
      by (simp add: es_GetLatestEvent_def del: ev_map_Cons)
  qed
qed

interpretation tk: events_store testkit_EventsStore es_ok es_journal es_revision
proof
  fix s s' :: EventStore and sc pid pre and evs :: "Event list"
  assume h: "es_ok s" "wf_scope sc" "evs \<noteq> []" "\<forall>e \<in> set evs. ev_persistence_id e = pid"
    "WriteEvents testkit_EventsStore sc evs pre s = (None, s')" "list_all plain_event evs"
  have v: "scope_Valid sc" using h(2) by (rule wf_scope_Valid)
  have p: "wp_Valid pre"
  proof (rule ccontr)
    assume "\<not> wp_Valid pre"
    with h(5) v show False by (simp add: testkit_EventsStore_def es_WriteEvents_def)
  qed
  from h(5) have "s' = es_publish \<lparr>ek_scope = sc, ek_persistenceID = pid\<rparr> (newEventLog (es_record s sc pid) evs) s"
    "precondition_holds pre (es_revision s sc pid)"
    using es_WriteEvents_one [OF v p h(3,4), of s] by (auto simp: testkit_EventsStore_def split: if_splits)
  with es_write_committed [OF h(1,4,2)]
  show "es_ok s' \<and> precondition_holds pre (es_revision s sc pid)
    \<and> (fresh_events (es_journal s sc pid) evs \<longrightarrow>
         es_journal s' = (es_journal s)(sc := (es_journal s sc)(pid := ev_override (es_journal s sc pid) evs)))
    \<and> es_revision s' = (es_revision s)(sc := (es_revision s sc)(pid \<mapsto> rev_advance (es_revision s sc pid) evs))"
    by simp
next
  fix s s' :: EventStore and sc pre err and evs :: "Event list"
  assume h: "es_ok s" "WriteEvents testkit_EventsStore sc evs pre s = (Some err, s')"
  obtain e x where w: "es_WriteEvents sc evs pre s = Some (e, x)" using es_WriteEvents_returns by blast
  with h(2) have "es_WriteEvents sc evs pre s = Some (Some err, s')" by (simp add: testkit_EventsStore_def)
  then have "s' = s" by (rule es_WriteEvents_err)
  with h(1) show "es_ok s' \<and> es_journal s' = es_journal s \<and> es_revision s' = es_revision s" by simp
next
  fix s :: EventStore and sc pid pre and evs :: "Event list"
  assume h: "es_ok s" "wf_scope sc" "evs \<noteq> []" "\<forall>e \<in> set evs. ev_persistence_id e = pid" "wp_Valid pre"
    "\<not> precondition_holds pre (es_revision s sc pid)"
  then show "\<exists>err s'. WriteEvents testkit_EventsStore sc evs pre s = (Some err, s')
      \<and> (\<forall>c. err = ErrConflict c \<longrightarrow>
           (\<exists>act. c = NewConflictError sc pid pre act \<and> (act = None \<or> act = es_revision s sc pid)))"
    using es_WriteEvents_one [OF wf_scope_Valid [OF h(2)] h(5,3,4), of s]
    by (auto simp: testkit_EventsStore_def)
next
  fix s s' :: EventStore and sc pid n
  assume h: "es_ok s" "wf_scope sc" "DeleteEvents testkit_EventsStore sc pid n s = (None, s')"
  then have "s' = de_result \<lparr>ek_scope = sc, ek_persistenceID = pid\<rparr> n s"
    by (simp add: testkit_EventsStore_def es_DeleteEvents_def de_loop_eq wf_scope_Valid)
  with es_delete_committed [OF h(1), of sc pid n]
  show "es_ok s' \<and> es_journal s' = (es_journal s)(sc := (es_journal s sc)(pid := es_journal s sc pid |` {k. n < k}))
    \<and> es_revision s' = es_revision s" by simp
next
  fix s s' :: EventStore and sc pid n err
  assume "es_ok s" "DeleteEvents testkit_EventsStore sc pid n s = (Some err, s')"
  then show "es_ok s' \<and> es_journal s' = es_journal s \<and> es_revision s' = es_revision s"
    by (auto simp: testkit_EventsStore_def es_DeleteEvents_def de_loop_eq split: if_splits)
next
  fix s :: EventStore and sc pid a b lim and evs :: "Event list"
  assume "es_ok s" "wf_scope sc" "unat lim < 2 ^ 63" "ReplayEvents testkit_EventsStore sc pid a b lim s = Inr evs"
  then show "evs = take (unat lim) (journal_range (es_journal s sc pid) a b)"
    by (simp add: testkit_EventsStore_def es_replay_eq wf_scope_Valid)
next
  fix s :: EventStore and sc pid r
  assume "es_ok s" "wf_scope sc" "GetLatestEvent testkit_EventsStore sc pid s = Inr r"
  then show "r = journal_latest (es_journal s sc pid)"
    by (simp add: testkit_EventsStore_def es_latest_eq wf_scope_Valid)
next
  fix s :: EventStore and sc pid n and e :: Event
  assume h: "es_ok s" "es_journal s sc pid n = Some e"
  then obtain l where l: "es_record s sc pid = Some l" "ev_map (el_events l) n = Some e"
    by (auto simp: es_journal_def split: option.splits)
  from es_ok_record [OF h(1) l(1)] l(2) show "ev_sequence_number e = n \<and> ev_persistence_id e = pid"
    by (auto simp: log_ok_def ev_map_eq_Some)
next
  fix s :: EventStore and sc pid n
  assume h: "es_ok s" "n \<in> dom (es_journal s sc pid)"
  then obtain l where l: "es_record s sc pid = Some l" "n \<in> dom (ev_map (el_events l))"
    by (auto simp: es_journal_def split: option.splits)
  with es_ok_record [OF h(1) l(1)] show "\<exists>r. es_revision s sc pid = Some r \<and> n \<le> r"
    by (auto simp: es_revision_def log_ok_def dom_ev_map)
qed

section \<open>Properties of the journal\<close>

text \<open>
  C20. A batch for one persistence id is committed atomically and exactly when its precondition
  holds against the stored revision.  The call always returns; on success the record's journal
  is overridden at the batch's sequence numbers, its revision is the highest sequence number
  ever committed, and no other record of any scope changes; otherwise the store is untouched
  and the conflict carries the scope, the id, the precondition and the actual revision.
\<close>

theorem conditional_write_decides:
  assumes "es_ok x" and "wf_scope sc" and "wp_Valid pre" and "evs \<noteq> []"
    and "\<forall>e \<in> set evs. ev_persistence_id e = pid"
  shows "\<exists>err x'. es_WriteEvents sc evs pre x = Some (err, x') \<and> es_ok x' \<and>
    (if precondition_holds pre (es_revision x sc pid)
     then err = None
       \<and> es_journal x' = (es_journal x)(sc := (es_journal x sc)(pid := ev_override (es_journal x sc pid) evs))
       \<and> es_revision x' =
           (es_revision x)(sc := (es_revision x sc)(pid \<mapsto> rev_advance (es_revision x sc pid) evs))
     else err = Some (ErrConflict (NewConflictError sc pid pre (es_revision x sc pid))) \<and> x' = x)"
  using es_WriteEvents_one [OF wf_scope_Valid [OF assms(2)] assms(3,4,5), of x]
    es_write_committed [OF assms(1,5,2)] assms(1)
  by (simp del: fun_upd_apply)

definition sample_event :: "string \<Rightarrow> u64 \<Rightarrow> Event" where
  "sample_event pid n =
     \<lparr>ev_persistence_id = pid, ev_sequence_number = n, ev_is_deleted = False, ev_event = None,
      ev_timestamp = 0, ev_shard = 0, ev_encryption_key_id = '''', ev_is_encrypted = False,
      ev_tenant_metadata = Map.empty\<rparr>"

lemma sample_event_simps [simp]:
  "ev_persistence_id (sample_event pid n) = pid" "ev_sequence_number (sample_event pid n) = n"
  by (simp_all add: sample_event_def)

lemma es_revision_New [simp]: "es_revision NewEventsStore sc pid = None"
  by (simp add: es_revision_def es_record_def NewEventsStore_def)

theorem conditional_write_decides_witness:
  "\<exists>x'. es_WriteEvents Unscoped [sample_event ''a'' 1] ExpectGenesis NewEventsStore = Some (None, x')
     \<and> es_revision x' Unscoped ''a'' = Some 1"
proof -
  from conditional_write_decides [of NewEventsStore Unscoped ExpectGenesis "[sample_event ''a'' 1]" "''a''"]
  obtain x' where w: "es_WriteEvents Unscoped [sample_event ''a'' 1] ExpectGenesis NewEventsStore = Some (None, x')"
    and c: "es_revision x' = (es_revision NewEventsStore)(Unscoped :=
      (es_revision NewEventsStore Unscoped)(''a'' \<mapsto> rev_advance None [sample_event ''a'' 1]))"
    by (auto simp del: fun_upd_apply)
  from c have "es_revision x' Unscoped ''a'' = Some 1"
    by (simp add: rev_advance_def)
  with w show ?thesis by blast
qed

text \<open>
  C21. Retention deletes exactly the events up to the given sequence number of one record and
  keeps its revision, so that a writer with an outdated expectation cannot win after it.
\<close>

theorem delete_keeps_revision:
  assumes "es_ok x" and "wf_scope sc"
  shows "\<exists>x'. es_DeleteEvents sc pid n x = Some (None, x') \<and> es_ok x' \<and> es_revision x' = es_revision x
    \<and> es_journal x' = (es_journal x)(sc := (es_journal x sc)(pid := es_journal x sc pid |` {k. n < k}))"
  using es_delete_committed [OF assms(1), of sc pid n] wf_scope_Valid [OF assms(2)]
  by (simp add: es_DeleteEvents_def de_loop_eq del: fun_upd_apply)

theorem delete_keeps_revision_witness:
  "\<exists>x'. es_DeleteEvents Unscoped ''a'' 5 NewEventsStore = Some (None, x')
     \<and> es_revision x' = es_revision NewEventsStore"
  using delete_keeps_revision [of NewEventsStore Unscoped "''a''" 5] by auto

end
