(* ===== verification/Events_Enumeration.thy ===== *)
theory Events_Enumeration
  imports Events_Contract
begin

text \<open>
  Two more properties of \<open>src/testkit/eventstore.go\<close>: an unconditional batch over several
  persistence ids, and the pages of \<open>PersistenceIDs\<close>.
\<close>

section \<open>Batches over several persistence ids\<close>

definition events_of :: "string \<Rightarrow> Event list \<Rightarrow> Event list" where
  "events_of pid evs = filter (\<lambda>e. ev_persistence_id e = pid) evs"

lemma events_of_simps [simp]:
  "events_of pid [] = []"
  "events_of pid (e # evs) = (if ev_persistence_id e = pid then e # events_of pid evs else events_of pid evs)"
  by (simp_all add: events_of_def)

lemma events_of_pid: "e \<in> set (events_of pid evs) \<Longrightarrow> ev_persistence_id e = pid"
  by (simp add: events_of_def)

lemma group_events_spec:
  assumes "group_events (g, ps) evs = (g', ps')" and "distinct ps" and "dom g = set ps"
  shows "distinct ps' \<and> dom g' = set ps' \<and> set ps' = set ps \<union> ev_persistence_id ` set evs
    \<and> (\<forall>p. p \<in> set ps' \<longrightarrow> g' p = Some ((case g p of Some es \<Rightarrow> es | None \<Rightarrow> []) @ events_of p evs))"
  using assms
proof (induction evs arbitrary: g ps)
  case Nil
  then have "p \<in> set ps \<Longrightarrow> \<exists>es. g p = Some es" for p by blast
  with Nil show ?case by fastforce
next
  case (Cons e evs)
  let ?p = "ev_persistence_id e"
  define h where "h = g(?p \<mapsto> (case g ?p of Some es \<Rightarrow> es | None \<Rightarrow> []) @ [e])"
  define qs where "qs = (if ?p \<in> set ps then ps else ps @ [?p])"
  have p: "?p \<in> set ps \<longleftrightarrow> g ?p \<noteq> None" using Cons.prems(3) by blast
  from Cons.prems(1) p have gr: "group_events (h, qs) evs = (g', ps')"
    by (cases "g ?p") (simp_all add: Let_def h_def qs_def del: fun_upd_apply)
  have qs: "distinct qs" "dom h = set qs" "set qs = insert ?p (set ps)"
    using Cons.prems(2,3) by (auto simp: qs_def h_def)
  from Cons.IH [OF gr qs(1,2)] have ih: "distinct ps'" "dom g' = set ps'" "set ps' = set qs \<union> ev_persistence_id ` set evs"
    "\<forall>p. p \<in> set ps' \<longrightarrow> g' p = Some ((case h p of Some es \<Rightarrow> es | None \<Rightarrow> []) @ events_of p evs)"
    by simp_all
  have "(case h p of Some es \<Rightarrow> es | None \<Rightarrow> []) @ events_of p evs =
      (case g p of Some es \<Rightarrow> es | None \<Rightarrow> []) @ events_of p (e # evs)" for p
    by (simp add: h_def)
  with ih(4) have "\<forall>p. p \<in> set ps' \<longrightarrow>
      g' p = Some ((case g p of Some es \<Rightarrow> es | None \<Rightarrow> []) @ events_of p (e # evs))" by (simp only: simp_thms)
  moreover have "set ps' = set ps \<union> ev_persistence_id ` set (e # evs)"
    unfolding ih(3) qs(3) by simp
  ultimately show ?case using ih(1,2) by blast
qed

lemma wu_groups_spec:
  assumes "wu_groups sc g ps x = Some x'" and "es_ok x" and "wf_scope sc" and "distinct ps"
    and "\<forall>p \<in> set ps. g p = Some (events_of p evs)"
  shows "es_ok x'
    \<and> (\<forall>s p. es_journal x' s p =
         (if s = sc \<and> p \<in> set ps then ev_override (es_journal x s p) (events_of p evs) else es_journal x s p))
    \<and> (\<forall>s p. es_revision x' s p =
         (if s = sc \<and> p \<in> set ps then Some (rev_advance (es_revision x s p) (events_of p evs))
          else es_revision x s p))"
  using assms
proof (induction ps arbitrary: x)
  case Nil
  then show ?case by simp
next
  case (Cons p ps)
  define y where "y = es_publish \<lparr>ek_scope = sc, ek_persistenceID = p\<rparr>
    (newEventLog (es_record x sc p) (events_of p evs)) x"
  from Cons.prems(5) have "g p = Some (events_of p evs)" by simp
  with Cons.prems(1) have y: "wu_groups sc g ps y = Some x'"
    by (simp add: wu_loop_eq y_def es_record_def)
  have "\<forall>e \<in> set (events_of p evs). ev_persistence_id e = p" by (simp add: events_of_pid)
  note step = es_write_committed [OF Cons.prems(2) this Cons.prems(3), folded y_def]
  from Cons.IH [OF y step(1) Cons.prems(3)] Cons.prems(4,5) step(2,3) show ?case
    by auto
qed

text \<open>
  An unconditional batch commits every event, each to the record of its own persistence id
  and in the batch's order: the call returns, and each record's journal is overridden by exactly
  its own events, whatever their order in the batch; every other record is unchanged.
\<close>

theorem unconditional_batch_commits_all:
  assumes "es_ok x" and "wf_scope sc"
  shows "\<exists>x'. es_WriteEvents sc evs Unconditional x = Some (None, x') \<and> es_ok x'
    \<and> (\<forall>s p. es_journal x' s p =
         (if s = sc then ev_override (es_journal x s p) (events_of p evs) else es_journal x s p))"
proof (cases "evs = []")
  case True
  with assms show ?thesis
    by (simp add: es_WriteEvents_def wf_scope_Valid writeUnconditional_def ev_override_def)
next
  case False
  obtain g ps where gp: "group_events (Map.empty, []) evs = (g, ps)" by fastforce
  obtain x' where x': "wu_groups sc g ps x = Some x'" using wu_groups_returns by blast
  from group_events_spec [OF gp] have d: "distinct ps" "set ps = ev_persistence_id ` set evs"
    "\<forall>p \<in> set ps. g p = Some (events_of p evs)" by auto
  from wu_groups_spec [OF x' assms d(1,3)]
  have ok: "es_ok x'" and j: "es_journal x' s p =
      (if s = sc \<and> p \<in> set ps then ev_override (es_journal x s p) (events_of p evs) else es_journal x s p)" for s p
    by auto
  have "p \<notin> set ps \<Longrightarrow> events_of p evs = []" for p
    unfolding d(2) events_of_def by (auto simp: filter_empty_conv)
  then have "es_journal x' s p =
      (if s = sc then ev_override (es_journal x s p) (events_of p evs) else es_journal x s p)" for s p
    by (cases "p \<in> set ps") (simp_all add: j ev_override_def)
  moreover have "es_WriteEvents sc evs Unconditional x = Some (None, x')"
    using assms(2) False gp x'
    by (simp add: es_WriteEvents_def wf_scope_Valid writeUnconditional_def)
  ultimately show ?thesis using ok by blast
qed

theorem unconditional_batch_commits_all_witness:
  "\<exists>x'. es_WriteEvents Unscoped [sample_event ''a'' 1, sample_event ''b'' 1, sample_event ''a'' 2]
          Unconditional NewEventsStore = Some (None, x')
     \<and> es_journal x' Unscoped ''a'' 2 = Some (sample_event ''a'' 2)"
  using unconditional_batch_commits_all
    [of NewEventsStore Unscoped "[sample_event ''a'' 1, sample_event ''b'' 1, sample_event ''a'' 2]"]
  by (auto simp: ev_override_def)

section \<open>Enumeration of the persistence ids\<close>

definition scope_keys :: "Scope \<Rightarrow> EventStore \<Rightarrow> string list" where
  "scope_keys sc x =
     sort (map (ek_persistenceID \<circ> fst) (filter (\<lambda>kv. scope_Equal (ek_scope (fst kv)) sc) (es_db x)))"

lemma es_db_scope_wf: "es_ok x \<Longrightarrow> kv \<in> set (es_db x) \<Longrightarrow> wf_scope (ek_scope (fst kv))"
  by (cases kv) (auto simp: es_ok_def sm_Load_mem)

lemma scope_keys_set: 
  assumes "es_ok x" and "wf_scope sc"
  shows "set (scope_keys sc x) = {pid. es_record x sc pid \<noteq> None}"
proof -
  have eq: "scope_Equal (ek_scope (fst kv)) sc \<longleftrightarrow> ek_scope (fst kv) = sc" if "kv \<in> set (es_db x)" for kv
    using scope_Equal_iff [OF es_db_scope_wf [OF assms(1) that] assms(2)] .
  have "pid \<in> set (scope_keys sc x) \<longleftrightarrow> es_record x sc pid \<noteq> None" for pid
  proof
    assume "pid \<in> set (scope_keys sc x)"
    then obtain kv where kv: "kv \<in> set (es_db x)" "ek_persistenceID (fst kv) = pid" "ek_scope (fst kv) = sc"
      using eq by (auto simp: scope_keys_def)
    then have "fst kv = \<lparr>ek_scope = sc, ek_persistenceID = pid\<rparr>" by simp
    with kv(1) have "sm_Load (es_db x) \<lparr>ek_scope = sc, ek_persistenceID = pid\<rparr> = Some (snd kv)"
      using assms(1) by (metis es_ok_def prod.collapse sm_Load_mem)
    then show "es_record x sc pid \<noteq> None" by (simp add: es_record_def)
  next
    assume "es_record x sc pid \<noteq> None"
    then obtain r where "(\<lparr>ek_scope = sc, ek_persistenceID = pid\<rparr>, r) \<in> set (es_db x)"
      using assms(1) by (auto simp: es_record_def es_ok_def sm_Load_mem)
    with eq [OF this] show "pid \<in> set (scope_keys sc x)"
      unfolding scope_keys_def by force
  qed
  then show ?thesis by blast
qed

lemma scope_keys_distinct:
  assumes "es_ok x" and "wf_scope sc"
  shows "distinct (scope_keys sc x)"
proof -
  let ?kvs = "filter (\<lambda>kv. scope_Equal (ek_scope (fst kv)) sc) (es_db x)"
  have eq: "ek_scope (fst kv) = sc" if "kv \<in> set ?kvs" for kv
  proof -
    from that have "kv \<in> set (es_db x)" and e: "scope_Equal (ek_scope (fst kv)) sc" by auto
    from scope_Equal_iff [OF es_db_scope_wf [OF assms(1) this(1)] assms(2)] e show ?thesis by simp
  qed
  have "distinct (map fst ?kvs)"
    using assms(1) by (simp add: es_ok_def sm_ok_def distinct_map_filter)
  moreover have "inj_on ek_persistenceID (set (map fst ?kvs))"
  proof (rule inj_onI)
    fix k k' assume "k \<in> set (map fst ?kvs)" "k' \<in> set (map fst ?kvs)"
      and p: "ek_persistenceID k = ek_persistenceID k'"
    then obtain kv kv' where "kv \<in> set ?kvs" "k = fst kv" "kv' \<in> set ?kvs" "k' = fst kv'"
      unfolding set_map by blast
    then have "ek_scope k = sc" "ek_scope k' = sc" using eq by blast+
    with p show "k = k'" by (cases k; cases k') simp
  qed
  ultimately have "distinct (map ek_persistenceID (map fst ?kvs))" by (simp only: distinct_map)
  then show ?thesis by (simp add: scope_keys_def comp_def)
qed

lemma first_after_eq:
  "\<forall>a \<in> set as. \<not> tok < a \<Longrightarrow> tok < b \<Longrightarrow> first_after tok n (as @ b # bs) = n + length as"
  by (induction as arbitrary: n) auto

text \<open>One page, from a token that names the last key of the previous one.\<close>

lemma page_eq:
  assumes ok: "es_ok x" "wf_scope sc" and k: "keys = scope_keys sc x"
    and i: "i < length keys \<or> i = 0" and tok: "tok = (if i = 0 then [] else keys ! (i - 1))"
    and ne: "[] \<notin> set keys" and size: "unat pageSize + length keys < 2 ^ 63" "0 < pageSize"
  shows "es_PersistenceIDs sc pageSize tok x =
    Inr (take (unat pageSize) (drop i keys),
         if i + unat pageSize < length keys then keys ! (i + unat pageSize - 1) else [])"
proof -
  let ?n = "unat pageSize"
  have sorted: "sorted keys" "distinct keys"
    using scope_keys_distinct [OF ok] by (simp_all add: k scope_keys_def)
  then have strict: "sorted_wrt (<) keys" by (simp only: strict_sorted_iff)
  have start: "(if tok \<noteq> [] then first_after tok 0 keys else 0) = i"
  proof (cases "i = 0")
    case False
    with i have il: "i < length keys" by simp
    then have split: "keys = take i keys @ keys ! i # drop (Suc i) keys"
      by (rule id_take_nth_drop)
    have "keys ! (i - 1) < keys ! i"
      using strict il False by (intro sorted_wrt_nth_less) simp_all
    moreover have "\<forall>a \<in> set (take i keys). \<not> keys ! (i - 1) < a"
    proof
      fix a assume "a \<in> set (take i keys)"
      then obtain j where "j < i" "a = keys ! j" by (auto simp: in_set_conv_nth il)
      with sorted(1) il have "a \<le> keys ! (i - 1)" by (simp add: sorted_nth_mono)
      then show "\<not> keys ! (i - 1) < a" by simp
    qed
    ultimately have "first_after tok 0 (take i keys @ keys ! i # drop (Suc i) keys) = i"
      using first_after_eq [of "take i keys" tok "keys ! i" 0 "drop (Suc i) keys"] il False tok by simp
    moreover have "tok \<noteq> []" using ne tok False il by (metis less_imp_diff_less nth_mem)
    ultimately show ?thesis using split by simp
  qed (simp add: tok)
  have stop: "go_int (of_nat i + pageSize) = int (i + ?n)"
  proof -
    have "i + ?n < 2 ^ 63" using i size by auto
    then have "unat (of_nat i + pageSize :: u64) = i + ?n"
      by (simp add: unat_word_ariths unat_of_nat)
    with \<open>i + ?n < 2 ^ 63\<close> show ?thesis by (simp only: go_int_small)
  qed
  have n: "0 < ?n" using size(2) by (simp add: unat_gt_0 word_neq_0_conv)
  have v: "scope_Valid sc" using ok(2) by (rule wf_scope_Valid)
  let ?e = "min (i + ?n) (length keys)"
  have e: "(if int (length keys) < int (i + ?n) then int (length keys) else int (i + ?n)) = int ?e"
    by (simp only: of_nat_less_iff min_def split: if_splits) auto
  let ?page = "drop i (take ?e keys)"
  have "\<not> int ?e < int i" using i by auto
  with v have page: "es_PersistenceIDs sc pageSize tok x =
      Inr (?page, if ?e < length keys \<and> 0 < length ?page then last ?page else [])"
    unfolding es_PersistenceIDs_def Let_def k [unfolded scope_keys_def, symmetric] start stop e
    by (simp only: if_False if_True not_True_eq_False nat_int of_nat_less_iff)
  have take: "?page = take ?n (drop i keys)"
    by (cases "i + ?n \<le> length keys") (simp_all add: take_drop add.commute min_def)
  show ?thesis
  proof (cases "i + ?n < length keys")
    case True
    with n have "last ?page = keys ! (i + ?n - 1)" by (simp add: last_conv_nth)
    with True n show ?thesis unfolding page take by simp
  next
    case False
    then show ?thesis unfolding page take by simp
  qed
qed

text \<open>
  The loop of a caller: from the empty token, each page's token is passed back until it is
  empty; at most \<open>fuel\<close> pages are read.
\<close>

fun walk_pages :: "nat \<Rightarrow> Scope \<Rightarrow> u64 \<Rightarrow> string \<Rightarrow> EventStore \<Rightarrow> string list option" where
  "walk_pages 0 sc pageSize tok x = None"
| "walk_pages (Suc fuel) sc pageSize tok x =
     (case es_PersistenceIDs sc pageSize tok x of
        Inl err \<Rightarrow> None
      | Inr (ids, nextToken) \<Rightarrow>
          if nextToken = [] then Some ids
          else map_option ((@) ids) (walk_pages fuel sc pageSize nextToken x))"

lemma walk_pages_from:
  assumes ok: "es_ok x" "wf_scope sc" and k: "keys = scope_keys sc x"
    and ne: "[] \<notin> set keys" and size: "unat pageSize + length keys < 2 ^ 63" "0 < pageSize"
  shows "i < length keys \<or> i = 0 \<Longrightarrow> length keys - i < fuel \<Longrightarrow>
    walk_pages fuel sc pageSize (if i = 0 then [] else keys ! (i - 1)) x = Some (drop i keys)"
proof (induction fuel arbitrary: i)
  case (Suc fuel)
  let ?n = "unat pageSize"
  note page = page_eq [OF ok k Suc.prems(1) refl ne size]
  have n: "0 < ?n" using size(2) by (simp add: unat_gt_0 word_neq_0_conv)
  show ?case
  proof (cases "i + ?n < length keys")
    case True
    with n have m: "i + ?n \<noteq> 0" "keys ! (i + ?n - 1) \<in> set keys" by auto
    with ne have "keys ! (i + ?n - 1) \<noteq> []" by metis
    moreover have "walk_pages fuel sc pageSize (keys ! (i + ?n - 1)) x = Some (drop (i + ?n) keys)"
      using Suc.IH [of "i + ?n"] True Suc.prems(2) n m(1) by simp
    ultimately show ?thesis
      using True by (simp add: page) (metis add.commute append_take_drop_id drop_drop)
  next
    case False
    then show ?thesis by (simp add: page)
  qed
qed simp

text \<open>
  C22. Enumeration is complete and exact: for any positive page size, reading pages until the
  token is empty yields every persistence id of the scope exactly once, in order, and none of
  another scope.  (An id that is the empty string would end the walk early, and a page size
  from \<open>2 ^ 63\<close> on is read as a negative number, hence the two side conditions.)
\<close>

theorem pages_list_every_id_once:
  assumes "es_ok x" and "wf_scope sc" and "0 < pageSize"
    and "unat pageSize + length (es_db x) < 2 ^ 63" and "es_record x sc [] = None"
  shows "walk_pages (Suc (length (es_db x))) sc pageSize [] x =
    Some (sorted_list_of_set {pid. es_record x sc pid \<noteq> None})"
proof -
  have len: "length (scope_keys sc x) \<le> length (es_db x)"
    by (simp add: scope_keys_def)
  have "[] \<notin> set (scope_keys sc x)" using assms(5) by (simp add: scope_keys_set [OF assms(1,2)])
  with walk_pages_from [OF assms(1,2) refl, of pageSize 0 "Suc (length (es_db x))"] assms(3,4) len
  have "walk_pages (Suc (length (es_db x))) sc pageSize [] x = Some (scope_keys sc x)"
    by (simp del: walk_pages.simps)
  moreover have "sorted_list_of_set (set (scope_keys sc x)) = scope_keys sc x"
    using scope_keys_distinct [OF assms(1,2)]
    by (simp add: sorted_list_of_set_sort_remdups distinct_remdups_id)
      (simp add: scope_keys_def sort_key_id_if_sorted sorted_sort_key [where f = "\<lambda>a. a", simplified])
  ultimately show ?thesis by (simp add: scope_keys_set [OF assms(1,2)])
qed

definition sample_store :: EventStore where
  "sample_store =
     es_publish \<lparr>ek_scope = Unscoped, ek_persistenceID = ''b''\<rparr> (newEventLog None [sample_event ''b'' 1])
       (es_publish \<lparr>ek_scope = Unscoped, ek_persistenceID = ''a''\<rparr>
          (newEventLog None [sample_event ''a'' 1]) NewEventsStore)"

lemma sample_store_ok: "es_ok sample_store"
  unfolding sample_store_def
  by (intro es_ok_publish es_ok_New newEventLog_spec(1)) simp_all

lemma sample_store_record:
  "es_record sample_store Unscoped pid \<noteq> None \<longleftrightarrow> pid = ''a'' \<or> pid = ''b''"
  by (simp add: sample_store_def es_record_publish) (simp add: es_record_def NewEventsStore_def)

theorem pages_list_every_id_once_witness:
  "walk_pages 3 Unscoped 1 [] sample_store = Some [''a'', ''b'']"
proof -
  have len: "length (es_db sample_store) = 2"
    by (simp add: sample_store_def es_publish_def sm_Store_def NewEventsStore_def)
  have ids: "{pid. es_record sample_store Unscoped pid \<noteq> None} = {''a'', ''b''}"
    unfolding sample_store_record by auto
  have "es_record sample_store Unscoped [] = None" using sample_store_record [of "[]"] by auto
  then have "walk_pages (Suc 2) Unscoped 1 [] sample_store = Some (sorted_list_of_set {''a'', ''b''})"
    using pages_list_every_id_once [of sample_store Unscoped 1] sample_store_ok
    unfolding ids len by simp
  then show ?thesis by (simp add: eval_nat_numeral del: walk_pages.simps)
qed

end
