(* ===== verification/Events_Race.thy ===== *)
theory Events_Race
  imports Events_Contract
begin

text \<open>
  Goroutines that race on the journal of \<open>src/testkit/eventstore.go\<close>.  Each call is cut at its
  accesses of the \<open>sync.Map\<close>, which are the atomic steps: the first \<open>Load\<close>, the
  \<open>LoadOrStore\<close> or \<open>CompareAndSwap\<close> that publishes, and the \<open>Load\<close> that reads the actual
  revision after a failed swap.  The steps of the calls of any number of goroutines interleave.
\<close>

section \<open>Calls and their steps\<close>

text \<open>A conditional write, the write of one group of an unconditional one, a deletion.\<close>

datatype es_call =
  CallConditional Scope string "Event list" WritePrecondition
  | CallGroup Scope string "Event list"
  | CallDelete Scope string u64

datatype es_pc = PC_start | PC_loaded "eventLog ref option" | PC_failed | PC_done "goerr option"

fun call_key :: "es_call \<Rightarrow> eventStoreKey" where
  "call_key (CallConditional sc pid evs pre) = \<lparr>ek_scope = sc, ek_persistenceID = pid\<rparr>"
| "call_key (CallGroup sc pid evs) = \<lparr>ek_scope = sc, ek_persistenceID = pid\<rparr>"
| "call_key (CallDelete sc pid n) = \<lparr>ek_scope = sc, ek_persistenceID = pid\<rparr>"

text \<open>The step of a call after its \<open>Load\<close> returned \<open>raw\<close>, and the next program counter.\<close>

fun call_publish :: "es_call \<Rightarrow> eventLog ref option \<Rightarrow> EventStore \<Rightarrow> es_pc \<times> EventStore" where
  "call_publish (CallConditional sc pid evs pre) raw x =
     (case writeConditional_decide sc pid evs pre raw of
        WC_return err \<Rightarrow> (PC_done err, x)
      | WC_loadOrStore newLog \<Rightarrow>
          (case writeConditional_publish_genesis sc pid pre newLog x of (err, x') \<Rightarrow> (PC_done err, x'))
      | WC_compareAndSwap old newLog \<Rightarrow>
          (case writeConditional_publish_swap \<lparr>ek_scope = sc, ek_persistenceID = pid\<rparr> old newLog x of
             (Inr _, x') \<Rightarrow> (PC_done None, x')
           | (Inl _, x') \<Rightarrow> (PC_failed, x')))"
| "call_publish (CallGroup sc pid evs) raw x =
     (case wu_publish \<lparr>ek_scope = sc, ek_persistenceID = pid\<rparr> raw evs x of
        (ok, x') \<Rightarrow> (if ok then PC_done None else PC_start, x'))"
| "call_publish (CallDelete sc pid n) raw x =
     (case de_publish \<lparr>ek_scope = sc, ek_persistenceID = pid\<rparr> raw n x of
        (ok, x') \<Rightarrow> (if ok then PC_done None else PC_start, x'))"

fun call_failed :: "es_call \<Rightarrow> EventStore \<Rightarrow> goerr option" where
  "call_failed (CallConditional sc pid evs pre) x = Some (writeConditional_swap_failed sc pid pre x)"
| "call_failed (CallGroup sc pid evs) x = None"
| "call_failed (CallDelete sc pid n) x = None"

text \<open>The whole call, run with no other goroutine in between.\<close>

fun call_alone :: "es_call \<Rightarrow> EventStore \<Rightarrow> (goerr option \<times> EventStore) option" where
  "call_alone (CallConditional sc pid evs pre) x = Some (writeConditional sc pid evs pre x)"
| "call_alone (CallGroup sc pid evs) x =
     map_option (Pair None) (wu_loop \<lparr>ek_scope = sc, ek_persistenceID = pid\<rparr> evs x)"
| "call_alone (CallDelete sc pid n) x =
     map_option (Pair None) (de_loop \<lparr>ek_scope = sc, ek_persistenceID = pid\<rparr> n x)"

inductive race_step ::
    "('t \<Rightarrow> es_call) \<Rightarrow> 't \<Rightarrow> EventStore \<times> ('t \<Rightarrow> es_pc) \<Rightarrow> EventStore \<times> ('t \<Rightarrow> es_pc) \<Rightarrow> bool"
  for calls :: "'t \<Rightarrow> es_call" where
  load: "pcs t = PC_start \<Longrightarrow>
    race_step calls t (x, pcs) (x, pcs(t := PC_loaded (sm_Load (es_db x) (call_key (calls t)))))"
| publish: "pcs t = PC_loaded raw \<Longrightarrow> call_publish (calls t) raw x = (pc, x') \<Longrightarrow>
    race_step calls t (x, pcs) (x', pcs(t := pc))"
| failed: "pcs t = PC_failed \<Longrightarrow>
    race_step calls t (x, pcs) (x, pcs(t := PC_done (call_failed (calls t) x)))"

inductive race_reach ::
    "('t \<Rightarrow> es_call) \<Rightarrow> EventStore \<Rightarrow> EventStore \<times> ('t \<Rightarrow> es_pc) \<Rightarrow> bool"
  for calls :: "'t \<Rightarrow> es_call" and x0 :: EventStore where
  init: "race_reach calls x0 (x0, \<lambda>_. PC_start)"
| step: "race_reach calls x0 s \<Longrightarrow> race_step calls t s s' \<Longrightarrow> race_reach calls x0 s'"

inductive_cases race_step_cases [consumes 1, case_names load publish failed]:
  "race_step calls t (x, pcs) s'"

section \<open>References are never confused\<close>

text \<open>
  Addresses are handed out once: a reference held by a goroutine was allocated, and if its
  address is the one stored at the key, it is the stored reference.
\<close>

fun call_ok :: "es_call \<Rightarrow> bool" where
  "call_ok (CallConditional sc pid evs pre) \<longleftrightarrow>
     wf_scope sc \<and> evs \<noteq> [] \<and> (\<forall>e \<in> set evs. ev_persistence_id e = pid)
     \<and> wp_Valid pre \<and> \<not> wp_IsUnconditional pre"
| "call_ok (CallGroup sc pid evs) \<longleftrightarrow> wf_scope sc \<and> (\<forall>e \<in> set evs. ev_persistence_id e = pid)"
| "call_ok (CallDelete sc pid n) \<longleftrightarrow> wf_scope sc"

definition held_ok :: "EventStore \<Rightarrow> eventStoreKey \<Rightarrow> eventLog ref \<Rightarrow> bool" where
  "held_ok x key r \<longleftrightarrow>
     ref_ptr r < es_next x
     \<and> (\<forall>cur. sm_Load (es_db x) key = Some cur \<longrightarrow> ref_ptr cur = ref_ptr r \<longrightarrow> cur = r)"

definition race_ok :: "('t \<Rightarrow> es_call) \<Rightarrow> EventStore \<times> ('t \<Rightarrow> es_pc) \<Rightarrow> bool" where
  "race_ok calls s \<longleftrightarrow>
     es_ok (fst s)
     \<and> (\<forall>t r. snd s t = PC_loaded (Some r) \<longrightarrow> held_ok (fst s) (call_key (calls t)) r)"

text \<open>What a publishing step does to the store: nothing but an allocation, or the whole call.\<close>

definition bump :: "EventStore \<Rightarrow> EventStore \<Rightarrow> bool" where
  "bump x x' \<longleftrightarrow> es_db x' = es_db x \<and> es_next x \<le> es_next x' \<and> es_connected x' = es_connected x"

lemma bump_refl [simp]: "bump x x"
  by (simp add: bump_def)

lemma CAS_held:
  assumes "held_ok x key old"
  shows "sm_CompareAndSwap key old r (es_db x) =
    (if sm_Load (es_db x) key = Some old then (True, sm_Store key r (es_db x)) else (False, es_db x))"
  using assms by (auto simp: sm_CompareAndSwap_def held_ok_def split: option.splits)

lemma call_publish_conditional:
  assumes held: "\<And>r. raw = Some r \<Longrightarrow> held_ok x \<lparr>ek_scope = sc, ek_persistenceID = pid\<rparr> r"
    and ok: "wp_Valid pre" "\<not> wp_IsUnconditional pre"
    and step: "call_publish (CallConditional sc pid evs pre) raw x = (pc, x')"
  shows "(bump x x' \<and> pc \<noteq> PC_done None \<and> pc \<noteq> PC_start)
    \<or> (pc = PC_done None \<and> call_alone (CallConditional sc pid evs pre) x = Some (None, x'))"
proof -
  let ?key = "\<lparr>ek_scope = sc, ek_persistenceID = pid\<rparr>"
  have cas: "raw = Some old \<Longrightarrow> sm_CompareAndSwap ?key old r (es_db x) =
    (if sm_Load (es_db x) ?key = Some old then (True, sm_Store ?key r (es_db x)) else (False, es_db x))" for old r
    using held CAS_held by blast
  show ?thesis
    using step cas
    by (auto simp: writeConditional_decide_def writeConditional_def bump_def es_alloc_def Let_def
        writeConditional_publish_genesis_def writeConditional_publish_swap_def sm_LoadOrStore_def
        split: if_splits option.splits)
qed

lemma call_publish_group:
  assumes held: "\<And>r. raw = Some r \<Longrightarrow> held_ok x \<lparr>ek_scope = sc, ek_persistenceID = pid\<rparr> r"
    and step: "call_publish (CallGroup sc pid evs) raw x = (pc, x')"
  shows "(bump x x' \<and> pc = PC_start)
    \<or> (pc = PC_done None \<and> call_alone (CallGroup sc pid evs) x = Some (None, x'))"
proof -
  let ?key = "\<lparr>ek_scope = sc, ek_persistenceID = pid\<rparr>"
  have cas: "raw = Some old \<Longrightarrow> sm_CompareAndSwap ?key old r (es_db x) =
    (if sm_Load (es_db x) ?key = Some old then (True, sm_Store ?key r (es_db x)) else (False, es_db x))" for old r
    using held CAS_held by blast
  show ?thesis
    using step cas
    by (auto simp: wu_publish_def wu_loop_eq bump_def es_alloc_def es_publish_def Let_def
        sm_LoadOrStore_def split: if_splits option.splits)
qed

lemma call_publish_delete:
  assumes held: "\<And>r. raw = Some r \<Longrightarrow> held_ok x \<lparr>ek_scope = sc, ek_persistenceID = pid\<rparr> r"
    and step: "call_publish (CallDelete sc pid n) raw x = (pc, x')"
  shows "(bump x x' \<and> (pc = PC_start \<or> pc = PC_done None))
    \<or> (pc = PC_done None \<and> call_alone (CallDelete sc pid n) x = Some (None, x'))"
proof -
  let ?key = "\<lparr>ek_scope = sc, ek_persistenceID = pid\<rparr>"
  have cas: "raw = Some old \<Longrightarrow> sm_CompareAndSwap ?key old r (es_db x) =
    (if sm_Load (es_db x) ?key = Some old then (True, sm_Store ?key r (es_db x)) else (False, es_db x))" for old r
    using held CAS_held by blast
  show ?thesis
  proof (cases raw)
    case None
    with step show ?thesis by (simp add: de_publish_def)
  next
    case (Some old)
    show ?thesis
    proof (cases "\<forall>e \<in> set (el_events (ref_val old)). n < ev_sequence_number e")
      case True
      with Some step show ?thesis by (simp add: de_publish_def Let_def)
    next
      case False
      have len: "length (filter (\<lambda>e. n < ev_sequence_number e) (el_events (ref_val old))) \<noteq> length (el_events (ref_val old))"
        using False by (simp only: filter_id_iff_length not_False_eq_True)
      show ?thesis
        using step cas [OF Some] Some len False
        by (auto simp: de_publish_def de_loop_eq de_result_def es_alloc_def es_publish_def bump_def Let_def
            split: if_splits)
    qed
  qed
qed

lemma call_publish_cases:
  assumes "\<And>r. raw = Some r \<Longrightarrow> held_ok x (call_key c) r" and "call_ok c"
    and "call_publish c raw x = (pc, x')"
  shows "bump x x' \<or> (pc = PC_done None \<and> call_alone c x = Some (None, x'))"
proof (cases c)
  case (CallConditional sc pid evs pre)
  with call_publish_conditional [of raw x sc pid pre evs pc x'] assms show ?thesis by auto
next
  case (CallGroup sc pid evs)
  with call_publish_group [of raw x sc pid evs pc x'] assms show ?thesis by auto
next
  case (CallDelete sc pid n)
  with call_publish_delete [of raw x sc pid n pc x'] assms show ?thesis by auto
qed

text \<open>A call that is run alone keeps the store well formed and never lowers a revision.\<close>

definition rev_le :: "EventStore \<Rightarrow> EventStore \<Rightarrow> bool" where
  "rev_le x x' \<longleftrightarrow>
     (\<forall>sc pid r. es_revision x sc pid = Some r \<longrightarrow> (\<exists>r'. es_revision x' sc pid = Some r' \<and> r \<le> r'))"

lemma rev_advance_ge: "(case r of Some v \<Rightarrow> v | None \<Rightarrow> 0) \<le> rev_advance r evs"
  unfolding rev_advance_def by (rule fold_max_ge)

lemma rev_advance_mem: "e \<in> set evs \<Longrightarrow> ev_sequence_number e \<le> rev_advance r evs"
  unfolding rev_advance_def by (rule fold_max_ge_mem) simp

lemma rev_le_write:
  "es_revision x' = (es_revision x)(sc := (es_revision x sc)(pid \<mapsto> rev_advance (es_revision x sc pid) evs))
    \<Longrightarrow> rev_le x x'"
  unfolding rev_le_def by (auto) (metis option.case(2) rev_advance_ge)

lemma held_ok_publish: "held_ok x key r \<Longrightarrow> held_ok (es_publish key' l x) key r"
  by (auto simp: held_ok_def es_publish_def split: if_splits)

lemma bump_facts:
  assumes "bump x x'" and "es_ok x"
  shows "es_ok x'" "held_ok x key r \<Longrightarrow> held_ok x' key r" "es_record x' = es_record x" "rev_le x x'"
proof -
  show rec: "es_record x' = es_record x" using assms(1) by (simp add: bump_def es_record_def fun_eq_iff)
  show "es_ok x'" using assms unfolding bump_def es_ok_def by (metis order_less_le_trans)
  show "held_ok x key r \<Longrightarrow> held_ok x' key r" using assms(1) by (auto simp: bump_def held_ok_def)
  show "rev_le x x'" unfolding rev_le_def es_revision_def rec by blast
qed

lemma alone_facts:
  assumes ok: "es_ok x" and c: "call_ok c" and alone: "call_alone c x = Some (None, x')"
  shows "es_ok x' \<and> (\<forall>key r. held_ok x key r \<longrightarrow> held_ok x' key r) \<and> rev_le x x'"
proof (cases c)
  case (CallConditional sc pid evs pre)
  with c alone have x': "x' = es_publish \<lparr>ek_scope = sc, ek_persistenceID = pid\<rparr> (newEventLog (es_record x sc pid) evs) x"
    by (auto simp: writeConditional_eq split: if_splits)
  from CallConditional c es_write_committed [OF ok, of evs pid sc] x' show ?thesis
    by (simp add: held_ok_publish rev_le_write del: fun_upd_apply)
next
  case (CallGroup sc pid evs)
  with alone have x': "x' = es_publish \<lparr>ek_scope = sc, ek_persistenceID = pid\<rparr> (newEventLog (es_record x sc pid) evs) x"
    by (simp add: wu_loop_eq es_record_def)
  from CallGroup c es_write_committed [OF ok, of evs pid sc] x' show ?thesis
    by (simp add: held_ok_publish rev_le_write del: fun_upd_apply)
next
  case (CallDelete sc pid n)
  with alone have x': "x' = de_result \<lparr>ek_scope = sc, ek_persistenceID = pid\<rparr> n x"
    by (simp add: de_loop_eq)
  have "held_ok x key r \<Longrightarrow> held_ok x' key r" for key r
    unfolding x' de_result_def by (auto simp: held_ok_publish split: option.splits)
  with es_delete_committed [OF ok, of sc pid n] x' show ?thesis
    by (simp add: rev_le_def del: fun_upd_apply)
qed

lemma race_step_effect:
  assumes ok: "race_ok calls (x, pcs)" and calls: "\<And>t. call_ok (calls t)"
    and step: "race_step calls t (x, pcs) (x', pcs')"
  shows "bump x x' \<or> (pcs' t = PC_done None \<and> call_alone (calls t) x = Some (None, x'))"
  using step
proof (cases rule: race_step_cases)
  case (publish raw pc)
  from ok publish have "\<And>r. raw = Some r \<Longrightarrow> held_ok x (call_key (calls t)) r"
    by (simp add: race_ok_def)
  from call_publish_cases [OF this calls] publish show ?thesis by auto
qed auto

lemma race_step_ok:
  assumes ok: "race_ok calls (x, pcs)" and calls: "\<And>t. call_ok (calls t)"
    and step: "race_step calls t (x, pcs) (x', pcs')"
  shows "race_ok calls (x', pcs')" "rev_le x x'"
proof -
  have es: "es_ok x" using ok by (simp add: race_ok_def)
  have keep: "es_ok x' \<and> (\<forall>key r. held_ok x key r \<longrightarrow> held_ok x' key r) \<and> rev_le x x'"
    using race_step_effect [OF ok calls step] bump_facts [OF _ es] alone_facts [OF es calls] by blast
  then show "rev_le x x'" by blast
  have "held_ok x' (call_key (calls u)) r" if "pcs' u = PC_loaded (Some r)" for u r
  proof (cases "u = t")
    case False
    with step have "pcs' u = pcs u" by (auto elim: race_step_cases)
    with that ok keep show ?thesis by (auto simp: race_ok_def)
  next
    case True
    from step have "pcs' t = PC_loaded (Some r) \<Longrightarrow> x' = x \<and> sm_Load (es_db x) (call_key (calls t)) = Some r"
    proof (cases rule: race_step_cases)
      case (publish raw pc)
      then have "pc \<noteq> PC_loaded q" for q
        by (cases "calls t") (auto split: wc_action.splits prod.splits sum.splits if_splits)
      with publish show "pcs' t = PC_loaded (Some r) \<Longrightarrow> x' = x \<and> sm_Load (es_db x) (call_key (calls t)) = Some r"
        by auto
    qed auto
    with that True es show ?thesis by (auto simp: held_ok_def es_ok_def)
  qed
  with keep show "race_ok calls (x', pcs')" by (simp add: race_ok_def)
qed

lemma race_reach_ok:
  assumes "race_reach calls x0 s" and "es_ok x0" and "\<And>t. call_ok (calls t)"
  shows "race_ok calls s"
  using assms(1)
proof induction
  case init
  with assms(2) show ?case by (simp add: race_ok_def)
next
  case (step s t s')
  obtain x pcs x' pcs' where s: "s = (x, pcs)" "s' = (x', pcs')" by (metis surj_pair)
  from step race_step_ok(1) [of calls x pcs t x' pcs', OF _ assms(3)] show ?case by (simp add: s)
qed

section \<open>Properties of the race\<close>

text \<open>
  C23. Commits are atomic: in every interleaving of any calls, a step either leaves every record
  as it is, or it completes its call and does to the store exactly what the whole call does
  when it runs alone on the store as it is at that moment.
\<close>

theorem race_commits_are_atomic:
  assumes "race_reach calls x0 (x, pcs)" and "es_ok x0" and "\<forall>t. call_ok (calls t)"
    and "race_step calls t (x, pcs) (x', pcs')"
  shows "es_record x' = es_record x \<or> (pcs' t = PC_done None \<and> call_alone (calls t) x = Some (None, x'))"
proof -
  have ok: "race_ok calls (x, pcs)" using race_reach_ok assms by blast
  then have "es_ok x" by (simp add: race_ok_def)
  with race_step_effect [OF ok _ assms(4)] assms(3) bump_facts(3) show ?thesis by blast
qed

text \<open>A precondition that can never hold again.\<close>

definition spent :: "WritePrecondition \<Rightarrow> u64 option \<Rightarrow> bool" where
  "spent pre r =
     (case wp_mode pre of
        preconditionGenesis \<Rightarrow> r \<noteq> None
      | preconditionExactRevision \<Rightarrow> (\<exists>n. r = Some n \<and> wp_revision pre < n)
      | _ \<Rightarrow> False)"

lemma spent_not_holds: "spent pre r \<Longrightarrow> \<not> precondition_holds pre r"
  by (auto simp: spent_def precondition_holds_def split: precondition_mode.splits)

lemma spent_rev_le: "spent pre (es_revision x sc pid) \<Longrightarrow> rev_le x x' \<Longrightarrow> spent pre (es_revision x' sc pid)"
  unfolding rev_le_def spent_def
  by (auto split: precondition_mode.splits) (meson order_less_le_trans)+

text \<open>The batch moves the revision past the one it expects.\<close>

definition advances :: "WritePrecondition \<Rightarrow> Event list \<Rightarrow> bool" where
  "advances pre evs \<longleftrightarrow>
     (wp_mode pre = preconditionExactRevision \<longrightarrow> (\<exists>e \<in> set evs. wp_revision pre < ev_sequence_number e))"

lemma spent_by_commit:
  assumes "wp_Valid pre" and "\<not> wp_IsUnconditional pre" and "advances pre evs" and "es_ok x"
    and "\<forall>e \<in> set evs. ev_persistence_id e = pid" and "wf_scope sc"
    and "writeConditional sc pid evs pre x = (None, x')"
  shows "precondition_holds pre (es_revision x sc pid)" "spent pre (es_revision x' sc pid)"
proof -
  from assms(7) writeConditional_eq [OF assms(1,2)]
  have x': "x' = es_publish \<lparr>ek_scope = sc, ek_persistenceID = pid\<rparr> (newEventLog (es_record x sc pid) evs) x"
    and holds: "precondition_holds pre (es_revision x sc pid)" by (auto split: if_splits)
  show "precondition_holds pre (es_revision x sc pid)" by (rule holds)
  have r: "es_revision x' sc pid = Some (rev_advance (es_revision x sc pid) evs)"
    using es_write_committed(3) [OF assms(4,5,6)] unfolding x' by simp
  show "spent pre (es_revision x' sc pid)"
    using assms(1,2,3) rev_advance_mem [of _ evs "es_revision x sc pid"]
    by (cases "wp_mode pre") (auto simp: spent_def r wp_defs advances_def intro: order_less_le_trans)
qed

lemma race_step_wins:
  assumes ok: "race_ok calls (x, pcs)" and calls: "\<And>t. call_ok (calls t)"
    and step: "race_step calls t (x, pcs) (x', pcs')"
    and c: "calls t = CallConditional sc pid evs pre" and won: "pcs' t = PC_done None" "pcs t \<noteq> PC_done None"
  shows "writeConditional sc pid evs pre x = (None, x')"
  using step
proof (cases rule: race_step_cases)
  case (publish raw pc)
  have held: "held_ok x \<lparr>ek_scope = sc, ek_persistenceID = pid\<rparr> r" if "raw = Some r" for r
  proof -
    from ok publish that have "held_ok x (call_key (calls t)) r" by (simp add: race_ok_def)
    then show ?thesis by (simp add: c)
  qed
  have "wp_Valid pre" "\<not> wp_IsUnconditional pre" using calls [of t] by (simp_all add: c)
  from call_publish_conditional [OF held this] publish won show ?thesis by (auto simp: c)
qed (use won c in auto)

lemma race_winner_spent:
  assumes "race_reach calls x0 s" and "es_ok x0" and calls: "\<And>t. call_ok (calls t)"
    and c: "calls t = CallConditional sc pid evs pre" and adv: "advances pre evs"
    and "snd s t = PC_done None"
  shows "spent pre (es_revision (fst s) sc pid)"
  using assms(1,6)
proof induction
  case init
  then show ?case by simp
next
  case (step s u s')
  obtain x pcs x' pcs' where s: "s = (x, pcs)" "s' = (x', pcs')" by (metis surj_pair)
  have ok: "race_ok calls (x, pcs)" using race_reach_ok [OF step.hyps(1) assms(2) calls] s by simp
  then have es: "es_ok x" by (simp add: race_ok_def)
  note st = step.hyps(2) [unfolded s]
  show ?case
  proof (cases "pcs t = PC_done None")
    case True
    with step.IH s have "spent pre (es_revision x sc pid)" by simp
    with spent_rev_le [OF _ race_step_ok(2) [OF ok calls st]] show ?thesis by (simp add: s)
  next
    case False
    with step.prems st s have u: "u = t" by (auto elim: race_step_cases split: if_splits)
    have ck: "wf_scope sc" "\<forall>e \<in> set evs. ev_persistence_id e = pid" "wp_Valid pre" "\<not> wp_IsUnconditional pre"
      using calls [of t] by (simp_all add: c)
    have "writeConditional sc pid evs pre x = (None, x')"
      using race_step_wins [OF ok calls st [unfolded u] c] step.prems False s by simp
    from spent_by_commit(2) [OF ck(3,4) adv es ck(2,1) this] show ?thesis by (simp add: s)
  qed
qed

lemma race_no_second_winner:
  assumes reach: "race_reach calls x0 (y, pcs)" and x0: "es_ok x0" and calls: "\<And>t. call_ok (calls t)"
    and step: "race_step calls v (y, pcs) (y', pcs')"
    and v: "calls v = CallConditional sc pid evs pre" "pcs v \<noteq> PC_done None"
    and w: "calls w = CallConditional sc pid evs' pre" "advances pre evs'" "pcs w = PC_done None"
  shows "pcs' v \<noteq> PC_done None"
proof
  assume new: "pcs' v = PC_done None"
  have ok: "race_ok calls (y, pcs)" by (rule race_reach_ok [OF reach x0 calls])
  have "spent pre (es_revision y sc pid)"
    using race_winner_spent [OF reach x0 calls w(1,2)] w(3) by simp
  moreover have "wp_Valid pre" "\<not> wp_IsUnconditional pre" using calls [of v] by (simp_all add: v(1))
  with writeConditional_eq race_step_wins [OF ok calls step v(1) new v(2)]
  have "precondition_holds pre (es_revision y sc pid)" by (auto split: if_splits)
  ultimately show False using spent_not_holds by blast
qed

lemma race_both_winners:
  assumes "race_reach calls x0 s" and x0: "es_ok x0" and calls: "\<And>t. call_ok (calls t)"
    and t: "calls t = CallConditional sc pid evs pre" "advances pre evs"
    and u: "calls u = CallConditional sc pid evs' pre" "advances pre evs'" and ne: "t \<noteq> u"
  shows "snd s t = PC_done None \<Longrightarrow> snd s u = PC_done None \<Longrightarrow> False"
  using assms(1)
proof induction
  case (step s v s')
  obtain y pcs y' pcs' where s: "s = (y, pcs)" "s' = (y', pcs')" by (metis surj_pair)
  note reach = step.hyps(1) [unfolded s] and st = step.hyps(2) [unfolded s]
  have other: "w \<noteq> v \<Longrightarrow> pcs' w = pcs w" for w using st by (auto elim: race_step_cases)
  have prems: "pcs' t = PC_done None" "pcs' u = PC_done None" using step.prems s by simp_all
  note lose = race_no_second_winner [OF reach x0 calls st]
  consider "v = t" "pcs t \<noteq> PC_done None" | "v = u" "pcs u \<noteq> PC_done None"
    | "pcs t = PC_done None" "pcs u = PC_done None"
    using other [of t] other [of u] prems by metis
  then show False
  proof cases
    case 1
    with other [of u] ne prems have "pcs u = PC_done None" by metis
    with lose [of sc pid evs pre u evs'] 1 t u prems show False by simp
  next
    case 2
    with other [of t] ne prems have "pcs t = PC_done None" by metis
    with lose [of sc pid evs' pre t evs] 2 t u prems show False by simp
  next
    case 3
    with step.IH s show False by simp
  qed
qed simp

text \<open>
  C24. Optimistic concurrency: of any number of goroutines that write one record under the same
  expectation (no prior commit, or an exact revision that their batches move past), at most one
  succeeds, whatever else runs in between and however the steps interleave.
\<close>

theorem race_single_winner:
  assumes "race_reach calls x0 (x, pcs)" and "es_ok x0" and "\<forall>t. call_ok (calls t)"
    and "calls t = CallConditional sc pid evs pre" and "advances pre evs"
    and "calls u = CallConditional sc pid evs' pre" and "advances pre evs'" and "t \<noteq> u"
    and "pcs t = PC_done None"
  shows "pcs u \<noteq> PC_done None"
  using race_both_winners [OF assms(1,2) _ assms(4-8)] assms(3,9) by auto

definition sample_calls :: "bool \<Rightarrow> es_call" where
  "sample_calls b = CallConditional Unscoped ''a'' [sample_event ''a'' (if b then 1 else 2)] ExpectGenesis"

lemma sample_calls_ok: "\<forall>b. call_ok (sample_calls b)"
  by (simp add: sample_calls_def)

lemma sample_calls_step:
  "pcs b = PC_loaded None \<Longrightarrow>
     \<exists>x'. race_step sample_calls b (NewEventsStore, pcs) (x', pcs(b := PC_done None))
       \<and> es_record x' \<noteq> es_record NewEventsStore"
proof -
  assume h: "pcs b = PC_loaded None"
  let ?l = "newEventLog None [sample_event ''a'' (if b then 1 else 2)]"
  let ?x = "es_publish \<lparr>ek_scope = Unscoped, ek_persistenceID = ''a''\<rparr> ?l NewEventsStore"
  have "call_publish (sample_calls b) None NewEventsStore = (PC_done None, ?x)"
    by (simp add: sample_calls_def writeConditional_decide_def writeConditional_publish_genesis_def
        es_alloc_def es_publish_def Let_def wp_defs NewEventsStore_def)
  then have "race_step sample_calls b (NewEventsStore, pcs) (?x, pcs(b := PC_done None))"
    using h by (intro race_step.publish)
  moreover have "es_record ?x Unscoped ''a'' \<noteq> es_record NewEventsStore Unscoped ''a''"
    unfolding es_record_publish by (simp add: es_record_def NewEventsStore_def)
  ultimately show ?thesis by metis
qed

lemma sample_race:
  "\<exists>pcs x'. race_reach sample_calls NewEventsStore (NewEventsStore, pcs) \<and> pcs False = PC_loaded None
     \<and> race_step sample_calls True (NewEventsStore, pcs) (x', pcs(True := PC_done None))
     \<and> es_record x' \<noteq> es_record NewEventsStore"
proof -
  let ?p0 = "\<lambda>_ :: bool. PC_start"
  let ?p1 = "?p0(True := PC_loaded None)"
  let ?p2 = "?p1(False := PC_loaded None)"
  have l: "sm_Load (es_db NewEventsStore) k = None" for k by (simp add: NewEventsStore_def)
  have "race_reach sample_calls NewEventsStore (NewEventsStore, ?p1)"
    using race_step.load [of ?p0 True sample_calls NewEventsStore]
    by (intro race_reach.step [OF race_reach.init]) (simp add: l)
  then have "race_reach sample_calls NewEventsStore (NewEventsStore, ?p2)"
    using race_step.load [of ?p1 False sample_calls NewEventsStore]
    by (elim race_reach.step) (simp add: l)
  moreover obtain x' where "race_step sample_calls True (NewEventsStore, ?p2) (x', ?p2(True := PC_done None))"
    "es_record x' \<noteq> es_record NewEventsStore"
    using sample_calls_step [of ?p2 True] by auto
  ultimately show ?thesis by (intro exI [of _ ?p2] exI [of _ x']) simp
qed

theorem race_commits_are_atomic_witness:
  "\<exists>x'. call_alone (sample_calls True) NewEventsStore = Some (None, x')
     \<and> es_record x' \<noteq> es_record NewEventsStore"
proof -
  obtain pcs x' where r: "race_reach sample_calls NewEventsStore (NewEventsStore, pcs)"
    "race_step sample_calls True (NewEventsStore, pcs) (x', pcs(True := PC_done None))"
    "es_record x' \<noteq> es_record NewEventsStore"
    using sample_race by blast
  from race_commits_are_atomic [OF r(1) es_ok_New sample_calls_ok r(2)] r(3) show ?thesis by auto
qed

theorem race_single_winner_witness:
  "\<exists>x pcs. race_reach sample_calls NewEventsStore (x, pcs) \<and> pcs True = PC_done None
     \<and> pcs False \<noteq> PC_done None"
proof -
  obtain pcs x' where r: "race_reach sample_calls NewEventsStore (NewEventsStore, pcs)"
    "race_step sample_calls True (NewEventsStore, pcs) (x', pcs(True := PC_done None))"
    using sample_race by blast
  let ?q = "pcs(True := PC_done None)"
  have reach: "race_reach sample_calls NewEventsStore (x', ?q)" by (rule race_reach.step [OF r])
  have "?q False \<noteq> PC_done None"
    by (rule race_single_winner [OF reach es_ok_New sample_calls_ok, of True Unscoped "''a''"
          "[sample_event ''a'' 1]" ExpectGenesis False "[sample_event ''a'' 2]"])
      (simp_all add: sample_calls_def advances_def wp_defs)
  with reach show ?thesis by fastforce
qed

end
