(* ===== verification/State_Store.thy ===== *)
theory State_Store
  imports Events_Contract
begin

text \<open>
  The durable-state store of \<open>src/testkit/durablestore.go\<close>, the contract of
  \<open>src/persistence/state_store.go\<close> as a locale, and the former as its instance.  The store
  publishes the message the caller passes, so the caller passes a reference.
\<close>

section \<open>The store\<close>

record durableStoreKey =
  dk_scope :: Scope
  dk_persistenceID :: string

record DurableStore =
  dst_db :: "(durableStoreKey, DurableState ref) sync_map"
  dst_connected :: bool

definition NewDurableStore :: DurableStore where
  "NewDurableStore = \<lparr>dst_db = [], dst_connected = False\<rparr>"

definition dst_Connect :: "DurableStore \<Rightarrow> DurableStore" where
  "dst_Connect d = (if dst_connected d then d else d\<lparr>dst_connected := True\<rparr>)"

definition dst_Disconnect :: "DurableStore \<Rightarrow> DurableStore" where
  "dst_Disconnect d =
     (if \<not> dst_connected d then d
      else d\<lparr>dst_db := sm_RangeDelete (\<lambda>_. True) (dst_db d) (dst_db d), dst_connected := False\<rparr>)"

definition dst_Ping :: "DurableStore \<Rightarrow> DurableStore" where
  "dst_Ping d = (if \<not> dst_connected d then dst_Connect d else d)"

definition ErrDurableNotConnected :: goerr where
  "ErrDurableNotConnected = ErrNew ''durable store is not connected''"

definition dst_WriteState ::
    "Scope \<Rightarrow> DurableState ref \<Rightarrow> WritePrecondition \<Rightarrow> DurableStore \<Rightarrow> goerr option \<times> DurableStore" where
  "dst_WriteState scope state precondition d =
     (if \<not> dst_connected d then (Some ErrDurableNotConnected, d)
      else if \<not> scope_Valid scope then (Some ErrInvalidScope, d)
      else if \<not> wp_Valid precondition then (Some ErrInvalidPrecondition, d)
      else
        (let persistenceID = du_persistence_id (ref_val state);
             key = \<lparr>dk_scope = scope, dk_persistenceID = persistenceID\<rparr>;
             conflict = (\<lambda>act. Some (ErrConflict (NewConflictError scope persistenceID precondition act)))
         in
         if wp_IsUnconditional precondition then (None, d\<lparr>dst_db := sm_Store key state (dst_db d)\<rparr>)
         else
           (let raw = sm_Load (dst_db d) key in
            if wp_IsGenesis precondition then
              (case raw of
                 Some current \<Rightarrow> (conflict (Some (du_version_number (ref_val current))), d)
               | None \<Rightarrow>
                   (let ((actual, loaded), db) = sm_LoadOrStore key state (dst_db d) in
                    if loaded then (conflict (Some (du_version_number (ref_val actual))), d\<lparr>dst_db := db\<rparr>)
                    else (None, d\<lparr>dst_db := db\<rparr>)))
            else
              (case raw of
                 None \<Rightarrow> (conflict None, d)
               | Some current \<Rightarrow>
                   if du_version_number (ref_val current) \<noteq> fst (wp_Revision precondition) then
                     (conflict (Some (du_version_number (ref_val current))), d)
                   else
                     (let (swapped, db) = sm_CompareAndSwap key current state (dst_db d) in
                      if \<not> swapped then
                        (conflict (map_option (\<lambda>a. du_version_number (ref_val a)) (sm_Load db key)),
                         d\<lparr>dst_db := db\<rparr>)
                      else (None, d\<lparr>dst_db := db\<rparr>))))))"

definition dst_GetLatestState :: "Scope \<Rightarrow> string \<Rightarrow> DurableStore \<Rightarrow> goerr + DurableState option" where
  "dst_GetLatestState scope persistenceID d =
     (if \<not> dst_connected d then Inl ErrDurableNotConnected
      else if \<not> scope_Valid scope then Inl ErrInvalidScope
      else case sm_Load (dst_db d) \<lparr>dk_scope = scope, dk_persistenceID = persistenceID\<rparr> of
             None \<Rightarrow> Inr None
           | Some value \<Rightarrow> Inr (Some (ref_val value)))"

section \<open>The contract\<close>

record 's StateStore =
  WriteState :: "Scope \<Rightarrow> DurableState \<Rightarrow> WritePrecondition \<Rightarrow> 's \<Rightarrow> goerr option \<times> 's"
  GetLatestState :: "Scope \<Rightarrow> string \<Rightarrow> 's \<Rightarrow> goerr + DurableState option"

definition version_of :: "DurableState option \<Rightarrow> u64 option" where
  "version_of = map_option du_version_number"

locale state_store =
  fixes api :: "'s StateStore"
    and inv :: "'s \<Rightarrow> bool"
    and stored :: "'s \<Rightarrow> Scope \<Rightarrow> string \<Rightarrow> DurableState option"
  assumes write_ok:
    "\<lbrakk>inv s; wf_scope sc; WriteState api sc st pre s = (None, s')\<rbrakk> \<Longrightarrow>
       inv s' \<and> precondition_holds pre (version_of (stored s sc (du_persistence_id st)))
       \<and> stored s' = (stored s)(sc := (stored s sc)(du_persistence_id st \<mapsto> st))"
    and write_err:
    "\<lbrakk>inv s; WriteState api sc st pre s = (Some err, s')\<rbrakk> \<Longrightarrow> inv s' \<and> stored s' = stored s"
    and write_conflict:
    "\<lbrakk>inv s; wf_scope sc; wp_Valid pre;
      \<not> precondition_holds pre (version_of (stored s sc (du_persistence_id st)))\<rbrakk> \<Longrightarrow>
       \<exists>act s'. WriteState api sc st pre s =
           (Some (ErrConflict (NewConflictError sc (du_persistence_id st) pre act)), s')
         \<and> (act = None \<or> act = version_of (stored s sc (du_persistence_id st)))"
    and get_ok:
    "\<lbrakk>inv s; wf_scope sc; GetLatestState api sc pid s = Inr r\<rbrakk> \<Longrightarrow> r = stored s sc pid"

text \<open>The methods on \<open>testkit.DurableStore\<close>; the address of the message does not matter here.\<close>

definition testkit_StateStore :: "DurableStore StateStore" where
  "testkit_StateStore =
     \<lparr>WriteState = (\<lambda>sc st. dst_WriteState sc \<lparr>ref_ptr = 0, ref_val = st\<rparr>),
      GetLatestState = dst_GetLatestState\<rparr>"

definition dst_stored :: "DurableStore \<Rightarrow> Scope \<Rightarrow> string \<Rightarrow> DurableState option" where
  "dst_stored d sc pid = map_option ref_val (sm_Load (dst_db d) \<lparr>dk_scope = sc, dk_persistenceID = pid\<rparr>)"

definition dst_ok :: "DurableStore \<Rightarrow> bool" where
  "dst_ok d \<longleftrightarrow> sm_ok (dst_db d) \<and> dst_connected d"

lemma dst_WriteState_eq:
  assumes "dst_connected d" and "scope_Valid sc" and "wp_Valid pre"
  shows "dst_WriteState sc st pre d =
    (let pid = du_persistence_id (ref_val st) in
     if precondition_holds pre (version_of (dst_stored d sc pid))
     then (None, d\<lparr>dst_db := sm_Store \<lparr>dk_scope = sc, dk_persistenceID = pid\<rparr> st (dst_db d)\<rparr>)
     else (Some (ErrConflict (NewConflictError sc pid pre (version_of (dst_stored d sc pid)))), d))"
  using assms
  by (cases "wp_mode pre")
    (auto simp: dst_WriteState_def wp_defs precondition_holds_def version_of_def dst_stored_def Let_def
      split: option.splits)

lemma dst_stored_Store:
  "dst_stored (d\<lparr>dst_db := sm_Store \<lparr>dk_scope = sc, dk_persistenceID = pid\<rparr> st (dst_db d)\<rparr>) =
     (dst_stored d)(sc := (dst_stored d sc)(pid \<mapsto> ref_val st))"
  by (intro ext) (simp add: dst_stored_def)

lemma dst_WriteState_err: "dst_WriteState sc st pre d = (Some err, d') \<Longrightarrow> d' = d"
proof -
  assume h: "dst_WriteState sc st pre d = (Some err, d')"
  show ?thesis
  proof (cases "dst_connected d \<and> scope_Valid sc \<and> wp_Valid pre")
    case True
    with h show ?thesis by (auto simp: dst_WriteState_eq Let_def split: if_splits)
  next
    case False
    with h show ?thesis by (auto simp: dst_WriteState_def split: if_splits)
  qed
qed

lemma dst_WriteState_None:
  "dst_WriteState sc st pre d = (None, d') \<Longrightarrow> dst_connected d \<and> scope_Valid sc \<and> wp_Valid pre"
  by (auto simp: dst_WriteState_def split: if_splits)

interpretation tks: state_store testkit_StateStore dst_ok dst_stored
proof
  fix s s' :: DurableStore and sc pre and st :: DurableState
  assume h: "dst_ok s" "wf_scope sc" "WriteState testkit_StateStore sc st pre s = (None, s')"
  then have w: "dst_WriteState sc \<lparr>ref_ptr = 0, ref_val = st\<rparr> pre s = (None, s')"
    by (simp add: testkit_StateStore_def)
  with dst_WriteState_eq dst_WriteState_None [OF w] h(1)
  show "dst_ok s' \<and> precondition_holds pre (version_of (dst_stored s sc (du_persistence_id st)))
    \<and> dst_stored s' = (dst_stored s)(sc := (dst_stored s sc)(du_persistence_id st \<mapsto> st))"
    by (auto simp: Let_def dst_ok_def dst_stored_Store simp del: fun_upd_apply split: if_splits)
next
  fix s s' :: DurableStore and sc pre err and st :: DurableState
  assume "dst_ok s" "WriteState testkit_StateStore sc st pre s = (Some err, s')"
  then show "dst_ok s' \<and> dst_stored s' = dst_stored s"
    by (auto simp: testkit_StateStore_def dest: dst_WriteState_err)
next
  fix s :: DurableStore and sc pre and st :: DurableState
  assume "dst_ok s" "wf_scope sc" "wp_Valid pre"
    "\<not> precondition_holds pre (version_of (dst_stored s sc (du_persistence_id st)))"
  then show "\<exists>act s'. WriteState testkit_StateStore sc st pre s =
      (Some (ErrConflict (NewConflictError sc (du_persistence_id st) pre act)), s')
      \<and> (act = None \<or> act = version_of (dst_stored s sc (du_persistence_id st)))"
    by (simp add: testkit_StateStore_def dst_WriteState_eq wf_scope_Valid dst_ok_def Let_def) blast
next
  fix s :: DurableStore and sc pid r
  assume "dst_ok s" "wf_scope sc" "GetLatestState testkit_StateStore sc pid s = Inr r"
  then show "r = dst_stored s sc pid"
    by (auto simp: testkit_StateStore_def dst_GetLatestState_def dst_ok_def wf_scope_Valid
        dst_stored_def split: option.splits)
qed

section \<open>Properties\<close>

text \<open>
  C25. A durable-state write is decided by the stored version alone: on a connected store it
  succeeds exactly when its precondition holds against the version number stored under the same
  scope and id, then that record and no other is replaced; otherwise nothing changes and the
  conflict carries the stored version.
\<close>

theorem durable_write_decides:
  assumes "dst_ok d" and "wf_scope sc" and "wp_Valid pre"
  shows "\<exists>err d'. dst_WriteState sc st pre d = (err, d') \<and> dst_ok d' \<and>
    (if precondition_holds pre (version_of (dst_stored d sc (du_persistence_id (ref_val st))))
     then err = None
       \<and> dst_stored d' = (dst_stored d)(sc := (dst_stored d sc)(du_persistence_id (ref_val st) \<mapsto> ref_val st))
     else err = Some (ErrConflict (NewConflictError sc (du_persistence_id (ref_val st)) pre
                  (version_of (dst_stored d sc (du_persistence_id (ref_val st))))))
       \<and> d' = d)"
  using assms
  by (simp add: dst_WriteState_eq wf_scope_Valid dst_ok_def Let_def dst_stored_Store del: fun_upd_apply)

definition sample_state :: "string \<Rightarrow> u64 \<Rightarrow> DurableState" where
  "sample_state pid v =
     \<lparr>du_persistence_id = pid, du_version_number = v, du_resulting_state = None, du_timestamp = 0,
      du_shard = 0, du_tenant_metadata = Map.empty\<rparr>"

theorem durable_write_decides_witness:
  "\<exists>d'. dst_WriteState Unscoped \<lparr>ref_ptr = 0, ref_val = sample_state ''a'' 1\<rparr> ExpectGenesis
          (dst_Connect NewDurableStore) = (None, d') \<and> dst_ok d'"
proof -
  have "dst_ok (dst_Connect NewDurableStore)"
    by (simp add: dst_ok_def dst_Connect_def NewDurableStore_def)
  moreover have "dst_stored (dst_Connect NewDurableStore) Unscoped ''a'' = None"
    by (simp add: dst_stored_def dst_Connect_def NewDurableStore_def)
  ultimately show ?thesis
    using durable_write_decides [of "dst_Connect NewDurableStore" Unscoped ExpectGenesis
        "\<lparr>ref_ptr = 0, ref_val = sample_state ''a'' 1\<rparr>"]
    by (auto simp: sample_state_def version_of_def)
qed

end
