(* ===== verification/Offset_Store.thy ===== *)
theory Offset_Store
  imports Proto Sync_Map
begin

text \<open>
  The projection offset store of \<open>src/testkit/offsetstore.go\<close>.  Its \<open>sync.Map\<close> holds values of
  type \<open>any\<close>; a type assertion on one of another dynamic type panics.
\<close>

record OffsetKey =
  ok_ProjectionName :: string
  ok_ShardNumber :: u64

datatype offset_any = AnyOffset OffsetPb | AnyOffsetKey OffsetKey

record OffsetStore =
  ofs_db :: "(OffsetKey, offset_any) sync_map"
  ofs_connected :: bool

definition NewOffsetStore :: OffsetStore where
  "NewOffsetStore = \<lparr>ofs_db = [], ofs_connected = False\<rparr>"

definition ofs_Connect :: "OffsetStore \<Rightarrow> OffsetStore" where
  "ofs_Connect x = (if ofs_connected x then x else x\<lparr>ofs_connected := True\<rparr>)"

definition ofs_Disconnect :: "OffsetStore \<Rightarrow> OffsetStore" where
  "ofs_Disconnect x =
     (if \<not> ofs_connected x then x
      else x\<lparr>ofs_db := sm_RangeDelete (\<lambda>_. True) (ofs_db x) (ofs_db x), ofs_connected := False\<rparr>)"

definition ofs_Ping :: "OffsetStore \<Rightarrow> OffsetStore" where
  "ofs_Ping x = (if \<not> ofs_connected x then ofs_Connect x else x)"

definition ofs_WriteOffset :: "OffsetPb \<Rightarrow> OffsetStore \<Rightarrow> OffsetStore" where
  "ofs_WriteOffset offset x =
     x\<lparr>ofs_db := sm_Store \<lparr>ok_ProjectionName = of_projection_name offset,
                          ok_ShardNumber = of_shard_number offset\<rparr> (AnyOffset offset) (ofs_db x)\<rparr>"

definition assertion_panic :: goerr where
  "assertion_panic = ErrPanic ''interface conversion''"

definition as_offset :: "offset_any \<Rightarrow> goerr + OffsetPb" where
  "as_offset v = (case v of AnyOffset ofs \<Rightarrow> Inr ofs | AnyOffsetKey _ \<Rightarrow> Inl assertion_panic)"

definition as_offset_key :: "offset_any \<Rightarrow> goerr + OffsetKey" where
  "as_offset_key v = (case v of AnyOffsetKey k \<Rightarrow> Inr k | AnyOffset _ \<Rightarrow> Inl assertion_panic)"

definition ofs_GetCurrentOffset :: "ProjectionId \<Rightarrow> OffsetStore \<Rightarrow> goerr + OffsetPb option" where
  "ofs_GetCurrentOffset projectionID x =
     (case sm_Load (ofs_db x) \<lparr>ok_ProjectionName = pj_projection_name projectionID,
                              ok_ShardNumber = pj_shard_number projectionID\<rparr> of
        None \<Rightarrow> Inr None
      | Some v \<Rightarrow> (case as_offset v of Inl e \<Rightarrow> Inl e | Inr ofs \<Rightarrow> Inr (Some ofs)))"

text \<open>The body of \<open>Range\<close> for each value, stopped by a panic.\<close>

fun reset_range ::
    "string \<Rightarrow> int \<Rightarrow> int \<Rightarrow> offset_any list \<Rightarrow> OffsetStore \<Rightarrow> goerr option \<times> OffsetStore" where
  "reset_range projectionName val ts [] x = (None, x)"
| "reset_range projectionName val ts (v # vs) x =
     (case as_offset_key v of
        Inl e \<Rightarrow> (Some e, x)
      | Inr key \<Rightarrow>
          (case as_offset v of
             Inl e \<Rightarrow> (Some e, x)
           | Inr ofs \<Rightarrow>
               reset_range projectionName val ts vs
                 (if ok_ProjectionName key = projectionName
                  then x\<lparr>ofs_db := sm_Store key (AnyOffset (ofs\<lparr>of_value := val, of_timestamp := ts\<rparr>)) (ofs_db x)\<rparr>
                  else x)))"

definition ofs_ResetOffset :: "int \<Rightarrow> string \<Rightarrow> int \<Rightarrow> OffsetStore \<Rightarrow> goerr option \<times> OffsetStore" where
  "ofs_ResetOffset now projectionName val x = reset_range projectionName val now (map snd (ofs_db x)) x"

lemma ofs_Get_Write [simp]:
  "ofs_GetCurrentOffset p (ofs_WriteOffset ofs x) =
     (if pj_projection_name p = of_projection_name ofs \<and> pj_shard_number p = of_shard_number ofs
      then Inr (Some ofs) else ofs_GetCurrentOffset p x)"
  by (auto simp: ofs_GetCurrentOffset_def ofs_WriteOffset_def as_offset_def)

text \<open>Every value in the map is an offset.\<close>

definition ofs_ok :: "OffsetStore \<Rightarrow> bool" where
  "ofs_ok x \<longleftrightarrow> (\<forall>kv \<in> set (ofs_db x). \<exists>ofs. snd kv = AnyOffset ofs)"

lemma ofs_ok_New: "ofs_ok NewOffsetStore"
  by (simp add: ofs_ok_def NewOffsetStore_def)

lemma update_values: "kv \<in> set (AList.update k v m) \<Longrightarrow> snd kv = v \<or> kv \<in> set m"
  by (induction m) (auto split: if_splits)

lemma ofs_ok_Write: "ofs_ok x \<Longrightarrow> ofs_ok (ofs_WriteOffset ofs x)"
  using update_values by (fastforce simp: ofs_ok_def ofs_WriteOffset_def sm_Store_def)

text \<open>
  C26. \<open>ResetOffset\<close> never resets anything: on every store that holds an offset it panics, on
  its first type assertion, whatever the projection and the value, and leaves the store as it
  was.
\<close>

theorem reset_offset_panics:
  assumes "ofs_ok x" and "ofs_db x \<noteq> []"
  shows "ofs_ResetOffset now name val x = (Some assertion_panic, x)"
proof -
  from assms(2) obtain kv db where db: "ofs_db x = kv # db" by (cases "ofs_db x") auto
  with assms(1) obtain ofs where "snd kv = AnyOffset ofs" by (auto simp: ofs_ok_def)
  with db show ?thesis by (simp add: ofs_ResetOffset_def as_offset_key_def)
qed

definition sample_offset :: OffsetPb where
  "sample_offset = \<lparr>of_shard_number = 1, of_projection_name = ''p'', of_value = 7, of_timestamp = 3\<rparr>"

theorem reset_offset_panics_witness:
  "ofs_ResetOffset 9 ''p'' 0 (ofs_WriteOffset sample_offset NewOffsetStore)
     = (Some assertion_panic, ofs_WriteOffset sample_offset NewOffsetStore)"
  by (rule reset_offset_panics [OF ofs_ok_Write [OF ofs_ok_New]])
    (simp add: ofs_WriteOffset_def NewOffsetStore_def sm_Store_def)

end
