(* ===== verification/Command.thy ===== *)
theory Command
  imports Proto "HOL-Library.AList"
begin

text \<open>
  The package \<open>src/command\<close>: operation identities, principals, the metadata of a command, the
  envelope, the six-kind result, and the carrier that takes metadata across a boundary a Go
  context does not survive.  A \<open>time.Time\<close> is its instant; its RFC 3339 text is a parameter
  (\<open>time_codec\<close>).  A Go map that the code ranges over is an association list with distinct keys,
  in the order of the iteration.
\<close>

section \<open>Identities\<close>

definition command_NewError :: "command_sentinel \<Rightarrow> string \<Rightarrow> goerr option \<Rightarrow> goerr" where
  "command_NewError sentinel message cause = ErrCommand sentinel message cause None"

definition maxOperationIDBytes :: nat where
  "maxOperationIDBytes = 128"

definition NewOperationID :: "string \<Rightarrow> goerr + string" where
  "NewOperationID s =
     (if s = [] then
        Inl (command_NewError ErrInvalidMetadata ''command: operation id must not be empty'' None)
      else if \<not> utf8_ValidString s then
        Inl (command_NewError ErrInvalidMetadata ''command: operation id must be valid UTF-8'' None)
      else if maxOperationIDBytes < length s then
        Inl (command_NewError ErrInvalidMetadata ''command: operation id exceeds 128 bytes'' None)
      else if strings_TrimSpace s \<noteq> s then
        Inl (command_NewError ErrInvalidMetadata
               ''command: operation id must not have leading or trailing whitespace'' None)
      else if list_ex unicode_IsControl (runes s) then
        Inl (command_NewError ErrInvalidMetadata
               ''command: operation id must not contain control characters'' None)
      else Inr s)"

record Principal =
  pr_id :: string
  pr_kind :: string
  pr_hasKind :: bool

text \<open>The only option is \<open>WithPrincipalKind\<close>.\<close>

definition NewPrincipal :: "string \<Rightarrow> string option \<Rightarrow> goerr + Principal" where
  "NewPrincipal pid kind =
     (if pid = [] then
        Inl (command_NewError ErrInvalidPrincipal ''command: principal id must not be empty'' None)
      else Inr (case kind of
                  None \<Rightarrow> \<lparr>pr_id = pid, pr_kind = '''', pr_hasKind = False\<rparr>
                | Some k \<Rightarrow> \<lparr>pr_id = pid, pr_kind = k, pr_hasKind = True\<rparr>))"

definition pr_Kind :: "Principal \<Rightarrow> string option" where
  "pr_Kind p = (if pr_hasKind p then Some (pr_kind p) else None)"

definition zeroPrincipal :: Principal where
  "zeroPrincipal = \<lparr>pr_id = '''', pr_kind = '''', pr_hasKind = False\<rparr>"

section \<open>Metadata\<close>

record Metadata =
  md_operationID :: string
  md_correlationID :: string
  md_causationID :: string
  md_hasCausation :: bool
  md_tenant :: TenantContext
  md_hasTenant :: bool
  md_principal :: Principal
  md_hasPrincipal :: bool
  md_custom :: "(string \<times> string) list"
  md_timestamp :: int
  md_deadline :: int
  md_hasDeadline :: bool
  md_expectedRevision :: u64
  md_hasExpectedRevision :: bool

definition zeroMetadata :: Metadata where
  "zeroMetadata =
     \<lparr>md_operationID = '''', md_correlationID = '''', md_causationID = '''', md_hasCausation = False,
      md_tenant = noTenantContext, md_hasTenant = False, md_principal = zeroPrincipal,
      md_hasPrincipal = False, md_custom = [], md_timestamp = 0, md_deadline = 0,
      md_hasDeadline = False, md_expectedRevision = 0, md_hasExpectedRevision = False\<rparr>"

type_synonym MetadataOption = "Metadata \<Rightarrow> goerr + Metadata"

definition maxCustomValueBytes :: nat where
  "maxCustomValueBytes = 1024"

definition reservedCustomPrefix :: string where
  "reservedCustomPrefix = ''ego.''"

definition reservedCustomKeys :: "string list" where
  "reservedCustomKeys =
     [''operation_id'', ''correlation_id'', ''causation_id'', ''timestamp'', ''deadline'',
      ''principal_id'', ''principal_kind'', ''tenant'', ''expected_revision'']"

definition validateCustomKey :: "string \<Rightarrow> goerr option" where
  "validateCustomKey key =
     (let bad = (\<lambda>m. Some (command_NewError ErrReservedKey m None)) in
      if strings_HasPrefix key reservedCustomPrefix then
        bad (''command: custom metadata key must not use the reserved '' @ [dquote] @ ''ego.'' @ [dquote] @ '' prefix'')
      else if key \<in> set reservedCustomKeys then
        bad ''command: custom metadata key must not shadow a canonical field''
      else if key = [] then bad ''command: custom metadata key must not be empty''
      else if \<not> utf8_ValidString key then bad ''command: custom metadata key must be valid UTF-8''
      else if maxOperationIDBytes < length key then
        bad ''command: custom metadata key exceeds the maximum length''
      else if strings_TrimSpace key \<noteq> key then
        bad ''command: custom metadata key must not have leading or trailing whitespace''
      else if list_ex unicode_IsControl (runes key) then
        bad ''command: custom metadata key must not contain control characters''
      else None)"

definition validateCustomValue :: "string \<Rightarrow> goerr option" where
  "validateCustomValue v =
     (let bad = (\<lambda>m. Some (command_NewError ErrInvalidMetadata m None)) in
      if \<not> utf8_ValidString v then bad ''command: custom metadata value must be valid UTF-8''
      else if maxCustomValueBytes < length v then
        bad ''command: custom metadata value exceeds the maximum length''
      else if list_ex unicode_IsControl (runes v) then
        bad ''command: custom metadata value must not contain control characters''
      else None)"

definition cmd_WithCorrelationID :: "string \<Rightarrow> MetadataOption" where
  "cmd_WithCorrelationID cid m = Inr (m\<lparr>md_correlationID := cid\<rparr>)"

definition cmd_WithTenant :: "TenantContext \<Rightarrow> MetadataOption" where
  "cmd_WithTenant tc m = Inr (m\<lparr>md_tenant := tc, md_hasTenant := True\<rparr>)"

definition cmd_WithPrincipal :: "Principal \<Rightarrow> MetadataOption" where
  "cmd_WithPrincipal p m = Inr (m\<lparr>md_principal := p, md_hasPrincipal := True\<rparr>)"

definition cmd_WithCustom :: "string \<Rightarrow> string \<Rightarrow> MetadataOption" where
  "cmd_WithCustom key v m =
     (case validateCustomKey key of
        Some e \<Rightarrow> Inl e
      | None \<Rightarrow>
          (case validateCustomValue v of
             Some e \<Rightarrow> Inl e
           | None \<Rightarrow> Inr (m\<lparr>md_custom := AList.update key v (md_custom m)\<rparr>)))"

definition cmd_WithTimestamp :: "int \<Rightarrow> MetadataOption" where
  "cmd_WithTimestamp t m = Inr (m\<lparr>md_timestamp := t\<rparr>)"

definition cmd_WithDeadline :: "int \<Rightarrow> MetadataOption" where
  "cmd_WithDeadline t m = Inr (m\<lparr>md_deadline := t, md_hasDeadline := True\<rparr>)"

definition cmd_WithExpectedRevision :: "u64 \<Rightarrow> MetadataOption" where
  "cmd_WithExpectedRevision r m = Inr (m\<lparr>md_expectedRevision := r, md_hasExpectedRevision := True\<rparr>)"

fun apply_options :: "MetadataOption list \<Rightarrow> Metadata \<Rightarrow> goerr + Metadata" where
  "apply_options [] m = Inr m"
| "apply_options (opt # opts) m =
     (case opt m of Inl e \<Rightarrow> Inl e | Inr m' \<Rightarrow> apply_options opts m')"

text \<open>The clock of \<open>time.Now\<close> is an argument.\<close>

definition NewMetadata :: "int \<Rightarrow> string \<Rightarrow> MetadataOption list \<Rightarrow> goerr + Metadata" where
  "NewMetadata now op opts =
     apply_options opts (zeroMetadata\<lparr>md_operationID := op, md_correlationID := op, md_timestamp := now\<rparr>)"

definition md_CausationID :: "Metadata \<Rightarrow> string option" where
  "md_CausationID m = (if md_hasCausation m then Some (md_causationID m) else None)"

definition md_Tenant :: "Metadata \<Rightarrow> TenantContext option" where
  "md_Tenant m = (if md_hasTenant m then Some (md_tenant m) else None)"

definition md_Principal :: "Metadata \<Rightarrow> Principal option" where
  "md_Principal m = (if md_hasPrincipal m then Some (md_principal m) else None)"

definition md_Deadline :: "Metadata \<Rightarrow> int option" where
  "md_Deadline m = (if md_hasDeadline m then Some (md_deadline m) else None)"

definition md_ExpectedRevision :: "Metadata \<Rightarrow> u64 option" where
  "md_ExpectedRevision m = (if md_hasExpectedRevision m then Some (md_expectedRevision m) else None)"

definition md_Derive :: "int \<Rightarrow> Metadata \<Rightarrow> string \<Rightarrow> MetadataOption list \<Rightarrow> goerr + Metadata" where
  "md_Derive now m op opts =
     (if op = md_operationID m then
        Inl (command_NewError ErrSameOperationID
               ''command: derived operation id must differ from parent'' None)
      else
        (let child = zeroMetadata\<lparr>
               md_operationID := op, md_correlationID := md_correlationID m,
               md_causationID := md_operationID m, md_hasCausation := True,
               md_tenant := md_tenant m, md_hasTenant := md_hasTenant m,
               md_principal := md_principal m, md_hasPrincipal := md_hasPrincipal m,
               md_deadline := md_deadline m, md_hasDeadline := md_hasDeadline m,
               md_timestamp := now\<rparr>
         in case apply_options opts child of
              Inl e \<Rightarrow> Inl e
            | Inr child \<Rightarrow>
                (case if md_hasTenant child \<and> md_hasTenant m
                      then tenancy_VerifyUnchanged (md_tenant m) (md_tenant child) else None of
                   Some e \<Rightarrow> Inl (ErrTenancy e)
                 | None \<Rightarrow>
                     if md_hasDeadline child \<and> md_hasDeadline m \<and> md_deadline m < md_deadline child then
                       Inl (command_NewError ErrDeadlineExtension
                              ''command: derived deadline must not extend the parent's'' None)
                     else Inr child)))"

section \<open>Envelopes and results\<close>

text \<open>A \<open>proto.Message\<close> that may be nil is an option.\<close>

record 'm Envelope =
  env_payload :: 'm
  env_metadata :: Metadata

definition NewEnvelope :: "'m option \<Rightarrow> Metadata \<Rightarrow> goerr + 'm Envelope" where
  "NewEnvelope payload md =
     (case payload of
        None \<Rightarrow> Inl (command_NewError ErrInvalidEnvelope ''command: envelope payload must not be nil'' None)
      | Some p \<Rightarrow> Inr \<lparr>env_payload = p, env_metadata = md\<rparr>)"

definition env_Derive ::
    "int \<Rightarrow> 'm Envelope \<Rightarrow> 'm option \<Rightarrow> string \<Rightarrow> MetadataOption list \<Rightarrow> goerr + 'm Envelope" where
  "env_Derive now e payload op opts =
     (case payload of
        None \<Rightarrow> Inl (command_NewError ErrInvalidEnvelope ''command: envelope payload must not be nil'' None)
      | Some p \<Rightarrow>
          (case md_Derive now (env_metadata e) op opts of
             Inl err \<Rightarrow> Inl err
           | Inr md \<Rightarrow> Inr \<lparr>env_payload = p, env_metadata = md\<rparr>))"

record Failure =
  fl_message :: string
  fl_code :: string
  fl_hasCode :: bool
  fl_cause :: "goerr option"

definition zeroFailure :: Failure where
  "zeroFailure = \<lparr>fl_message = '''', fl_code = '''', fl_hasCode = False, fl_cause = None\<rparr>"

text \<open>The options \<open>WithFailureCode\<close> and \<open>WithFailureCause\<close>, when given.\<close>

definition NewFailure :: "string \<Rightarrow> string option \<Rightarrow> goerr option \<Rightarrow> goerr + Failure" where
  "NewFailure message code cause =
     (if message = [] then
        Inl (command_NewError ErrInvalidResult ''command: failure message must not be empty'' None)
      else Inr \<lparr>fl_message = message,
                fl_code = (case code of Some c \<Rightarrow> c | None \<Rightarrow> ''''), fl_hasCode = (code \<noteq> None),
                fl_cause = cause\<rparr>)"

definition fl_Code :: "Failure \<Rightarrow> string option" where
  "fl_Code f = (if fl_hasCode f then Some (fl_code f) else None)"

record 'm Result =
  rs_metadata :: Metadata
  rs_outcome :: command_outcome
  rs_state :: "'m option"
  rs_revision :: u64
  rs_failure :: Failure
  rs_hasFailure :: bool

definition zeroResult :: "Metadata \<Rightarrow> command_outcome \<Rightarrow> 'm Result" where
  "zeroResult md outcome =
     \<lparr>rs_metadata = md, rs_outcome = outcome, rs_state = None, rs_revision = 0,
      rs_failure = zeroFailure, rs_hasFailure = False\<rparr>"

definition NewSuccess :: "Metadata \<Rightarrow> 'm option \<Rightarrow> u64 \<Rightarrow> goerr + 'm Result" where
  "NewSuccess md state revision =
     (case state of
        None \<Rightarrow> Inl (command_NewError ErrInvalidResult ''command: success result state must not be nil'' None)
      | Some st \<Rightarrow> Inr ((zeroResult md OutcomeSuccess)\<lparr>rs_state := Some st, rs_revision := revision\<rparr>))"

definition NewSuccessNoState :: "Metadata \<Rightarrow> 'm Result" where
  "NewSuccessNoState md = zeroResult md OutcomeSuccessNoState"

definition NewRejected :: "Metadata \<Rightarrow> Failure \<Rightarrow> 'm Result" where
  "NewRejected md f = (zeroResult md OutcomeRejected)\<lparr>rs_failure := f, rs_hasFailure := True\<rparr>"

definition NewFailed :: "Metadata \<Rightarrow> Failure \<Rightarrow> 'm Result" where
  "NewFailed md f = (zeroResult md OutcomeFailed)\<lparr>rs_failure := f, rs_hasFailure := True\<rparr>"

definition NewTimedOut :: "Metadata \<Rightarrow> Failure \<Rightarrow> 'm Result" where
  "NewTimedOut md f =
     (zeroResult md OutcomeTimedOut)\<lparr>
       rs_failure := (if fl_cause f = None then f\<lparr>fl_cause := Some context_DeadlineExceeded\<rparr> else f),
       rs_hasFailure := True\<rparr>"

definition NewCanceled :: "Metadata \<Rightarrow> Failure \<Rightarrow> 'm Result" where
  "NewCanceled md f =
     (zeroResult md OutcomeCanceled)\<lparr>
       rs_failure := (if fl_cause f = None then f\<lparr>fl_cause := Some context_Canceled\<rparr> else f),
       rs_hasFailure := True\<rparr>"

definition rs_State :: "'m Result \<Rightarrow> 'm option" where
  "rs_State r = (if rs_outcome r \<noteq> OutcomeSuccess then None else rs_state r)"

definition newOutcomeError :: "command_sentinel \<Rightarrow> command_outcome \<Rightarrow> Failure \<Rightarrow> goerr" where
  "newOutcomeError sentinel outcome f =
     ErrCommand sentinel (fl_message f) (fl_cause f) (Some (outcome, fl_Code f))"

definition rs_Err :: "'m Result \<Rightarrow> goerr option" where
  "rs_Err r =
     (case rs_outcome r of
        OutcomeSuccess \<Rightarrow> None
      | OutcomeSuccessNoState \<Rightarrow> None
      | OutcomeRejected \<Rightarrow> Some (newOutcomeError ErrRejected OutcomeRejected (rs_failure r))
      | OutcomeFailed \<Rightarrow> Some (newOutcomeError ErrFailed OutcomeFailed (rs_failure r))
      | OutcomeTimedOut \<Rightarrow> Some (newOutcomeError ErrTimedOut OutcomeTimedOut (rs_failure r))
      | OutcomeCanceled \<Rightarrow> Some (newOutcomeError ErrCanceled OutcomeCanceled (rs_failure r))
      | OutcomeUnset \<Rightarrow> None)"

section \<open>Carriers\<close>

type_synonym Carrier = "(string \<times> string) list"

record time_codec =
  tm_Format :: "int \<Rightarrow> string"
  tm_Parse :: "string \<Rightarrow> goerr + int"

definition carrierKeyOperationID :: string where "carrierKeyOperationID = ''ego.cmd.operation_id''"
definition carrierKeyCorrelationID :: string where "carrierKeyCorrelationID = ''ego.cmd.correlation_id''"
definition carrierKeyCausationID :: string where "carrierKeyCausationID = ''ego.cmd.causation_id''"
definition carrierKeyTimestamp :: string where "carrierKeyTimestamp = ''ego.cmd.timestamp''"
definition carrierKeyDeadline :: string where "carrierKeyDeadline = ''ego.cmd.deadline''"
definition carrierKeyPrincipalID :: string where "carrierKeyPrincipalID = ''ego.cmd.principal_id''"
definition carrierKeyPrincipalKind :: string where "carrierKeyPrincipalKind = ''ego.cmd.principal_kind''"
definition carrierKeyExpectedRevision :: string where
  "carrierKeyExpectedRevision = ''ego.cmd.expected_revision''"
definition carrierCmdPrefix :: string where "carrierCmdPrefix = ''ego.cmd.''"
definition carrierTenantPrefix :: string where "carrierTenantPrefix = ''ego.tenant.''"

lemmas carrier_key_defs = carrierKeyOperationID_def carrierKeyCorrelationID_def carrierKeyCausationID_def
  carrierKeyTimestamp_def carrierKeyDeadline_def carrierKeyPrincipalID_def carrierKeyPrincipalKind_def
  carrierKeyExpectedRevision_def

text \<open>The entries of a map whose keys are among \<open>ks\<close>, and a loop that copies entries.\<close>

definition map_entries :: "string list \<Rightarrow> metadata \<Rightarrow> (string \<times> string) list" where
  "map_entries ks m = List.map_filter (\<lambda>k. map_option (Pair k) (m k)) ks"

definition tenant_keys :: "string list" where
  "tenant_keys = [metaKeyScope, metaKeyID, metaKeyAdminActor, metaKeyAdminReason, metaKeyAdminCorrelation]"

definition put_all :: "(string \<times> string) list \<Rightarrow> Carrier \<Rightarrow> Carrier" where
  "put_all kvs c = foldl (\<lambda>c (k, v). AList.update k v c) c kvs"

definition put_opt :: "string \<Rightarrow> string option \<Rightarrow> Carrier \<Rightarrow> Carrier" where
  "put_opt k v c = (case v of None \<Rightarrow> c | Some x \<Rightarrow> AList.update k x c)"

definition cmd_MarshalMetadata :: "time_codec \<Rightarrow> Metadata \<Rightarrow> Carrier" where
  "cmd_MarshalMetadata tm m =
     (let c0 = [(carrierKeyOperationID, md_operationID m),
                (carrierKeyCorrelationID, md_correlationID m),
                (carrierKeyTimestamp, tm_Format tm (md_timestamp m))];
          c1 = put_opt carrierKeyCausationID (md_CausationID m) c0;
          c2 = put_opt carrierKeyDeadline (map_option (tm_Format tm) (md_Deadline m)) c1;
          c3 = put_opt carrierKeyExpectedRevision (map_option strconv_FormatUint (md_ExpectedRevision m)) c2;
          c4 = (case md_Principal m of
                  None \<Rightarrow> c3
                | Some p \<Rightarrow> put_opt carrierKeyPrincipalKind (pr_Kind p)
                              (AList.update carrierKeyPrincipalID (pr_id p) c3));
          c5 = (case md_Tenant m of
                  None \<Rightarrow> c4
                | Some t \<Rightarrow> put_all (map_entries tenant_keys (tenancy_MarshalMetadata t)) c4)
      in put_all (md_custom m) c5)"

definition tenantSubset :: "Carrier \<Rightarrow> Carrier" where
  "tenantSubset c = filter (\<lambda>kv. strings_HasPrefix (fst kv) carrierTenantPrefix) c"

definition invalid_metadata :: "string \<Rightarrow> goerr option \<Rightarrow> goerr" where
  "invalid_metadata message cause = command_NewError ErrInvalidMetadata message cause"

text \<open>The options from an entry that may be absent.\<close>

definition opt_entry ::
    "Carrier \<Rightarrow> string \<Rightarrow> (string \<Rightarrow> goerr + MetadataOption) \<Rightarrow> goerr + MetadataOption list" where
  "opt_entry c key f =
     (case map_of c key of None \<Rightarrow> Inr [] | Some raw \<Rightarrow> sum_bind (f raw) (\<lambda>opt. Inr [opt]))"

definition parse_timestamp :: "time_codec \<Rightarrow> string \<Rightarrow> goerr + int" where
  "parse_timestamp tm raw =
     (case tm_Parse tm raw of
        Inl e \<Rightarrow> Inl (invalid_metadata ''command: carrier timestamp is not a valid RFC3339 timestamp'' (Some e))
      | Inr t \<Rightarrow> Inr t)"

definition deadline_option :: "time_codec \<Rightarrow> string \<Rightarrow> goerr + MetadataOption" where
  "deadline_option tm raw =
     (case tm_Parse tm raw of
        Inl e \<Rightarrow> Inl (invalid_metadata ''command: carrier deadline is not a valid RFC3339 timestamp'' (Some e))
      | Inr t \<Rightarrow> Inr (cmd_WithDeadline t))"

definition revision_option :: "string \<Rightarrow> goerr + MetadataOption" where
  "revision_option raw =
     (case strconv_ParseUint raw of
        None \<Rightarrow> Inl (invalid_metadata ''command: carrier expected revision is not a valid unsigned integer''
                       (Some (ErrNumError ''ParseUint'' raw (parse_uint_reason 0 raw))))
      | Some r \<Rightarrow> Inr (cmd_WithExpectedRevision r))"

definition principal_option :: "Carrier \<Rightarrow> string \<Rightarrow> goerr + MetadataOption" where
  "principal_option c pid =
     sum_bind (NewPrincipal pid (map_of c carrierKeyPrincipalKind)) (\<lambda>p. Inr (cmd_WithPrincipal p))"

definition tenant_options :: "Carrier \<Rightarrow> goerr + MetadataOption list" where
  "tenant_options c =
     (if tenantSubset c = [] then Inr []
      else case tenancy_UnmarshalMetadata (map_of (tenantSubset c)) of
             Inl e \<Rightarrow> Inl (ErrTenancy e)
           | Inr tenant \<Rightarrow> Inr [cmd_WithTenant tenant])"

definition custom_entry :: "string \<times> string \<Rightarrow> bool" where
  "custom_entry kv \<longleftrightarrow>
     \<not> (strings_HasPrefix (fst kv) carrierCmdPrefix \<or> strings_HasPrefix (fst kv) carrierTenantPrefix)"

definition cmd_UnmarshalMetadata :: "time_codec \<Rightarrow> int \<Rightarrow> Carrier \<Rightarrow> goerr + Metadata" where
  "cmd_UnmarshalMetadata tm now c =
     sum_bind (or_fail (invalid_metadata ''command: carrier missing operation id'' None)
                 (map_of c carrierKeyOperationID)) (\<lambda>opID.
     sum_bind (NewOperationID opID) (\<lambda>op.
     sum_bind (or_fail (invalid_metadata ''command: carrier missing correlation id'' None)
                 (map_of c carrierKeyCorrelationID)) (\<lambda>correlationID.
     sum_bind (or_fail (invalid_metadata ''command: carrier missing timestamp'' None)
                 (map_of c carrierKeyTimestamp)) (\<lambda>rawTimestamp.
     sum_bind (parse_timestamp tm rawTimestamp) (\<lambda>timestamp.
     sum_bind (opt_entry c carrierKeyDeadline (deadline_option tm)) (\<lambda>o1.
     sum_bind (opt_entry c carrierKeyExpectedRevision revision_option) (\<lambda>o2.
     sum_bind (opt_entry c carrierKeyPrincipalID (principal_option c)) (\<lambda>o3.
     sum_bind (tenant_options c) (\<lambda>o4.
     sum_bind (NewMetadata now op
                 ([cmd_WithCorrelationID correlationID, cmd_WithTimestamp timestamp] @ o1 @ o2 @ o3 @ o4
                  @ map (\<lambda>(k, v). cmd_WithCustom k v) (filter custom_entry c))) (\<lambda>m.
     Inr (case map_of c carrierKeyCausationID of
            Some causationID \<Rightarrow> m\<lparr>md_causationID := causationID, md_hasCausation := True\<rparr>
          | None \<Rightarrow> m)))))))))))"

section \<open>Carriers lose nothing\<close>

text \<open>
  The metadata the constructors build from valid parts: a field without its flag is zero, the
  custom entries were validated.
\<close>

definition wf_custom :: "(string \<times> string) list \<Rightarrow> bool" where
  "wf_custom kvs \<longleftrightarrow>
     distinct (map fst kvs)
     \<and> (\<forall>kv \<in> set kvs. validateCustomKey (fst kv) = None \<and> validateCustomValue (snd kv) = None)"

definition wf_Metadata :: "Metadata \<Rightarrow> bool" where
  "wf_Metadata m \<longleftrightarrow>
     NewOperationID (md_operationID m) = Inr (md_operationID m)
     \<and> (md_hasCausation m \<or> md_causationID m = [])
     \<and> (if md_hasTenant m then wf_TenantContext (md_tenant m) else md_tenant m = noTenantContext)
     \<and> (if md_hasPrincipal m then pr_id (md_principal m) \<noteq> [] \<and> (pr_hasKind (md_principal m) \<or> pr_kind (md_principal m) = [])
        else md_principal m = zeroPrincipal)
     \<and> wf_custom (md_custom m)
     \<and> (md_hasDeadline m \<or> md_deadline m = 0)
     \<and> (md_hasExpectedRevision m \<or> md_expectedRevision m = 0)"

text \<open>The text of the instants of the metadata parses back to them.\<close>

definition times_ok :: "time_codec \<Rightarrow> Metadata \<Rightarrow> bool" where
  "times_ok tm m \<longleftrightarrow>
     tm_Parse tm (tm_Format tm (md_timestamp m)) = Inr (md_timestamp m)
     \<and> (md_hasDeadline m \<longrightarrow> tm_Parse tm (tm_Format tm (md_deadline m)) = Inr (md_deadline m))"

definition opt_list :: "'a \<Rightarrow> 'b option \<Rightarrow> ('a \<times> 'b) list" where
  "opt_list k v = (case v of None \<Rightarrow> [] | Some x \<Rightarrow> [(k, x)])"

definition cmd_entries :: "time_codec \<Rightarrow> Metadata \<Rightarrow> Carrier" where
  "cmd_entries tm m =
     [(carrierKeyOperationID, md_operationID m), (carrierKeyCorrelationID, md_correlationID m),
      (carrierKeyTimestamp, tm_Format tm (md_timestamp m))]
     @ opt_list carrierKeyCausationID (md_CausationID m)
     @ opt_list carrierKeyDeadline (map_option (tm_Format tm) (md_Deadline m))
     @ opt_list carrierKeyExpectedRevision (map_option strconv_FormatUint (md_ExpectedRevision m))
     @ opt_list carrierKeyPrincipalID (map_option pr_id (md_Principal m))
     @ opt_list carrierKeyPrincipalKind (Option.bind (md_Principal m) pr_Kind)"

definition tenant_entries :: "Metadata \<Rightarrow> Carrier" where
  "tenant_entries m =
     (case md_Tenant m of
        None \<Rightarrow> []
      | Some t \<Rightarrow> map_entries tenant_keys (tenancy_MarshalMetadata t))"

lemma update_fresh: "k \<notin> fst ` set c \<Longrightarrow> AList.update k v c = c @ [(k, v)]"
  by (induction c) auto

lemma put_opt_fresh: "k \<notin> fst ` set c \<Longrightarrow> put_opt k v c = c @ opt_list k v"
  by (simp add: put_opt_def opt_list_def update_fresh split: option.splits)

lemma put_all_fresh:
  "distinct (map fst kvs) \<Longrightarrow> fst ` set kvs \<inter> fst ` set c = {} \<Longrightarrow> put_all kvs c = c @ kvs"
proof (induction kvs arbitrary: c)
  case (Cons kv kvs)
  from Cons.prems have "AList.update (fst kv) (snd kv) c = c @ [kv]" by (simp add: update_fresh)
  moreover have "put_all kvs (c @ [kv]) = (c @ [kv]) @ kvs"
    using Cons.prems by (intro Cons.IH) auto
  ultimately show ?case by (simp add: put_all_def case_prod_beta)
qed (simp add: put_all_def)

lemma cmd_entries_prefix: "kv \<in> set (cmd_entries tm m) \<Longrightarrow> strings_HasPrefix (fst kv) carrierCmdPrefix"
  by (auto simp: cmd_entries_def opt_list_def carrier_key_defs carrierCmdPrefix_def strings_HasPrefix_def
      split: option.splits)

lemma map_entries_keys: "fst ` set (map_entries ks md) \<subseteq> set ks"
  by (auto simp: map_entries_def map_filter_def)

lemma map_entries_distinct: "distinct ks \<Longrightarrow> distinct (map fst (map_entries ks md))"
proof (induction ks)
  case (Cons k ks)
  then show ?case using map_entries_keys [of ks md]
    by (auto simp: map_entries_def map_filter_simps split: option.splits)
qed (simp add: map_entries_def map_filter_def)

lemma map_of_map_entries:
  "distinct ks \<Longrightarrow> map_of (map_entries ks md) k = (if k \<in> set ks then md k else None)"
proof (induction ks)
  case (Cons a ks)
  then show ?case by (cases "md a") (auto simp: map_entries_def map_filter_simps)
qed (simp add: map_entries_def map_filter_def)

lemma tenant_keys_distinct: "distinct tenant_keys"
  by (simp add: tenant_keys_def meta_key_defs)

lemma tenant_keys_prefix: "k \<in> set tenant_keys \<Longrightarrow> strings_HasPrefix k carrierTenantPrefix"
  by (auto simp: tenant_keys_def meta_key_defs carrierTenantPrefix_def strings_HasPrefix_def)

lemma tenant_entries_prefix: "kv \<in> set (tenant_entries m) \<Longrightarrow> strings_HasPrefix (fst kv) carrierTenantPrefix"
  using map_entries_keys tenant_keys_prefix by (fastforce simp: tenant_entries_def split: option.splits)

lemma tenant_entries_distinct: "distinct (map fst (tenant_entries m))"
  by (simp add: tenant_entries_def map_entries_distinct [OF tenant_keys_distinct] split: option.splits)

lemma dom_MarshalMetadata: "dom (tenancy_MarshalMetadata tc) \<subseteq> set tenant_keys"
  by (auto simp: tenancy_MarshalMetadata_def tenant_keys_def Let_def
      split: tenancy_scope.splits option.splits if_splits)

lemma map_of_tenant_entries: "md_Tenant m = Some t \<Longrightarrow> map_of (tenant_entries m) = tenancy_MarshalMetadata t"
proof
  fix k assume "md_Tenant m = Some t"
  moreover have "k \<notin> set tenant_keys \<Longrightarrow> tenancy_MarshalMetadata t k = None"
    using dom_MarshalMetadata [of t] by blast
  ultimately show "map_of (tenant_entries m) k = tenancy_MarshalMetadata t k"
    by (simp add: tenant_entries_def map_of_map_entries [OF tenant_keys_distinct])
qed

lemma prefixes_disjoint:
  "strings_HasPrefix k carrierCmdPrefix \<Longrightarrow> \<not> strings_HasPrefix k carrierTenantPrefix"
  by (auto simp: strings_HasPrefix_iff carrierCmdPrefix_def carrierTenantPrefix_def)

lemma wf_custom_entry:
  assumes "wf_custom kvs" and "kv \<in> set kvs"
  shows "custom_entry kv"
proof -
  from assms have "\<not> strings_HasPrefix (fst kv) reservedCustomPrefix"
    by (auto simp: wf_custom_def validateCustomKey_def Let_def split: if_splits)
  then show ?thesis
    by (auto simp: custom_entry_def strings_HasPrefix_iff reservedCustomPrefix_def carrierCmdPrefix_def
        carrierTenantPrefix_def)
qed

lemma put_all_separate:
  assumes "distinct (map fst kvs)" and "\<forall>kv \<in> set kvs. \<not> P (fst kv)" and "\<forall>kv \<in> set c. P (fst kv)"
  shows "put_all kvs c = c @ kvs"
proof (rule put_all_fresh [OF assms(1)])
  have "k \<in> fst ` set kvs \<Longrightarrow> k \<notin> fst ` set c" for k using assms(2,3) by (metis imageE)
  then show "fst ` set kvs \<inter> fst ` set c = {}" by blast
qed

lemma cmd_entries_eq:
  "(let c0 = [(carrierKeyOperationID, md_operationID m), (carrierKeyCorrelationID, md_correlationID m),
              (carrierKeyTimestamp, tm_Format tm (md_timestamp m))];
        c1 = put_opt carrierKeyCausationID (md_CausationID m) c0;
        c2 = put_opt carrierKeyDeadline (map_option (tm_Format tm) (md_Deadline m)) c1;
        c3 = put_opt carrierKeyExpectedRevision (map_option strconv_FormatUint (md_ExpectedRevision m)) c2
    in case md_Principal m of
         None \<Rightarrow> c3
       | Some p \<Rightarrow> put_opt carrierKeyPrincipalKind (pr_Kind p)
                     (AList.update carrierKeyPrincipalID (pr_id p) c3)) = cmd_entries tm m"
  by (cases "md_CausationID m"; cases "md_Deadline m"; cases "md_ExpectedRevision m")
    (auto simp: cmd_entries_def opt_list_def put_opt_def carrier_key_defs Let_def split: option.splits)

lemma MarshalMetadata_eq:
  assumes "wf_custom (md_custom m)"
  shows "cmd_MarshalMetadata tm m = cmd_entries tm m @ tenant_entries m @ md_custom m"
proof -
  have cmd: "\<forall>kv \<in> set (cmd_entries tm m). strings_HasPrefix (fst kv) carrierCmdPrefix"
    using cmd_entries_prefix by blast
  have ten: "\<forall>kv \<in> set (tenant_entries m). strings_HasPrefix (fst kv) carrierTenantPrefix"
    using tenant_entries_prefix by blast
  have "put_all (tenant_entries m) (cmd_entries tm m) = cmd_entries tm m @ tenant_entries m"
    using ten cmd prefixes_disjoint
    by (intro put_all_separate [where P = "\<lambda>k. strings_HasPrefix k carrierCmdPrefix"] tenant_entries_distinct) blast+
  then have t: "(case md_Tenant m of None \<Rightarrow> cmd_entries tm m
      | Some t \<Rightarrow> put_all (map_entries tenant_keys (tenancy_MarshalMetadata t)) (cmd_entries tm m))
      = cmd_entries tm m @ tenant_entries m"
    by (simp add: tenant_entries_def split: option.splits)
  have "put_all (md_custom m) (cmd_entries tm m @ tenant_entries m) =
      (cmd_entries tm m @ tenant_entries m) @ md_custom m"
  proof (rule put_all_separate [where P = "\<lambda>k. strings_HasPrefix k carrierCmdPrefix \<or> strings_HasPrefix k carrierTenantPrefix"])
    show "distinct (map fst (md_custom m))" using assms by (simp add: wf_custom_def)
    show "\<forall>kv \<in> set (md_custom m). \<not> (strings_HasPrefix (fst kv) carrierCmdPrefix \<or> strings_HasPrefix (fst kv) carrierTenantPrefix)"
      using wf_custom_entry [OF assms] by (simp add: custom_entry_def)
  qed (use cmd ten in auto)
  then show ?thesis
    unfolding cmd_MarshalMetadata_def cmd_entries_eq [unfolded Let_def] Let_def t by simp
qed

lemma filter_custom_entry:
  assumes "wf_custom (md_custom m)"
  shows "filter custom_entry (cmd_MarshalMetadata tm m) = md_custom m"
proof -
  have "filter custom_entry (cmd_entries tm m) = []" "filter custom_entry (tenant_entries m) = []"
    using cmd_entries_prefix tenant_entries_prefix by (auto simp: filter_empty_conv custom_entry_def)
  moreover have "filter custom_entry (md_custom m) = md_custom m"
    using wf_custom_entry [OF assms] by (simp add: filter_id_conv)
  ultimately show ?thesis by (simp add: MarshalMetadata_eq [OF assms])
qed

lemma tenantSubset_Marshal:
  assumes "wf_custom (md_custom m)"
  shows "tenantSubset (cmd_MarshalMetadata tm m) = tenant_entries m"
proof -
  let ?p = "\<lambda>kv :: string \<times> string. strings_HasPrefix (fst kv) carrierTenantPrefix"
  have "filter ?p (cmd_entries tm m) = []"
    using cmd_entries_prefix prefixes_disjoint by (auto simp: filter_empty_conv)
  moreover have "filter ?p (md_custom m) = []"
    using wf_custom_entry [OF assms] by (auto simp: filter_empty_conv custom_entry_def)
  moreover have "filter ?p (tenant_entries m) = tenant_entries m"
    using tenant_entries_prefix by (simp add: filter_id_conv)
  ultimately show ?thesis by (simp add: tenantSubset_def MarshalMetadata_eq [OF assms])
qed

lemma map_of_Marshal:
  assumes "wf_custom (md_custom m)" and "strings_HasPrefix k carrierCmdPrefix"
  shows "map_of (cmd_MarshalMetadata tm m) k = map_of (cmd_entries tm m) k"
proof -
  have "map_of (tenant_entries m) k = None" "map_of (md_custom m) k = None"
    using tenant_entries_prefix prefixes_disjoint [OF assms(2)] wf_custom_entry [OF assms(1)] assms(2)
    by (fastforce simp: map_of_eq_None_iff custom_entry_def)+
  then show ?thesis
    by (simp add: MarshalMetadata_eq [OF assms(1)] map_add_def split: option.splits)
qed

lemma cmd_keys_prefix:
  "strings_HasPrefix carrierKeyOperationID carrierCmdPrefix" "strings_HasPrefix carrierKeyCorrelationID carrierCmdPrefix"
  "strings_HasPrefix carrierKeyCausationID carrierCmdPrefix" "strings_HasPrefix carrierKeyTimestamp carrierCmdPrefix"
  "strings_HasPrefix carrierKeyDeadline carrierCmdPrefix" "strings_HasPrefix carrierKeyPrincipalID carrierCmdPrefix"
  "strings_HasPrefix carrierKeyPrincipalKind carrierCmdPrefix" "strings_HasPrefix carrierKeyExpectedRevision carrierCmdPrefix"
  by (simp_all add: carrier_key_defs carrierCmdPrefix_def strings_HasPrefix_def)

lemma cmd_entries_lookup:
  "map_of (cmd_entries tm m) carrierKeyOperationID = Some (md_operationID m)"
  "map_of (cmd_entries tm m) carrierKeyCorrelationID = Some (md_correlationID m)"
  "map_of (cmd_entries tm m) carrierKeyTimestamp = Some (tm_Format tm (md_timestamp m))"
  "map_of (cmd_entries tm m) carrierKeyCausationID = md_CausationID m"
  "map_of (cmd_entries tm m) carrierKeyDeadline = map_option (tm_Format tm) (md_Deadline m)"
  "map_of (cmd_entries tm m) carrierKeyExpectedRevision = map_option strconv_FormatUint (md_ExpectedRevision m)"
  "map_of (cmd_entries tm m) carrierKeyPrincipalID = map_option pr_id (md_Principal m)"
  "map_of (cmd_entries tm m) carrierKeyPrincipalKind = Option.bind (md_Principal m) pr_Kind"
  by (cases "md_CausationID m"; cases "md_Deadline m"; cases "md_ExpectedRevision m"; cases "md_Principal m",
      auto simp: cmd_entries_def opt_list_def carrier_key_defs split: option.splits)+

lemma apply_options_append:
  "apply_options (xs @ ys) m = sum_bind (apply_options xs m) (apply_options ys)"
  by (induction xs arbitrary: m) (auto split: sum.splits)

lemma apply_base_options:
  assumes "wf_Metadata m"
  shows "apply_options
    ([cmd_WithCorrelationID (md_correlationID m), cmd_WithTimestamp (md_timestamp m)]
     @ (case md_Deadline m of None \<Rightarrow> [] | Some t \<Rightarrow> [cmd_WithDeadline t])
     @ (case md_ExpectedRevision m of None \<Rightarrow> [] | Some r \<Rightarrow> [cmd_WithExpectedRevision r])
     @ (case md_Principal m of None \<Rightarrow> [] | Some p \<Rightarrow> [cmd_WithPrincipal p])
     @ (case md_Tenant m of None \<Rightarrow> [] | Some t \<Rightarrow> [cmd_WithTenant t]))
    (zeroMetadata\<lparr>md_operationID := md_operationID m, md_correlationID := md_operationID m, md_timestamp := now\<rparr>)
    = Inr (m\<lparr>md_custom := [], md_causationID := [], md_hasCausation := False\<rparr>)"
  using assms
  by (cases m)
    (auto simp: wf_Metadata_def md_Deadline_def md_ExpectedRevision_def md_Principal_def md_Tenant_def
      apply_options_append cmd_WithCorrelationID_def cmd_WithTimestamp_def cmd_WithDeadline_def
      cmd_WithExpectedRevision_def cmd_WithPrincipal_def cmd_WithTenant_def zeroMetadata_def)

lemma apply_custom:
  "wf_custom (md_custom m @ kvs) \<Longrightarrow>
     apply_options (map (\<lambda>(k, v). cmd_WithCustom k v) kvs) m = Inr (m\<lparr>md_custom := md_custom m @ kvs\<rparr>)"
proof (induction kvs arbitrary: m)
  case (Cons kv kvs)
  obtain k v where kv: "kv = (k, v)" by (cases kv)
  from Cons.prems have "validateCustomKey k = None" "validateCustomValue v = None" "k \<notin> fst ` set (md_custom m)"
    by (auto simp: wf_custom_def kv)
  then have "cmd_WithCustom k v m = Inr (m\<lparr>md_custom := md_custom m @ [kv]\<rparr>)"
    by (simp add: cmd_WithCustom_def update_fresh kv)
  with Cons.IH [of "m\<lparr>md_custom := md_custom m @ [kv]\<rparr>"] Cons.prems show ?case by (simp add: kv)
qed simp

lemma carrier_exact:
  assumes "wf_Metadata m" and "times_ok tm m"
  shows "cmd_UnmarshalMetadata tm now (cmd_MarshalMetadata tm m) = Inr m"
proof -
  have wfc: "wf_custom (md_custom m)" using assms(1) by (simp add: wf_Metadata_def)
  note look = map_of_Marshal [OF wfc] cmd_keys_prefix cmd_entries_lookup
  let ?c = "cmd_MarshalMetadata tm m"
  have op: "NewOperationID (md_operationID m) = Inr (md_operationID m)"
    using assms(1) by (simp add: wf_Metadata_def)
  have o1: "opt_entry ?c carrierKeyDeadline (deadline_option tm) =
      Inr (case md_Deadline m of None \<Rightarrow> [] | Some t \<Rightarrow> [cmd_WithDeadline t])"
    using assms(2) by (auto simp: opt_entry_def look deadline_option_def md_Deadline_def times_ok_def)
  have o2: "opt_entry ?c carrierKeyExpectedRevision revision_option =
      Inr (case md_ExpectedRevision m of None \<Rightarrow> [] | Some r \<Rightarrow> [cmd_WithExpectedRevision r])"
    by (auto simp: opt_entry_def look revision_option_def split: option.splits)
  have o3: "opt_entry ?c carrierKeyPrincipalID (principal_option ?c) =
      Inr (case md_Principal m of None \<Rightarrow> [] | Some p \<Rightarrow> [cmd_WithPrincipal p])"
    using assms(1)
    by (cases "md_principal m") (auto simp: opt_entry_def look principal_option_def md_Principal_def
        NewPrincipal_def pr_Kind_def wf_Metadata_def)
  have o4: "tenant_options ?c = Inr (case md_Tenant m of None \<Rightarrow> [] | Some t \<Rightarrow> [cmd_WithTenant t])"
  proof (cases "md_Tenant m")
    case None
    then show ?thesis by (simp add: tenant_options_def tenantSubset_Marshal [OF wfc] tenant_entries_def)
  next
    case (Some t)
    with assms(1) have t: "wf_TenantContext t" by (auto simp: wf_Metadata_def md_Tenant_def split: if_splits)
    have ne: "tenant_entries m \<noteq> []"
    proof
      assume "tenant_entries m = []"
      then have "tenancy_MarshalMetadata t = Map.empty" using map_of_tenant_entries [OF Some] by simp
      with t show False by (auto simp: tenancy_MarshalMetadata_def wf_TenantContext_def Let_def fun_eq_iff
            split: tenancy_scope.splits option.splits if_splits)
    qed
    have "tenancy_UnmarshalMetadata (tenancy_MarshalMetadata t) = Inr t"
      using t Unmarshal_Marshal_tenant Unmarshal_Marshal_admin
      by (cases "tc_scope t") (auto simp: wf_TenantContext_def)
    with ne show ?thesis
      by (simp add: tenant_options_def tenantSubset_Marshal [OF wfc] map_of_tenant_entries [OF Some] Some)
  qed
  let ?opts = "[cmd_WithCorrelationID (md_correlationID m), cmd_WithTimestamp (md_timestamp m)]
    @ (case md_Deadline m of None \<Rightarrow> [] | Some t \<Rightarrow> [cmd_WithDeadline t])
    @ (case md_ExpectedRevision m of None \<Rightarrow> [] | Some r \<Rightarrow> [cmd_WithExpectedRevision r])
    @ (case md_Principal m of None \<Rightarrow> [] | Some p \<Rightarrow> [cmd_WithPrincipal p])
    @ (case md_Tenant m of None \<Rightarrow> [] | Some t \<Rightarrow> [cmd_WithTenant t])"
  let ?m = "m\<lparr>md_custom := [], md_causationID := [], md_hasCausation := False\<rparr>"
  have m: "apply_options ?opts (zeroMetadata\<lparr>md_operationID := md_operationID m,
      md_correlationID := md_operationID m, md_timestamp := now\<rparr>) = Inr ?m"
    using assms(1) by (rule apply_base_options)
  have "NewMetadata now (md_operationID m) (?opts @ map (\<lambda>(k, v). cmd_WithCustom k v) (md_custom m)) =
      Inr (?m\<lparr>md_custom := md_custom m\<rparr>)"
    unfolding NewMetadata_def apply_options_append [of ?opts] m using apply_custom [of ?m "md_custom m"] wfc by simp
  moreover have "(case md_CausationID m of
        None \<Rightarrow> m\<lparr>md_causationID := [], md_hasCausation := False\<rparr>
      | Some c \<Rightarrow> m\<lparr>md_causationID := [], md_hasCausation := False, md_causationID := c, md_hasCausation := True\<rparr>) = m"
    using assms(1) by (cases m) (auto simp: md_CausationID_def wf_Metadata_def)
  ultimately show ?thesis
    using assms(2) unfolding cmd_UnmarshalMetadata_def
    by (simp add: look op o1 o2 o3 o4 parse_timestamp_def times_ok_def filter_custom_entry [OF wfc])
qed

text \<open>
  C27. A command's metadata survives the carrier: whatever metadata the constructors built from
  valid parts (identity, correlation, causation, tenant, principal, custom entries, deadline,
  expected revision) is reconstructed exactly from its carrier, given that the RFC 3339 text of
  its two instants parses back to them.
\<close>

theorem carrier_roundtrip:
  assumes "wf_Metadata m" and "times_ok tm m"
  shows "cmd_UnmarshalMetadata tm now (cmd_MarshalMetadata tm m) = Inr m"
  using assms by (rule carrier_exact)

definition sample_codec :: time_codec where
  "sample_codec =
     \<lparr>tm_Format = (\<lambda>t. strconv_FormatUint (word_of_int t)),
      tm_Parse = (\<lambda>s. case strconv_ParseUint s of Some w \<Rightarrow> Inr (uint w) | None \<Rightarrow> Inl (ErrNew ''time''))\<rparr>"

definition sample_metadata :: Metadata where
  "sample_metadata =
     zeroMetadata\<lparr>md_operationID := ''op-1'', md_correlationID := ''flow'', md_timestamp := 5,
       md_deadline := 9, md_hasDeadline := True, md_expectedRevision := 3, md_hasExpectedRevision := True,
       md_custom := [(''k'', ''v'')]\<rparr>"

lemma sample_metadata_wf: "wf_Metadata sample_metadata"
  by (simp add: wf_Metadata_def sample_metadata_def zeroMetadata_def NewOperationID_def maxOperationIDBytes_def
      wf_custom_def validateCustomKey_def validateCustomValue_def reservedCustomPrefix_def
      reservedCustomKeys_def strings_HasPrefix_def maxCustomValueBytes_def go_string_eval)

theorem carrier_roundtrip_witness:
  "cmd_UnmarshalMetadata sample_codec 0 (cmd_MarshalMetadata sample_codec sample_metadata) = Inr sample_metadata"
  by (rule carrier_roundtrip [OF sample_metadata_wf])
    (simp add: times_ok_def sample_codec_def sample_metadata_def zeroMetadata_def)

section \<open>Derived metadata\<close>

text \<open>
  A \<open>MetadataOption\<close> can only be one of the package's: the fields it sets are not exported.
\<close>

inductive standard_option :: "MetadataOption \<Rightarrow> bool" where
  "standard_option (cmd_WithCorrelationID c)"
| "standard_option (cmd_WithTenant t)"
| "standard_option (cmd_WithPrincipal p)"
| "standard_option (cmd_WithCustom k v)"
| "standard_option (cmd_WithTimestamp i)"
| "standard_option (cmd_WithDeadline i)"
| "standard_option (cmd_WithExpectedRevision r)"

lemmas option_defs = cmd_WithCorrelationID_def cmd_WithTenant_def cmd_WithPrincipal_def cmd_WithCustom_def
  cmd_WithTimestamp_def cmd_WithDeadline_def cmd_WithExpectedRevision_def

lemma apply_standard:
  "list_all standard_option opts \<Longrightarrow> apply_options opts m = Inr m' \<Longrightarrow>
     md_operationID m' = md_operationID m \<and> md_CausationID m' = md_CausationID m
     \<and> (md_hasTenant m \<longrightarrow> md_hasTenant m') \<and> (md_hasDeadline m \<longrightarrow> md_hasDeadline m')"
proof (induction opts arbitrary: m)
  case (Cons opt opts)
  then obtain m1 where m1: "opt m = Inr m1" "apply_options opts m1 = Inr m'" by (auto split: sum.splits)
  from Cons.prems(1) have "standard_option opt" by simp
  then have "md_operationID m1 = md_operationID m \<and> md_CausationID m1 = md_CausationID m
     \<and> (md_hasTenant m \<longrightarrow> md_hasTenant m1) \<and> (md_hasDeadline m \<longrightarrow> md_hasDeadline m1)"
    using m1(1) by cases (auto simp: option_defs md_CausationID_def split: option.splits)
  with Cons.IH [OF _ m1(2)] Cons.prems(1) show ?case by auto
qed simp

text \<open>
  A derived command stays inside its parent's authority: its operation id is new and its
  causation is the parent's operation, it runs under the parent's tenant whenever the parent has
  one, and its deadline is never later than the parent's, whatever options are given.
\<close>

theorem derived_metadata_within_parent:
  assumes "md_Derive now m op opts = Inr child" and "list_all standard_option opts"
  shows "md_operationID child = op \<and> op \<noteq> md_operationID m \<and> md_CausationID child = Some (md_operationID m)
    \<and> (\<forall>t. md_Tenant m = Some t \<longrightarrow> md_Tenant child = Some t)
    \<and> (\<forall>d. md_Deadline m = Some d \<longrightarrow> (\<exists>d'. md_Deadline child = Some d' \<and> d' \<le> d))"
proof -
  from assms(1) obtain c0 where c0: "apply_options opts c0 = Inr child" "md_operationID c0 = op"
    "md_CausationID c0 = Some (md_operationID m)" "md_hasTenant c0 = md_hasTenant m"
    "md_hasDeadline c0 = md_hasDeadline m" and ne: "op \<noteq> md_operationID m"
    and t: "md_hasTenant child \<and> md_hasTenant m \<longrightarrow> md_tenant child = md_tenant m"
    and d: "\<not> (md_hasDeadline child \<and> md_hasDeadline m \<and> md_deadline m < md_deadline child)"
    by (auto simp: md_Derive_def Let_def md_CausationID_def split: if_splits sum.splits option.splits)
  from apply_standard [OF assms(2) c0(1)] c0(2-5) ne t d show ?thesis
    by (auto simp: md_Tenant_def md_Deadline_def)
qed

theorem derived_metadata_within_parent_witness:
  "\<exists>child. md_Derive 6 sample_metadata ''op-2'' [cmd_WithDeadline 8] = Inr child
     \<and> md_CausationID child = Some ''op-1'' \<and> md_Deadline child = Some 8"
proof -
  obtain child where c: "md_Derive 6 sample_metadata ''op-2'' [cmd_WithDeadline 8] = Inr child"
    and d: "md_Deadline child = Some 8"
    by (simp add: md_Derive_def sample_metadata_def zeroMetadata_def cmd_WithDeadline_def md_Deadline_def)
  have "list_all standard_option [cmd_WithDeadline 8]" by (simp add: standard_option.intros)
  from derived_metadata_within_parent [OF c this] have "md_CausationID child = Some (md_operationID sample_metadata)"
    by blast
  with c d show ?thesis by (auto simp: sample_metadata_def)
qed

end
