(* ===== verification/Protocol.thy ===== *)
theory Protocol
  imports Command Events_Contract
begin

text \<open>
  The package \<open>src/internal/engine/protocol\<close>, shared by every actor and the engine: the command
  carrier in a Go context, the deadline gate, the expected revision a command declares and the
  write precondition it names, the reply messages and their classification into results, and the
  tenant-binding query.
\<close>

section \<open>Contexts\<close>

text \<open>
  A Go context carries a tenant identity and a carrier; \<open>ctx_Err ctx now\<close> is what \<open>ctx.Err()\<close>
  answers at the instant \<open>now\<close>: nothing, or one of the two errors of the \<open>context\<close> package.
\<close>

record cmdctx = gocontext +
  ctx_carrier :: "Carrier option"
  ctx_Err :: "int \<Rightarrow> goerr option"

definition context_Background :: cmdctx where
  "context_Background = \<lparr>tenant_value = None, ctx_carrier = None, ctx_Err = (\<lambda>_. None)\<rparr>"

definition AttachCarrier :: "cmdctx \<Rightarrow> Carrier \<Rightarrow> cmdctx" where
  "AttachCarrier ctx c = ctx\<lparr>ctx_carrier := Some c\<rparr>"

definition CarrierFromContext :: "cmdctx \<Rightarrow> Carrier option" where
  "CarrierFromContext ctx = ctx_carrier ctx"

definition MetadataFromContext :: "time_codec \<Rightarrow> int \<Rightarrow> cmdctx \<Rightarrow> Metadata option" where
  "MetadataFromContext tm now ctx =
     (case CarrierFromContext ctx of
        None \<Rightarrow> None
      | Some c \<Rightarrow> (case cmd_UnmarshalMetadata tm now c of Inl err \<Rightarrow> None | Inr md \<Rightarrow> Some md))"

lemma MetadataFromContext_Attach:
  "wf_Metadata md \<Longrightarrow> times_ok tm md \<Longrightarrow>
     MetadataFromContext tm now (AttachCarrier ctx (cmd_MarshalMetadata tm md)) = Some md"
  by (simp add: MetadataFromContext_def CarrierFromContext_def AttachCarrier_def carrier_exact)

section \<open>The deadline gate\<close>

definition errActorDeadlineExceeded :: goerr where
  "errActorDeadlineExceeded = ErrNew ''urd: command deadline exceeded''"

definition errActorContextCanceled :: goerr where
  "errActorContextCanceled = ErrNew ''urd: command context canceled''"

definition CheckDeadline :: "cmdctx \<Rightarrow> int \<Rightarrow> string \<Rightarrow> goerr option" where
  "CheckDeadline ctx now stage =
     (case ctx_Err ctx now of
        None \<Rightarrow> None
      | Some err \<Rightarrow>
          if errors_Is ''context canceled'' err
          then Some (ErrWrap '''' errActorContextCanceled ('': '' @ stage))
          else Some (ErrWrap '''' errActorDeadlineExceeded ('': '' @ stage)))"

lemma CheckDeadline_None [simp]: "CheckDeadline ctx now stage = None \<longleftrightarrow> ctx_Err ctx now = None"
  by (simp add: CheckDeadline_def split: option.splits)

section \<open>The expected revision\<close>

definition ExpectedRevisionFromContext :: "time_codec \<Rightarrow> int \<Rightarrow> cmdctx \<Rightarrow> u64 option" where
  "ExpectedRevisionFromContext tm now ctx =
     (case MetadataFromContext tm now ctx of None \<Rightarrow> None | Some md \<Rightarrow> md_ExpectedRevision md)"

definition PreconditionFromRevision :: "u64 option \<Rightarrow> WritePrecondition" where
  "PreconditionFromRevision r =
     (case r of
        None \<Rightarrow> Unconditional
      | Some revision \<Rightarrow> if revision = 0 then ExpectGenesis else ExpectRevision revision)"

lemma PreconditionFromRevision_wf [simp]: "wf_precondition (PreconditionFromRevision r)"
  by (auto simp: PreconditionFromRevision_def split: option.splits)

lemma PreconditionFromRevision_holds:
  "precondition_holds (PreconditionFromRevision r) stored \<longleftrightarrow>
     (case r of None \<Rightarrow> True | Some n \<Rightarrow> if n = 0 then stored = None else stored = Some n)"
  by (auto simp: PreconditionFromRevision_def split: option.splits)

section \<open>Packed messages\<close>

text \<open>
  The protocol-buffer runtime, over the messages \<open>'m\<close> of the application.  \<open>any_New\<close> is
  \<open>anypb.New\<close>, whose error the source drops, keeping a nil result; \<open>any_UnmarshalNew\<close>,
  \<open>any_UnmarshalTo\<close> (into a message of the type of the second argument), \<open>any_Marshal\<close> and
  \<open>any_Unmarshal\<close> are the runtime's functions on a packed message, which may be nil.
\<close>

record 'm AnyCodec =
  any_New :: "'m \<Rightarrow> any_pb option"
  any_UnmarshalNew :: "any_pb option \<Rightarrow> goerr + 'm"
  any_UnmarshalTo :: "any_pb option \<Rightarrow> 'm \<Rightarrow> goerr + 'm"
  any_Marshal :: "any_pb option \<Rightarrow> goerr + bytes"
  any_Unmarshal :: "bytes \<Rightarrow> goerr + any_pb"

text \<open>A codec for messages that are texts of one type.\<close>

definition text_url :: string where
  "text_url = ''type.googleapis.com/text''"

definition text_codec :: "string AnyCodec" where
  "text_codec =
     \<lparr>any_New = (\<lambda>m. Some \<lparr>any_type_url = text_url, any_value = m\<rparr>),
      any_UnmarshalNew = (\<lambda>a. case a of
          Some p \<Rightarrow> if any_type_url p = text_url then Inr (any_value p) else Inl (ErrNew ''proto: not found'')
        | None \<Rightarrow> Inl (ErrNew ''invalid empty type URL'')),
      any_UnmarshalTo = (\<lambda>a m. case a of
          Some p \<Rightarrow> if any_type_url p = text_url then Inr (any_value p)
                    else Inl (ErrNew ''proto: mismatched message type'')
        | None \<Rightarrow> Inl (ErrNew ''proto: invalid nil source message'')),
      any_Marshal = (\<lambda>a. case a of Some p \<Rightarrow> Inr (any_value p) | None \<Rightarrow> Inr []),
      any_Unmarshal = (\<lambda>b. Inr \<lparr>any_type_url = text_url, any_value = b\<rparr>)\<rparr>"

text \<open>A framing of packed messages that keeps their type: the length of the type in unary, then both parts.\<close>

definition frame_codec :: "string AnyCodec" where
  "frame_codec = text_codec\<lparr>
     any_Marshal := (\<lambda>a. case a of
         Some p \<Rightarrow> Inr (replicate (length (any_type_url p)) (CHR ''1'') @ CHR ''0'' # any_type_url p @ any_value p)
       | None \<Rightarrow> Inr []),
     any_Unmarshal := (\<lambda>b. let n = length (takeWhile (\<lambda>c. c = CHR ''1'') b); r = drop (Suc n) b in
         Inr \<lparr>any_type_url = take n r, any_value = drop n r\<rparr>)\<rparr>"

lemma takeWhile_replicate_stop: "\<not> P y \<Longrightarrow> P x \<Longrightarrow> takeWhile P (replicate n x @ y # ys) = replicate n x"
  by (induction n) simp_all

lemma frame_codec_roundtrip: "any_Marshal frame_codec (Some p) = Inr b \<Longrightarrow> any_Unmarshal frame_codec b = Inr p"
  by (auto simp: frame_codec_def text_codec_def takeWhile_replicate_stop)

section \<open>Replies\<close>

definition ParseCommandReply :: "'m AnyCodec \<Rightarrow> CommandReply \<Rightarrow> goerr + 'm \<times> u64" where
  "ParseCommandReply cod reply =
     (case reply of
        Reply_StateReply r \<Rightarrow>
          (case any_UnmarshalNew cod (sr_state r) of
             Inl err \<Rightarrow> Inl err
           | Inr msg \<Rightarrow> Inr (msg, sr_sequence_number r))
      | Reply_ErrorReply message \<Rightarrow> Inl (ErrNew message)
      | ReplyUnset \<Rightarrow> Inl (ErrNew ''no state received''))"

definition CodeConcurrencyConflict :: string where
  "CodeConcurrencyConflict = ''concurrency_conflict''"

definition buildCanceledResult :: "Metadata \<Rightarrow> string \<Rightarrow> goerr + 'm Result" where
  "buildCanceledResult md message =
     sum_bind (NewFailure message None None) (\<lambda>failure. Inr (NewCanceled md failure))"

definition buildTimedOutResult :: "Metadata \<Rightarrow> string \<Rightarrow> goerr + 'm Result" where
  "buildTimedOutResult md message =
     sum_bind (NewFailure message None None) (\<lambda>failure. Inr (NewTimedOut md failure))"

definition buildConcurrencyConflictResult ::
    "(nat \<Rightarrow> bool) \<Rightarrow> Metadata \<Rightarrow> string \<Rightarrow> goerr + 'm Result" where
  "buildConcurrencyConflictResult ip md message =
     sum_bind
       (NewFailure message (Some CodeConcurrencyConflict)
          (map_option ErrConflict (ParseConflictError ip message)))
       (\<lambda>failure. Inr (NewRejected md failure))"

definition classifierRegistry ::
    "(nat \<Rightarrow> bool) \<Rightarrow> (string \<times> (Metadata \<Rightarrow> string \<Rightarrow> goerr + 'm Result)) list" where
  "classifierRegistry ip =
     [(error_text ip errActorContextCanceled, buildCanceledResult),
      (error_text ip errActorDeadlineExceeded, buildTimedOutResult),
      (error_text ip ErrConcurrencyConflict, buildConcurrencyConflictResult ip)]"

fun first_classifier ::
    "(string \<times> (Metadata \<Rightarrow> string \<Rightarrow> goerr + 'm Result)) list \<Rightarrow> Metadata \<Rightarrow> string \<Rightarrow> goerr + 'm Result" where
  "first_classifier [] md message =
     sum_bind (NewFailure message None None) (\<lambda>failure. Inr (NewFailed md failure))"
| "first_classifier ((sentinel, build) # rest) md message =
     (if strings_HasPrefix message sentinel then build md message else first_classifier rest md message)"

definition ClassifyErrorReply :: "(nat \<Rightarrow> bool) \<Rightarrow> Metadata \<Rightarrow> string \<Rightarrow> goerr + 'm Result" where
  "ClassifyErrorReply ip md message = first_classifier (classifierRegistry ip) md message"

definition ResultFromReply ::
    "(nat \<Rightarrow> bool) \<Rightarrow> 'm AnyCodec \<Rightarrow> CommandReply \<Rightarrow> Metadata \<Rightarrow> goerr + 'm Result" where
  "ResultFromReply ip cod reply md =
     (case reply of
        Reply_StateReply r \<Rightarrow>
          (case any_UnmarshalNew cod (sr_state r) of
             Inl err \<Rightarrow> Inl err
           | Inr state \<Rightarrow> NewSuccess md (Some state) (sr_sequence_number r))
      | Reply_ErrorReply m \<Rightarrow>
          ClassifyErrorReply ip md (if m = [] then ''command: empty error reply message'' else m)
      | ReplyUnset \<Rightarrow> Inl (ErrNew ''no state received''))"

section \<open>The tenant-binding query\<close>

definition AnswerTenantBinding :: "bool \<Rightarrow> Scope \<Rightarrow> string \<Rightarrow> TenantBindingReply" where
  "AnswerTenantBinding tenantAware scope tid =
     (if \<not> tenantAware \<or> \<not> scope_Valid scope \<or> scope_IsUnscoped scope then
        \<lparr>tb_tenant_aware = False, tb_matches = False\<rparr>
      else
        \<lparr>tb_tenant_aware = True,
         tb_matches = (case NewTenantScope tid of Inl err \<Rightarrow> False | Inr queried \<Rightarrow> scope_Equal scope queried)\<rparr>)"

lemma AnswerTenantBinding_matches:
  assumes "wf_scope scope" and "sc_kind scope = scopeTenant"
  shows "tb_matches (AnswerTenantBinding True scope tid) \<longleftrightarrow> tid = sc_tenant scope"
proof (cases "NewTenantScope tid")
  case (Inl e)
  with NewTenantScope_tenant [OF assms] show ?thesis
    by (auto simp: AnswerTenantBinding_def)
next
  case (Inr q)
  from NewTenantScope_InrD [OF this] Inr assms show ?thesis
    by (cases scope) (auto simp: AnswerTenantBinding_def scope_Valid_def scope_IsUnscoped_def scope_Equal_def)
qed

section \<open>What crosses the wire\<close>

lemma HasPrefix_conflict_Error: "strings_HasPrefix (conflict_Error ip c) ErrConcurrencyConflict_text"
  by (simp add: strings_HasPrefix_def conflict_Error_def conflictGrammarPrefix_def ErrConcurrencyConflict_text_def)

lemma sentinel_not_prefix:
  "\<not> strings_HasPrefix (ErrConcurrencyConflict_text @ s) ''urd: command context canceled''"
  "\<not> strings_HasPrefix (ErrConcurrencyConflict_text @ s) ''urd: command deadline exceeded''"
  "\<not> strings_HasPrefix (''urd: command deadline exceeded'' @ s) ''urd: command context canceled''"
  by (simp_all add: strings_HasPrefix_def ErrConcurrencyConflict_text_def)

lemmas classify_defs = ClassifyErrorReply_def classifierRegistry_def errActorContextCanceled_def
  errActorDeadlineExceeded_def ErrConcurrencyConflict_def

text \<open>
  C28. A conflict keeps its identity across the wire.  The text of the conflict an events store
  answers with is all the reply carries, and the caller gets from it a rejection with the
  conflict code whose cause is that very conflict, so the declared and the actual revision are
  recovered exactly.
\<close>

theorem conflict_crosses_the_wire:
  assumes "wf_conflict c"
  shows "\<exists>r :: 'm Result. ResultFromReply ip cod (Reply_ErrorReply (error_text ip (ErrConflict c))) md = Inr r
     \<and> rs_outcome r = OutcomeRejected \<and> rs_metadata r = md
     \<and> fl_Code (rs_failure r) = Some CodeConcurrencyConflict
     \<and> map_option errors_As_conflict (rs_Err r) = Some (Some c)"
proof -
  obtain s where s: "conflict_Error ip c = ErrConcurrencyConflict_text @ s"
    using HasPrefix_conflict_Error by (metis strings_HasPrefix_iff)
  have "conflict_Error ip c \<noteq> []" by (simp add: s ErrConcurrencyConflict_text_def)
  then show ?thesis
    by (simp add: ResultFromReply_def classify_defs buildConcurrencyConflictResult_def NewFailure_def
        ParseConflictError_Error [OF assms] NewRejected_def zeroResult_def fl_Code_def rs_Err_def
        newOutcomeError_def)
      (simp add: s sentinel_not_prefix)
qed

definition sample_conflict :: conflict_error where
  "sample_conflict = NewConflictError Unscoped ''account-1'' (ExpectRevision 3) (Some 5)"

theorem conflict_crosses_the_wire_witness:
  "\<exists>r. ResultFromReply (\<lambda>_. True) text_codec (Reply_ErrorReply (error_text (\<lambda>_. True) (ErrConflict sample_conflict)))
       sample_metadata = Inr r
     \<and> map_option errors_As_conflict (rs_Err r) = Some (Some sample_conflict)"
  using conflict_crosses_the_wire [of sample_conflict "\<lambda>_. True" text_codec sample_metadata]
  by (auto simp: sample_conflict_def wf_conflict_New)

text \<open>
  C29. A command stopped by the deadline gate is reported as what it is.  When the gate fires, the
  caller's result is canceled if the context was canceled and timed out otherwise, with the
  sentinel of the \<open>context\<close> package as its cause; a message of no known origin is a failure with
  that message.
\<close>

theorem gate_rejection_is_classified:
  assumes "CheckDeadline ctx now stage = Some err"
  shows "\<exists>r :: 'm Result. ResultFromReply ip cod (Reply_ErrorReply (error_text ip err)) md = Inr r
     \<and> rs_outcome r = (if map_option (errors_Is ''context canceled'') (ctx_Err ctx now) = Some True
                       then OutcomeCanceled else OutcomeTimedOut)
     \<and> fl_cause (rs_failure r) = (if rs_outcome r = OutcomeCanceled then Some context_Canceled
                                  else Some context_DeadlineExceeded)"
proof -
  from assms obtain e where e: "ctx_Err ctx now = Some e" by (cases "ctx_Err ctx now") (auto simp: CheckDeadline_def)
  show ?thesis
  proof (cases "errors_Is ''context canceled'' e")
    case True
    with assms e have "err = ErrWrap '''' errActorContextCanceled ('': '' @ stage)" by (simp add: CheckDeadline_def)
    with True show ?thesis
      by (simp add: e ResultFromReply_def classify_defs strings_HasPrefix_def buildCanceledResult_def
          NewFailure_def NewCanceled_def zeroResult_def)
  next
    case False
    with assms e have "err = ErrWrap '''' errActorDeadlineExceeded ('': '' @ stage)" by (simp add: CheckDeadline_def)
    with False show ?thesis
      by (simp add: e ResultFromReply_def classify_defs strings_HasPrefix_def buildTimedOutResult_def
          NewFailure_def NewTimedOut_def zeroResult_def)
  qed
qed

theorem gate_rejection_is_classified_witness:
  "\<exists>r. ResultFromReply (\<lambda>_. True) text_codec (Reply_ErrorReply
        (error_text (\<lambda>_. True) (ErrWrap '''' errActorDeadlineExceeded '': before persistence''))) sample_metadata = Inr r
     \<and> rs_outcome r = OutcomeTimedOut"
proof -
  let ?ctx = "context_Background\<lparr>ctx_Err := (\<lambda>t. if 9 \<le> t then Some context_DeadlineExceeded else None)\<rparr>"
  have "CheckDeadline ?ctx 9 ''before persistence'' =
      Some (ErrWrap '''' errActorDeadlineExceeded '': before persistence'')"
    by (simp add: CheckDeadline_def context_DeadlineExceeded_def)
  from gate_rejection_is_classified [OF this, where ip = "\<lambda>_. True" and cod = text_codec and md = sample_metadata]
  show ?thesis by (auto simp: context_DeadlineExceeded_def)
qed

text \<open>
  C30. The revision a caller expects reaches the store as it was declared.  For metadata attached
  to the context of a command, the precondition the actor writes under holds against a stored
  revision exactly when nothing was declared, or zero was declared and nothing is stored, or the
  declared revision is the stored one.
\<close>

theorem declared_revision_reaches_store:
  assumes "wf_Metadata md" and "times_ok tm md"
  shows "precondition_holds
      (PreconditionFromRevision
         (ExpectedRevisionFromContext tm now (AttachCarrier ctx (cmd_MarshalMetadata tm md)))) stored
    \<longleftrightarrow> (case md_ExpectedRevision md of
           None \<Rightarrow> True
         | Some n \<Rightarrow> if n = 0 then stored = None else stored = Some n)"
  using assms by (simp add: ExpectedRevisionFromContext_def MetadataFromContext_Attach PreconditionFromRevision_holds)

theorem declared_revision_reaches_store_witness:
  "\<not> precondition_holds
      (PreconditionFromRevision
         (ExpectedRevisionFromContext sample_codec 7
            (AttachCarrier context_Background (cmd_MarshalMetadata sample_codec sample_metadata)))) (Some 4)"
  by (subst declared_revision_reaches_store [OF sample_metadata_wf])
    (simp_all add: times_ok_def sample_codec_def sample_metadata_def zeroMetadata_def md_ExpectedRevision_def)

end
