(* ===== verification/Actor_Base.thy ===== *)
theory Actor_Base
  imports Protocol
begin

text \<open>
  What the actors of \<open>src/internal/engine\<close> share.  Application code (behaviors, encryptors, event
  adapters) sits behind the interfaces of \<open>src/port/behavior\<close>, \<open>src/encryption\<close> and
  \<open>src/eventadapter\<close>: each is a record of functions.  The registry of extensions and the spawn
  dependencies an actor reads in \<open>PreStart\<close> are modelled with the lookups of
  \<open>src/internal/extensions\<close>.  \<open>'m\<close> is the type of the interface values \<open>proto.Message\<close>, nil included.
\<close>

section \<open>The run-time environment\<close>

text \<open>
  The libraries a handler calls: the protocol-buffer runtime, the RFC 3339 text of instants and
  the table behind \<open>strconv.IsPrint\<close>; \<open>rt_nil\<close> is the nil message, \<open>rt_name\<close> the full name of a
  message's type and \<open>rt_newErr\<close> the error of \<open>anypb.New\<close> where it fails.
\<close>

record 'm runtime =
  rt_any :: "'m AnyCodec"
  rt_time :: time_codec
  rt_print :: "nat \<Rightarrow> bool"
  rt_nil :: 'm
  rt_name :: "'m \<Rightarrow> string"
  rt_newErr :: "'m \<Rightarrow> goerr"

text \<open>
  What one turn of an actor reads from outside: the context of the message, the clock at each
  point where the handler (or a library function it calls) looks at it, and the random bytes the
  encryptor draws for the \<open>n\<close>-th payload.
\<close>

record turn =
  tn_ctx :: cmdctx
  tn_gate :: int
  tn_revision :: int
  tn_dispatch :: int
  tn_build :: int
  tn_persist :: int
  tn_random :: "nat \<Rightarrow> bytes"

text \<open>An instant is a number of nanoseconds; \<open>UnixNano\<close> is an \<open>int64\<close> and wraps outside its range.\<close>

definition zeroTime :: int where
  "zeroTime = - 62135596800000000000"

definition time_UnixNano :: "int \<Rightarrow> int" where
  "time_UnixNano t = (t + 2 ^ 63) mod 2 ^ 64 - 2 ^ 63"

lemma time_UnixNano_in_range: "- (2 ^ 63) \<le> t \<Longrightarrow> t < 2 ^ 63 \<Longrightarrow> time_UnixNano t = t"
  by (simp add: time_UnixNano_def)

lemma time_UnixNano_bounds: "- (2 ^ 63) \<le> time_UnixNano t \<and> time_UnixNano t < 2 ^ 63"
  unfolding time_UnixNano_def by (simp add: algebra_simps)

text \<open>An early return of \<open>fmt.Errorf\<close> with the error behind a prefix.\<close>

fun wrap_err :: "string \<Rightarrow> goerr + 'a \<Rightarrow> goerr + 'a" where
  "wrap_err pre (Inl err) = Inl (ErrWrap pre err '''')"
| "wrap_err pre (Inr x) = Inr x"

lemma wrap_err_Inr_iff: "wrap_err p r = Inr x \<longleftrightarrow> r = Inr x"
  by (cases r) simp_all

section \<open>Application code behind interfaces\<close>

record 'm EventSourced =
  bh_ID :: string
  bh_InitialState :: 'm
  bh_HandleCommand :: "cmdctx \<Rightarrow> 'm \<Rightarrow> 'm \<Rightarrow> goerr + 'm list"
  bh_HandleEvent :: "cmdctx \<Rightarrow> 'm \<Rightarrow> 'm \<Rightarrow> goerr + 'm"
  bh_HandleEnvelope :: "(cmdctx \<Rightarrow> 'm Envelope \<Rightarrow> 'm \<Rightarrow> goerr + 'm list) option"

text \<open>
  \<open>bh_HandleEnvelope\<close> is present when the behavior implements \<open>EventSourcedEnvelope\<close> as well.
  The second argument of \<open>enc_Encrypt\<close> is the randomness the encryptor draws.
\<close>

record Encryptor =
  enc_Encrypt :: "cmdctx \<Rightarrow> bytes \<Rightarrow> string \<Rightarrow> bytes \<Rightarrow> goerr + bytes \<times> string"
  enc_Decrypt :: "cmdctx \<Rightarrow> string \<Rightarrow> bytes \<Rightarrow> string \<Rightarrow> goerr + bytes"

type_synonym EventAdapter = "any_pb option \<Rightarrow> u64 \<Rightarrow> goerr + any_pb option"

fun adapter_Chain :: "EventAdapter list \<Rightarrow> any_pb option \<Rightarrow> u64 \<Rightarrow> goerr + any_pb option" where
  "adapter_Chain [] event revision = Inr event"
| "adapter_Chain (adapter # adapters) event revision =
     (case adapter event revision of
        Inl err \<Rightarrow> Inl err
      | Inr adapted \<Rightarrow> adapter_Chain adapters adapted revision)"

lemma adapter_Chain_append:
  "adapter_Chain (as @ bs) e r = sum_bind (adapter_Chain as e r) (\<lambda>e'. adapter_Chain bs e' r)"
  by (induction as arbitrary: e) (auto split: sum.splits)

lemma adapter_Chain_unchanged:
  "\<forall>a \<in> set as. a e r = Inr e \<Longrightarrow> adapter_Chain as e r = Inr e"
  by (induction as) auto

section \<open>Extensions and spawn dependencies\<close>

text \<open>
  What the registry answers for an extension id: nothing, a value of another type (named), or
  the value.
\<close>

datatype 'x ext_slot = ExtMissing | ExtMistyped string | ExtPresent 'x

definition ErrMissingRequiredExtensions :: goerr where
  "ErrMissingRequiredExtensions = ErrNew ''actor system is missing required urd extensions''"

definition missing_extension :: "(nat \<Rightarrow> bool) \<Rightarrow> string \<Rightarrow> string \<Rightarrow> goerr" where
  "missing_extension ip eid actor =
     ErrWrap '''' ErrMissingRequiredExtensions
       ('': '' @ eid @ '' is not registered on the actor system (actor='' @ strconv_Quote ip actor @ '')'')"

definition mistyped_extension :: "(nat \<Rightarrow> bool) \<Rightarrow> string \<Rightarrow> string \<Rightarrow> string \<Rightarrow> goerr" where
  "mistyped_extension ip eid typ actor =
     ErrWrap '''' ErrMissingRequiredExtensions
       ('': '' @ eid @ '' was registered with unexpected type '' @ typ @ '' (actor='' @ strconv_Quote ip actor @ '')'')"

definition ext_Require :: "(nat \<Rightarrow> bool) \<Rightarrow> string \<Rightarrow> string \<Rightarrow> 'x ext_slot \<Rightarrow> goerr + 'x" where
  "ext_Require ip actor eid slot =
     (case slot of
        ExtMissing \<Rightarrow> Inl (missing_extension ip eid actor)
      | ExtMistyped typ \<Rightarrow> Inl (mistyped_extension ip eid typ actor)
      | ExtPresent x \<Rightarrow> Inr x)"

definition ext_Optional :: "(nat \<Rightarrow> bool) \<Rightarrow> string \<Rightarrow> string \<Rightarrow> 'x ext_slot \<Rightarrow> goerr + 'x option" where
  "ext_Optional ip actor eid slot =
     (case slot of
        ExtMissing \<Rightarrow> Inr None
      | ExtMistyped typ \<Rightarrow> Inl (mistyped_extension ip eid typ actor)
      | ExtPresent x \<Rightarrow> Inr (Some x))"

definition EventsStoreExtensionID :: string where "EventsStoreExtensionID = ''EgoEventsStoreExtension''"
definition DurableStateStoreExtensionID :: string where "DurableStateStoreExtensionID = ''EgoStatesStoreExtension''"
definition EventsStreamExtensionID :: string where "EventsStreamExtensionID = ''EgoEventStreamExtension''"
definition EventAdaptersExtensionID :: string where "EventAdaptersExtensionID = ''EgoEventAdaptersExtension''"
definition SnapshotStoreExtensionID :: string where "SnapshotStoreExtensionID = ''EgoSnapshotStoreExtension''"
definition EncryptorExtensionID :: string where "EncryptorExtensionID = ''EgoEncryptorExtension''"
definition TelemetryExtensionID :: string where "TelemetryExtensionID = ''EgoTelemetryExtension''"

definition ErrEntityTenantScopeMissing :: goerr where
  "ErrEntityTenantScopeMissing = ErrNew ''urd: tenant-aware actor spawned without a bound tenant scope''"

record EntityConfig =
  ec_SnapshotInterval :: u64
  ec_DeleteEventsOnSnapshot :: bool
  ec_DeleteSnapshotsOnSnapshot :: bool
  ec_EventsRetentionCount :: u64
  ec_HasRetentionPolicy :: bool
  ec_BatchThreshold :: int
  ec_BatchFlushWindow :: int

text \<open>
  A spawn dependency, as far as an actor tells them apart: nil, a behavior (bare or wrapped in a
  \<open>LocalBehavior\<close>), an entity configuration, a saga timeout, a tenant scope, or something else.
\<close>

datatype 'b dependency =
  DepNil | DepBehavior 'b | DepEntityConfig EntityConfig | DepSagaConfig int | DepTenantScope string | DepOther

text \<open>
  The tenant scope an actor binds before it reads a store, the same in every actor: the first
  scope dependency decides.
\<close>

fun first_tenant_scope :: "'b dependency list \<Rightarrow> string option" where
  "first_tenant_scope [] = None"
| "first_tenant_scope (DepTenantScope tid # deps) = Some tid"
| "first_tenant_scope (dep # deps) = first_tenant_scope deps"

definition bind_tenant_scope :: "bool \<Rightarrow> 'b dependency list \<Rightarrow> goerr + Scope \<times> TenantContext" where
  "bind_tenant_scope tenantAware deps =
     (if \<not> tenantAware then Inr (Unscoped, noTenantContext)
      else case first_tenant_scope deps of
             None \<Rightarrow> Inl ErrEntityTenantScopeMissing
           | Some tid \<Rightarrow>
               (case NewTenantScope tid of
                  Inl err \<Rightarrow> Inl (ErrWrap2 ErrEntityTenantScopeMissing err)
                | Inr scope \<Rightarrow>
                    (case NewTenantContext (scope_TenantID scope) of
                       Inl err \<Rightarrow> Inl (ErrWrap2 ErrEntityTenantScopeMissing (ErrTenancy err))
                     | Inr tc \<Rightarrow> Inr (scope, tc))))"

text \<open>
  A bound scope is well formed, and in tenant-aware mode it is the scope of the tenant whose
  context is bound with it.
\<close>

lemma bind_tenant_scope_wf:
  assumes "bind_tenant_scope aware deps = Inr (scope, tc)"
  shows "wf_scope scope \<and> (aware \<longrightarrow> sc_kind scope = scopeTenant \<and> tc_Tenant tc = Some (sc_tenant scope))
    \<and> (\<not> aware \<longrightarrow> scope = Unscoped \<and> tc = noTenantContext)"
  using assms
  by (auto simp: bind_tenant_scope_def NewTenantContext_def tc_Tenant_def scope_TenantID_def wf_scope_def
      dest!: NewTenantScope_InrD NewTenantID_InrD intro: NewTenantID_idem
      split: if_splits option.splits sum.splits)

lemma bind_tenant_scope_context:
  "bind_tenant_scope aware deps = Inr (scope, tc) \<Longrightarrow> aware \<Longrightarrow> wf_TenantContext tc \<and> tc_scope tc = ScopeTenant"
  using NewTenantContext_wf
  by (fastforce simp: bind_tenant_scope_def NewTenantContext_def split: option.splits sum.splits)

end
