(* ===== verification/Snapshot_Store.thy ===== *)
theory Snapshot_Store
  imports Events_Contract
begin

text \<open>
  The snapshot store and the projection offset store of \<open>src/testkit\<close>, with the contract of
  \<open>src/persistence/snapshot_store.go\<close> as a locale and the snapshot store as its instance.
\<close>

section \<open>Snapshots\<close>

record SnapshotKey =
  sk_Scope :: Scope
  sk_PersistenceID :: string
  sk_SequenceNumber :: u64

record SnapshotStore =
  sst_db :: "(SnapshotKey, Snapshot) sync_map"
  sst_connected :: bool

definition NewSnapshotStore :: SnapshotStore where
  "NewSnapshotStore = \<lparr>sst_db = [], sst_connected = False\<rparr>"

definition sst_Connect :: "SnapshotStore \<Rightarrow> SnapshotStore" where
  "sst_Connect x = (if sst_connected x then x else x\<lparr>sst_connected := True\<rparr>)"

definition sst_Disconnect :: "SnapshotStore \<Rightarrow> SnapshotStore" where
  "sst_Disconnect x =
     (if \<not> sst_connected x then x
      else x\<lparr>sst_db := sm_RangeDelete (\<lambda>_. True) (sst_db x) (sst_db x), sst_connected := False\<rparr>)"

definition sst_Ping :: "SnapshotStore \<Rightarrow> SnapshotStore" where
  "sst_Ping x = (if \<not> sst_connected x then sst_Connect x else x)"

definition sst_WriteSnapshot :: "Scope \<Rightarrow> Snapshot \<Rightarrow> SnapshotStore \<Rightarrow> goerr option \<times> SnapshotStore" where
  "sst_WriteSnapshot scope snapshot x =
     (if \<not> scope_Valid scope then (Some ErrInvalidScope, x)
      else (None, x\<lparr>sst_db := sm_Store
                     \<lparr>sk_Scope = scope, sk_PersistenceID = sn_persistence_id snapshot,
                      sk_SequenceNumber = sn_sequence_number snapshot\<rparr> snapshot (sst_db x)\<rparr>))"

text \<open>The sort is by descending sequence number.\<close>

definition sst_GetLatestSnapshot :: "Scope \<Rightarrow> string \<Rightarrow> SnapshotStore \<Rightarrow> goerr + Snapshot option" where
  "sst_GetLatestSnapshot scope persistenceID x =
     (if \<not> scope_Valid scope then Inl ErrInvalidScope
      else
        (let snapshots = map snd (filter (\<lambda>kv. scope_Equal (sk_Scope (fst kv)) scope
                                            \<and> sk_PersistenceID (fst kv) = persistenceID) (sst_db x))
         in if snapshots = [] then Inr None
            else Inr (Some (hd (sort_key (\<lambda>s. - uint (sn_sequence_number s)) snapshots)))))"

definition sst_DeleteSnapshots ::
    "Scope \<Rightarrow> string \<Rightarrow> u64 \<Rightarrow> SnapshotStore \<Rightarrow> goerr option \<times> SnapshotStore" where
  "sst_DeleteSnapshots scope persistenceID toSequenceNumber x =
     (if \<not> scope_Valid scope then (Some ErrInvalidScope, x)
      else (None, x\<lparr>sst_db := sm_RangeDelete
                     (\<lambda>k. scope_Equal (sk_Scope k) scope \<and> sk_PersistenceID k = persistenceID
                        \<and> sk_SequenceNumber k \<le> toSequenceNumber) (sst_db x) (sst_db x)\<rparr>))"

section \<open>The contract\<close>

record 's SnapshotStoreApi =
  WriteSnapshot :: "Scope \<Rightarrow> Snapshot \<Rightarrow> 's \<Rightarrow> goerr option \<times> 's"
  GetLatestSnapshot :: "Scope \<Rightarrow> string \<Rightarrow> 's \<Rightarrow> goerr + Snapshot option"
  DeleteSnapshots :: "Scope \<Rightarrow> string \<Rightarrow> u64 \<Rightarrow> 's \<Rightarrow> goerr option \<times> 's"

definition snapshots_latest :: "(u64 \<rightharpoonup> Snapshot) \<Rightarrow> Snapshot option" where
  "snapshots_latest m = (if m = Map.empty then None else m (Max (dom m)))"

locale snapshot_store =
  fixes api :: "'s SnapshotStoreApi"
    and inv :: "'s \<Rightarrow> bool"
    and snaps :: "'s \<Rightarrow> Scope \<Rightarrow> string \<Rightarrow> u64 \<rightharpoonup> Snapshot"
  assumes write_ok:
    "\<lbrakk>inv s; wf_scope sc; WriteSnapshot api sc sn s = (None, s')\<rbrakk> \<Longrightarrow>
       inv s' \<and> snaps s' = (snaps s)(sc := (snaps s sc)(sn_persistence_id sn :=
         (snaps s sc (sn_persistence_id sn))(sn_sequence_number sn \<mapsto> sn)))"
    and write_err:
    "\<lbrakk>inv s; WriteSnapshot api sc sn s = (Some err, s')\<rbrakk> \<Longrightarrow> inv s' \<and> snaps s' = snaps s"
    and latest_ok:
    "\<lbrakk>inv s; wf_scope sc; GetLatestSnapshot api sc pid s = Inr r\<rbrakk> \<Longrightarrow>
       r = snapshots_latest (snaps s sc pid)"
    and delete_ok:
    "\<lbrakk>inv s; wf_scope sc; DeleteSnapshots api sc pid n s = (None, s')\<rbrakk> \<Longrightarrow>
       inv s' \<and> snaps s' = (snaps s)(sc := (snaps s sc)(pid := snaps s sc pid |` {k. n < k}))"
    and delete_err:
    "\<lbrakk>inv s; DeleteSnapshots api sc pid n s = (Some err, s')\<rbrakk> \<Longrightarrow> inv s' \<and> snaps s' = snaps s"
    and snaps_key:
    "\<lbrakk>inv s; snaps s sc pid n = Some sn\<rbrakk> \<Longrightarrow> sn_sequence_number sn = n \<and> sn_persistence_id sn = pid"

definition sst_snaps :: "SnapshotStore \<Rightarrow> Scope \<Rightarrow> string \<Rightarrow> u64 \<rightharpoonup> Snapshot" where
  "sst_snaps x sc pid n =
     sm_Load (sst_db x) \<lparr>sk_Scope = sc, sk_PersistenceID = pid, sk_SequenceNumber = n\<rparr>"

definition sst_ok :: "SnapshotStore \<Rightarrow> bool" where
  "sst_ok x \<longleftrightarrow>
     sm_ok (sst_db x)
     \<and> (\<forall>k sn. sm_Load (sst_db x) k = Some sn \<longrightarrow>
          wf_scope (sk_Scope k) \<and> sn_sequence_number sn = sk_SequenceNumber k
          \<and> sn_persistence_id sn = sk_PersistenceID k)"

definition testkit_SnapshotStore :: "SnapshotStore SnapshotStoreApi" where
  "testkit_SnapshotStore =
     \<lparr>WriteSnapshot = sst_WriteSnapshot, GetLatestSnapshot = sst_GetLatestSnapshot,
      DeleteSnapshots = sst_DeleteSnapshots\<rparr>"

lemma sst_scope_Equal:
  assumes "sst_ok x" and "wf_scope sc" and "kv \<in> set (sst_db x)"
  shows "scope_Equal (sk_Scope (fst kv)) sc \<longleftrightarrow> sk_Scope (fst kv) = sc"
proof -
  have "sm_Load (sst_db x) (fst kv) = Some (snd kv)"
    using assms(1,3) by (metis sst_ok_def prod.collapse sm_Load_mem)
  with assms(1) have "wf_scope (sk_Scope (fst kv))" by (simp add: sst_ok_def)
  from scope_Equal_iff [OF this assms(2)] show ?thesis .
qed

lemma sst_candidates:
  assumes "sst_ok x" and "wf_scope sc"
  shows "set (map snd (filter (\<lambda>kv. scope_Equal (sk_Scope (fst kv)) sc \<and> sk_PersistenceID (fst kv) = pid) (sst_db x)))
    = ran (sst_snaps x sc pid)"
proof (intro equalityI subsetI)
  fix sn assume "sn \<in> set (map snd (filter (\<lambda>kv. scope_Equal (sk_Scope (fst kv)) sc
      \<and> sk_PersistenceID (fst kv) = pid) (sst_db x)))"
  then obtain k where k: "(k, sn) \<in> set (sst_db x)" "scope_Equal (sk_Scope k) sc" "sk_PersistenceID k = pid"
    by auto
  with sst_scope_Equal [OF assms k(1)] have "k = \<lparr>sk_Scope = sc, sk_PersistenceID = pid, sk_SequenceNumber = sk_SequenceNumber k\<rparr>"
    by simp
  with k(1) assms(1) have "sst_snaps x sc pid (sk_SequenceNumber k) = Some sn"
    by (metis sm_Load_mem sst_ok_def sst_snaps_def)
  then show "sn \<in> ran (sst_snaps x sc pid)" by (rule ranI)
next
  fix sn assume "sn \<in> ran (sst_snaps x sc pid)"
  then obtain n where "sst_snaps x sc pid n = Some sn" by (auto simp: ran_def)
  then have m: "(\<lparr>sk_Scope = sc, sk_PersistenceID = pid, sk_SequenceNumber = n\<rparr>, sn) \<in> set (sst_db x)"
    using assms(1) by (simp add: sst_snaps_def sm_Load_mem sst_ok_def)
  with sst_scope_Equal [OF assms m]
  show "sn \<in> set (map snd (filter (\<lambda>kv. scope_Equal (sk_Scope (fst kv)) sc
      \<and> sk_PersistenceID (fst kv) = pid) (sst_db x)))" by force
qed

lemma hd_sort_key_min: "xs \<noteq> [] \<Longrightarrow> hd (sort_key f xs) \<in> set xs \<and> (\<forall>x \<in> set xs. f (hd (sort_key f xs)) \<le> f x)"
proof -
  assume "xs \<noteq> []"
  then obtain y ys where s: "sort_key f xs = y # ys" by (metis list.exhaust length_0_conv length_sort)
  have "sorted (map f (y # ys))" unfolding s [symmetric] by simp
  moreover have "set (y # ys) = set xs" unfolding s [symmetric] by simp
  ultimately show ?thesis unfolding s by auto
qed

lemma sst_latest_eq:
  assumes "sst_ok x" and "wf_scope sc"
  shows "sst_GetLatestSnapshot sc pid x = Inr (snapshots_latest (sst_snaps x sc pid))"
proof -
  let ?sns = "map snd (filter (\<lambda>kv. scope_Equal (sk_Scope (fst kv)) sc \<and> sk_PersistenceID (fst kv) = pid) (sst_db x))"
  let ?m = "sst_snaps x sc pid"
  have key: "sn_sequence_number sn = n" if "?m n = Some sn" for n sn
    using that assms(1) unfolding sst_ok_def sst_snaps_def by (metis SnapshotKey.select_convs(3))
  have v: "scope_Valid sc" using assms(2) by (rule wf_scope_Valid)
  show ?thesis
  proof (cases "?sns = []")
    case True
    then have r: "ran ?m = {}" unfolding sst_candidates [OF assms, of pid, symmetric] by simp
    have "?m n = None" for n
    proof (cases "?m n")
      case (Some sn)
      then have "sn \<in> ran ?m" by (rule ranI)
      with r show ?thesis by simp
    qed
    then have "?m = Map.empty" by (rule ext)
    with True v show ?thesis by (simp add: sst_GetLatestSnapshot_def snapshots_latest_def Let_def)
  next
    case False
    let ?h = "hd (sort_key (\<lambda>s. - uint (sn_sequence_number s)) ?sns)"
    from hd_sort_key_min [OF False, of "\<lambda>s. - uint (sn_sequence_number s)"]
    have h: "?h \<in> ran ?m" "\<forall>s \<in> ran ?m. sn_sequence_number s \<le> sn_sequence_number ?h"
      unfolding sst_candidates [OF assms] neg_le_iff_le word_le_def by blast+
    from h(1) obtain n where n: "?m n = Some ?h" by (auto simp: ran_def)
    have "Max (dom ?m) = n"
    proof (rule Max_eqI)
      show "finite (dom ?m)" by simp
      show "n \<in> dom ?m" using n by blast
      fix k assume "k \<in> dom ?m"
      then obtain s where s: "?m k = Some s" by blast
      then have "s \<in> ran ?m" by (rule ranI)
      with h(2) have "sn_sequence_number s \<le> sn_sequence_number ?h" by blast
      then show "k \<le> n" unfolding key [OF s] key [OF n] .
    qed
    moreover have "?m \<noteq> Map.empty"
    proof
      assume "?m = Map.empty"
      then have "?m n = None" by (rule fun_cong)
      with n show False by (simp only: option.distinct)
    qed
    ultimately have "snapshots_latest ?m = Some ?h" by (simp only: snapshots_latest_def n if_False)
    with False v show ?thesis by (simp only: sst_GetLatestSnapshot_def Let_def if_False not_True_eq_False)
  qed
qed

lemma sst_snaps_Store:
  "sst_snaps (x\<lparr>sst_db := sm_Store \<lparr>sk_Scope = sc, sk_PersistenceID = pid, sk_SequenceNumber = n\<rparr> sn (sst_db x)\<rparr>) =
     (sst_snaps x)(sc := (sst_snaps x sc)(pid := (sst_snaps x sc pid)(n \<mapsto> sn)))"
  by (intro ext) (simp add: sst_snaps_def)

lemma sst_ok_write:
  assumes "sst_ok x" and "wf_scope sc"
  shows "sst_ok (x\<lparr>sst_db := sm_Store \<lparr>sk_Scope = sc, sk_PersistenceID = sn_persistence_id sn,
      sk_SequenceNumber = sn_sequence_number sn\<rparr> sn (sst_db x)\<rparr>)"
  using assms by (simp add: sst_ok_def)

lemma sst_delete:
  fixes pid :: string and n :: u64
  assumes "sst_ok x" and "wf_scope sc"
  defines "x' \<equiv> snd (sst_DeleteSnapshots sc pid n x)"
  shows "sst_ok x'" "sst_snaps x' = (sst_snaps x)(sc := (sst_snaps x sc)(pid := sst_snaps x sc pid |` {k. n < k}))"
proof -
  let ?p = "\<lambda>k. scope_Equal (sk_Scope k) sc \<and> sk_PersistenceID k = pid \<and> sk_SequenceNumber k \<le> n"
  have x': "x' = x\<lparr>sst_db := sm_RangeDelete ?p (sst_db x) (sst_db x)\<rparr>"
    using assms(2) by (simp add: x'_def sst_DeleteSnapshots_def wf_scope_Valid)
  have load: "sm_Load (sst_db x') k = (if ?p k then None else sm_Load (sst_db x) k)" for k
    by (simp add: x' sm_Load_RangeDelete_self)
  show "sst_ok x'" unfolding sst_ok_def load using assms(1) by (auto simp: sst_ok_def x')
  show "sst_snaps x' = (sst_snaps x)(sc := (sst_snaps x sc)(pid := sst_snaps x sc pid |` {k. n < k}))"
  proof (intro ext)
    fix s p k
    have "scope_Equal s sc \<longleftrightarrow> s = sc" if "sst_snaps x s p k = Some sn" for sn
    proof -
      from that have "(\<lparr>sk_Scope = s, sk_PersistenceID = p, sk_SequenceNumber = k\<rparr>, sn) \<in> set (sst_db x)"
        using assms(1) by (simp add: sst_snaps_def sm_Load_mem sst_ok_def)
      from sst_scope_Equal [OF assms(1,2) this] show ?thesis by simp
    qed
    then show "sst_snaps x' s p k =
        ((sst_snaps x)(sc := (sst_snaps x sc)(pid := sst_snaps x sc pid |` {k. n < k}))) s p k"
      by (cases "sst_snaps x s p k") (auto simp: sst_snaps_def load restrict_map_def)
  qed
qed

interpretation tkn: snapshot_store testkit_SnapshotStore sst_ok sst_snaps
proof
  fix s s' :: SnapshotStore and sc and sn :: Snapshot
  assume "sst_ok s" "wf_scope sc" "WriteSnapshot testkit_SnapshotStore sc sn s = (None, s')"
  then show "sst_ok s' \<and> sst_snaps s' = (sst_snaps s)(sc := (sst_snaps s sc)(sn_persistence_id sn :=
      (sst_snaps s sc (sn_persistence_id sn))(sn_sequence_number sn \<mapsto> sn)))"
    by (auto simp: testkit_SnapshotStore_def sst_WriteSnapshot_def sst_ok_write sst_snaps_Store
        simp del: fun_upd_apply split: if_splits)
next
  fix s s' :: SnapshotStore and sc err and sn :: Snapshot
  assume "sst_ok s" "WriteSnapshot testkit_SnapshotStore sc sn s = (Some err, s')"
  then show "sst_ok s' \<and> sst_snaps s' = sst_snaps s"
    by (auto simp: testkit_SnapshotStore_def sst_WriteSnapshot_def split: if_splits)
next
  fix s :: SnapshotStore and sc pid r
  assume "sst_ok s" "wf_scope sc" "GetLatestSnapshot testkit_SnapshotStore sc pid s = Inr r"
  then show "r = snapshots_latest (sst_snaps s sc pid)"
    by (simp add: testkit_SnapshotStore_def sst_latest_eq)
next
  fix s s' :: SnapshotStore and sc pid n
  assume h: "sst_ok s" "wf_scope sc" "DeleteSnapshots testkit_SnapshotStore sc pid n s = (None, s')"
  then have "s' = snd (sst_DeleteSnapshots sc pid n s)" by (simp add: testkit_SnapshotStore_def)
  with sst_delete [OF h(1,2), of pid n]
  show "sst_ok s' \<and> sst_snaps s' = (sst_snaps s)(sc := (sst_snaps s sc)(pid := sst_snaps s sc pid |` {k. n < k}))"
    by simp
next
  fix s s' :: SnapshotStore and sc pid n err
  assume "sst_ok s" "DeleteSnapshots testkit_SnapshotStore sc pid n s = (Some err, s')"
  then show "sst_ok s' \<and> sst_snaps s' = sst_snaps s"
    by (auto simp: testkit_SnapshotStore_def sst_DeleteSnapshots_def split: if_splits)
next
  fix s :: SnapshotStore and sc pid n and sn :: Snapshot
  assume "sst_ok s" "sst_snaps s sc pid n = Some sn"
  then show "sn_sequence_number sn = n \<and> sn_persistence_id sn = pid"
    by (fastforce simp: sst_ok_def sst_snaps_def)
qed

end
