(* ===== verification/ES_Actor.thy ===== *)
theory ES_Actor
  imports Actor_Base Snapshot_Store
begin

text \<open>
  The event-sourced actor, \<open>src/internal/engine/eventsource/event_sourced_actor.go\<close>: its state and
  one definition per method.  A handler takes what the turn reads from outside and the actor, and
  returns the actor with the effects it asked of the actor runtime, in order.  Tracing spans and
  metrics do not touch the actor's state and are left out.
\<close>

section \<open>State\<close>

datatype persistPhase =
  phaseProcessing | phaseFlushing | phaseReplying | phasePersisting | phaseDirectReplying

record retentionPolicy =
  rp_DeleteEventsOnSnapshot :: bool
  rp_DeleteSnapshotsOnSnapshot :: bool
  rp_EventsRetentionCount :: u64

text \<open>The requests to the child actors, and the response of the events writer.\<close>

record persistEventsRequest =
  pq_envelopes :: "Event list"
  pq_topic :: string
  pq_precondition :: WritePrecondition
  pq_scope :: Scope

record applyRetentionRequest =
  ar_persistenceID :: string
  ar_eventsCounter :: u64
  ar_snapshotInterval :: u64
  ar_deleteEventsOnSnapshot :: bool
  ar_deleteSnapshotsOnSnapshot :: bool
  ar_eventsRetentionCount :: u64
  ar_scope :: Scope

record persistSnapshotRequest =
  ps_snapshot :: Snapshot
  ps_retentionReq :: "applyRetentionRequest option"
  ps_janitor :: bool
  ps_scope :: Scope

text \<open>
  The actor.  A child actor's process id is kept as whether it was spawned, and the flush timer as
  whether it is armed; a batch entry is the reply computed for its command.
\<close>

record ('m, 's, 't) Actor =
  ea_behavior :: "'m EventSourced option"
  ea_eventsStore :: "'s EventsStore option"
  ea_snapshotStore :: "'t SnapshotStoreApi option"
  ea_currentState :: 'm
  ea_cachedStateAny :: "any_pb option"
  ea_eventsCounter :: u64
  ea_lastCommandTime :: int
  ea_persistenceID :: string
  ea_eventAdapters :: "EventAdapter list"
  ea_snapshotInterval :: u64
  ea_retentionPolicy :: "retentionPolicy option"
  ea_encryptor :: "Encryptor option"
  ea_eventsWriter :: bool
  ea_snapshotsWriter :: bool
  ea_eventsJanitor :: bool
  ea_persistTimeout :: int
  ea_shardNumber :: u64
  ea_batchThreshold :: int
  ea_batchFlushWindow :: int
  ea_phase :: persistPhase
  ea_batchBuffer :: "Event list"
  ea_batchEntries :: "CommandReply list"
  ea_batchState :: 'm
  ea_batchCounter :: u64
  ea_batchTime :: int
  ea_batchNumEvents :: int
  ea_remainingReplies :: int
  ea_shutdownOnDrain :: bool
  ea_flushTimer :: bool
  ea_batchBase :: u64
  ea_batchHasPrecondition :: bool
  ea_directPendingState :: 'm
  ea_directPendingCounter :: u64
  ea_directPendingTime :: int
  ea_directNumEvents :: int
  ea_directErr :: "goerr option"
  ea_directShutdown :: bool
  ea_tenantAware :: bool
  ea_actorTenant :: TenantContext
  ea_scope :: Scope

definition newActor :: "'m runtime \<Rightarrow> ('m, 's, 't) Actor" where
  "newActor rt =
     \<lparr>ea_behavior = None, ea_eventsStore = None, ea_snapshotStore = None, ea_currentState = rt_nil rt,
      ea_cachedStateAny = None, ea_eventsCounter = 0, ea_lastCommandTime = zeroTime,
      ea_persistenceID = '''', ea_eventAdapters = [], ea_snapshotInterval = 0,
      ea_retentionPolicy = None, ea_encryptor = None, ea_eventsWriter = False,
      ea_snapshotsWriter = False, ea_eventsJanitor = False, ea_persistTimeout = 0,
      ea_shardNumber = 0, ea_batchThreshold = 0, ea_batchFlushWindow = 0, ea_phase = phaseProcessing,
      ea_batchBuffer = [], ea_batchEntries = [], ea_batchState = rt_nil rt, ea_batchCounter = 0,
      ea_batchTime = zeroTime, ea_batchNumEvents = 0, ea_remainingReplies = 0,
      ea_shutdownOnDrain = False, ea_flushTimer = False, ea_batchBase = 0,
      ea_batchHasPrecondition = False, ea_directPendingState = rt_nil rt,
      ea_directPendingCounter = 0, ea_directPendingTime = zeroTime, ea_directNumEvents = 0,
      ea_directErr = None, ea_directShutdown = False, ea_tenantAware = False,
      ea_actorTenant = noTenantContext, ea_scope = zeroScope\<rparr>"

definition eventsTopic :: string where
  "eventsTopic = ''topic.events''"

text \<open>What a handler asks of the actor runtime.\<close>

datatype effect =
  Respond CommandReply
  | RespondBinding TenantBindingReply
  | Stash
  | UnstashAll
  | PipeTo persistEventsRequest
  | Tell persistSnapshotRequest
  | Shutdown
  | Unhandled

datatype 'm message =
  PostStart u64
  | GetStateCommand
  | TenantBindingQuery string
  | BatchFlushTick
  | PersistEventsResponse "goerr option"
  | CommandMessage 'm
  | OtherMessage

section \<open>Replies\<close>

definition currentStateAny :: "'m runtime \<Rightarrow> ('m, 's, 't) Actor \<Rightarrow> any_pb option \<times> ('m, 's, 't) Actor" where
  "currentStateAny rt a =
     (case ea_cachedStateAny a of
        Some x \<Rightarrow> (Some x, a)
      | None \<Rightarrow>
          let x = any_New (rt_any rt) (ea_currentState a) in (x, a\<lparr>ea_cachedStateAny := x\<rparr>))"

definition error_reply :: "'m runtime \<Rightarrow> goerr \<Rightarrow> CommandReply" where
  "error_reply rt err = Reply_ErrorReply (error_text (rt_print rt) err)"

definition state_reply :: "string \<Rightarrow> any_pb option \<Rightarrow> u64 \<Rightarrow> int \<Rightarrow> CommandReply" where
  "state_reply pid st seqNr ts =
     Reply_StateReply \<lparr>sr_persistence_id = pid, sr_state = st, sr_sequence_number = seqNr,
       sr_timestamp = time_UnixNano ts, sr_saga_status = SAGA_LIFECYCLE_STATUS_NONE\<rparr>"

definition sendErrorReply :: "'m runtime \<Rightarrow> goerr \<Rightarrow> effect" where
  "sendErrorReply rt err = Respond (error_reply rt err)"

definition sendStateReply :: "'m runtime \<Rightarrow> ('m, 's, 't) Actor \<Rightarrow> ('m, 's, 't) Actor \<times> effect list" where
  "sendStateReply rt a =
     (let (st, a') = currentStateAny rt a in
      (a', [Respond (state_reply (ea_persistenceID a) st (ea_eventsCounter a) (ea_lastCommandTime a))]))"

section \<open>Tenant identity\<close>

text \<open>
  The gate in front of every command and read: in tenant-aware mode the context must carry a
  tenant, and the actor's own once it has one.  The result is the tenant resolved for the command.
\<close>

definition tenant_gate :: "cmdctx \<Rightarrow> ('m, 's, 't) Actor \<Rightarrow> goerr + TenantContext" where
  "tenant_gate ctx a =
     (if \<not> ea_tenantAware a then Inr noTenantContext
      else case tenancy_Require ctx of
             Inl err \<Rightarrow> Inl (ErrTenancy err)
           | Inr tc \<Rightarrow>
               if ea_actorTenant a \<noteq> noTenantContext
               then (case tenancy_VerifyUnchanged (ea_actorTenant a) tc of
                       Some err \<Rightarrow> Inl (ErrTenancy err)
                     | None \<Rightarrow> Inr tc)
               else Inr tc)"

definition verifyTenantForPersist :: "cmdctx \<Rightarrow> ('m, 's, 't) Actor \<Rightarrow> goerr option" where
  "verifyTenantForPersist ctx a =
     (if \<not> ea_tenantAware a then None
      else case tenancy_Require ctx of Inl err \<Rightarrow> Some (ErrTenancy err) | Inr _ \<Rightarrow> None)"

definition establishActorTenant :: "TenantContext \<Rightarrow> ('m, 's, 't) Actor \<Rightarrow> ('m, 's, 't) Actor" where
  "establishActorTenant tc a =
     (if ea_tenantAware a \<and> ea_actorTenant a = noTenantContext then a\<lparr>ea_actorTenant := tc\<rparr> else a)"

definition seedActorTenant :: "TenantContext \<Rightarrow> ('m, 's, 't) Actor \<Rightarrow> goerr + ('m, 's, 't) Actor" where
  "seedActorTenant tc a =
     (if \<not> ea_tenantAware a then Inr a
      else if ea_actorTenant a = noTenantContext then Inr (a\<lparr>ea_actorTenant := tc\<rparr>)
      else case tenancy_VerifyUnchanged (ea_actorTenant a) tc of
             Some err \<Rightarrow> Inl (ErrTenancy err)
           | None \<Rightarrow> Inr a)"

definition getStateAndReply :: "'m runtime \<Rightarrow> turn \<Rightarrow> ('m, 's, 't) Actor \<Rightarrow> ('m, 's, 't) Actor \<times> effect list" where
  "getStateAndReply rt tn a =
     (case tenant_gate (tn_ctx tn) a of
        Inl err \<Rightarrow> (a, [sendErrorReply rt err])
      | Inr _ \<Rightarrow> sendStateReply rt a)"

section \<open>Events of a command\<close>

definition dispatchToBehavior ::
    "'m runtime \<Rightarrow> turn \<Rightarrow> 'm \<Rightarrow> 'm \<Rightarrow> ('m, 's, 't) Actor \<Rightarrow> goerr + 'm list" where
  "dispatchToBehavior rt tn cmd priorState a =
     (let bh = the (ea_behavior a); ctx = tn_ctx tn in
      case bh_HandleEnvelope bh of
        None \<Rightarrow> bh_HandleCommand bh ctx cmd priorState
      | Some handleEnvelope \<Rightarrow>
          (case MetadataFromContext (rt_time rt) (tn_dispatch tn) ctx of
             None \<Rightarrow> bh_HandleCommand bh ctx cmd priorState
           | Some md \<Rightarrow>
               (case NewEnvelope (Some cmd) md of
                  Inl err \<Rightarrow> bh_HandleCommand bh ctx cmd priorState
                | Inr env \<Rightarrow> handleEnvelope ctx env priorState)))"

text \<open>The payload of an event: packed, and encrypted under the persistence id when there is an encryptor.\<close>

definition seal_event ::
    "'m runtime \<Rightarrow> cmdctx \<Rightarrow> bytes \<Rightarrow> 'm \<Rightarrow> ('m, 's, 't) Actor \<Rightarrow> goerr + any_pb option \<times> string \<times> bool" where
  "seal_event rt ctx rnd event a =
     (let eventAny = any_New (rt_any rt) event in
      case ea_encryptor a of
        None \<Rightarrow> Inr (eventAny, '''', False)
      | Some enc \<Rightarrow>
          (case any_Marshal (rt_any rt) eventAny of
             Inl err \<Rightarrow> Inl (ErrWrap ''failed to marshal event for encryption: '' err '''')
           | Inr eventBytes \<Rightarrow>
               (case enc_Encrypt enc ctx rnd (ea_persistenceID a) eventBytes of
                  Inl err \<Rightarrow> Inl (ErrWrap ''failed to encrypt event: '' err '''')
                | Inr (ciphertext, keyID) \<Rightarrow>
                    Inr (Some \<lparr>any_type_url = (case eventAny of Some x \<Rightarrow> any_type_url x | None \<Rightarrow> ''''),
                               any_value = ciphertext\<rparr>, keyID, True))))"

definition marshalEvent ::
    "'m runtime \<Rightarrow> cmdctx \<Rightarrow> bytes \<Rightarrow> 'm \<Rightarrow> TenantContext \<Rightarrow> u64 \<Rightarrow> int \<Rightarrow> u64
       \<Rightarrow> ('m, 's, 't) Actor \<Rightarrow> goerr + Event" where
  "marshalEvent rt ctx rnd event tc seqNr ts shard a =
     sum_bind (seal_event rt ctx rnd event a) (\<lambda>(payload, keyID, encrypted).
       Inr \<lparr>ev_persistence_id = ea_persistenceID a, ev_sequence_number = seqNr, ev_is_deleted = False,
            ev_event = payload, ev_timestamp = time_UnixNano ts, ev_shard = shard,
            ev_encryption_key_id = keyID, ev_is_encrypted = encrypted,
            ev_tenant_metadata =
              (if ea_tenantAware a then tenancy_MarshalMetadata tc else Map.empty)\<rparr>)"

text \<open>The loop over the events of a command; \<open>i\<close> counts the payloads already sealed.\<close>

fun build_loop ::
    "'m runtime \<Rightarrow> turn \<Rightarrow> TenantContext \<Rightarrow> ('m, 's, 't) Actor \<Rightarrow> nat \<Rightarrow> 'm list \<Rightarrow> 'm \<Rightarrow> u64
       \<Rightarrow> goerr + Event list \<times> 'm \<times> u64" where
  "build_loop rt tn tc a i [] pendingState pendingCounter = Inr ([], pendingState, pendingCounter)"
| "build_loop rt tn tc a i (event # events) pendingState pendingCounter =
     sum_bind (bh_HandleEvent (the (ea_behavior a)) (tn_ctx tn) event pendingState) (\<lambda>resultingState.
     sum_bind (marshalEvent rt (tn_ctx tn) (tn_random tn i) event tc (pendingCounter + 1) (tn_build tn)
                 (ea_shardNumber a) a) (\<lambda>envelope.
     sum_bind (build_loop rt tn tc a (Suc i) events resultingState (pendingCounter + 1))
       (\<lambda>(envelopes, st, n). Inr (envelope # envelopes, st, n))))"

definition buildEnvelopes ::
    "'m runtime \<Rightarrow> turn \<Rightarrow> 'm list \<Rightarrow> TenantContext \<Rightarrow> 'm \<Rightarrow> u64 \<Rightarrow> ('m, 's, 't) Actor
       \<Rightarrow> goerr + Event list \<times> 'm \<times> u64" where
  "buildEnvelopes rt tn events tc startState startCounter a =
     build_loop rt tn tc a 0 events startState startCounter"

section \<open>Confirmed writes and snapshots\<close>

definition shouldStayAliveAfterConflict :: "goerr \<Rightarrow> ('m, 's, 't) Actor \<Rightarrow> bool" where
  "shouldStayAliveAfterConflict err a =
     (case errors_As_conflict err of
        None \<Rightarrow> False
      | Some conflictErr \<Rightarrow>
          (case ce_ActualRevision conflictErr of
             None \<Rightarrow> False
           | Some actual \<Rightarrow> actual = ea_eventsCounter a))"

definition applyConfirmedState ::
    "'m runtime \<Rightarrow> 'm \<Rightarrow> u64 \<Rightarrow> int \<Rightarrow> ('m, 's, 't) Actor \<Rightarrow> ('m, 's, 't) Actor" where
  "applyConfirmedState rt state counter ts a =
     a\<lparr>ea_eventsCounter := counter, ea_currentState := state,
       ea_cachedStateAny := any_New (rt_any rt) state, ea_lastCommandTime := ts\<rparr>"

definition newSnapshotEnvelope :: "any_pb option \<Rightarrow> ('m, 's, 't) Actor \<Rightarrow> Snapshot" where
  "newSnapshotEnvelope state a =
     \<lparr>sn_persistence_id = ea_persistenceID a, sn_sequence_number = ea_eventsCounter a, sn_state = state,
      sn_timestamp = time_UnixNano (ea_lastCommandTime a), sn_encryption_key_id = '''',
      sn_is_encrypted = False,
      sn_tenant_metadata =
        (if ea_tenantAware a then tenancy_MarshalMetadata (ea_actorTenant a) else Map.empty)\<rparr>"

definition snapshotAndRetain :: "'m runtime \<Rightarrow> ('m, 's, 't) Actor \<Rightarrow> ('m, 's, 't) Actor \<times> effect list" where
  "snapshotAndRetain rt a =
     (let (st, a') = currentStateAny rt a;
          req = \<lparr>ps_snapshot = newSnapshotEnvelope st a, ps_retentionReq = None, ps_janitor = False,
                 ps_scope = ea_scope a\<rparr> in
      (a', [Tell (case ea_retentionPolicy a of
                    Some policy \<Rightarrow>
                      if ea_eventsJanitor a then
                        req\<lparr>ps_retentionReq := Some
                              \<lparr>ar_persistenceID = ea_persistenceID a,
                               ar_eventsCounter = ea_eventsCounter a,
                               ar_snapshotInterval = ea_snapshotInterval a,
                               ar_deleteEventsOnSnapshot = rp_DeleteEventsOnSnapshot policy,
                               ar_deleteSnapshotsOnSnapshot = rp_DeleteSnapshotsOnSnapshot policy,
                               ar_eventsRetentionCount = rp_EventsRetentionCount policy,
                               ar_scope = ea_scope a\<rparr>,
                             ps_janitor := True\<rparr>
                      else req
                  | None \<Rightarrow> req)]))"

definition triggerSnapshotAndRetention ::
    "'m runtime \<Rightarrow> ('m, 's, 't) Actor \<Rightarrow> ('m, 's, 't) Actor \<times> effect list" where
  "triggerSnapshotAndRetention rt a =
     (if \<not> ea_snapshotsWriter a \<or> ea_snapshotInterval a = 0
         \<or> ea_eventsCounter a mod ea_snapshotInterval a \<noteq> 0 then (a, [])
      else snapshotAndRetain rt a)"

definition crossedSnapshotBoundary :: "u64 \<Rightarrow> ('m, 's, 't) Actor \<Rightarrow> bool" where
  "crossedSnapshotBoundary previousCounter a =
     (if \<not> ea_snapshotsWriter a \<or> ea_snapshotInterval a = 0 then False
      else ea_eventsCounter a div ea_snapshotInterval a > previousCounter div ea_snapshotInterval a)"

section \<open>One command at a time\<close>

definition persistAsync ::
    "Event list \<Rightarrow> 'm \<Rightarrow> u64 \<Rightarrow> int \<Rightarrow> WritePrecondition \<Rightarrow> ('m, 's, 't) Actor \<Rightarrow> ('m, 's, 't) Actor \<times> effect list" where
  "persistAsync envelopes pendingState pendingCounter commandTime precondition a =
     (a\<lparr>ea_directPendingState := pendingState, ea_directPendingCounter := pendingCounter,
        ea_directPendingTime := commandTime, ea_directNumEvents := int (length envelopes),
        ea_phase := phasePersisting\<rparr>,
      [Stash,
       PipeTo \<lparr>pq_envelopes = envelopes, pq_topic = eventsTopic, pq_precondition = precondition,
               pq_scope = ea_scope a\<rparr>])"

text \<open>
  Up to the handler's events a command has changed nothing: every failure on the way is an error
  reply.
\<close>

definition processCommandAndReply ::
    "'m runtime \<Rightarrow> turn \<Rightarrow> 'm \<Rightarrow> ('m, 's, 't) Actor \<Rightarrow> ('m, 's, 't) Actor \<times> effect list" where
  "processCommandAndReply rt tn cmd a =
     (let ctx = tn_ctx tn in
      case sum_bind (tenant_gate ctx a) (\<lambda>tc.
           check_err (CheckDeadline ctx (tn_gate tn) ''before handler execution'')
             (sum_bind (dispatchToBehavior rt tn cmd (ea_currentState a) a) (\<lambda>events. Inr (tc, events)))) of
        Inl err \<Rightarrow> (a, [sendErrorReply rt err])
      | Inr (tc, events) \<Rightarrow>
          if events = [] then sendStateReply rt a
          else
            (case sum_bind (buildEnvelopes rt tn events tc (ea_currentState a) (ea_eventsCounter a) a) (\<lambda>built.
                  check_err (CheckDeadline ctx (tn_persist tn) ''before persistence'')
                    (check_err (verifyTenantForPersist ctx a) (Inr built))) of
               Inl err \<Rightarrow> (a, [sendErrorReply rt err])
             | Inr (envelopes, pendingState, pendingCounter) \<Rightarrow>
                 persistAsync envelopes pendingState pendingCounter (tn_build tn)
                   (PreconditionFromRevision (ExpectedRevisionFromContext (rt_time rt) (tn_revision tn) ctx))
                   (establishActorTenant tc a)))"

definition handleDirectPersistResponse ::
    "'m runtime \<Rightarrow> goerr option \<Rightarrow> ('m, 's, 't) Actor \<Rightarrow> ('m, 's, 't) Actor \<times> effect list" where
  "handleDirectPersistResponse rt resp a =
     (if ea_phase a \<noteq> phasePersisting then (a, [])
      else case resp of
             Some err \<Rightarrow>
               (a\<lparr>ea_directErr := Some err, ea_directShutdown := \<not> shouldStayAliveAfterConflict err a,
                  ea_phase := phaseDirectReplying\<rparr>, [UnstashAll])
           | None \<Rightarrow>
               let (a', effs) =
                     triggerSnapshotAndRetention rt
                       (applyConfirmedState rt (ea_directPendingState a) (ea_directPendingCounter a)
                          (ea_directPendingTime a) a) in
               (a'\<lparr>ea_directErr := None, ea_phase := phaseDirectReplying\<rparr>, effs @ [UnstashAll]))"

definition replyDirect :: "'m runtime \<Rightarrow> ('m, 's, 't) Actor \<Rightarrow> ('m, 's, 't) Actor \<times> effect list" where
  "replyDirect rt a =
     (let a1 = a\<lparr>ea_phase := phaseProcessing\<rparr> in
      case ea_directErr a of
        Some err \<Rightarrow>
          (a1\<lparr>ea_directErr := None, ea_directShutdown := False\<rparr>,
           [sendErrorReply rt err, UnstashAll] @ (if ea_directShutdown a then [Shutdown] else []))
      | None \<Rightarrow> (let (a2, effs) = sendStateReply rt a1 in (a2, effs @ [UnstashAll])))"

section \<open>Batches\<close>

definition batchEnabled :: "('m, 's, 't) Actor \<Rightarrow> bool" where
  "batchEnabled a \<longleftrightarrow> ea_batchThreshold a > 0"

definition latestState :: "('m, 's, 't) Actor \<Rightarrow> 'm" where
  "latestState a = (if ea_batchEntries a \<noteq> [] then ea_batchState a else ea_currentState a)"

definition latestCounter :: "('m, 's, 't) Actor \<Rightarrow> u64" where
  "latestCounter a = (if ea_batchEntries a \<noteq> [] then ea_batchCounter a else ea_eventsCounter a)"

definition startFlushTimer :: "('m, 's, 't) Actor \<Rightarrow> ('m, 's, 't) Actor" where
  "startFlushTimer a = (if ea_flushTimer a then a else a\<lparr>ea_flushTimer := True\<rparr>)"

definition stopFlushTimer :: "('m, 's, 't) Actor \<Rightarrow> ('m, 's, 't) Actor" where
  "stopFlushTimer a = (if ea_flushTimer a then a\<lparr>ea_flushTimer := False\<rparr> else a)"

definition resetBatch :: "'m runtime \<Rightarrow> ('m, 's, 't) Actor \<Rightarrow> ('m, 's, 't) Actor" where
  "resetBatch rt a =
     a\<lparr>ea_batchBuffer := [], ea_batchEntries := [], ea_batchState := rt_nil rt, ea_batchCounter := 0,
       ea_batchTime := zeroTime, ea_batchNumEvents := 0, ea_remainingReplies := 0,
       ea_shutdownOnDrain := False, ea_batchBase := 0, ea_batchHasPrecondition := False\<rparr>"

definition resolveBatchPrecondition :: "('m, 's, 't) Actor \<Rightarrow> WritePrecondition" where
  "resolveBatchPrecondition a =
     (if \<not> ea_batchHasPrecondition a then Unconditional
      else if ea_batchBase a = 0 then ExpectGenesis
      else ExpectRevision (ea_batchBase a))"

definition flushBatch :: "('m, 's, 't) Actor \<Rightarrow> ('m, 's, 't) Actor \<times> effect list" where
  "flushBatch a =
     ((stopFlushTimer a)\<lparr>ea_phase := phaseFlushing\<rparr>,
      [PipeTo \<lparr>pq_envelopes = ea_batchBuffer a, pq_topic = eventsTopic,
               pq_precondition = resolveBatchPrecondition a, pq_scope = ea_scope a\<rparr>])"

text \<open>A batch opens: its base is the founder's declared revision, or the counter it starts from.\<close>

definition open_batch :: "u64 option \<Rightarrow> u64 \<Rightarrow> ('m, 's, 't) Actor \<Rightarrow> ('m, 's, 't) Actor" where
  "open_batch revision counter a =
     (if ea_batchEntries a = [] then
        a\<lparr>ea_batchHasPrecondition := (revision \<noteq> None),
          ea_batchBase := (case revision of Some r \<Rightarrow> r | None \<Rightarrow> counter)\<rparr>
      else a)"

text \<open>A command's envelopes join the batch, and its reply is computed and kept.\<close>

definition append_to_batch ::
    "'m runtime \<Rightarrow> Event list \<Rightarrow> 'm \<Rightarrow> u64 \<Rightarrow> int \<Rightarrow> ('m, 's, 't) Actor \<Rightarrow> ('m, 's, 't) Actor" where
  "append_to_batch rt envelopes pendingState pendingCounter commandTime a =
     a\<lparr>ea_batchBuffer := ea_batchBuffer a @ envelopes, ea_batchState := pendingState,
       ea_batchCounter := pendingCounter, ea_batchTime := commandTime,
       ea_batchNumEvents := ea_batchNumEvents a + int (length envelopes),
       ea_batchEntries := ea_batchEntries a @
         [state_reply (ea_persistenceID a) (any_New (rt_any rt) pendingState) pendingCounter commandTime]\<rparr>"

definition noEventsReply ::
    "'m runtime \<Rightarrow> 'm \<Rightarrow> u64 \<Rightarrow> ('m, 's, 't) Actor \<Rightarrow> ('m, 's, 't) Actor \<times> effect list" where
  "noEventsReply rt state counter a =
     (let (st, a') = (if ea_batchEntries a = [] then currentStateAny rt a
                      else (any_New (rt_any rt) state, a)) in
      (a', [Respond (state_reply (ea_persistenceID a) st counter (ea_lastCommandTime a))]))"

text \<open>
  The admission gate and what follows it.  A declared revision is recorded as soon as its command
  is admitted to an open batch, and stays recorded when the command then fails.
\<close>

definition processAndBatch ::
    "'m runtime \<Rightarrow> turn \<Rightarrow> 'm \<Rightarrow> ('m, 's, 't) Actor \<Rightarrow> ('m, 's, 't) Actor \<times> effect list" where
  "processAndBatch rt tn cmd a =
     (let ctx = tn_ctx tn; state = latestState a; counter = latestCounter a in
      case sum_bind (tenant_gate ctx a) (\<lambda>tc.
           check_err (CheckDeadline ctx (tn_gate tn) ''before handler execution'') (Inr tc)) of
        Inl err \<Rightarrow> (a, [sendErrorReply rt err])
      | Inr tc \<Rightarrow>
          let revision = ExpectedRevisionFromContext (rt_time rt) (tn_revision tn) ctx in
          if ea_batchEntries a \<noteq> [] \<and> revision \<noteq> None \<and> revision \<noteq> Some counter then
            (let (a1, effs) = flushBatch a in (a1, effs @ [Stash]))
          else
            let a1 = (if ea_batchEntries a \<noteq> [] \<and> revision \<noteq> None
                      then a\<lparr>ea_batchHasPrecondition := True\<rparr> else a) in
            case dispatchToBehavior rt tn cmd state a1 of
              Inl err \<Rightarrow> (a1, [sendErrorReply rt err])
            | Inr events \<Rightarrow>
                if events = [] then noEventsReply rt state counter a1
                else
                  (case sum_bind (buildEnvelopes rt tn events tc state counter a1) (\<lambda>built.
                        check_err (CheckDeadline ctx (tn_persist tn) ''before persistence'') (Inr built)) of
                     Inl err \<Rightarrow> (a1, [sendErrorReply rt err])
                   | Inr (envelopes, pendingState, pendingCounter) \<Rightarrow>
                       let a2 = append_to_batch rt envelopes pendingState pendingCounter (tn_build tn)
                                  (open_batch revision counter (establishActorTenant tc a1)) in
                       if ea_batchNumEvents a2 \<ge> ea_batchThreshold a2
                       then (let (a3, effs) = flushBatch a2 in (a3, Stash # effs))
                       else (startFlushTimer a2, [Stash])))"

definition handleBatchFlushTick :: "('m, 's, 't) Actor \<Rightarrow> ('m, 's, 't) Actor \<times> effect list" where
  "handleBatchFlushTick a =
     (let a1 = a\<lparr>ea_flushTimer := False\<rparr> in
      if ea_phase a1 \<noteq> phaseProcessing \<or> ea_batchEntries a1 = [] then (a1, []) else flushBatch a1)"

definition handleBatchPersistResponse ::
    "'m runtime \<Rightarrow> goerr option \<Rightarrow> ('m, 's, 't) Actor \<Rightarrow> ('m, 's, 't) Actor \<times> effect list" where
  "handleBatchPersistResponse rt resp a =
     (if ea_phase a \<noteq> phaseFlushing then (a, [])
      else case resp of
             Some err \<Rightarrow>
               (a\<lparr>ea_batchEntries := map (\<lambda>_. error_reply rt err) (ea_batchEntries a),
                  ea_remainingReplies := int (length (ea_batchEntries a)),
                  ea_shutdownOnDrain := \<not> shouldStayAliveAfterConflict err a,
                  ea_phase := phaseReplying\<rparr>, [UnstashAll])
           | None \<Rightarrow>
               let a1 = applyConfirmedState rt (ea_batchState a) (ea_batchCounter a) (ea_batchTime a) a;
                   (a2, effs) = (if crossedSnapshotBoundary (ea_eventsCounter a) a1
                                 then snapshotAndRetain rt a1 else (a1, [])) in
               (a2\<lparr>ea_remainingReplies := int (length (ea_batchEntries a2)), ea_phase := phaseReplying\<rparr>,
                effs @ [UnstashAll]))"

definition replyFromBatch ::
    "'m runtime \<Rightarrow> turn \<Rightarrow> 'm \<Rightarrow> ('m, 's, 't) Actor \<Rightarrow> ('m, 's, 't) Actor \<times> effect list" where
  "replyFromBatch rt tn cmd a =
     (if ea_remainingReplies a \<le> 0 then processAndBatch rt tn cmd (a\<lparr>ea_phase := phaseProcessing\<rparr>)
      else
        let idx = length (ea_batchEntries a) - nat (ea_remainingReplies a);
            a1 = a\<lparr>ea_remainingReplies := ea_remainingReplies a - 1\<rparr>;
            reply = Respond (ea_batchEntries a ! idx) in
        if ea_remainingReplies a1 = 0 then
          ((resetBatch rt a1)\<lparr>ea_phase := phaseProcessing\<rparr>,
           reply # (if ea_shutdownOnDrain a1 then [Shutdown] else []))
        else (a1, [reply]))"

definition handleCommandBatched ::
    "'m runtime \<Rightarrow> turn \<Rightarrow> 'm \<Rightarrow> ('m, 's, 't) Actor \<Rightarrow> ('m, 's, 't) Actor \<times> effect list" where
  "handleCommandBatched rt tn cmd a =
     (case ea_phase a of
        phaseProcessing \<Rightarrow> processAndBatch rt tn cmd a
      | phaseFlushing \<Rightarrow> (a, [Stash])
      | phaseReplying \<Rightarrow> replyFromBatch rt tn cmd a
      | _ \<Rightarrow> (a, []))"

section \<open>Messages\<close>

definition handleGetStateCommand ::
    "'m runtime \<Rightarrow> turn \<Rightarrow> ('m, 's, 't) Actor \<Rightarrow> ('m, 's, 't) Actor \<times> effect list" where
  "handleGetStateCommand rt tn a =
     (if \<not> batchEnabled a \<and> (ea_phase a = phasePersisting \<or> ea_phase a = phaseDirectReplying)
      then (a, [Stash]) else getStateAndReply rt tn a)"

definition spawnChildren :: "('m, 's, 't) Actor \<Rightarrow> ('m, 's, 't) Actor" where
  "spawnChildren a =
     (let a1 = a\<lparr>ea_eventsWriter := True\<rparr>;
          a2 = (if ea_snapshotStore a \<noteq> None then a1\<lparr>ea_snapshotsWriter := True\<rparr> else a1) in
      if ea_retentionPolicy a \<noteq> None then a2\<lparr>ea_eventsJanitor := True\<rparr> else a2)"

fun Receive :: "'m runtime \<Rightarrow> turn \<Rightarrow> 'm message \<Rightarrow> ('m, 's, 't) Actor \<Rightarrow> ('m, 's, 't) Actor \<times> effect list" where
  "Receive rt tn (PostStart shard) a = (spawnChildren (a\<lparr>ea_shardNumber := shard\<rparr>), [])"
| "Receive rt tn GetStateCommand a = handleGetStateCommand rt tn a"
| "Receive rt tn (TenantBindingQuery tid) a =
     (a, [RespondBinding (AnswerTenantBinding (ea_tenantAware a) (ea_scope a) tid)])"
| "Receive rt tn BatchFlushTick a = handleBatchFlushTick a"
| "Receive rt tn (PersistEventsResponse resp) a =
     (if batchEnabled a then handleBatchPersistResponse rt resp a else handleDirectPersistResponse rt resp a)"
| "Receive rt tn (CommandMessage cmd) a =
     (if batchEnabled a then handleCommandBatched rt tn cmd a
      else case ea_phase a of
             phasePersisting \<Rightarrow> (a, [Stash])
           | phaseDirectReplying \<Rightarrow> replyDirect rt a
           | _ \<Rightarrow> processCommandAndReply rt tn cmd a)"
| "Receive rt tn OtherMessage a = (a, [Unhandled])"

definition PostStop :: "'m runtime \<Rightarrow> ('m, 's, 't) Actor \<Rightarrow> ('m, 's, 't) Actor" where
  "PostStop rt a = resetBatch rt (stopFlushTimer a)"

end
