(* ===== verification/ES_Recovery.thy ===== *)
theory ES_Recovery
  imports ES_Actor
begin

text \<open>
  How an event-sourced actor starts: \<open>PreStart\<close> of \<open>event_sourced_actor.go\<close> with the lookups,
  the configuration, the tenant scope, and the recovery of the state from the snapshot store and
  the journal.  A failed start leaves no actor, so each step returns an error or the actor so far.
\<close>

section \<open>Reading a payload back\<close>

definition decryptPayload ::
    "'m runtime \<Rightarrow> cmdctx \<Rightarrow> any_pb option \<Rightarrow> bool \<Rightarrow> string \<Rightarrow> ('m, 's, 't) Actor \<Rightarrow> goerr + any_pb option" where
  "decryptPayload rt ctx payload encrypted keyID a =
     (case ea_encryptor a of
        None \<Rightarrow> Inr payload
      | Some enc \<Rightarrow>
          if \<not> encrypted then Inr payload
          else
            (case enc_Decrypt enc ctx (ea_persistenceID a)
                    (case payload of Some p \<Rightarrow> any_value p | None \<Rightarrow> []) keyID of
               Inl err \<Rightarrow> Inl err
             | Inr plaintext \<Rightarrow>
                 (case any_Unmarshal (rt_any rt) plaintext of
                    Inl err \<Rightarrow> Inl (ErrWrap ''failed to unmarshal decrypted payload: '' err '''')
                  | Inr decrypted \<Rightarrow> Inr (Some decrypted))))"

definition at_sequence :: "string \<Rightarrow> u64 \<Rightarrow> string" where
  "at_sequence what seqNr = what @ '' at sequence '' @ strconv_FormatUint seqNr @ '': ''"

definition verify_event_tenant :: "Event \<Rightarrow> ('m, 's, 't) Actor \<Rightarrow> goerr option" where
  "verify_event_tenant envelope a =
     (if \<not> ea_tenantAware a then None
      else case tenancy_UnmarshalMetadata (ev_tenant_metadata envelope) of
             Inl err \<Rightarrow> Some (ErrWrap (at_sequence ''failed to unmarshal event tenant metadata''
                                     (ev_sequence_number envelope)) (ErrTenancy err) '''')
           | Inr eventTenant \<Rightarrow>
               (case tenancy_VerifyUnchanged (ea_actorTenant a) eventTenant of
                  Some err \<Rightarrow> Some (ErrWrap (at_sequence ''tenant mismatch replaying event''
                                     (ev_sequence_number envelope)) (ErrTenancy err) '''')
                | None \<Rightarrow> None))"

definition applyPersistedEvent ::
    "'m runtime \<Rightarrow> cmdctx \<Rightarrow> Event \<Rightarrow> 'm \<Rightarrow> ('m, 's, 't) Actor \<Rightarrow> goerr + 'm" where
  "applyPersistedEvent rt ctx envelope state a =
     (let seqNr = ev_sequence_number envelope in
      check_err (verify_event_tenant envelope a)
        (sum_bind
          (wrap_err (at_sequence ''failed to decrypt event'' seqNr)
             (decryptPayload rt ctx (ev_event envelope) (ev_is_encrypted envelope)
                (ev_encryption_key_id envelope) a)) (\<lambda>evt.
         sum_bind
          (if ea_eventAdapters a \<noteq> [] then
             wrap_err (at_sequence ''failed to adapt event'' seqNr)
               (adapter_Chain (ea_eventAdapters a) evt seqNr)
           else Inr evt) (\<lambda>evt.
         sum_bind
          (wrap_err (at_sequence ''failed to unmarshal event'' seqNr)
             (any_UnmarshalNew (rt_any rt) evt)) (\<lambda>eventMsg.
         wrap_err (at_sequence ''failed to handle event'' seqNr)
           (bh_HandleEvent (the (ea_behavior a)) ctx eventMsg state))))))"

fun apply_events ::
    "'m runtime \<Rightarrow> cmdctx \<Rightarrow> ('m, 's, 't) Actor \<Rightarrow> Event list \<Rightarrow> 'm \<Rightarrow> goerr + 'm" where
  "apply_events rt ctx a [] state = Inr state"
| "apply_events rt ctx a (envelope # envelopes) state =
     sum_bind (applyPersistedEvent rt ctx envelope state a) (apply_events rt ctx a envelopes)"

definition replayEvents ::
    "'m runtime \<Rightarrow> cmdctx \<Rightarrow> 's \<Rightarrow> 'm \<Rightarrow> u64 \<Rightarrow> u64 \<Rightarrow> ('m, 's, 't) Actor \<Rightarrow> goerr + 'm" where
  "replayEvents rt ctx db state from to a =
     sum_bind
       (wrap_err ''failed to replay events: ''
          (ReplayEvents (the (ea_eventsStore a)) (ea_scope a) (ea_persistenceID a) from to (to - from + 1) db))
       (\<lambda>events. apply_events rt ctx a events state)"

section \<open>Recovery\<close>

text \<open>The tenant a persisted record carries, checked against the actor's own.\<close>

definition seed_from_metadata ::
    "string \<Rightarrow> metadata \<Rightarrow> ('m, 's, 't) Actor \<Rightarrow> goerr + ('m, 's, 't) Actor" where
  "seed_from_metadata what md a =
     (if ea_tenantAware a then
        (case tenancy_UnmarshalMetadata md of
           Inl err \<Rightarrow> Inl (ErrWrap what (ErrTenancy err) '''')
         | Inr tc \<Rightarrow> seedActorTenant tc a)
      else Inr a)"

definition recoverFromSnapshot ::
    "'m runtime \<Rightarrow> cmdctx \<Rightarrow> 't \<Rightarrow> 'm \<Rightarrow> ('m, 's, 't) Actor \<Rightarrow> goerr + 'm \<times> u64 \<times> ('m, 's, 't) Actor" where
  "recoverFromSnapshot rt ctx sdb initial a =
     sum_bind
       (wrap_err ''failed to load snapshot: ''
          (GetLatestSnapshot (the (ea_snapshotStore a)) (ea_scope a) (ea_persistenceID a) sdb)) (\<lambda>found.
     (case found of
        None \<Rightarrow> Inr (initial, 1, a)
      | Some snapshot \<Rightarrow>
          if sn_state snapshot = None then Inr (initial, 1, a)
          else
            sum_bind
              (seed_from_metadata ''failed to unmarshal snapshot tenant metadata: ''
                 (sn_tenant_metadata snapshot) a) (\<lambda>a1.
            sum_bind
              (wrap_err ''failed to decrypt snapshot: ''
                 (decryptPayload rt ctx (sn_state snapshot) (sn_is_encrypted snapshot)
                    (sn_encryption_key_id snapshot) a1)) (\<lambda>snapshotState.
            sum_bind
              (wrap_err ''failed to unmarshal snapshot state: ''
                 (any_UnmarshalTo (rt_any rt) snapshotState initial)) (\<lambda>restored.
            let seqNr = sn_sequence_number snapshot in
            Inr (restored, seqNr + 1, a1\<lparr>ea_eventsCounter := seqNr\<rparr>))))))"

definition recover ::
    "'m runtime \<Rightarrow> cmdctx \<Rightarrow> 's \<Rightarrow> 't \<Rightarrow> ('m, 's, 't) Actor \<Rightarrow> goerr + ('m, 's, 't) Actor" where
  "recover rt ctx db sdb a =
     (let initial = bh_InitialState (the (ea_behavior a)) in
      sum_bind
        (if ea_snapshotStore a \<noteq> None then recoverFromSnapshot rt ctx sdb initial a
         else Inr (initial, 1, a)) (\<lambda>(state, replayFrom, a1).
      sum_bind
        (wrap_err ''failed to get latest event: ''
           (GetLatestEvent (the (ea_eventsStore a)) (ea_scope a) (ea_persistenceID a) db)) (\<lambda>found.
      (case found of
         None \<Rightarrow> Inr (a1\<lparr>ea_currentState := state\<rparr>)
       | Some latestEvent \<Rightarrow>
           let latestSeqNr = ev_sequence_number latestEvent in
           sum_bind
             (seed_from_metadata ''failed to unmarshal event tenant metadata: ''
                (ev_tenant_metadata latestEvent) a1) (\<lambda>a2.
           if replayFrom \<le> latestSeqNr then
             sum_bind (replayEvents rt ctx db state replayFrom latestSeqNr a2) (\<lambda>st.
             Inr (a2\<lparr>ea_eventsCounter := latestSeqNr, ea_currentState := st\<rparr>))
           else Inr (a2\<lparr>ea_currentState := state\<rparr>))))))"

section \<open>Starting\<close>

text \<open>The extensions registered on the actor system, and what the two stores answer to a ping.\<close>

record ('s, 't) es_registry =
  rg_eventsStore :: "'s EventsStore ext_slot"
  rg_eventsStream :: "unit ext_slot"
  rg_snapshotStore :: "'t SnapshotStoreApi ext_slot"
  rg_eventAdapters :: "EventAdapter list ext_slot"
  rg_encryptor :: "Encryptor ext_slot"
  rg_telemetry :: "unit ext_slot"
  rg_tenancy :: bool
  rg_pingEvents :: "goerr option"
  rg_pingSnapshots :: "goerr option"

definition loadOptionalExtensions ::
    "'m runtime \<Rightarrow> ('s, 't) es_registry \<Rightarrow> ('m, 's, 't) Actor \<Rightarrow> goerr + ('m, 's, 't) Actor" where
  "loadOptionalExtensions rt rg a =
     (let ip = rt_print rt; name = ea_persistenceID a in
      sum_bind (ext_Optional ip name SnapshotStoreExtensionID (rg_snapshotStore rg)) (\<lambda>store.
      sum_bind (ext_Optional ip name EventAdaptersExtensionID (rg_eventAdapters rg)) (\<lambda>adapters.
      sum_bind (ext_Optional ip name EncryptorExtensionID (rg_encryptor rg)) (\<lambda>enc.
      sum_bind (ext_Optional ip name TelemetryExtensionID (rg_telemetry rg)) (\<lambda>_.
      let a1 = (case store of Some x \<Rightarrow> a\<lparr>ea_snapshotStore := Some x\<rparr> | None \<Rightarrow> a);
          a2 = (case adapters of Some x \<Rightarrow> a1\<lparr>ea_eventAdapters := x\<rparr> | None \<Rightarrow> a1) in
      Inr (case enc of Some x \<Rightarrow> a2\<lparr>ea_encryptor := Some x\<rparr> | None \<Rightarrow> a2))))))"

definition defaultPersistTimeout :: int where
  "defaultPersistTimeout = 30 * 10 ^ 9"

definition defaultBatchFlushWindow :: int where
  "defaultBatchFlushWindow = 5 * 10 ^ 6"

definition set_entity_config :: "EntityConfig \<Rightarrow> ('m, 's, 't) Actor \<Rightarrow> ('m, 's, 't) Actor" where
  "set_entity_config config a =
     (let a1 = a\<lparr>ea_snapshotInterval := ec_SnapshotInterval config\<rparr>;
          a2 = (if ec_HasRetentionPolicy config then
                  a1\<lparr>ea_retentionPolicy := Some
                       \<lparr>rp_DeleteEventsOnSnapshot = ec_DeleteEventsOnSnapshot config,
                        rp_DeleteSnapshotsOnSnapshot = ec_DeleteSnapshotsOnSnapshot config,
                        rp_EventsRetentionCount = ec_EventsRetentionCount config\<rparr>\<rparr>
                else a1) in
      a2\<lparr>ea_batchThreshold := ec_BatchThreshold config,
         ea_batchFlushWindow :=
           (if ec_BatchThreshold config > 0 \<and> ec_BatchFlushWindow config = 0
            then defaultBatchFlushWindow else ec_BatchFlushWindow config)\<rparr>)"

fun setConfig :: "'m EventSourced dependency list \<Rightarrow> ('m, 's, 't) Actor \<Rightarrow> ('m, 's, 't) Actor" where
  "setConfig [] a = a"
| "setConfig (dep # deps) a =
     setConfig deps
       (case dep of
          DepBehavior bh \<Rightarrow> a\<lparr>ea_behavior := Some bh\<rparr>
        | DepEntityConfig config \<Rightarrow> set_entity_config config a
        | _ \<Rightarrow> a)"

definition resolveScope ::
    "'m EventSourced dependency list \<Rightarrow> ('m, 's, 't) Actor \<Rightarrow> goerr + ('m, 's, 't) Actor" where
  "resolveScope deps a =
     sum_bind (bind_tenant_scope (ea_tenantAware a) deps) (\<lambda>(scope, tc).
       Inr (if ea_tenantAware a then a\<lparr>ea_scope := scope, ea_actorTenant := tc\<rparr> else a\<lparr>ea_scope := scope\<rparr>))"

definition validateAndRecover ::
    "'m runtime \<Rightarrow> cmdctx \<Rightarrow> ('s, 't) es_registry \<Rightarrow> 's \<Rightarrow> 't \<Rightarrow> ('m, 's, 't) Actor
       \<Rightarrow> goerr + ('m, 's, 't) Actor" where
  "validateAndRecover rt ctx rg db sdb a =
     (if ea_behavior a = None then Inl (ErrNew ''behavior is required'')
      else check_err (rg_pingEvents rg)
             (check_err (if ea_snapshotStore a \<noteq> None then rg_pingSnapshots rg else None)
               (recover rt ctx db sdb a)))"

definition PreStart ::
    "'m runtime \<Rightarrow> cmdctx \<Rightarrow> string \<Rightarrow> ('s, 't) es_registry \<Rightarrow> 'm EventSourced dependency list \<Rightarrow> 's \<Rightarrow> 't
       \<Rightarrow> ('m, 's, 't) Actor \<Rightarrow> goerr + ('m, 's, 't) Actor" where
  "PreStart rt ctx name rg deps db sdb a =
     sum_bind (ext_Require (rt_print rt) name EventsStoreExtensionID (rg_eventsStore rg)) (\<lambda>store.
     sum_bind (ext_Require (rt_print rt) name EventsStreamExtensionID (rg_eventsStream rg)) (\<lambda>_.
     sum_bind
       (resolveScope deps
          (a\<lparr>ea_eventsStore := Some store, ea_persistenceID := name,
             ea_persistTimeout := defaultPersistTimeout, ea_tenantAware := rg_tenancy rg\<rparr>)) (\<lambda>a1.
     sum_bind (loadOptionalExtensions rt rg a1) (\<lambda>a2.
     validateAndRecover rt ctx rg db sdb (setConfig deps a2)))))"

end
