(* ===== verification/Journal.thy ===== *)
theory Journal
  imports Events_Contract
begin

text \<open>
  Journals as histories.  A history is the list of all events an entity ever committed; the journal
  of an events store holds those that were not deleted.  What reads of such a journal return, and
  how writes and deletions change it.
\<close>

section \<open>Journals of histories\<close>

definition history_ok :: "string \<Rightarrow> Event list \<Rightarrow> bool" where
  "history_ok pid hist \<longleftrightarrow>
     length hist < 2 ^ 63
     \<and> (\<forall>i < length hist. ev_sequence_number (hist ! i) = of_nat (Suc i) \<and> ev_persistence_id (hist ! i) = pid)"

text \<open>The journal of a history whose first \<open>d\<close> events were deleted.\<close>

definition journal_of :: "Event list \<Rightarrow> nat \<Rightarrow> u64 \<rightharpoonup> Event" where
  "journal_of hist d k =
     (if d < unat k \<and> unat k \<le> length hist then Some (hist ! (unat k - 1)) else None)"

definition revision_of :: "Event list \<Rightarrow> u64 option" where
  "revision_of hist = (if hist = [] then None else Some (of_nat (length hist)))"

lemma unat_of_nat_u64: "n < 2 ^ 64 \<Longrightarrow> unat (of_nat n :: u64) = n"
  by (simp add: unat_of_nat)

lemma of_nat_u64_inj:
  assumes "n < 2 ^ 64"
  shows "inj_on (of_nat :: nat \<Rightarrow> u64) {..n}"
proof (rule inj_on_inverseI [where g = unat])
  fix x assume "x \<in> {..n}"
  then show "unat (of_nat x :: u64) = x" using assms by (intro unat_of_nat_u64) simp
qed

lemma history_ok_Nil [simp]: "history_ok pid []"
  by (simp add: history_ok_def)

lemma history_okD: "history_ok pid hist \<Longrightarrow> length hist < 2 ^ 63" "history_ok pid hist \<Longrightarrow> length hist < 2 ^ 64"
  by (simp_all add: history_ok_def)

lemma dom_journal_of:
  assumes "history_ok pid hist"
  shows "dom (journal_of hist d) = of_nat ` {d <..length hist}"
proof (rule set_eqI)
  fix k :: u64
  show "k \<in> dom (journal_of hist d) \<longleftrightarrow> k \<in> of_nat ` {d <..length hist}"
  proof
    assume "k \<in> dom (journal_of hist d)"
    then have "unat k \<in> {d <..length hist}" by (auto simp: journal_of_def split: if_splits)
    then show "k \<in> of_nat ` {d <..length hist}" by (intro image_eqI [of _ _ "unat k"]) simp_all
  next
    assume "k \<in> of_nat ` {d <..length hist}"
    then obtain i where "k = of_nat i" "d < i" "i \<le> length hist" by auto
    with history_okD(2) [OF assms] show "k \<in> dom (journal_of hist d)"
      by (simp add: journal_of_def unat_of_nat_u64 dom_def)
  qed
qed

lemma sorted_list_of_set_of_nat:
  assumes "n < 2 ^ 64"
  shows "sorted_list_of_set (of_nat ` {p <..n} :: u64 set) = map of_nat [Suc p..<Suc n]"
proof -
  have "sorted_wrt (\<lambda>i j. (of_nat i :: u64) \<le> of_nat j) [Suc p..<Suc n]"
  proof (rule sorted_wrt_mono_rel [OF _ sorted_upt])
    fix i j assume "i \<in> set [Suc p..<Suc n]" "j \<in> set [Suc p..<Suc n]" "i \<le> j"
    then have "i < 2 ^ 64" "j < 2 ^ 64" using assms by (simp_all del: upt_Suc)
    with \<open>i \<le> j\<close> show "(of_nat i :: u64) \<le> of_nat j" by (simp add: word_le_nat_alt unat_of_nat_u64)
  qed
  then have "sorted (map (of_nat :: nat \<Rightarrow> u64) [Suc p..<Suc n])" by (simp only: sorted_wrt_map)
  moreover have "distinct (map (of_nat :: nat \<Rightarrow> u64) [Suc p..<Suc n])"
    by (simp only: distinct_map distinct_upt simp_thms) (rule inj_on_subset [OF of_nat_u64_inj [OF assms]], auto)
  moreover have "set (map (of_nat :: nat \<Rightarrow> u64) [Suc p..<Suc n]) = of_nat ` {p <..n}"
    by (simp only: set_map set_upt) (rule arg_cong [where f = "image of_nat"], auto)
  ultimately show ?thesis
    using sorted_list_of_set.idem_if_sorted_distinct [of "map (of_nat :: nat \<Rightarrow> u64) [Suc p..<Suc n]"]
    by (simp only:)
qed

lemma journal_range_of:
  assumes h: "history_ok pid hist" and p: "d \<le> p" "p \<le> length hist"
  shows "journal_range (journal_of hist d) (of_nat (Suc p)) (of_nat (length hist)) = drop p hist"
proof -
  let ?n = "length hist"
  note n = history_okD(2) [OF h]
  have "{k \<in> dom (journal_of hist d). of_nat (Suc p) \<le> k \<and> k \<le> of_nat ?n} = (of_nat ` {p <..?n} :: u64 set)"
  proof (rule set_eqI)
    fix k :: u64
    have "k \<in> of_nat ` {e <..?n} \<longleftrightarrow> e < unat k \<and> unat k \<le> ?n" for e
      using n by (auto simp: unat_of_nat_u64 image_iff intro!: bexI [of _ "unat k"])
    then show "k \<in> {k \<in> dom (journal_of hist d). of_nat (Suc p) \<le> k \<and> k \<le> of_nat ?n} \<longleftrightarrow> k \<in> of_nat ` {p <..?n}"
      using n p history_okD(1) [OF h] by (auto simp: dom_journal_of [OF h] word_le_nat_alt unat_of_nat_u64 simp del: of_nat_Suc)
  qed
  then have "journal_range (journal_of hist d) (of_nat (Suc p)) (of_nat ?n) =
      map (\<lambda>i. the (journal_of hist d (of_nat i))) [Suc p..<Suc ?n]"
    by (simp add: journal_range_def sorted_list_of_set_of_nat [OF n] comp_def del: of_nat_Suc upt_Suc)
  also have "\<dots> = drop p hist"
  proof (rule nth_equalityI)
    show "length (map (\<lambda>i. the (journal_of hist d (of_nat i))) [Suc p..<Suc ?n]) = length (drop p hist)" by (simp del: upt_Suc)
    fix i assume "i < length (map (\<lambda>i. the (journal_of hist d (of_nat i))) [Suc p..<Suc ?n])"
    then have i: "p + i < ?n" by (simp del: upt_Suc)
    then show "map (\<lambda>i. the (journal_of hist d (of_nat i))) [Suc p..<Suc ?n] ! i = drop p hist ! i"
      using n p by (simp add: journal_of_def unat_of_nat_u64 del: upt_Suc of_nat_Suc)
  qed
  finally show ?thesis .
qed

lemma Max_of_nat_image:
  assumes "d < n" and "n < 2 ^ 64"
  shows "Max (of_nat ` {d <..n} :: u64 set) = of_nat n"
  using assms by (intro Max_eqI) (auto simp: word_le_nat_alt unat_of_nat_u64)

lemma journal_latest_of:
  assumes h: "history_ok pid hist"
  shows "journal_latest (journal_of hist d) = (if d < length hist then Some (last hist) else None)"
proof (cases "d < length hist")
  case True
  then have ne: "journal_of hist d \<noteq> Map.empty"
    using dom_journal_of [OF h, of d] by (metis dom_eq_empty_conv greaterThanAtMost_iff imageI empty_iff order_refl)
  have "journal_of hist d (of_nat (length hist)) = Some (last hist)"
    using True history_okD(2) [OF h] by (subst last_conv_nth) (auto simp: journal_of_def unat_of_nat_u64)
  with True ne show ?thesis
    by (simp add: journal_latest_def dom_journal_of [OF h] Max_of_nat_image [OF True history_okD(2) [OF h]])
next
  case False
  then have "journal_of hist d = Map.empty" by (auto simp: journal_of_def fun_eq_iff)
  with False show ?thesis by (simp add: journal_latest_def)
qed

section \<open>Writes and deletions\<close>

text \<open>Envelopes that continue a history of an entity.\<close>

definition continues :: "string \<Rightarrow> Event list \<Rightarrow> Event list \<Rightarrow> bool" where
  "continues pid hist envs \<longleftrightarrow>
     length hist + length envs < 2 ^ 63
     \<and> (\<forall>j < length envs. ev_sequence_number (envs ! j) = of_nat (length hist) + of_nat (Suc j)
                           \<and> ev_persistence_id (envs ! j) = pid)"

lemma continues_history: "history_ok pid hist \<Longrightarrow> continues pid hist envs \<Longrightarrow> history_ok pid (hist @ envs)"
  by (auto simp: history_ok_def continues_def nth_append of_nat_diff add.assoc)

lemma continues_Cons:
  assumes "continues pid hist (e # envs)"
  shows "continues pid hist [e] \<and> continues pid (hist @ [e]) envs"
proof -
  have "ev_sequence_number (envs ! j) = of_nat (length hist) + 1 + of_nat (Suc j) \<and> ev_persistence_id (envs ! j) = pid"
    if "j < length envs" for j
    using assms that by (auto simp: continues_def add.assoc dest: spec [of _ "Suc j"])
  with assms show ?thesis by (auto simp: continues_def dest: spec [of _ 0])
qed

lemma journal_of_snoc:
  assumes "continues pid hist [e]" and "d \<le> length hist"
  shows "(journal_of hist d)(ev_sequence_number e \<mapsto> e) = journal_of (hist @ [e]) d"
proof
  fix k :: u64
  have e: "ev_sequence_number e = of_nat (Suc (length hist))" and n: "Suc (length hist) < 2 ^ 64"
    using assms(1) by (simp_all add: continues_def add.commute)
  then have u: "unat (ev_sequence_number e) = Suc (length hist)" by (simp only: unat_of_nat_u64)
  have "k = ev_sequence_number e \<longleftrightarrow> unat k = Suc (length hist)"
    unfolding u [symmetric] by (rule word_unat_eq_iff)
  with assms(2) u show "((journal_of hist d)(ev_sequence_number e \<mapsto> e)) k = journal_of (hist @ [e]) d k"
    by (auto simp: journal_of_def nth_append)
qed

lemma ev_override_continues:
  "continues pid hist envs \<Longrightarrow> d \<le> length hist \<Longrightarrow> ev_override (journal_of hist d) envs = journal_of (hist @ envs) d"
proof (induction envs arbitrary: hist)
  case (Cons e envs)
  note c = continues_Cons [OF Cons.prems(1)]
  have "ev_override (journal_of hist d) (e # envs) = ev_override (journal_of (hist @ [e]) d) envs"
    unfolding journal_of_snoc [OF conjunct1 [OF c] Cons.prems(2), symmetric] by (simp add: ev_override_def)
  also have "\<dots> = journal_of (hist @ e # envs) d" using Cons.IH [OF conjunct2 [OF c]] Cons.prems(2) by simp
  finally show ?case .
qed (simp add: ev_override_def)

lemma rev_advance_continues:
  "continues pid hist envs \<Longrightarrow> envs \<noteq> [] \<Longrightarrow> Some (rev_advance (revision_of hist) envs) = revision_of (hist @ envs)"
proof (induction envs arbitrary: hist)
  case (Cons e envs)
  note c = continues_Cons [OF Cons.prems(1)]
  from c have n: "Suc (length hist) < 2 ^ 64" and e: "ev_sequence_number e = of_nat (Suc (length hist))"
    by (simp_all add: continues_def add.commute)
  have "(of_nat (length hist) :: u64) \<le> of_nat (Suc (length hist))"
    using n by (simp add: word_le_nat_alt unat_of_nat_u64 del: of_nat_Suc)
  then have "max (ev_sequence_number e) (case revision_of hist of Some v \<Rightarrow> v | None \<Rightarrow> 0) = of_nat (Suc (length hist))"
    unfolding e by (auto simp: revision_of_def max_def split: if_splits)
  then have "rev_advance (revision_of hist) (e # envs) = rev_advance (revision_of (hist @ [e])) envs"
    by (simp add: rev_advance_def revision_of_def)
  moreover have "envs = [] \<Longrightarrow> rev_advance (revision_of (hist @ [e])) envs = of_nat (length (hist @ [e]))"
    by (simp add: rev_advance_def revision_of_def)
  ultimately show ?case
    using Cons.IH [OF conjunct2 [OF c]] by (cases "envs = []") (simp_all add: revision_of_def)
qed simp

lemma journal_of_restrict: "journal_of hist d |` {i. k < i} = journal_of hist (max d (unat k))"
  by (rule ext) (auto simp: journal_of_def restrict_map_def word_less_nat_alt)

lemma continues_fresh:
  assumes "continues pid hist envs" and "history_ok pid hist"
  shows "fresh_events (journal_of hist d) envs"
proof -
  have n: "length hist + length envs < 2 ^ 64"
    and e: "\<And>i. i < length envs \<Longrightarrow> ev_sequence_number (envs ! i) = of_nat (length hist + Suc i)"
    using assms(1) unfolding continues_def of_nat_add by simp_all
  have u: "i < length envs \<Longrightarrow> unat (ev_sequence_number (envs ! i)) = length hist + Suc i" for i
    using n e [of i] unat_of_nat_u64 [of "length hist + Suc i"] by (simp only:)
  have "distinct (map ev_sequence_number envs)"
    unfolding distinct_conv_nth by (auto dest!: arg_cong [of _ _ unat] simp: u)
  moreover have "ev_sequence_number x \<notin> dom (journal_of hist d)" if "x \<in> set envs" for x
    using that u by (auto simp: in_set_conv_nth journal_of_def split: if_splits)
  ultimately show ?thesis by (simp add: fresh_events_def)
qed

end
