(* ===== verification/ES_Replay.thy ===== *)
theory ES_Replay
  imports ES_Recovery Journal
begin

text \<open>
  Why recovery is right.  A history is the list of all events an entity ever committed; the journal
  holds those retention has not deleted, and each snapshot the state after a prefix of it.  From
  such stores \<open>recover\<close> rebuilds exactly the state and the counter the whole history gives.
\<close>

section \<open>What is asked of the application\<close>

text \<open>
  The documented duties of the code behind the interfaces.  Event handlers are pure (they do not
  depend on the context) and take states to states; events and states, the messages \<open>Ev\<close> and \<open>St\<close>
  of the application, survive packing; an encryptor decrypts what it encrypted; an adapter that does
  not apply returns an event of the current schema unchanged.
\<close>

definition behavior_ok :: "('m \<Rightarrow> bool) \<Rightarrow> ('m \<Rightarrow> bool) \<Rightarrow> 'm EventSourced \<Rightarrow> bool" where
  "behavior_ok Ev St bh \<longleftrightarrow>
     St (bh_InitialState bh)
     \<and> (\<forall>ctx ctx' e st. bh_HandleEvent bh ctx e st = bh_HandleEvent bh ctx' e st)
     \<and> (\<forall>ctx e st st'. St st \<longrightarrow> bh_HandleEvent bh ctx e st = Inr st' \<longrightarrow> St st')
     \<and> (\<forall>ctx cmd st evs. bh_HandleCommand bh ctx cmd st = Inr evs \<longrightarrow> list_all Ev evs)
     \<and> (\<forall>h ctx env st evs. bh_HandleEnvelope bh = Some h \<longrightarrow> h ctx env st = Inr evs \<longrightarrow> list_all Ev evs)"

definition codec_ok :: "('m \<Rightarrow> bool) \<Rightarrow> ('m \<Rightarrow> bool) \<Rightarrow> 'm \<Rightarrow> 'm AnyCodec \<Rightarrow> bool" where
  "codec_ok Ev St initial cod \<longleftrightarrow>
     (\<forall>e. Ev e \<longrightarrow> (\<exists>x. any_New cod e = Some x \<and> any_UnmarshalNew cod (Some x) = Inr e))
     \<and> (\<forall>st. St st \<longrightarrow> (\<exists>x. any_New cod st = Some x \<and> any_UnmarshalTo cod (Some x) initial = Inr st))
     \<and> (\<forall>x b. any_Marshal cod (Some x) = Inr b \<longrightarrow> any_Unmarshal cod b = Inr x)"

definition encryptor_ok :: "Encryptor \<Rightarrow> bool" where
  "encryptor_ok enc \<longleftrightarrow>
     (\<forall>ctx ctx' rnd pid pt ct k. enc_Encrypt enc ctx rnd pid pt = Inr (ct, k) \<longrightarrow> enc_Decrypt enc ctx' pid ct k = Inr pt)"

definition adapters_ok :: "('m \<Rightarrow> bool) \<Rightarrow> 'm AnyCodec \<Rightarrow> EventAdapter list \<Rightarrow> bool" where
  "adapters_ok Ev cod ads \<longleftrightarrow>
     (\<forall>ad \<in> set ads. \<forall>e n. Ev e \<longrightarrow> ad (any_New cod e) n = Inr (any_New cod e))"

definition app_ok :: "'m runtime \<Rightarrow> ('m \<Rightarrow> bool) \<Rightarrow> ('m \<Rightarrow> bool) \<Rightarrow> ('m, 's, 't) Actor \<Rightarrow> bool" where
  "app_ok rt Ev St a \<longleftrightarrow>
     (\<exists>bh. ea_behavior a = Some bh \<and> behavior_ok Ev St bh \<and> codec_ok Ev St (bh_InitialState bh) (rt_any rt))
     \<and> (\<forall>enc. ea_encryptor a = Some enc \<longrightarrow> encryptor_ok enc)
     \<and> adapters_ok Ev (rt_any rt) (ea_eventAdapters a)
     \<and> (ea_tenantAware a \<longrightarrow> wf_TenantContext (ea_actorTenant a) \<and> tc_scope (ea_actorTenant a) = ScopeTenant)"

lemma app_okE:
  assumes "app_ok rt Ev St a"
  obtains bh where "ea_behavior a = Some bh" "behavior_ok Ev St bh" "codec_ok Ev St (bh_InitialState bh) (rt_any rt)"
    "\<And>enc. ea_encryptor a = Some enc \<Longrightarrow> encryptor_ok enc"
    "adapters_ok Ev (rt_any rt) (ea_eventAdapters a)"
    "ea_tenantAware a \<Longrightarrow> wf_TenantContext (ea_actorTenant a)"
  using assms by (auto simp: app_ok_def)

lemma codec_ok_event: "codec_ok Ev St i cod \<Longrightarrow> Ev e \<Longrightarrow> any_UnmarshalNew cod (any_New cod e) = Inr e"
  by (auto simp: codec_ok_def)

lemma codec_ok_state: "codec_ok Ev St i cod \<Longrightarrow> St st \<Longrightarrow> any_UnmarshalTo cod (any_New cod st) i = Inr st \<and> any_New cod st \<noteq> None"
  by (auto simp: codec_ok_def)

text \<open>The two actors read persisted payloads in the same way.\<close>

definition reads_alike :: "('m, 's, 't) Actor \<Rightarrow> ('m, 's, 't) Actor \<Rightarrow> bool" where
  "reads_alike a b \<longleftrightarrow>
     ea_behavior a = ea_behavior b \<and> ea_encryptor a = ea_encryptor b
     \<and> ea_eventAdapters a = ea_eventAdapters b \<and> ea_persistenceID a = ea_persistenceID b
     \<and> ea_tenantAware a = ea_tenantAware b \<and> ea_actorTenant a = ea_actorTenant b"

lemma reads_alike_refl [simp]: "reads_alike a a"
  by (simp add: reads_alike_def)

lemma reads_alike_sym: "reads_alike a b \<Longrightarrow> reads_alike b a"
  by (simp add: reads_alike_def)

lemma reads_alike_trans: "reads_alike a b \<Longrightarrow> reads_alike b c \<Longrightarrow> reads_alike a c"
  by (simp add: reads_alike_def)

lemma app_ok_alike: "reads_alike a b \<Longrightarrow> app_ok rt Ev St a = app_ok rt Ev St b"
  by (simp add: reads_alike_def app_ok_def)

lemma decryptPayload_alike: "reads_alike a b \<Longrightarrow> decryptPayload rt ctx p e k a = decryptPayload rt ctx p e k b"
  by (simp add: reads_alike_def decryptPayload_def split: option.split)

lemma applyPersistedEvent_alike:
  assumes "reads_alike a b"
  shows "applyPersistedEvent rt ctx e st a = applyPersistedEvent rt ctx e st b"
  using assms unfolding applyPersistedEvent_def verify_event_tenant_def decryptPayload_alike [OF assms]
  by (simp only: reads_alike_def)

lemma apply_events_alike: "reads_alike a b \<Longrightarrow> apply_events rt ctx a evs st = apply_events rt ctx b evs st"
proof (induction evs arbitrary: st)
  case (Cons e evs)
  have "apply_events rt ctx a evs = apply_events rt ctx b evs" using Cons by blast
  with applyPersistedEvent_alike [OF Cons.prems] show ?case by simp
qed simp

lemma apply_events_append:
  "apply_events rt ctx a (xs @ ys) st = sum_bind (apply_events rt ctx a xs st) (apply_events rt ctx a ys)"
proof (induction xs arbitrary: st)
  case (Cons x xs)
  then have "apply_events rt ctx a (xs @ ys) = (\<lambda>st. sum_bind (apply_events rt ctx a xs st) (apply_events rt ctx a ys))"
    by blast
  then show ?case by (simp add: sum_bind_assoc)
qed simp

section \<open>An event survives being persisted\<close>

lemma decrypt_sealed:
  assumes "app_ok rt Ev St a" and "Ev e" and "seal_event rt ctx rnd e a = Inr (payload, k, encrypted)"
  shows "decryptPayload rt ctx' payload encrypted k a = Inr (any_New (rt_any rt) e)"
proof (cases "ea_encryptor a")
  case None
  with assms(3) show ?thesis by (simp add: seal_event_def decryptPayload_def)
next
  case (Some enc)
  obtain i where cod: "codec_ok Ev St i (rt_any rt)" and enc: "encryptor_ok enc"
    using assms(1) Some unfolding app_ok_def by blast
  from cod assms(2) obtain x where x: "any_New (rt_any rt) e = Some x" by (auto simp: codec_ok_def)
  from assms(3) Some x obtain b ct where b: "any_Marshal (rt_any rt) (Some x) = Inr b"
    and ct: "enc_Encrypt enc ctx rnd (ea_persistenceID a) b = Inr (ct, k)"
    and p: "payload = Some \<lparr>any_type_url = any_type_url x, any_value = ct\<rparr>" and t: "encrypted"
    by (auto simp: seal_event_def Let_def split: sum.splits)
  from enc ct have "enc_Decrypt enc ctx' (ea_persistenceID a) ct k = Inr b" by (auto simp: encryptor_ok_def)
  moreover from cod b have "any_Unmarshal (rt_any rt) b = Inr x" by (auto simp: codec_ok_def)
  ultimately show ?thesis by (simp add: decryptPayload_def Some p t x)
qed

lemma apply_marshaled:
  assumes app: "app_ok rt Ev St a" and ev: "Ev e" and tc: "ea_tenantAware a \<Longrightarrow> tc = ea_actorTenant a"
    and m: "marshalEvent rt ctx rnd e tc n ts sh a = Inr env"
    and h: "bh_HandleEvent (the (ea_behavior a)) ctx e st = Inr st'"
  shows "applyPersistedEvent rt ctx' env st a = Inr st'"
proof -
  from app obtain bh where bh: "ea_behavior a = Some bh" "behavior_ok Ev St bh"
    "codec_ok Ev St (bh_InitialState bh) (rt_any rt)" "adapters_ok Ev (rt_any rt) (ea_eventAdapters a)"
    "ea_tenantAware a \<Longrightarrow> wf_TenantContext (ea_actorTenant a)"
    by (rule app_okE) blast
  from m obtain payload k encrypted where s: "seal_event rt ctx rnd e a = Inr (payload, k, encrypted)"
    and env: "ev_event env = payload" "ev_is_encrypted env = encrypted" "ev_encryption_key_id env = k"
      "ev_tenant_metadata env = (if ea_tenantAware a then tenancy_MarshalMetadata tc else Map.empty)"
    by (auto simp: marshalEvent_def return_iffs)
  have "verify_event_tenant env a = None"
    using tc bh(5) by (simp add: verify_event_tenant_def env Unmarshal_Marshal)
  moreover have "adapter_Chain (ea_eventAdapters a) (any_New (rt_any rt) e) (ev_sequence_number env) =
      Inr (any_New (rt_any rt) e)"
    using bh(4) ev by (intro adapter_Chain_unchanged) (auto simp: adapters_ok_def)
  moreover from h bh(1,2) have "bh_HandleEvent bh ctx' e st = Inr st'"
    unfolding behavior_ok_def by (metis option.sel)
  ultimately show ?thesis
    using decrypt_sealed [OF app ev s] codec_ok_event [OF bh(3) ev]
    by (simp add: applyPersistedEvent_def Let_def env bh(1))
qed

text \<open>The envelopes of a command, appended to a history: numbered on from it, and replayed to the pending state.\<close>

definition envelope_of :: "('m, 's, 't) Actor \<Rightarrow> TenantContext \<Rightarrow> Event \<Rightarrow> bool" where
  "envelope_of a tc env \<longleftrightarrow>
     ev_persistence_id env = ea_persistenceID a \<and> \<not> ev_is_deleted env
     \<and> ev_tenant_metadata env = (if ea_tenantAware a then tenancy_MarshalMetadata tc else Map.empty)"

lemma marshalEvent_envelope:
  "marshalEvent rt ctx rnd e tc n ts sh a = Inr env \<Longrightarrow>
     ev_sequence_number env = n \<and> ev_timestamp env = time_UnixNano ts \<and> ev_shard env = sh \<and> envelope_of a tc env"
  by (auto simp: marshalEvent_def return_iffs envelope_of_def)

lemma build_loop_numbers:
  "build_loop rt tn tc a i events st n = Inr (envs, st', n') \<Longrightarrow>
     length envs = length events \<and> n' = n + of_nat (length events)
     \<and> (\<forall>j < length envs. ev_sequence_number (envs ! j) = n + of_nat (Suc j) \<and> envelope_of a tc (envs ! j))"
proof (induction events arbitrary: i st n envs)
  case (Cons e events)
  from Cons.prems obtain st1 env envs1 where
    m: "marshalEvent rt (tn_ctx tn) (tn_random tn i) e tc (n + 1) (tn_build tn) (ea_shardNumber a) a = Inr env"
    and l: "build_loop rt tn tc a (Suc i) events st1 (n + 1) = Inr (envs1, st', n')" and envs: "envs = env # envs1"
    by (auto simp: return_iffs)
  from Cons.IH [OF l] marshalEvent_envelope [OF m] show ?case
    by (auto simp: envs nth_Cons add.assoc split: nat.split)
qed simp

lemma build_loop_replays:
  assumes app: "app_ok rt Ev St a" and tc: "ea_tenantAware a \<Longrightarrow> tc = ea_actorTenant a"
  shows "build_loop rt tn tc a i events st n = Inr (envs, st', n') \<Longrightarrow> list_all Ev events \<Longrightarrow> St st \<Longrightarrow>
     apply_events rt ctx a envs st = Inr st' \<and> St st'"
proof (induction events arbitrary: i st n envs)
  case (Cons e events)
  from Cons.prems obtain st1 env envs1 where
    h: "bh_HandleEvent (the (ea_behavior a)) (tn_ctx tn) e st = Inr st1"
    and m: "marshalEvent rt (tn_ctx tn) (tn_random tn i) e tc (n + 1) (tn_build tn) (ea_shardNumber a) a = Inr env"
    and l: "build_loop rt tn tc a (Suc i) events st1 (n + 1) = Inr (envs1, st', n')" and envs: "envs = env # envs1"
    by (auto simp: return_iffs)
  from Cons.prems(2) have ev: "Ev e" "list_all Ev events" by simp_all
  from app Cons.prems(3) h have "St st1" by (auto simp: app_ok_def behavior_ok_def)
  from Cons.IH [OF l ev(2) this] apply_marshaled [OF app ev(1) tc m h, of ctx] show ?case by (simp add: envs)
qed simp

text \<open>Every envelope of a command can be stored and read back.\<close>

lemma marshalEvent_plain:
  assumes app: "app_ok rt Ev St a" and tc: "ea_tenantAware a \<Longrightarrow> tc = ea_actorTenant a" and "Ev e"
    and m: "marshalEvent rt ctx rnd e tc n ts sh a = Inr env"
  shows "plain_event env"
proof -
  from app \<open>Ev e\<close> obtain x where "any_New (rt_any rt) e = Some x" by (auto simp: app_ok_def codec_ok_def)
  with m have "ev_event env \<noteq> None"
    by (auto simp: marshalEvent_def seal_event_def return_iffs Let_def split: option.splits sum.splits)
  moreover have "text_metadata (ev_tenant_metadata env)"
    using marshalEvent_envelope [OF m] tc app by (auto simp: envelope_of_def app_ok_def intro: tenant_metadata_text)
  ultimately show ?thesis by (simp add: plain_event_def)
qed

lemma build_loop_plain:
  assumes app: "app_ok rt Ev St a" and tc: "ea_tenantAware a \<Longrightarrow> tc = ea_actorTenant a"
  shows "build_loop rt tn tc a i events st n = Inr (envs, st', n') \<Longrightarrow> list_all Ev events \<Longrightarrow> list_all plain_event envs"
proof (induction events arbitrary: i st n envs)
  case (Cons e events)
  then obtain st1 env envs1 where
    m: "marshalEvent rt (tn_ctx tn) (tn_random tn i) e tc (n + 1) (tn_build tn) (ea_shardNumber a) a = Inr env"
    and l: "build_loop rt tn tc a (Suc i) events st1 (n + 1) = Inr (envs1, st', n')" and envs: "envs = env # envs1"
    by (auto simp: return_iffs)
  with Cons.IH [OF l] Cons.prems(2) marshalEvent_plain [OF app tc _ m] show ?case by simp
qed simp

lemmas buildEnvelopes_plain = build_loop_plain [where i = 0, folded buildEnvelopes_def]
lemmas buildEnvelopes_numbers = build_loop_numbers [where i = 0, folded buildEnvelopes_def]
lemmas buildEnvelopes_replays = build_loop_replays [where i = 0, folded buildEnvelopes_def]

lemma buildEnvelopes_nonempty:
  "buildEnvelopes rt tn events tc st n a = Inr (envs, st', n') \<Longrightarrow> events \<noteq> [] \<Longrightarrow> envs \<noteq> []"
  using build_loop_numbers [of rt tn tc a 0 events st n envs st' n'] by (auto simp: buildEnvelopes_def)

lemma dispatch_events:
  "app_ok rt Ev St a \<Longrightarrow> dispatchToBehavior rt tn cmd st a = Inr events \<Longrightarrow> list_all Ev events"
  by (auto simp: app_ok_def behavior_ok_def dispatchToBehavior_def Let_def NewEnvelope_def split: option.splits)

section \<open>Recovery rebuilds the state of the whole history\<close>

definition initial_state :: "('m, 's, 't) Actor \<Rightarrow> 'm" where
  "initial_state a = bh_InitialState (the (ea_behavior a))"

text \<open>A snapshot whose payload reads back as the state after the events up to its sequence number.\<close>

definition snapshot_of :: "'m runtime \<Rightarrow> ('m, 's, 't) Actor \<Rightarrow> Event list \<Rightarrow> Snapshot \<Rightarrow> bool" where
  "snapshot_of rt a hist sn \<longleftrightarrow>
     unat (sn_sequence_number sn) \<le> length hist \<and> sn_state sn \<noteq> None
     \<and> (\<exists>st. \<forall>ctx. apply_events rt ctx a (take (unat (sn_sequence_number sn)) hist) (initial_state a) = Inr st
          \<and> sum_bind (decryptPayload rt ctx (sn_state sn) (sn_is_encrypted sn) (sn_encryption_key_id sn) a)
              (\<lambda>p. any_UnmarshalTo (rt_any rt) p (initial_state a)) = Inr st)
     \<and> (ea_tenantAware a \<longrightarrow> sn_tenant_metadata sn = tenancy_MarshalMetadata (ea_actorTenant a))"

text \<open>
  The stores hold a history: the journal all of it but the first \<open>d\<close> events, which a snapshot
  covers, and \<open>st\<close> is the state the whole history gives.
\<close>

definition holds_history ::
    "'m runtime \<Rightarrow> ('m, 's, 't) Actor \<Rightarrow> (u64 \<rightharpoonup> Event) \<Rightarrow> (u64 \<rightharpoonup> Snapshot) \<Rightarrow> Event list \<Rightarrow> nat \<Rightarrow> 'm \<Rightarrow> bool" where
  "holds_history rt a j sns hist d st \<longleftrightarrow>
     history_ok (ea_persistenceID a) hist \<and> d \<le> length hist \<and> j = journal_of hist d
     \<and> (\<forall>k sn. sns k = Some sn \<longrightarrow> sn_sequence_number sn = k \<and> snapshot_of rt a hist sn)
     \<and> (d = 0 \<or> ea_snapshotStore a \<noteq> None \<and> (\<exists>k \<in> dom sns. d \<le> unat k))
     \<and> (\<forall>ctx. apply_events rt ctx a hist (initial_state a) = Inr st)
     \<and> (ea_tenantAware a \<longrightarrow>
          wf_TenantContext (ea_actorTenant a)
          \<and> (\<forall>e \<in> set hist. ev_tenant_metadata e = tenancy_MarshalMetadata (ea_actorTenant a)))"

lemma seed_same:
  "(ea_tenantAware a \<Longrightarrow> wf_TenantContext (ea_actorTenant a) \<and> md = tenancy_MarshalMetadata (ea_actorTenant a)) \<Longrightarrow>
     seed_from_metadata what md a = Inr a"
  by (auto simp: seed_from_metadata_def seedActorTenant_def Unmarshal_Marshal)

text \<open>Where replay starts: at the latest snapshot that is held, or at the beginning.\<close>

lemma recoverFromSnapshot_exact:
  assumes sn: "snapshot_store ss sinv snaps" and inv: "sinv sdb" and sc: "wf_scope (ea_scope a)"
    and ss: "ea_snapshotStore a = Some ss"
    and hold: "holds_history rt a j (snaps sdb (ea_scope a) (ea_persistenceID a)) hist d st"
    and read: "GetLatestSnapshot ss (ea_scope a) (ea_persistenceID a) sdb = Inr found"
    and zero: "ea_eventsCounter a = 0"
  shows "\<exists>p st'. d \<le> p \<and> p \<le> length hist
     \<and> (\<forall>ctx. apply_events rt ctx a (take p hist) (initial_state a) = Inr st')
     \<and> recoverFromSnapshot rt ctx sdb (initial_state a) a =
         Inr (st', of_nat (Suc p), a\<lparr>ea_eventsCounter := of_nat p\<rparr>)"
proof -
  let ?m = "snaps sdb (ea_scope a) (ea_persistenceID a)"
  have found: "found = snapshots_latest ?m" by (rule snapshot_store.latest_ok [OF sn inv sc read])
  show ?thesis
  proof (cases "?m = Map.empty")
    case True
    then have "d = 0" using hold by (auto simp: holds_history_def)
    moreover from True found have "found = None" by (simp add: snapshots_latest_def)
    ultimately show ?thesis using zero
      by (intro exI [of _ 0]) (auto simp: recoverFromSnapshot_def ss read)
  next
    case False
    then have "dom ?m \<noteq> {}" by auto
    then have "Max (dom ?m) \<in> dom ?m" by (intro Max_in) simp_all
    then obtain s where s2: "?m (Max (dom ?m)) = Some s" by (blast dest: domD)
    with False found have s: "found = Some s" "?m (Max (dom ?m)) = Some s" by (simp_all add: snapshots_latest_def)
    with hold have seq: "sn_sequence_number s = Max (dom ?m)" and of: "snapshot_of rt a hist s"
      by (auto simp: holds_history_def)
    let ?p = "unat (sn_sequence_number s)"
    have "d \<le> ?p"
    proof (cases "d = 0")
      case False
      with hold obtain k where k: "k \<in> dom ?m" "d \<le> unat k" by (auto simp: holds_history_def)
      then have "k \<le> Max (dom ?m)" by simp
      with k(2) seq show ?thesis by (simp add: word_le_nat_alt)
    qed simp
    moreover from of obtain st' where st': "\<And>ctx. apply_events rt ctx a (take ?p hist) (initial_state a) = Inr st'"
      "\<And>ctx. sum_bind (decryptPayload rt ctx (sn_state s) (sn_is_encrypted s) (sn_encryption_key_id s) a)
              (\<lambda>p. any_UnmarshalTo (rt_any rt) p (initial_state a)) = Inr st'"
      unfolding snapshot_of_def by blast
    moreover have "recoverFromSnapshot rt ctx sdb (initial_state a) a = Inr (st', of_nat (Suc ?p), a\<lparr>ea_eventsCounter := of_nat ?p\<rparr>)"
    proof -
      have ne: "sn_state s \<noteq> None" using of by (simp add: snapshot_of_def)
      have "seed_from_metadata what (sn_tenant_metadata s) a = Inr a" for what
        using of hold by (intro seed_same) (simp add: snapshot_of_def holds_history_def)
      moreover from st'(2) [of ctx] obtain q where
        "decryptPayload rt ctx (sn_state s) (sn_is_encrypted s) (sn_encryption_key_id s) a = Inr q"
        "any_UnmarshalTo (rt_any rt) q (initial_state a) = Inr st'" by (auto simp: return_iffs)
      ultimately show ?thesis
        using ne by (auto simp: recoverFromSnapshot_def ss read s Let_def add.commute)
    qed
    ultimately show ?thesis using of by (intro exI [of _ ?p] exI [of _ st']) (simp add: snapshot_of_def)
  qed
qed

lemma replay_limit:
  assumes "history_ok pid hist" and "p < length hist"
  shows "unat (of_nat (length hist) - of_nat (Suc p) + 1 :: u64) = length hist - p"
    and "unat (of_nat (length hist) - of_nat (Suc p) + 1 :: u64) < 2 ^ 63"
proof -
  have "of_nat (length hist) - of_nat (Suc p) + 1 = (of_nat (length hist - p) :: u64)" using assms(2) by (simp add: of_nat_diff)
  then show "unat (of_nat (length hist) - of_nat (Suc p) + 1 :: u64) = length hist - p"
    using history_okD(2) [OF assms(1)] by (simp add: unat_of_nat_u64)
  with history_okD(1) [OF assms(1)] show "unat (of_nat (length hist) - of_nat (Suc p) + 1 :: u64) < 2 ^ 63" by simp
qed

lemma replayEvents_exact:
  assumes ev: "events_store es einv journal revision" and inv: "einv db" and sc: "wf_scope (ea_scope a)"
    and es: "ea_eventsStore a = Some es" and h: "history_ok (ea_persistenceID a) hist"
    and j: "journal db (ea_scope a) (ea_persistenceID a) = journal_of hist d"
    and p: "d \<le> p" "p < length hist"
    and read: "ReplayEvents es (ea_scope a) (ea_persistenceID a) (of_nat (Suc p)) (of_nat (length hist))
        (of_nat (length hist) - of_nat (Suc p) + 1) db = Inr evs"
  shows "replayEvents rt ctx db st (of_nat (Suc p)) (of_nat (length hist)) a = apply_events rt ctx a (drop p hist) st"
proof -
  have "evs = drop p hist"
    using events_store.replay_ok [OF ev inv sc replay_limit(2) [OF h p(2)] read] replay_limit(1) [OF h p(2)]
      journal_range_of [OF h p(1)] p by (simp add: j)
  with read show ?thesis by (simp add: replayEvents_def es del: of_nat_Suc)
qed

text \<open>The snapshot phase: the state after some prefix of the history that the journal continues.\<close>

lemma recover_start:
  assumes sn: "snapshot_store ss sinv snaps" and inv: "sinv sdb" and sc: "wf_scope (ea_scope a)"
    and a: "ea_snapshotStore a = None \<or> ea_snapshotStore a = Some ss" "ea_eventsCounter a = 0"
    and hold: "holds_history rt a j (snaps sdb (ea_scope a) (ea_persistenceID a)) hist d st"
    and read: "ea_snapshotStore a \<noteq> None \<Longrightarrow> \<exists>x. GetLatestSnapshot ss (ea_scope a) (ea_persistenceID a) sdb = Inr x"
  shows "\<exists>p st1. d \<le> p \<and> p \<le> length hist
    \<and> (\<forall>ctx. apply_events rt ctx a (take p hist) (initial_state a) = Inr st1)
    \<and> (if ea_snapshotStore a \<noteq> None then recoverFromSnapshot rt ctx sdb (initial_state a) a
       else Inr (initial_state a, 1, a)) = Inr (st1, of_nat (Suc p), a\<lparr>ea_eventsCounter := of_nat p\<rparr>)"
proof (cases "ea_snapshotStore a")
  case None
  with hold have "d = 0" by (simp add: holds_history_def)
  with None a(2) show ?thesis by (intro exI [of _ 0] exI [of _ "initial_state a"]) simp
next
  case (Some x)
  with a(1) have ss: "ea_snapshotStore a = Some ss" by simp
  with read obtain found where found: "GetLatestSnapshot ss (ea_scope a) (ea_persistenceID a) sdb = Inr found" by auto
  from recoverFromSnapshot_exact [OF sn inv sc ss hold found a(2), of ctx] ss show ?thesis by simp
qed

lemma recover_exact:
  assumes ev: "events_store es einv journal revision" and sn: "snapshot_store ss sinv snaps"
    and inv: "einv db" "sinv sdb" and sc: "wf_scope (ea_scope a)"
    and a: "ea_eventsStore a = Some es" "ea_snapshotStore a = None \<or> ea_snapshotStore a = Some ss" "ea_eventsCounter a = 0"
    and hold: "holds_history rt a (journal db (ea_scope a) (ea_persistenceID a))
        (snaps sdb (ea_scope a) (ea_persistenceID a)) hist d st"
    and read: "ea_snapshotStore a \<noteq> None \<Longrightarrow> \<exists>x. GetLatestSnapshot ss (ea_scope a) (ea_persistenceID a) sdb = Inr x"
      "\<exists>x. GetLatestEvent es (ea_scope a) (ea_persistenceID a) db = Inr x"
      "(\<exists>a'. recover rt ctx db sdb a = Inr a')
         \<or> (\<forall>from to n. unat n < 2 ^ 63 \<longrightarrow> (\<exists>x. ReplayEvents es (ea_scope a) (ea_persistenceID a) from to n db = Inr x))"
  shows "recover rt ctx db sdb a = Inr (a\<lparr>ea_currentState := st, ea_eventsCounter := of_nat (length hist)\<rparr>)"
proof -
  let ?n = "length hist"
  from hold have h: "history_ok (ea_persistenceID a) hist" and d: "d \<le> ?n"
    and j: "journal db (ea_scope a) (ea_persistenceID a) = journal_of hist d"
    and st: "\<And>ctx. apply_events rt ctx a hist (initial_state a) = Inr st"
    by (simp_all add: holds_history_def)
  from recover_start [OF sn inv(2) sc a(2,3) hold read(1)] obtain p st1 where p: "d \<le> p" "p \<le> ?n"
    and st1: "\<And>ctx. apply_events rt ctx a (take p hist) (initial_state a) = Inr st1"
    and start: "(if ea_snapshotStore a \<noteq> None then recoverFromSnapshot rt ctx sdb (initial_state a) a
        else Inr (initial_state a, 1, a)) = Inr (st1, of_nat (Suc p), a\<lparr>ea_eventsCounter := of_nat p\<rparr>)"
    by blast
  let ?a1 = "a\<lparr>ea_eventsCounter := of_nat p\<rparr>"
  have rest: "apply_events rt ctx a (drop p hist) st1 = Inr st" for ctx
    using st [of ctx] st1 [of ctx] apply_events_append [of rt ctx a "take p hist" "drop p hist" "initial_state a"] by simp
  from read(2) obtain latest where latest: "GetLatestEvent es (ea_scope a) (ea_persistenceID a) db = Inr latest" ..
  have l: "latest = (if d < ?n then Some (last hist) else None)"
    using events_store.latest_ok [OF ev inv(1) sc latest] by (simp add: j journal_latest_of [OF h])
  show ?thesis
  proof (cases "d < ?n")
    case False
    with d p have "p = ?n" by simp
    with rest False l show ?thesis unfolding recover_def Let_def initial_state_def [symmetric] start by (simp add: a(1) latest)
  next
    case True
    then have ne: "hist \<noteq> []" by auto
    then have seq: "ev_sequence_number (last hist) = of_nat ?n"
      using h by (simp add: history_ok_def last_conv_nth del: of_nat_Suc)
    have tenant: "seed_from_metadata what (ev_tenant_metadata (last hist)) ?a1 = Inr ?a1" for what
      using hold ne by (intro seed_same) (simp add: holds_history_def)
    have cmp: "of_nat (Suc p) \<le> (of_nat ?n :: u64) \<longleftrightarrow> p < ?n"
      using p history_okD [OF h] by (simp add: word_le_nat_alt unat_of_nat_u64 Suc_le_eq del: of_nat_Suc)
    show ?thesis
    proof (cases "p < ?n")
      case True
      have rec: "recover rt ctx db sdb a =
          sum_bind (replayEvents rt ctx db st1 (of_nat (Suc p)) (of_nat ?n) ?a1)
            (\<lambda>st. Inr (a\<lparr>ea_eventsCounter := of_nat ?n, ea_currentState := st\<rparr>))"
        using cmp True unfolding recover_def Let_def initial_state_def [symmetric] start
        by (simp add: a(1) latest l \<open>d < ?n\<close> seq tenant del: of_nat_Suc)
      from read(3) obtain evs where "ReplayEvents es (ea_scope a) (ea_persistenceID a) (of_nat (Suc p)) (of_nat ?n)
          (of_nat ?n - of_nat (Suc p) + 1) db = Inr evs"
        using replay_limit(2) [OF h True] unfolding rec
        by (auto simp: return_iffs replayEvents_def wrap_err_Inr_iff a(1) simp del: of_nat_Suc) metis
      then have "replayEvents rt ctx db st1 (of_nat (Suc p)) (of_nat ?n) ?a1 = apply_events rt ctx ?a1 (drop p hist) st1"
        by (intro replayEvents_exact [OF ev inv(1)]) (use a sc h j p True in simp_all)
      also have "\<dots> = Inr st" using rest apply_events_alike [of ?a1 a] by (simp add: reads_alike_def)
      finally show ?thesis by (simp add: rec)
    next
      case False
      with p have pn: "p = ?n" by simp
      with rest [of ctx] cmp False tenant show ?thesis
        unfolding recover_def Let_def initial_state_def [symmetric] start
        by (simp add: a(1) latest l \<open>d < ?n\<close> seq pn del: of_nat_Suc)
    qed
  qed
qed

lemma recover_reads:
  assumes "recover rt ctx db sdb a = Inr a'"
  shows "(\<forall>ss. ea_snapshotStore a = Some ss \<longrightarrow> (\<exists>x. GetLatestSnapshot ss (ea_scope a) (ea_persistenceID a) sdb = Inr x))
    \<and> (\<exists>x. GetLatestEvent (the (ea_eventsStore a)) (ea_scope a) (ea_persistenceID a) db = Inr x)"
  using assms by (auto simp: recover_def recoverFromSnapshot_def Let_def return_iffs wrap_err_Inr_iff split: if_splits)

text \<open>A recovery that succeeds has rebuilt the state of the history.\<close>

lemma recover_sound:
  assumes "events_store es einv journal revision" and "snapshot_store ss sinv snaps"
    and "einv db" "sinv sdb" and "wf_scope (ea_scope a)"
    and a: "ea_eventsStore a = Some es" "ea_snapshotStore a = None \<or> ea_snapshotStore a = Some ss" "ea_eventsCounter a = 0"
    and "holds_history rt a (journal db (ea_scope a) (ea_persistenceID a))
        (snaps sdb (ea_scope a) (ea_persistenceID a)) hist d st"
    and r: "recover rt ctx db sdb a = Inr a'"
  shows "a' = a\<lparr>ea_currentState := st, ea_eventsCounter := of_nat (length hist)\<rparr>"
proof -
  have "recover rt ctx db sdb a = Inr (a\<lparr>ea_currentState := st, ea_eventsCounter := of_nat (length hist)\<rparr>)"
    using recover_reads [OF r] a r by (intro recover_exact [OF assms(1-9)]) auto
  with r show ?thesis by simp
qed

end
