(* ===== verification/ES_Children.thy ===== *)
theory ES_Children
  imports ES_Replay
begin

text \<open>
  The children of the event-sourced actor: the events writer (\<open>events_writer_actor.go\<close>), the
  snapshots writer (\<open>snapshots_writer_actor.go\<close>) and the events janitor
  (\<open>events_janitor_actor.go\<close>), with the retry loop of \<open>retry.go\<close>.  Each keeps what recovery
  relies on: the stores hold the history.
\<close>

section \<open>Retries\<close>

definition defaultMaxRetries :: nat where
  "defaultMaxRetries = 3"

definition retryBaseDelay :: int where
  "retryBaseDelay = 100 * 10 ^ 6"

definition retryMaxDelay :: int where
  "retryMaxDelay = 2 * 10 ^ 9"

definition retry_delay :: "nat \<Rightarrow> int" where
  "retry_delay attempt = min (retryBaseDelay * 2 ^ attempt) retryMaxDelay"

text \<open>
  \<open>wait attempt delay\<close> is what the \<open>select\<close> after a failed attempt ends with, for the delay before
  jitter: nothing when the timer fires, the context's error when the context is done first.
\<close>

function retry_from ::
    "(nat \<Rightarrow> int \<Rightarrow> goerr option) \<Rightarrow> nat \<Rightarrow> ('s \<Rightarrow> goerr option \<times> 's) \<Rightarrow> nat \<Rightarrow> 's \<Rightarrow> goerr option \<times> 's" where
  "retry_from wait maxRetries op attempt s =
     (case op s of
        (None, s') \<Rightarrow> (None, s')
      | (Some err, s') \<Rightarrow>
          if attempt < maxRetries then
            (case wait attempt (retry_delay attempt) of
               Some ctxErr \<Rightarrow> (Some ctxErr, s')
             | None \<Rightarrow> retry_from wait maxRetries op (Suc attempt) s')
          else (Some err, s'))"
  by pat_completeness auto
termination
  by (relation "measure (\<lambda>(wait, maxRetries, op, attempt, s). maxRetries - attempt)") auto

declare retry_from.simps [simp del]

definition retryWithBackoff ::
    "(nat \<Rightarrow> int \<Rightarrow> goerr option) \<Rightarrow> nat \<Rightarrow> ('s \<Rightarrow> goerr option \<times> 's) \<Rightarrow> 's \<Rightarrow> goerr option \<times> 's" where
  "retryWithBackoff wait maxRetries op s = retry_from wait maxRetries op 0 s"

text \<open>
  What a failing attempt leaves unchanged, the loop leaves unchanged until its one successful
  attempt: the result is that of a single attempt on an equivalent state.
\<close>

lemma retry_from_result:
  assumes fail: "\<And>s e s'. P s \<Longrightarrow> op s = (Some e, s') \<Longrightarrow> P s' \<and> R s s'"
    and refl: "\<And>s. P s \<Longrightarrow> R s s" and trans: "\<And>s t u. R s t \<Longrightarrow> R t u \<Longrightarrow> R s u"
  shows "P s \<Longrightarrow> retry_from wait maxRetries op attempt s = (r, s') \<Longrightarrow>
     (case r of
        None \<Rightarrow> \<exists>t. P t \<and> R s t \<and> op t = (None, s')
      | Some e \<Rightarrow> P s' \<and> R s s')"
proof (induction "maxRetries - attempt" arbitrary: attempt s)
  case 0
  then show ?case using fail [OF 0(2)] refl [OF 0(2)] by (auto simp: retry_from.simps split: prod.splits option.splits)
next
  case (Suc k)
  obtain r1 s1 where op: "op s = (r1, s1)" by fastforce
  show ?case
  proof (cases r1)
    case None
    with Suc.prems op refl [OF Suc.prems(1)] show ?thesis by (auto simp: retry_from.simps [of _ _ _ _ s])
  next
    case (Some e)
    with op have s1: "P s1" "R s s1" using fail [OF Suc.prems(1)] by auto
    have lt: "attempt < maxRetries" using Suc.hyps(2) by simp
    show ?thesis
    proof (cases "wait attempt (retry_delay attempt)")
      case None
      then have rec: "retry_from wait maxRetries op (Suc attempt) s1 = (r, s')"
        using Suc.prems(2) op Some lt by (simp add: retry_from.simps [of _ _ _ _ s])
      have "k = maxRetries - Suc attempt" using Suc.hyps(2) by simp
      from Suc.hyps(1) [OF this s1(1) rec] s1(2) trans show ?thesis by (fastforce split: option.splits)
    next
      case (Some c)
      with Suc.prems(2) op \<open>r1 = Some e\<close> lt have "r = Some c" "s' = s1"
        by (simp_all add: retry_from.simps [of _ _ _ _ s])
      with s1 show ?thesis by simp
    qed
  qed
qed

lemmas retryWithBackoff_result = retry_from_result [where attempt = 0, folded retryWithBackoff_def]

text \<open>The loop gives up only on a done context or after the last of \<open>maxRetries + 1\<close> attempts.\<close>

fun attempts_from ::
    "(nat \<Rightarrow> int \<Rightarrow> goerr option) \<Rightarrow> ('s \<Rightarrow> goerr option \<times> 's) \<Rightarrow> nat \<Rightarrow> nat \<Rightarrow> 's \<Rightarrow> goerr option list" where
  "attempts_from wait op attempt 0 s = [fst (op s)]"
| "attempts_from wait op attempt (Suc left) s =
     fst (op s) #
       (if fst (op s) = None \<or> wait attempt (retry_delay attempt) \<noteq> None then []
        else attempts_from wait op (Suc attempt) left (snd (op s)))"

lemma retry_from_attempts:
  "attempt \<le> n \<Longrightarrow>
   (let as = attempts_from wait op attempt (n - attempt) s; r = fst (retry_from wait n op attempt s) in
      as \<noteq> [] \<and> length as \<le> Suc (n - attempt) \<and> (r = None \<longleftrightarrow> last as = None) \<and> None \<notin> set (butlast as)
      \<and> (r \<noteq> None \<longrightarrow> length as = Suc (n - attempt)
           \<or> wait (attempt + length as - 1) (retry_delay (attempt + length as - 1)) = r))"
proof (induction "n - attempt" arbitrary: attempt s)
  case 0
  then show ?case by (auto simp: retry_from.simps split: prod.splits option.splits)
next
  case (Suc k)
  then have lt: "attempt < n" and k: "n - attempt = Suc k" "k = n - Suc attempt" by simp_all
  obtain r1 s1 where op: "op s = (r1, s1)" by fastforce
  show ?case
  proof (cases "r1 = None \<or> wait attempt (retry_delay attempt) \<noteq> None")
    case True
    with lt op show ?thesis by (auto simp: k(1) retry_from.simps [of _ _ _ _ s] split: option.splits)
  next
    case False
    then have rec: "retry_from wait n op attempt s = retry_from wait n op (Suc attempt) s1"
      using lt op by (auto simp: retry_from.simps [of _ _ _ attempt s])
    define as where "as = attempts_from wait op (Suc attempt) k s1"
    have IH: "as \<noteq> []" "length as \<le> Suc k" "fst (retry_from wait n op (Suc attempt) s1) = None \<longleftrightarrow> last as = None"
      "None \<notin> set (butlast as)"
      "fst (retry_from wait n op (Suc attempt) s1) \<noteq> None \<longrightarrow> length as = Suc k
         \<or> wait (attempt + length as) (retry_delay (attempt + length as)) = fst (retry_from wait n op (Suc attempt) s1)"
      using Suc.hyps(1) [OF k(2), of s1] lt unfolding k(2) [symmetric] as_def [symmetric] Let_def by auto
    have "attempts_from wait op attempt (n - attempt) s = r1 # as" using False op by (auto simp: k(1) as_def)
    with IH False show ?thesis unfolding rec Let_def by (auto simp: k(1))
  qed
qed

text \<open>
  Retries are bounded and honest.  The loop makes at most \<open>maxRetries + 1\<close> attempts, stops at the
  first success and reports success exactly then; otherwise it made all the attempts, or the context
  was done during the wait after the last one made and its error is the result.
\<close>

theorem retry_attempts_bounded:
  "let as = attempts_from wait op 0 n s; r = fst (retryWithBackoff wait n op s) in
     length as \<le> n + 1 \<and> None \<notin> set (butlast as) \<and> (r = None \<longleftrightarrow> last as = None)
     \<and> (r = None \<or> length as = n + 1 \<or> wait (length as - 1) (retry_delay (length as - 1)) = r)"
  using retry_from_attempts [of 0 n wait op s] by (auto simp: retryWithBackoff_def Let_def)
definition flaky_store :: "nat \<Rightarrow> goerr option \<times> nat" where
  "flaky_store n = (case n of 0 \<Rightarrow> (None, 0) | Suc k \<Rightarrow> (Some (ErrNew ''unavailable''), k))"

theorem retry_attempts_bounded_witness:
  "fst (retryWithBackoff (\<lambda>_ _. None) defaultMaxRetries flaky_store 5) \<noteq> None
   \<and> length (attempts_from (\<lambda>_ _. None) flaky_store 0 defaultMaxRetries 5) = 4"
proof -
  have r: "fst (retryWithBackoff (\<lambda>_ _. None) defaultMaxRetries flaky_store 5) \<noteq> None"
    by (simp add: retryWithBackoff_def retry_from.simps flaky_store_def defaultMaxRetries_def numeral_eq_Suc)
  with retry_attempts_bounded [where wait = "\<lambda>_ _. None" and n = defaultMaxRetries and op = flaky_store and s = 5]
  show ?thesis by (auto simp: defaultMaxRetries_def Let_def)
qed

section \<open>The events writer\<close>

text \<open>The response, the store, and what was published to the stream, in order.\<close>

definition handlePersistEvents ::
    "'s EventsStore \<Rightarrow> persistEventsRequest \<Rightarrow> 's \<Rightarrow> goerr option \<times> 's \<times> (string \<times> Event) list" where
  "handlePersistEvents es req db =
     (case WriteEvents es (pq_scope req) (pq_envelopes req) (pq_precondition req) db of
        (Some err, db') \<Rightarrow> (Some err, db', [])
      | (None, db') \<Rightarrow> (None, db', map (Pair (pq_topic req)) (pq_envelopes req)))"

text \<open>
  What asking the writer ends with: a transport failure, no reply, a reply of another type, or the
  writer's response.
\<close>

datatype ask_outcome = AskFailed goerr | AskNoReply | AskMistyped string | AskReplied "goerr option"

definition askEventsWriter :: "ask_outcome \<Rightarrow> goerr option" where
  "askEventsWriter outcome =
     (case outcome of
        AskFailed err \<Rightarrow> Some err
      | AskNoReply \<Rightarrow> Some (ErrNew ''event writer returned no response'')
      | AskMistyped typ \<Rightarrow> Some (ErrNew (''unexpected response type '' @ typ @ '' from event writer''))
      | AskReplied resp \<Rightarrow> resp)"

section \<open>The snapshots writer\<close>

definition encryptSnapshotState ::
    "'m runtime \<Rightarrow> cmdctx \<Rightarrow> bytes \<Rightarrow> Encryptor \<Rightarrow> Snapshot \<Rightarrow> goerr + Snapshot" where
  "encryptSnapshotState rt ctx rnd enc snapshot =
     sum_bind (wrap_err ''failed to marshal state for encryption: '' (any_Marshal (rt_any rt) (sn_state snapshot)))
       (\<lambda>stateBytes.
     sum_bind (wrap_err ''failed to encrypt state: ''
                 (enc_Encrypt enc ctx rnd (sn_persistence_id snapshot) stateBytes)) (\<lambda>(ciphertext, keyID).
     Inr (snapshot\<lparr>
       sn_state := Some \<lparr>any_type_url = (case sn_state snapshot of Some x \<Rightarrow> any_type_url x | None \<Rightarrow> ''''),
                         any_value = ciphertext\<rparr>,
       sn_is_encrypted := True, sn_encryption_key_id := keyID\<rparr>)))"

definition seal_snapshot ::
    "'m runtime \<Rightarrow> cmdctx \<Rightarrow> bytes \<Rightarrow> Encryptor option \<Rightarrow> Snapshot \<Rightarrow> goerr + Snapshot" where
  "seal_snapshot rt ctx rnd encryptor snapshot =
     (case encryptor of
        None \<Rightarrow> Inr snapshot
      | Some enc \<Rightarrow>
          if sn_state snapshot = None then Inr snapshot
          else encryptSnapshotState rt ctx rnd enc snapshot)"

text \<open>The snapshot store, and the retention request forwarded to the janitor.\<close>

definition handlePersistSnapshot ::
    "'m runtime \<Rightarrow> cmdctx \<Rightarrow> bytes \<Rightarrow> (nat \<Rightarrow> int \<Rightarrow> goerr option) \<Rightarrow> 't SnapshotStoreApi option
       \<Rightarrow> Encryptor option \<Rightarrow> persistSnapshotRequest \<Rightarrow> 't \<Rightarrow> 't \<times> applyRetentionRequest option" where
  "handlePersistSnapshot rt ctx rnd wait store encryptor req sdb =
     (case store of
        None \<Rightarrow> (sdb, None)
      | Some ss \<Rightarrow>
          (case seal_snapshot rt ctx rnd encryptor (ps_snapshot req) of
             Inl err \<Rightarrow> (sdb, None)
           | Inr snapshot \<Rightarrow>
               (case retryWithBackoff wait defaultMaxRetries (WriteSnapshot ss (ps_scope req) snapshot) sdb of
                  (Some err, sdb') \<Rightarrow> (sdb', None)
                | (None, sdb') \<Rightarrow> (sdb', if ps_janitor req then ps_retentionReq req else None))))"

section \<open>The janitor\<close>

definition delete_up_to :: "applyRetentionRequest \<Rightarrow> u64" where
  "delete_up_to req =
     (if ar_eventsRetentionCount req > 0
      then ar_eventsCounter req - min (ar_eventsCounter req) (ar_eventsRetentionCount req)
      else ar_eventsCounter req)"

definition handleApplyRetention ::
    "(nat \<Rightarrow> int \<Rightarrow> goerr option) \<Rightarrow> (nat \<Rightarrow> int \<Rightarrow> goerr option) \<Rightarrow> 's EventsStore \<Rightarrow> 't SnapshotStoreApi option
       \<Rightarrow> applyRetentionRequest \<Rightarrow> 's \<times> 't \<Rightarrow> 's \<times> 't" where
  "handleApplyRetention wait1 wait2 es store req dbs =
     (let (db, sdb) = dbs;
          db' = (if ar_deleteEventsOnSnapshot req \<and> delete_up_to req > 0
                 then snd (retryWithBackoff wait1 defaultMaxRetries
                        (DeleteEvents es (ar_scope req) (ar_persistenceID req) (delete_up_to req)) db)
                 else db);
          sdb' = (case store of
                    Some ss \<Rightarrow>
                      if ar_deleteSnapshotsOnSnapshot req \<and> ar_eventsCounter req > ar_snapshotInterval req
                      then snd (retryWithBackoff wait2 defaultMaxRetries
                             (DeleteSnapshots ss (ar_scope req) (ar_persistenceID req)
                                (ar_eventsCounter req - ar_snapshotInterval req)) sdb)
                      else sdb
                  | None \<Rightarrow> sdb) in
      (db', sdb'))"

lemma delete_up_to_le: "delete_up_to req \<le> ar_eventsCounter req"
  unfolding delete_up_to_def by (auto simp: min_def word_le_nat_alt unat_sub)

section \<open>A store operation under retry\<close>

lemma retry_WriteSnapshot:
  assumes sn: "snapshot_store ss sinv snaps" and inv: "sinv sdb" and sc: "wf_scope sc"
    and r: "retryWithBackoff wait n (WriteSnapshot ss sc sn) sdb = (res, sdb')"
  shows "sinv sdb' \<and> snaps sdb' = (case res of
      None \<Rightarrow> (snaps sdb)(sc := (snaps sdb sc)(sn_persistence_id sn :=
                (snaps sdb sc (sn_persistence_id sn))(sn_sequence_number sn \<mapsto> sn)))
    | Some _ \<Rightarrow> snaps sdb)"
proof -
  have "case res of
      None \<Rightarrow> \<exists>t. sinv t \<and> snaps t = snaps sdb \<and> WriteSnapshot ss sc sn t = (None, sdb')
    | Some e \<Rightarrow> sinv sdb' \<and> snaps sdb' = snaps sdb"
    using retryWithBackoff_result [where P = sinv and R = "\<lambda>s t. snaps t = snaps s" and s' = sdb', OF _ _ _ inv r]
      snapshot_store.write_err [OF sn] by auto
  then show ?thesis
    using snapshot_store.write_ok [OF sn _ sc] by (auto split: option.splits)
qed

lemma retry_DeleteSnapshots:
  assumes sn: "snapshot_store ss sinv snaps" and inv: "sinv sdb" and sc: "wf_scope sc"
    and r: "retryWithBackoff wait n (DeleteSnapshots ss sc pid k) sdb = (res, sdb')"
  shows "sinv sdb' \<and> (snaps sdb' = snaps sdb
     \<or> snaps sdb' = (snaps sdb)(sc := (snaps sdb sc)(pid := snaps sdb sc pid |` {i. k < i})))"
proof -
  have "case res of
      None \<Rightarrow> \<exists>t. sinv t \<and> snaps t = snaps sdb \<and> DeleteSnapshots ss sc pid k t = (None, sdb')
    | Some e \<Rightarrow> sinv sdb' \<and> snaps sdb' = snaps sdb"
    using retryWithBackoff_result [where P = sinv and R = "\<lambda>s t. snaps t = snaps s" and s' = sdb', OF _ _ _ inv r]
      snapshot_store.delete_err [OF sn] by auto
  then show ?thesis
    using snapshot_store.delete_ok [OF sn _ sc] by (auto split: option.splits)
qed

lemma retry_DeleteEvents:
  assumes ev: "events_store es einv journal revision" and inv: "einv db" and sc: "wf_scope sc"
    and r: "retryWithBackoff wait n (DeleteEvents es sc pid k) db = (res, db')"
  shows "einv db' \<and> revision db' = revision db \<and> (journal db' = journal db
     \<or> journal db' = (journal db)(sc := (journal db sc)(pid := journal db sc pid |` {i. k < i})))"
proof -
  have "case res of
      None \<Rightarrow> \<exists>t. einv t \<and> (journal t = journal db \<and> revision t = revision db) \<and> DeleteEvents es sc pid k t = (None, db')
    | Some e \<Rightarrow> einv db' \<and> (journal db' = journal db \<and> revision db' = revision db)"
    using retryWithBackoff_result [where P = einv and R = "\<lambda>s t. journal t = journal s \<and> revision t = revision s"
        and s' = db', OF _ _ _ inv r] events_store.delete_err [OF ev] by auto
  then show ?thesis
    using events_store.delete_ok [OF ev _ sc] by (auto split: option.splits)
qed

section \<open>What the children keep\<close>

lemma snapshot_of_extend: "snapshot_of rt a hist sn \<Longrightarrow> snapshot_of rt a (hist @ envs) sn"
  by (auto simp: snapshot_of_def)

text \<open>A committed write extends the history.\<close>

lemma holds_write:
  assumes h: "holds_history rt a j sns hist d st" and c: "continues (ea_persistenceID a) hist envs"
    and st': "\<And>ctx. apply_events rt ctx a envs st = Inr st'"
    and t: "ea_tenantAware a \<Longrightarrow> \<forall>e \<in> set envs. ev_tenant_metadata e = tenancy_MarshalMetadata (ea_actorTenant a)"
  shows "holds_history rt a (ev_override j envs) sns (hist @ envs) d st'"
proof -
  from h have hist: "history_ok (ea_persistenceID a) hist" "d \<le> length hist" "j = journal_of hist d"
    and st: "\<And>ctx. apply_events rt ctx a hist (initial_state a) = Inr st" by (simp_all add: holds_history_def)
  from st st' have "apply_events rt ctx a (hist @ envs) (initial_state a) = Inr st'" for ctx
    by (simp add: apply_events_append)
  with h t hist continues_history [OF hist(1) c] ev_override_continues [OF c hist(2)] show ?thesis
    by (auto simp: holds_history_def intro: snapshot_of_extend)
qed

text \<open>A snapshot of a state the history goes through may be added.\<close>

lemma holds_snapshot:
  "holds_history rt a j sns hist d st \<Longrightarrow> snapshot_of rt a hist sn \<Longrightarrow>
     holds_history rt a j (sns(sn_sequence_number sn \<mapsto> sn)) hist d st"
  unfolding holds_history_def by auto

text \<open>The snapshot of the current state, encrypted or not, reads back as that state.\<close>

lemma sealed_snapshot_of:
  assumes app: "app_ok rt Ev St a" and st: "St st"
    and hist: "\<And>ctx. apply_events rt ctx a (take (unat (sn_sequence_number sn)) hist) (initial_state a) = Inr st"
      "unat (sn_sequence_number sn) \<le> length hist"
    and sn: "sn_persistence_id sn = ea_persistenceID a" "sn_state sn = any_New (rt_any rt) st" "\<not> sn_is_encrypted sn"
      "ea_tenantAware a \<Longrightarrow> sn_tenant_metadata sn = tenancy_MarshalMetadata (ea_actorTenant a)"
    and seal: "seal_snapshot rt ctx rnd (ea_encryptor a) sn = Inr sn'"
  shows "snapshot_of rt a hist sn' \<and> sn_sequence_number sn' = sn_sequence_number sn
    \<and> sn_persistence_id sn' = ea_persistenceID a"
proof -
  from app obtain bh where bh: "ea_behavior a = Some bh" "codec_ok Ev St (bh_InitialState bh) (rt_any rt)"
    by (rule app_okE)
  then have i: "initial_state a = bh_InitialState bh" by (simp add: initial_state_def)
  from codec_ok_state [OF bh(2) st] obtain x where x: "any_New (rt_any rt) st = Some x"
    "any_UnmarshalTo (rt_any rt) (Some x) (initial_state a) = Inr st" by (auto simp: i)
  show ?thesis
  proof (cases "ea_encryptor a")
    case None
    with seal hist sn x show ?thesis by (auto simp: seal_snapshot_def snapshot_of_def decryptPayload_def)
  next
    case (Some enc)
    with app have enc: "encryptor_ok enc" by (auto simp: app_ok_def)
    from seal Some sn x obtain b ct k where b: "any_Marshal (rt_any rt) (Some x) = Inr b"
      and ct: "enc_Encrypt enc ctx rnd (ea_persistenceID a) b = Inr (ct, k)"
      and sn': "sn' = sn\<lparr>sn_state := Some \<lparr>any_type_url = any_type_url x, any_value = ct\<rparr>,
                   sn_is_encrypted := True, sn_encryption_key_id := k\<rparr>"
      by (auto simp: seal_snapshot_def encryptSnapshotState_def return_iffs wrap_err_Inr_iff)
    from enc ct have "enc_Decrypt enc ctx' (ea_persistenceID a) ct k = Inr b" for ctx' by (auto simp: encryptor_ok_def)
    moreover from bh(2) b have "any_Unmarshal (rt_any rt) b = Inr x" by (auto simp: codec_ok_def)
    ultimately show ?thesis using hist sn x by (simp add: sn' snapshot_of_def decryptPayload_def Some)
  qed
qed

text \<open>Deleting behind a snapshot keeps the history recoverable.\<close>

lemma holds_deleted_events:
  assumes h: "holds_history rt a j sns hist d st" and k: "unat k \<le> length hist"
    and s: "ea_snapshotStore a \<noteq> None" "c \<in> dom sns" "k \<le> c"
  shows "holds_history rt a (j |` {i. k < i}) sns hist (max d (unat k)) st"
proof -
  from h s have "\<exists>i \<in> dom sns. max d (unat k) \<le> unat i"
    unfolding holds_history_def by (auto simp: max_def word_le_nat_alt)
  with h k s(1) show ?thesis unfolding holds_history_def by (auto simp: journal_of_restrict)
qed

lemma holds_deleted_snapshots:
  assumes h: "holds_history rt a j sns hist d st" and c: "c \<in> dom sns" "n < c"
  shows "holds_history rt a j (sns |` {i. n < i}) hist d st"
proof -
  have "\<exists>i \<in> dom (sns |` {i. n < i}). d \<le> unat i" if "i0 \<in> dom sns" "d \<le> unat i0" for i0
  proof (cases "n < i0")
    case True
    with that show ?thesis by (intro bexI [of _ i0]) (auto simp: restrict_map_def)
  next
    case False
    then have "i0 \<le> c" using c(2) by (simp add: word_le_nat_alt word_less_nat_alt)
    with that(2) c show ?thesis by (intro bexI [of _ c]) (auto simp: restrict_map_def word_le_nat_alt)
  qed
  with h show ?thesis unfolding holds_history_def by (auto simp: restrict_map_def split: if_splits)
qed

lemma retention_events:
  assumes ev: "events_store es einv journal revision" and inv: "einv db" and sc: "wf_scope (ar_scope req)"
    and r: "handleApplyRetention w1 w2 es store req (db, sdb) = (db', sdb')"
  shows "einv db' \<and> revision db' = revision db
    \<and> (journal db' (ar_scope req) (ar_persistenceID req) = journal db (ar_scope req) (ar_persistenceID req)
       \<or> journal db' (ar_scope req) (ar_persistenceID req) =
           journal db (ar_scope req) (ar_persistenceID req) |` {i. delete_up_to req < i})"
proof (cases "ar_deleteEventsOnSnapshot req \<and> delete_up_to req > 0")
  case True
  obtain res x where x: "retryWithBackoff w1 defaultMaxRetries
      (DeleteEvents es (ar_scope req) (ar_persistenceID req) (delete_up_to req)) db = (res, x)" by fastforce
  with True r have "db' = x" by (simp add: handleApplyRetention_def Let_def)
  with retry_DeleteEvents [OF ev inv sc x] show ?thesis by auto
next
  case False
  with r inv show ?thesis by (auto simp: handleApplyRetention_def Let_def)
qed

lemma retention_snapshots:
  assumes sn: "snapshot_store ss sinv snaps" and inv: "sinv sdb" and sc: "wf_scope (ar_scope req)"
    and i: "ar_snapshotInterval req \<noteq> 0"
    and r: "handleApplyRetention w1 w2 es (Some ss) req (db, sdb) = (db', sdb')"
  shows "sinv sdb' \<and> (\<exists>n < ar_eventsCounter req.
      snaps sdb' (ar_scope req) (ar_persistenceID req) = snaps sdb (ar_scope req) (ar_persistenceID req)
      \<or> snaps sdb' (ar_scope req) (ar_persistenceID req) = snaps sdb (ar_scope req) (ar_persistenceID req) |` {i. n < i})
    \<or> sinv sdb' \<and> snaps sdb' (ar_scope req) (ar_persistenceID req) = snaps sdb (ar_scope req) (ar_persistenceID req)"
proof (cases "ar_deleteSnapshotsOnSnapshot req \<and> ar_eventsCounter req > ar_snapshotInterval req")
  case True
  let ?n = "ar_eventsCounter req - ar_snapshotInterval req"
  obtain res x where x: "retryWithBackoff w2 defaultMaxRetries
      (DeleteSnapshots ss (ar_scope req) (ar_persistenceID req) ?n) sdb = (res, x)" by fastforce
  with True r have "sdb' = x" by (simp add: handleApplyRetention_def Let_def)
  moreover from i have "0 < unat (ar_snapshotInterval req)" by (simp add: unat_gt_0)
  with True have "?n < ar_eventsCounter req" by (simp add: word_less_nat_alt unat_sub_if')
  ultimately show ?thesis using retry_DeleteSnapshots [OF sn inv sc x] by auto
next
  case False
  with r inv show ?thesis by (auto simp: handleApplyRetention_def Let_def)
qed

lemma holds_retention:
  assumes ev: "events_store es einv journal revision" and sn: "snapshot_store ss sinv snaps"
    and inv: "einv db" "sinv sdb" and sc: "wf_scope (ea_scope a)" and ss: "ea_snapshotStore a = Some ss"
    and h: "holds_history rt a (journal db (ea_scope a) (ea_persistenceID a))
              (snaps sdb (ea_scope a) (ea_persistenceID a)) hist d st"
    and req: "ar_scope req = ea_scope a" "ar_persistenceID req = ea_persistenceID a" "ar_snapshotInterval req \<noteq> 0"
    and covered: "k0 \<in> dom (snaps sdb (ea_scope a) (ea_persistenceID a))" "ar_eventsCounter req \<le> k0"
    and r: "handleApplyRetention w1 w2 es (Some ss) req (db, sdb) = (db', sdb')"
  shows "einv db' \<and> sinv sdb' \<and> revision db' = revision db
    \<and> (\<forall>k \<in> dom (snaps sdb (ea_scope a) (ea_persistenceID a)). k0 \<le> k \<longrightarrow>
         k \<in> dom (snaps sdb' (ea_scope a) (ea_persistenceID a)))
    \<and> (\<exists>d'. holds_history rt a (journal db' (ea_scope a) (ea_persistenceID a))
              (snaps sdb' (ea_scope a) (ea_persistenceID a)) hist d' st)"
proof -
  let ?s = "snaps sdb (ea_scope a) (ea_persistenceID a)" and ?c = "ar_eventsCounter req"
  from h covered(1) have c: "unat k0 \<le> length hist" unfolding holds_history_def snapshot_of_def by fastforce
  have e: "einv db'" "revision db' = revision db"
    and j: "journal db' (ea_scope a) (ea_persistenceID a) = journal db (ea_scope a) (ea_persistenceID a)
      \<or> journal db' (ea_scope a) (ea_persistenceID a) =
          journal db (ea_scope a) (ea_persistenceID a) |` {i. delete_up_to req < i}"
    using retention_events [OF ev inv(1) _ r] sc by (simp_all add: req)
  have k0: "delete_up_to req \<le> k0" using delete_up_to_le [of req] covered(2) by (rule order_trans)
  with c have "unat (delete_up_to req) \<le> length hist" by (simp add: word_le_nat_alt)
  with j h holds_deleted_events [OF h _ _ covered(1) k0] ss
  obtain d' where d': "holds_history rt a (journal db' (ea_scope a) (ea_persistenceID a)) ?s hist d' st" by auto
  from retention_snapshots [OF sn inv(2) _ req(3) r] sc consider
      "sinv sdb'" "snaps sdb' (ea_scope a) (ea_persistenceID a) = ?s"
    | n where "sinv sdb'" "n < ?c" "snaps sdb' (ea_scope a) (ea_persistenceID a) = ?s |` {i. n < i}"
    by (auto simp: req)
  then show ?thesis
  proof cases
    case 1
    with e d' show ?thesis by auto
  next
    case (2 n)
    then have n: "n < k0" using covered(2) by (rule_tac order_less_le_trans)
    then have "n < k" if "k0 \<le> k" for k using that by (rule order_less_le_trans)
    with e d' 2 holds_deleted_snapshots [OF d' covered(1) n] show ?thesis by (auto simp: restrict_map_def)
  qed
qed
end
