(* ===== verification/ES_Steps.thy ===== *)
theory ES_Steps
  imports ES_Children
begin

text \<open>
  What each handler of the event-sourced actor does to its state, in the form the proofs about runs
  use: which fields no handler changes, and the outcomes of a command, one command at a time and in a
  batch.
\<close>

section \<open>What no handler changes\<close>

definition same_spawn :: "('m, 's, 't) Actor \<Rightarrow> ('m, 's, 't) Actor \<Rightarrow> bool" where
  "same_spawn a b \<longleftrightarrow>
     reads_alike a b \<and> ea_scope a = ea_scope b \<and> ea_eventsStore a = ea_eventsStore b
     \<and> ea_snapshotStore a = ea_snapshotStore b \<and> ea_retentionPolicy a = ea_retentionPolicy b
     \<and> ea_snapshotInterval a = ea_snapshotInterval b \<and> ea_batchThreshold a = ea_batchThreshold b"

lemma same_spawn_refl [simp]: "same_spawn a a"
  by (simp add: same_spawn_def)

lemma same_spawn_trans [trans]: "same_spawn a b \<Longrightarrow> same_spawn b c \<Longrightarrow> same_spawn a c"
  by (auto simp: same_spawn_def intro: reads_alike_trans)

text \<open>Updates of the other fields.\<close>

lemma same_spawn_updates [simp]:
  "same_spawn (a\<lparr>ea_currentState := x1\<rparr>) b \<longleftrightarrow> same_spawn a b"
  "same_spawn (a\<lparr>ea_cachedStateAny := x2\<rparr>) b \<longleftrightarrow> same_spawn a b"
  "same_spawn (a\<lparr>ea_eventsCounter := x3\<rparr>) b \<longleftrightarrow> same_spawn a b"
  "same_spawn (a\<lparr>ea_lastCommandTime := x4\<rparr>) b \<longleftrightarrow> same_spawn a b"
  "same_spawn (a\<lparr>ea_phase := x5\<rparr>) b \<longleftrightarrow> same_spawn a b"
  "same_spawn (a\<lparr>ea_batchBuffer := x6\<rparr>) b \<longleftrightarrow> same_spawn a b"
  "same_spawn (a\<lparr>ea_batchEntries := x7\<rparr>) b \<longleftrightarrow> same_spawn a b"
  "same_spawn (a\<lparr>ea_batchState := x8\<rparr>) b \<longleftrightarrow> same_spawn a b"
  "same_spawn (a\<lparr>ea_batchCounter := x9\<rparr>) b \<longleftrightarrow> same_spawn a b"
  "same_spawn (a\<lparr>ea_batchTime := x10\<rparr>) b \<longleftrightarrow> same_spawn a b"
  "same_spawn (a\<lparr>ea_batchNumEvents := x11\<rparr>) b \<longleftrightarrow> same_spawn a b"
  "same_spawn (a\<lparr>ea_remainingReplies := x12\<rparr>) b \<longleftrightarrow> same_spawn a b"
  "same_spawn (a\<lparr>ea_shutdownOnDrain := x13\<rparr>) b \<longleftrightarrow> same_spawn a b"
  "same_spawn (a\<lparr>ea_flushTimer := x14\<rparr>) b \<longleftrightarrow> same_spawn a b"
  "same_spawn (a\<lparr>ea_batchBase := x15\<rparr>) b \<longleftrightarrow> same_spawn a b"
  "same_spawn (a\<lparr>ea_batchHasPrecondition := x16\<rparr>) b \<longleftrightarrow> same_spawn a b"
  "same_spawn (a\<lparr>ea_directPendingState := x17\<rparr>) b \<longleftrightarrow> same_spawn a b"
  "same_spawn (a\<lparr>ea_directPendingCounter := x18\<rparr>) b \<longleftrightarrow> same_spawn a b"
  "same_spawn (a\<lparr>ea_directPendingTime := x19\<rparr>) b \<longleftrightarrow> same_spawn a b"
  "same_spawn (a\<lparr>ea_directNumEvents := x20\<rparr>) b \<longleftrightarrow> same_spawn a b"
  "same_spawn (a\<lparr>ea_directErr := x21\<rparr>) b \<longleftrightarrow> same_spawn a b"
  "same_spawn (a\<lparr>ea_directShutdown := x22\<rparr>) b \<longleftrightarrow> same_spawn a b"
  "same_spawn (a\<lparr>ea_shardNumber := x23\<rparr>) b \<longleftrightarrow> same_spawn a b"
  "same_spawn (a\<lparr>ea_eventsWriter := x24\<rparr>) b \<longleftrightarrow> same_spawn a b"
  "same_spawn (a\<lparr>ea_snapshotsWriter := x25\<rparr>) b \<longleftrightarrow> same_spawn a b"
  "same_spawn (a\<lparr>ea_eventsJanitor := x26\<rparr>) b \<longleftrightarrow> same_spawn a b"
  by (simp_all add: same_spawn_def reads_alike_def)

text \<open>An actor whose tenant is bound, as \<open>resolveScope\<close> leaves it, keeps it.\<close>

definition tenant_bound :: "('m, 's, 't) Actor \<Rightarrow> bool" where
  "tenant_bound a \<longleftrightarrow> (ea_tenantAware a \<longrightarrow> ea_actorTenant a \<noteq> noTenantContext)"

lemma establish_bound [simp]: "tenant_bound a \<Longrightarrow> establishActorTenant tc a = a"
  by (auto simp: tenant_bound_def establishActorTenant_def)

lemma tenant_gate_bound:
  "tenant_bound a \<Longrightarrow> tenant_gate ctx a = Inr tc \<Longrightarrow> ea_tenantAware a \<Longrightarrow>
     tc = ea_actorTenant a \<and> tenancy_Require ctx = Inr tc"
  by (auto simp: tenant_gate_def tenant_bound_def split: sum.splits if_splits option.splits)

lemma currentStateAny_eq:
  "currentStateAny rt a =
     (let x = (case ea_cachedStateAny a of Some y \<Rightarrow> Some y | None \<Rightarrow> any_New (rt_any rt) (ea_currentState a))
      in (x, a\<lparr>ea_cachedStateAny := x\<rparr>))"
  by (cases a) (simp add: currentStateAny_def Let_def split: option.split)

section \<open>Outcomes of a command\<close>

definition cache_ok :: "'m runtime \<Rightarrow> ('m, 's, 't) Actor \<Rightarrow> bool" where
  "cache_ok rt a \<longleftrightarrow> ea_cachedStateAny a = None \<or> ea_cachedStateAny a = any_New (rt_any rt) (ea_currentState a)"

lemma sendStateReply_eq:
  "cache_ok rt a \<Longrightarrow> sendStateReply rt a =
     (a\<lparr>ea_cachedStateAny := any_New (rt_any rt) (ea_currentState a)\<rparr>,
      [Respond (state_reply (ea_persistenceID a) (any_New (rt_any rt) (ea_currentState a)) (ea_eventsCounter a)
         (ea_lastCommandTime a))])"
  by (auto simp: sendStateReply_def currentStateAny_eq Let_def cache_ok_def split: option.splits)

text \<open>The events of a command against a state, for a tenant the gate let through.\<close>

definition produces ::
    "'m runtime \<Rightarrow> turn \<Rightarrow> 'm \<Rightarrow> ('m, 's, 't) Actor \<Rightarrow> 'm \<Rightarrow> u64 \<Rightarrow> Event list \<Rightarrow> 'm \<Rightarrow> u64 \<Rightarrow> bool" where
  "produces rt tn cmd a st n envs st' n' \<longleftrightarrow>
     (\<exists>tc events. tenant_gate (tn_ctx tn) a = Inr tc \<and> dispatchToBehavior rt tn cmd st a = Inr events
        \<and> events \<noteq> [] \<and> buildEnvelopes rt tn events tc st n a = Inr (envs, st', n'))"

lemma processCommandAndReply_cases:
  assumes "tenant_bound a" and "processCommandAndReply rt tn cmd a = (a', effs)"
  obtains (error) err where "a' = a" "effs = [sendErrorReply rt err]"
    | (noevents) "(a', effs) = sendStateReply rt a"
    | (persist) envs st n where "produces rt tn cmd a (ea_currentState a) (ea_eventsCounter a) envs st n"
        "(a', effs) = persistAsync envs st n (tn_build tn)
           (PreconditionFromRevision (ExpectedRevisionFromContext (rt_time rt) (tn_revision tn) (tn_ctx tn))) a"
  using assms
  by (auto simp: processCommandAndReply_def Let_def return_iffs produces_def split: sum.splits if_splits)

text \<open>The events of a command do not depend on the batch it joins.\<close>

lemma dispatch_alike:
  assumes "reads_alike a b"
  shows "dispatchToBehavior rt tn cmd st a = dispatchToBehavior rt tn cmd st b"
  using assms unfolding dispatchToBehavior_def by (simp only: reads_alike_def)

lemma marshalEvent_alike:
  assumes "reads_alike a b"
  shows "marshalEvent rt ctx rnd e tc n ts sh a = marshalEvent rt ctx rnd e tc n ts sh b"
  using assms unfolding marshalEvent_def seal_event_def by (simp only: reads_alike_def)

lemma build_loop_alike:
  assumes "reads_alike a b" and "ea_shardNumber a = ea_shardNumber b"
  shows "build_loop rt tn tc a i evs st n = build_loop rt tn tc b i evs st n"
proof (induction evs arbitrary: i st n)
  case (Cons e evs)
  have "ea_behavior a = ea_behavior b" using assms(1) by (simp add: reads_alike_def)
  then show ?case by (simp only: build_loop.simps marshalEvent_alike [OF assms(1)] assms(2) Cons.IH)
qed simp

lemma buildEnvelopes_alike:
  "reads_alike a b \<Longrightarrow> ea_shardNumber a = ea_shardNumber b \<Longrightarrow>
     buildEnvelopes rt tn evs tc st n a = buildEnvelopes rt tn evs tc st n b"
  by (simp add: buildEnvelopes_def build_loop_alike)

lemma alike_update: "reads_alike (a\<lparr>ea_batchHasPrecondition := b\<rparr>) a"
  by (simp add: reads_alike_def)

lemmas produces_update [simp] = dispatch_alike [OF alike_update]
  buildEnvelopes_alike [OF alike_update, simplified]
lemma processAndBatch_cases:
  assumes bound: "tenant_bound a" and p: "processAndBatch rt tn cmd a = (a', effs)"
  obtains (error) err b where "a' = a\<lparr>ea_batchHasPrecondition := b\<rparr>" "effs = [sendErrorReply rt err]"
    | (noevents) b where "(a', effs) = noEventsReply rt (latestState a) (latestCounter a) (a\<lparr>ea_batchHasPrecondition := b\<rparr>)"
    | (inadmissible) "ea_batchEntries a \<noteq> []" "a' = fst (flushBatch a)" "effs = snd (flushBatch a) @ [Stash]"
    | (batched) envs st n b base where
        "produces rt tn cmd a (latestState a) (latestCounter a) envs st n"
        "let a2 = append_to_batch rt envs st n (tn_build tn) (a\<lparr>ea_batchHasPrecondition := b, ea_batchBase := base\<rparr>) in
           a' = startFlushTimer a2 \<and> effs = [Stash] \<or> a' = fst (flushBatch a2) \<and> effs = Stash # snd (flushBatch a2)"
proof -
  let ?ctx = "tn_ctx tn"
  define rev where "rev = ExpectedRevisionFromContext (rt_time rt) (tn_revision tn) ?ctx"
  define b where "b = (ea_batchEntries a \<noteq> [] \<and> rev \<noteq> None \<or> ea_batchHasPrecondition a)"
  have a1: "(if ea_batchEntries a \<noteq> [] \<and> rev \<noteq> None then a\<lparr>ea_batchHasPrecondition := True\<rparr> else a) =
      a\<lparr>ea_batchHasPrecondition := b\<rparr>"
    by (cases a) (auto simp: b_def)
  have bound1: "tenant_bound (a\<lparr>ea_batchHasPrecondition := b\<rparr>)" using bound by (simp add: tenant_bound_def)
  have opens: "\<exists>b' base. open_batch rev c (a\<lparr>ea_batchHasPrecondition := b\<rparr>) = a\<lparr>ea_batchHasPrecondition := b', ea_batchBase := base\<rparr>" for c
  proof (cases "ea_batchEntries a = []")
    case True
    then show ?thesis by (auto simp: open_batch_def)
  next
    case False
    then show ?thesis by (intro exI [of _ b] exI [of _ "ea_batchBase a"]) (cases a, simp add: open_batch_def)
  qed
  note p' = p [unfolded processAndBatch_def Let_def, folded rev_def, unfolded a1]
  show thesis
  proof (cases "sum_bind (tenant_gate ?ctx a) (\<lambda>tc. check_err (CheckDeadline ?ctx (tn_gate tn) ''before handler execution'') (Inr tc))")
    case (Inl err)
    with p' have "a' = a\<lparr>ea_batchHasPrecondition := ea_batchHasPrecondition a\<rparr>" "effs = [sendErrorReply rt err]" by simp_all
    then show thesis by (rule error)
  next
    case (Inr tc)
    then have tc: "tenant_gate ?ctx a = Inr tc" by (auto simp: return_iffs)
    show thesis
    proof (cases "ea_batchEntries a \<noteq> [] \<and> rev \<noteq> None \<and> rev \<noteq> Some (latestCounter a)")
      case True
      with p' Inr show thesis by (intro inadmissible) (auto split: prod.splits)
    next
      case False
      note p2 = p' [unfolded Inr sum.case, unfolded if_not_P [OF False], simplified]
      show thesis
      proof (cases "dispatchToBehavior rt tn cmd (latestState a) a")
        case (Inl err)
        with p2 show thesis by (intro error [of b err]) simp_all
      next
        case (Inr events)
        show thesis
        proof (cases "events = []")
          case True
          with p2 Inr show thesis by (intro noevents [of b]) simp
        next
          case False
          show thesis
          proof (cases "sum_bind (buildEnvelopes rt tn events tc (latestState a) (latestCounter a) a)
              (\<lambda>built. check_err (CheckDeadline ?ctx (tn_persist tn) ''before persistence'') (Inr built))")
            case (Inl err)
            with p2 Inr False show thesis by (intro error [of b err]) simp_all
          next
            case built: (Inr r)
            obtain envs st n where r: "r = (envs, st, n)" by (cases r)
            with built Inr tc False have "produces rt tn cmd a (latestState a) (latestCounter a) envs st n"
              by (auto simp: produces_def return_iffs)
            moreover obtain b' base where
              "open_batch rev (latestCounter a) (a\<lparr>ea_batchHasPrecondition := b\<rparr>) =
                 a\<lparr>ea_batchHasPrecondition := b', ea_batchBase := base\<rparr>" using opens by blast
            ultimately show thesis
              using p2 Inr False built r bound1
              by (intro batched [of envs st n base b']) (auto simp: Let_def split: prod.splits if_splits)
          qed
        qed
      qed
    qed
  qed
qed

end
