(* ===== verification/ES_System.thy ===== *)
theory ES_System
  imports ES_Steps "HOL-Library.Multiset"
begin

text \<open>
  An event-sourced entity as it runs: the actor with its mailbox and its stash, the write in flight
  at the events writer, the mailboxes of the snapshots writer and the janitor, the two stores, the
  replies sent and the events published.  A step is one turn of one of these actors, the arrival of a
  message, the loss of the actor between two turns (a write in flight was decided before, or is never
  made), or a restart after the actor stopped or was lost.  The entity is the only writer of its
  record, and a write that timed out does not reach the store after a restart.

  The actor runtime is a parameter: \<open>rq stash mailbox\<close> is the mailbox after \<open>UnstashAll\<close>.  The runtime
  documents that the stashed messages go back in front of the mailbox in the order they were received;
  most of what follows needs only that none is lost or made up.
\<close>

section \<open>Configurations and steps\<close>

record 'm item =
  it_id :: nat
  it_ctx :: cmdctx
  it_message :: "'m message"

record ('m, 's, 't) sys =
  sy_actor :: "('m, 's, 't) Actor"
  sy_mailbox :: "'m item list"
  sy_stash :: "'m item list"
  sy_inflight :: "persistEventsRequest option"
  sy_db :: 's
  sy_sdb :: 't
  sy_snapshots :: "persistSnapshotRequest list"
  sy_retentions :: "applyRetentionRequest list"
  sy_replies :: "(nat \<times> CommandReply) list"
  sy_stream :: "(string \<times> Event) list"
  sy_stopped :: bool

type_synonym 'm requeue = "'m item list \<Rightarrow> 'm item list \<Rightarrow> 'm item list"

definition requeue_all :: "'m requeue \<Rightarrow> bool" where
  "requeue_all rq \<longleftrightarrow> (\<forall>st mb. mset (rq st mb) = mset st + mset mb)"

definition requeue_front :: "'m requeue \<Rightarrow> bool" where
  "requeue_front rq \<longleftrightarrow> (\<forall>st mb. rq st mb = st @ mb)"

fun perform :: "'m requeue \<Rightarrow> 'm item \<Rightarrow> effect \<Rightarrow> ('m, 's, 't) sys \<Rightarrow> ('m, 's, 't) sys" where
  "perform rq it (Respond r) s = s\<lparr>sy_replies := sy_replies s @ [(it_id it, r)]\<rparr>"
| "perform rq it (RespondBinding b) s = s"
| "perform rq it Stash s = s\<lparr>sy_stash := sy_stash s @ [it]\<rparr>"
| "perform rq it UnstashAll s = s\<lparr>sy_mailbox := rq (sy_stash s) (sy_mailbox s), sy_stash := []\<rparr>"
| "perform rq it (PipeTo req) s = s\<lparr>sy_inflight := Some req\<rparr>"
| "perform rq it (Tell req) s = s\<lparr>sy_snapshots := sy_snapshots s @ [req]\<rparr>"
| "perform rq it Shutdown s = s\<lparr>sy_stopped := True\<rparr>"
| "perform rq it Unhandled s = s"

definition perform_all :: "'m requeue \<Rightarrow> 'm item \<Rightarrow> effect list \<Rightarrow> ('m, 's, 't) sys \<Rightarrow> ('m, 's, 't) sys" where
  "perform_all rq it effs s = fold (perform rq it) effs s"

text \<open>A turn: the message leaves the mailbox, is handled, and the effects take place in order.\<close>

definition take_turn ::
    "'m runtime \<Rightarrow> 'm requeue \<Rightarrow> turn \<Rightarrow> 'm item \<Rightarrow> 'm item list \<Rightarrow> ('m, 's, 't) sys \<Rightarrow> ('m, 's, 't) sys" where
  "take_turn rt rq tn it rest s =
     (let (a', effs) = Receive rt tn (it_message it) (sy_actor s) in
      perform_all rq it effs (s\<lparr>sy_actor := a', sy_mailbox := rest\<rparr>))"

text \<open>
  The response of the events writer reaches the mailbox as a message of the actor to itself.
\<close>

definition response_item :: "goerr option \<Rightarrow> 'm item" where
  "response_item r = \<lparr>it_id = 0, it_ctx = context_Background, it_message = PersistEventsResponse r\<rparr>"

definition writer_turn :: "'s EventsStore \<Rightarrow> persistEventsRequest \<Rightarrow> ('m, 's, 't) sys \<Rightarrow> goerr option \<times> ('m, 's, 't) sys" where
  "writer_turn es req s =
     (let (resp, db', published) = handlePersistEvents es req (sy_db s) in
      (resp, s\<lparr>sy_db := db', sy_stream := sy_stream s @ published\<rparr>))"

definition post_response :: "goerr option \<Rightarrow> ('m, 's, 't) sys \<Rightarrow> ('m, 's, 't) sys" where
  "post_response r s = s\<lparr>sy_inflight := None, sy_mailbox := sy_mailbox s @ [response_item r]\<rparr>"

definition external :: "'m message \<Rightarrow> bool" where
  "external msg = (case msg of PersistEventsResponse _ \<Rightarrow> False | PostStart _ \<Rightarrow> False | _ \<Rightarrow> True)"

text \<open>The counter of an entity stays far from the bound of its type.\<close>

definition within_counter :: "('m, 's, 't) Actor \<Rightarrow> ('m, 's, 't) Actor \<times> effect list \<Rightarrow> bool" where
  "within_counter a result \<longleftrightarrow>
     unat (ea_eventsCounter a) + length (ea_batchBuffer (fst result)) < 2 ^ 63
     \<and> (\<forall>req. PipeTo req \<in> set (snd result) \<longrightarrow> unat (ea_eventsCounter a) + length (pq_envelopes req) < 2 ^ 63)"

inductive es_step ::
    "'m runtime \<Rightarrow> 'm requeue \<Rightarrow> 's EventsStore \<Rightarrow> 't SnapshotStoreApi \<Rightarrow> ('m, 's, 't) Actor
       \<Rightarrow> ('m, 's, 't) sys \<Rightarrow> ('m, 's, 't) sys \<Rightarrow> bool"
  for rt rq es ss spawned where
  arrive: "external (it_message it) \<Longrightarrow> es_step rt rq es ss spawned s (s\<lparr>sy_mailbox := sy_mailbox s @ [it]\<rparr>)"
| turn: "\<not> sy_stopped s \<Longrightarrow> sy_mailbox s = it # rest \<Longrightarrow> tn_ctx tn = it_ctx it \<Longrightarrow>
     within_counter (sy_actor s) (Receive rt tn (it_message it) (sy_actor s)) \<Longrightarrow>
     es_step rt rq es ss spawned s (take_turn rt rq tn it rest s)"
| commit: "sy_inflight s = Some req \<Longrightarrow> writer_turn es req s = (resp, s') \<Longrightarrow>
     es_step rt rq es ss spawned s (post_response resp s')"
| write_lost: "sy_inflight s = Some req \<Longrightarrow> writer_turn es req s = (resp, s') \<Longrightarrow>
     errors_As_conflict err = None \<Longrightarrow>
     es_step rt rq es ss spawned s (post_response (Some err) s')"
| write_unsent: "sy_inflight s = Some req \<Longrightarrow> errors_As_conflict err = None \<Longrightarrow>
     es_step rt rq es ss spawned s (post_response (Some err) s)"
| snapshot: "sy_snapshots s = req # reqs \<Longrightarrow>
     handlePersistSnapshot rt ctx rnd wait (Some ss) (ea_encryptor spawned) req (sy_sdb s) = (sdb', fwd) \<Longrightarrow>
     es_step rt rq es ss spawned s
       (s\<lparr>sy_snapshots := reqs, sy_sdb := sdb',
          sy_retentions := sy_retentions s @ (case fwd of Some r \<Rightarrow> [r] | None \<Rightarrow> [])\<rparr>)"
| retain: "sy_retentions s = req # reqs \<Longrightarrow>
     handleApplyRetention w1 w2 es (Some ss) req (sy_db s, sy_sdb s) = (db', sdb') \<Longrightarrow>
     es_step rt rq es ss spawned s (s\<lparr>sy_retentions := reqs, sy_db := db', sy_sdb := sdb'\<rparr>)"
| crash: "es_step rt rq es ss spawned s (s\<lparr>sy_stopped := True, sy_inflight := None\<rparr>)"
| restart: "sy_stopped s \<Longrightarrow> sy_inflight s = None \<Longrightarrow> recover rt ctx (sy_db s) (sy_sdb s) spawned = Inr a \<Longrightarrow>
     es_step rt rq es ss spawned s
       (s\<lparr>sy_actor := a, sy_mailbox := [\<lparr>it_id = 0, it_ctx = context_Background, it_message = PostStart shard\<rparr>],
          sy_stash := [], sy_snapshots := [], sy_retentions := [], sy_stopped := False\<rparr>)"

inductive es_reach ::
    "'m runtime \<Rightarrow> 'm requeue \<Rightarrow> 's EventsStore \<Rightarrow> 't SnapshotStoreApi \<Rightarrow> ('m, 's, 't) Actor
       \<Rightarrow> ('m, 's, 't) sys \<Rightarrow> ('m, 's, 't) sys \<Rightarrow> bool"
  for rt rq es ss spawned s0 where
  start: "es_reach rt rq es ss spawned s0 s0"
| step: "es_reach rt rq es ss spawned s0 s \<Longrightarrow> es_step rt rq es ss spawned s s' \<Longrightarrow> es_reach rt rq es ss spawned s0 s'"

text \<open>
  The first configuration: an actor recovered from the stores.  \<open>spawned\<close> is the actor as \<open>PreStart\<close>
  configures it, just before it recovers.
\<close>

definition es_init :: "('m, 's, 't) Actor \<Rightarrow> u64 \<Rightarrow> 's \<Rightarrow> 't \<Rightarrow> ('m, 's, 't) sys" where
  "es_init a shard db sdb =
     \<lparr>sy_actor = a,
      sy_mailbox = [\<lparr>it_id = 0, it_ctx = context_Background, it_message = PostStart shard\<rparr>],
      sy_stash = [], sy_inflight = None, sy_db = db, sy_sdb = sdb, sy_snapshots = [],
      sy_retentions = [], sy_replies = [], sy_stream = [], sy_stopped = False\<rparr>"

section \<open>What effects do to a configuration\<close>

fun piped :: "effect list \<Rightarrow> persistEventsRequest option" where
  "piped [] = None"
| "piped (PipeTo req # effs) = (case piped effs of Some r \<Rightarrow> Some r | None \<Rightarrow> Some req)"
| "piped (_ # effs) = piped effs"

fun told :: "effect list \<Rightarrow> persistSnapshotRequest list" where
  "told [] = []"
| "told (Tell req # effs) = req # told effs"
| "told (_ # effs) = told effs"

fun responded :: "effect list \<Rightarrow> CommandReply list" where
  "responded [] = []"
| "responded (Respond r # effs) = r # responded effs"
| "responded (_ # effs) = responded effs"

definition response_of :: "'m item \<Rightarrow> goerr option multiset" where
  "response_of it = (case it_message it of PersistEventsResponse r \<Rightarrow> {#r#} | _ \<Rightarrow> {#})"

definition responses :: "'m item list \<Rightarrow> goerr option multiset" where
  "responses its = (\<Sum>it \<in># mset its. response_of it)"

lemma responses_simps [simp]:
  "responses [] = {#}" "responses (it # its) = response_of it + responses its"
  "responses (xs @ ys) = responses xs + responses ys"
  by (simp_all add: responses_def)

lemma response_of_simps [simp]:
  "response_of (response_item r) = {#r#}"
  "external (it_message it) \<Longrightarrow> response_of it = {#}"
  by (auto simp: response_of_def response_item_def external_def split: message.splits)

lemma responses_requeue: "requeue_all rq \<Longrightarrow> responses (rq st mb) = responses st + responses mb"
  by (simp add: responses_def requeue_all_def)

lemma perform_all_simps [simp]:
  "perform_all rq it [] s = s" "perform_all rq it (e # effs) s = perform_all rq it effs (perform rq it e s)"
  by (simp_all add: perform_all_def)

lemma perform_all_frame:
  "sy_actor (perform_all rq it effs s) = sy_actor s \<and> sy_db (perform_all rq it effs s) = sy_db s
   \<and> sy_sdb (perform_all rq it effs s) = sy_sdb s \<and> sy_retentions (perform_all rq it effs s) = sy_retentions s
   \<and> sy_stream (perform_all rq it effs s) = sy_stream s"
proof (induction effs arbitrary: s)
  case (Cons e effs)
  show ?case using Cons.IH [of "perform rq it e s"] by (cases e) simp_all
qed simp

lemma perform_all_inflight:
  "sy_inflight (perform_all rq it effs s) = (case piped effs of Some r \<Rightarrow> Some r | None \<Rightarrow> sy_inflight s)"
proof (induction effs arbitrary: s)
  case (Cons e effs)
  show ?case using Cons.IH [of "perform rq it e s"] by (cases e) (simp_all split: option.splits)
qed simp

lemma perform_all_snapshots: "sy_snapshots (perform_all rq it effs s) = sy_snapshots s @ told effs"
proof (induction effs arbitrary: s)
  case (Cons e effs)
  show ?case using Cons.IH [of "perform rq it e s"] by (cases e) simp_all
qed simp

lemma perform_all_stopped: "sy_stopped (perform_all rq it effs s) \<longleftrightarrow> sy_stopped s \<or> Shutdown \<in> set effs"
proof (induction effs arbitrary: s)
  case (Cons e effs)
  show ?case using Cons.IH [of "perform rq it e s"] by (cases e) simp_all
qed simp

lemma perform_all_replies:
  "sy_replies (perform_all rq it effs s) = sy_replies s @ map (Pair (it_id it)) (responded effs)"
proof (induction effs arbitrary: s)
  case (Cons e effs)
  show ?case using Cons.IH [of "perform rq it e s"] by (cases e) simp_all
qed simp

lemma perform_all_responses:
  assumes "requeue_all rq" and "Stash \<in> set effs \<Longrightarrow> response_of it = {#}"
  shows "responses (sy_stash s) = {#} \<Longrightarrow>
     responses (sy_stash (perform_all rq it effs s)) = {#}
     \<and> responses (sy_mailbox (perform_all rq it effs s)) = responses (sy_mailbox s)"
  using assms(2)
proof (induction effs arbitrary: s)
  case (Cons e effs)
  have "responses (sy_stash (perform rq it e s)) = {#}
      \<and> responses (sy_mailbox (perform rq it e s)) = responses (sy_mailbox s)"
    using Cons.prems by (cases e) (simp_all add: responses_requeue [OF assms(1)])
  with Cons.IH [of "perform rq it e s"] Cons.prems(2) show ?case by simp
qed simp

lemmas perform_all_facts = perform_all_frame perform_all_inflight perform_all_snapshots perform_all_stopped

end
