(* ===== verification/ES_Invariant.thy ===== *)
theory ES_Invariant
  imports ES_System
begin

text \<open>
  The invariant of a running event-sourced entity.  Between writes the actor's state and counter are
  those of the committed history; while a write is in flight, what it will commit continues the
  history and leads to the pending state; every snapshot and retention request on its way is one the
  stores can take without losing the history.
\<close>

section \<open>The actor between messages\<close>

definition settled :: "('m, 's, 't) Actor \<Rightarrow> Event list \<Rightarrow> 'm \<Rightarrow> bool" where
  "settled a hist st \<longleftrightarrow> ea_currentState a = st \<and> ea_eventsCounter a = of_nat (length hist)"

text \<open>Envelopes ready to be committed after a history, and where they lead.\<close>

definition extends ::
    "'m runtime \<Rightarrow> ('m \<Rightarrow> bool) \<Rightarrow> ('m, 's, 't) Actor \<Rightarrow> Event list \<Rightarrow> 'm \<Rightarrow> Event list \<Rightarrow> 'm \<Rightarrow> u64 \<Rightarrow> bool" where
  "extends rt St a0 hist st envs st' n' \<longleftrightarrow>
     envs \<noteq> [] \<and> continues (ea_persistenceID a0) hist envs \<and> list_all plain_event envs \<and> St st'
     \<and> (\<forall>ctx. apply_events rt ctx a0 envs st = Inr st') \<and> n' = of_nat (length hist + length envs)
     \<and> (ea_tenantAware a0 \<longrightarrow> (\<forall>e \<in> set envs. ev_tenant_metadata e = tenancy_MarshalMetadata (ea_actorTenant a0)))"

definition batch_inv ::
    "'m runtime \<Rightarrow> ('m \<Rightarrow> bool) \<Rightarrow> ('m, 's, 't) Actor \<Rightarrow> ('m, 's, 't) Actor \<Rightarrow> Event list \<Rightarrow> 'm \<Rightarrow> bool" where
  "batch_inv rt St a0 a hist st \<longleftrightarrow>
     (if ea_batchEntries a = [] then ea_batchBuffer a = []
      else extends rt St a0 hist st (ea_batchBuffer a) (ea_batchState a) (ea_batchCounter a))"

text \<open>A write on its way: still at the writer, or answered by the one response in the mailbox.\<close>

definition write_inv ::
    "'m runtime \<Rightarrow> ('m \<Rightarrow> bool) \<Rightarrow> ('m, 's, 't) Actor \<Rightarrow> ('m, 's, 't) Actor \<Rightarrow> persistEventsRequest option
       \<Rightarrow> goerr option multiset \<Rightarrow> Event list \<Rightarrow> 'm \<Rightarrow> 'm \<Rightarrow> u64 \<Rightarrow> bool" where
  "write_inv rt St a0 a infl R hist st st' n' \<longleftrightarrow>
     (case infl of
        Some req \<Rightarrow>
          R = {#} \<and> settled a hist st \<and> pq_scope req = ea_scope a0 \<and> pq_topic req = eventsTopic
          \<and> extends rt St a0 hist st (pq_envelopes req) st' n'
      | None \<Rightarrow>
          (\<exists>r. R = {#r#}
             \<and> (case r of
                  None \<Rightarrow> st = st' \<and> n' = of_nat (length hist)
                | Some err \<Rightarrow> settled a hist st \<or> errors_As_conflict err = None)))"

definition phase_inv ::
    "'m runtime \<Rightarrow> ('m \<Rightarrow> bool) \<Rightarrow> ('m, 's, 't) Actor \<Rightarrow> ('m, 's, 't) Actor \<Rightarrow> persistEventsRequest option
       \<Rightarrow> goerr option multiset \<Rightarrow> Event list \<Rightarrow> 'm \<Rightarrow> bool" where
  "phase_inv rt St a0 a infl R hist st =
     (case ea_phase a of
        phaseProcessing \<Rightarrow> infl = None \<and> R = {#} \<and> settled a hist st \<and> batch_inv rt St a0 a hist st
      | phasePersisting \<Rightarrow>
          \<not> batchEnabled a \<and> write_inv rt St a0 a infl R hist st (ea_directPendingState a) (ea_directPendingCounter a)
      | phaseDirectReplying \<Rightarrow>
          \<not> batchEnabled a \<and> infl = None \<and> R = {#}
          \<and> (settled a hist st \<or> ea_directErr a \<noteq> None \<and> ea_directShutdown a)
      | phaseFlushing \<Rightarrow>
          batchEnabled a \<and> ea_batchEntries a \<noteq> []
          \<and> write_inv rt St a0 a infl R hist st (ea_batchState a) (ea_batchCounter a)
      | phaseReplying \<Rightarrow>
          batchEnabled a \<and> infl = None \<and> R = {#} \<and> (settled a hist st \<or> ea_shutdownOnDrain a)
          \<and> 0 < ea_remainingReplies a \<and> ea_remainingReplies a \<le> int (length (ea_batchEntries a)))"

definition actor_inv ::
    "'m runtime \<Rightarrow> ('m \<Rightarrow> bool) \<Rightarrow> ('m, 's, 't) Actor \<Rightarrow> ('m, 's, 't) Actor \<Rightarrow> persistEventsRequest option
       \<Rightarrow> goerr option multiset \<Rightarrow> Event list \<Rightarrow> 'm \<Rightarrow> bool" where
  "actor_inv rt St a0 a infl R hist st \<longleftrightarrow>
     same_spawn a a0 \<and> cache_ok rt a \<and> (ea_snapshotsWriter a \<longrightarrow> ea_snapshotStore a0 \<noteq> None)
     \<and> (\<not> batchEnabled a \<longrightarrow> ea_batchEntries a = [] \<and> ea_batchBuffer a = [])
     \<and> phase_inv rt St a0 a infl R hist st"

text \<open>What recovery left the actor with: the duties of the application and a bound tenant.\<close>

definition spawn_ok :: "'m runtime \<Rightarrow> ('m \<Rightarrow> bool) \<Rightarrow> ('m \<Rightarrow> bool) \<Rightarrow> ('m, 's, 't) Actor \<Rightarrow> bool" where
  "spawn_ok rt Ev St a0 \<longleftrightarrow> app_ok rt Ev St a0 \<and> wf_scope (ea_scope a0)"

lemma spawn_ok_bound: "spawn_ok rt Ev St a0 \<Longrightarrow> same_spawn a a0 \<Longrightarrow> tenant_bound a"
  by (auto simp: spawn_ok_def app_ok_def tenant_bound_def same_spawn_def reads_alike_def)

lemma spawn_ok_alike: "spawn_ok rt Ev St a0 \<Longrightarrow> same_spawn a a0 \<Longrightarrow> app_ok rt Ev St a"
  by (auto simp: spawn_ok_def same_spawn_def app_ok_alike)

section \<open>Commands\<close>

text \<open>The envelopes of a command extend the history its state comes from.\<close>

lemma produces_extends:
  assumes sp: "spawn_ok rt Ev St a0" "same_spawn a a0" and st: "St st"
    and p: "produces rt tn cmd a st (of_nat (length hist)) envs st' n'"
    and bound: "length hist + length envs < 2 ^ 63"
  shows "extends rt St a0 hist st envs st' n'"
proof -
  from p obtain tc events where tc: "tenant_gate (tn_ctx tn) a = Inr tc"
    and d: "dispatchToBehavior rt tn cmd st a = Inr events" "events \<noteq> []"
    and b: "buildEnvelopes rt tn events tc st (of_nat (length hist)) a = Inr (envs, st', n')"
    by (auto simp: produces_def)
  note app = spawn_ok_alike [OF sp] and tb = spawn_ok_bound [OF sp]
  have t: "ea_tenantAware a \<Longrightarrow> tc = ea_actorTenant a" using tenant_gate_bound [OF tb tc] by simp
  from sp(2) have al: "reads_alike a a0" by (simp add: same_spawn_def)
  have "apply_events rt ctx a envs st = Inr st' \<and> St st'" for ctx
    using buildEnvelopes_replays [OF app t b dispatch_events [OF app d(1)] st] by blast
  then have "\<forall>ctx. apply_events rt ctx a0 envs st = Inr st'" "St st'"
    using apply_events_alike [OF al] by simp_all
  moreover from buildEnvelopes_numbers [OF b] bound al have "continues (ea_persistenceID a0) hist envs"
    "n' = of_nat (length hist + length envs)"
    by (auto simp: continues_def envelope_of_def reads_alike_def)
  moreover have "ev_tenant_metadata e = tenancy_MarshalMetadata (ea_actorTenant a0)"
    if "ea_tenantAware a0" "e \<in> set envs" for e
    using buildEnvelopes_numbers [OF b] t al that
    by (auto simp: in_set_conv_nth envelope_of_def reads_alike_def)
  moreover have "list_all plain_event envs"
    using buildEnvelopes_plain [OF app t b dispatch_events [OF app d(1)]] .
  ultimately show ?thesis using buildEnvelopes_nonempty [OF b d(2)] by (simp add: extends_def)
qed

text \<open>Envelopes that continue an open batch.\<close>

lemma extends_append:
  assumes "extends rt St a0 hist st envs st1 n1" and "extends rt St a0 (hist @ envs) st1 envs' st2 n2"
  shows "extends rt St a0 hist st (envs @ envs') st2 n2"
proof -
  have "continues (ea_persistenceID a0) hist (envs @ envs')"
    using assms by (auto simp: extends_def continues_def nth_append of_nat_diff)
  with assms show ?thesis by (auto simp: extends_def apply_events_append ball_Un)
qed

section \<open>Requests to the snapshots writer and the janitor\<close>

definition retention_ok :: "('m, 's, 't) Actor \<Rightarrow> applyRetentionRequest \<Rightarrow> bool" where
  "retention_ok a0 r \<longleftrightarrow>
     ar_scope r = ea_scope a0 \<and> ar_persistenceID r = ea_persistenceID a0 \<and> ar_snapshotInterval r \<noteq> 0"

definition snapreq_ok ::
    "'m runtime \<Rightarrow> ('m \<Rightarrow> bool) \<Rightarrow> ('m, 's, 't) Actor \<Rightarrow> Event list \<Rightarrow> persistSnapshotRequest \<Rightarrow> bool" where
  "snapreq_ok rt St a0 hist req \<longleftrightarrow>
     ea_snapshotStore a0 \<noteq> None \<and> ps_scope req = ea_scope a0
     \<and> (let sn = ps_snapshot req in
         sn_persistence_id sn = ea_persistenceID a0 \<and> \<not> sn_is_encrypted sn
         \<and> unat (sn_sequence_number sn) \<le> length hist
         \<and> (ea_tenantAware a0 \<longrightarrow> sn_tenant_metadata sn = tenancy_MarshalMetadata (ea_actorTenant a0))
         \<and> (\<exists>st. St st \<and> sn_state sn = any_New (rt_any rt) st
              \<and> (\<forall>ctx. apply_events rt ctx a0 (take (unat (sn_sequence_number sn)) hist) (initial_state a0) = Inr st))
         \<and> (\<forall>r. ps_retentionReq req = Some r \<longrightarrow>
              retention_ok a0 r \<and> ar_eventsCounter r = sn_sequence_number sn))"

lemma snapreq_ok_extend: "snapreq_ok rt St a0 hist req \<Longrightarrow> snapreq_ok rt St a0 (hist @ envs) req"
  by (auto simp: snapreq_ok_def Let_def)

lemma snapshotAndRetain_ok:
  assumes "same_spawn a a0" and "cache_ok rt a" and "settled a hist st" and "St st" and "length hist < 2 ^ 63"
    and "\<And>ctx. apply_events rt ctx a0 hist (initial_state a0) = Inr st"
    and "ea_snapshotStore a0 \<noteq> None" and "ea_snapshotInterval a \<noteq> 0"
  shows "\<exists>req. snapshotAndRetain rt a = (a\<lparr>ea_cachedStateAny := any_New (rt_any rt) st\<rparr>, [Tell req])
     \<and> snapreq_ok rt St a0 hist req"
proof -
  have st: "(case ea_cachedStateAny a of Some y \<Rightarrow> Some y | None \<Rightarrow> any_New (rt_any rt) (ea_currentState a)) =
      any_New (rt_any rt) st"
    using assms(2,3) by (auto simp: cache_ok_def settled_def split: option.splits)
  have n: "unat (ea_eventsCounter a) = length hist"
    using assms(3,5) by (simp add: settled_def unat_of_nat_u64)
  from assms(1) have "ea_scope a = ea_scope a0" "ea_persistenceID a = ea_persistenceID a0"
    "ea_tenantAware a = ea_tenantAware a0" "ea_actorTenant a = ea_actorTenant a0"
    by (simp_all add: same_spawn_def reads_alike_def)
  with assms(4-8) n show ?thesis
    unfolding snapshotAndRetain_def currentStateAny_eq Let_def st
    by (auto simp: snapreq_ok_def newSnapshotEnvelope_def retention_ok_def split: option.splits)
qed

section \<open>The result of a turn\<close>

definition result_inv ::
    "'m runtime \<Rightarrow> ('m \<Rightarrow> bool) \<Rightarrow> ('m, 's, 't) Actor \<Rightarrow> Event list \<Rightarrow> 'm \<Rightarrow> persistEventsRequest option
       \<Rightarrow> goerr option multiset \<Rightarrow> ('m, 's, 't) Actor \<times> effect list \<Rightarrow> bool" where
  "result_inv rt St a0 hist st infl R result \<longleftrightarrow>
     (let (a', effs) = result in
      list_all (snapreq_ok rt St a0 hist) (told effs)
      \<and> (if Shutdown \<in> set effs then piped effs = None \<and> infl = None
         else actor_inv rt St a0 a' (case piped effs of Some r \<Rightarrow> Some r | None \<Rightarrow> infl) R hist st))"

text \<open>A turn that only replies, or stashes, and leaves what the invariant is about.\<close>

lemma phase_inv_quiet:
  "phase_inv rt St a0 (a\<lparr>ea_cachedStateAny := x, ea_batchHasPrecondition := b, ea_flushTimer := t\<rparr>) infl R hist st =
     phase_inv rt St a0 a infl R hist st"
  unfolding phase_inv_def settled_def batch_inv_def write_inv_def batchEnabled_def
  by (simp cong: persistPhase.case_cong option.case_cong)

lemma result_inv_quiet:
  assumes "actor_inv rt St a0 a infl R hist st" and "Shutdown \<notin> set effs" "piped effs = None" "told effs = []"
    and "a' = a\<lparr>ea_cachedStateAny := x, ea_batchHasPrecondition := b, ea_flushTimer := t\<rparr>"
    and "x = None \<or> x = any_New (rt_any rt) (ea_currentState a)"
  shows "result_inv rt St a0 hist st infl R (a', effs)"
  using assms(1-4,6) unfolding assms(5)
  by (simp add: result_inv_def actor_inv_def cache_ok_def phase_inv_quiet batchEnabled_def)

lemma no_update:
  "a = a\<lparr>ea_cachedStateAny := ea_cachedStateAny a, ea_batchHasPrecondition := ea_batchHasPrecondition a, ea_flushTimer := ea_flushTimer a\<rparr>"
  by simp

lemma result_inv_same:
  assumes "actor_inv rt St a0 a infl R hist st" and "Shutdown \<notin> set effs" "piped effs = None" "told effs = []"
  shows "result_inv rt St a0 hist st infl R (a, effs)"
proof (rule result_inv_quiet [OF assms no_update])
  show "ea_cachedStateAny a = None \<or> ea_cachedStateAny a = any_New (rt_any rt) (ea_currentState a)"
    using assms(1) by (simp add: actor_inv_def cache_ok_def)
qed

lemma result_inv_state_reply:
  assumes "actor_inv rt St a0 a infl R hist st"
  shows "result_inv rt St a0 hist st infl R (sendStateReply rt a)"
proof -
  have "cache_ok rt a" using assms by (simp add: actor_inv_def)
  then show ?thesis
    unfolding sendStateReply_eq [OF \<open>cache_ok rt a\<close>]
    by (intro result_inv_quiet [OF assms, where x = "any_New (rt_any rt) (ea_currentState a)"
          and b = "ea_batchHasPrecondition a" and t = "ea_flushTimer a"]) simp_all
qed

section \<open>One command at a time\<close>

lemma process_direct_inv:
  assumes sp: "spawn_ok rt Ev St a0" and st: "St st" and n: "length hist < 2 ^ 63"
    and inv: "actor_inv rt St a0 a infl R hist st" and ph: "ea_phase a = phaseProcessing" and nb: "\<not> batchEnabled a"
    and w: "within_counter a (processCommandAndReply rt tn cmd a)"
  shows "result_inv rt St a0 hist st infl R (processCommandAndReply rt tn cmd a)"
proof -
  from inv have ss: "same_spawn a a0" by (simp add: actor_inv_def)
  from inv ph have s: "settled a hist st" "infl = None" "R = {#}" by (simp_all add: actor_inv_def phase_inv_def)
  obtain a' effs where p: "processCommandAndReply rt tn cmd a = (a', effs)" by fastforce
  from spawn_ok_bound [OF sp ss] p show ?thesis
  proof (cases rule: processCommandAndReply_cases)
    case (error err)
    then show ?thesis unfolding p by (auto intro: result_inv_same [OF inv] simp: sendErrorReply_def)
  next
    case noevents
    then show ?thesis unfolding p using result_inv_state_reply [OF inv] by simp
  next
    case (persist envs st' n')
    let ?req = "\<lparr>pq_envelopes = envs, pq_topic = eventsTopic,
        pq_precondition = PreconditionFromRevision (ExpectedRevisionFromContext (rt_time rt) (tn_revision tn) (tn_ctx tn)),
        pq_scope = ea_scope a\<rparr>"
    from persist(2) have a': "a' = a\<lparr>ea_directPendingState := st', ea_directPendingCounter := n',
        ea_directPendingTime := tn_build tn, ea_directNumEvents := int (length envs), ea_phase := phasePersisting\<rparr>"
      and effs: "effs = [Stash, PipeTo ?req]" by (simp_all add: persistAsync_def)
    have "length hist + length envs < 2 ^ 63"
      using w n s(1) by (auto simp: p within_counter_def effs settled_def unat_of_nat_u64)
    then have "extends rt St a0 hist st envs st' n'"
      using produces_extends [OF sp ss st] persist(1) s(1) by (simp add: settled_def)
    with inv s nb ss show ?thesis
      by (simp add: p result_inv_def a' effs actor_inv_def cache_ok_def phase_inv_def write_inv_def settled_def batchEnabled_def)
        (simp add: same_spawn_def)
  qed
qed

lemma not_alive_without_conflict: "errors_As_conflict err = None \<Longrightarrow> \<not> shouldStayAliveAfterConflict err a"
  by (simp add: shouldStayAliveAfterConflict_def)

text \<open>A confirmed write: the actor moves to the committed state, and may ask for a snapshot of it.\<close>

lemma confirmed_inv:
  assumes "same_spawn a a0" and "ea_snapshotsWriter a \<longrightarrow> ea_snapshotStore a0 \<noteq> None" and "St st" and "length hist < 2 ^ 63"
    and "\<And>ctx. apply_events rt ctx a0 hist (initial_state a0) = Inr st"
    and r: "(a', effs) = (if c \<and> ea_snapshotsWriter a \<and> ea_snapshotInterval a \<noteq> 0
              then snapshotAndRetain rt (applyConfirmedState rt st (of_nat (length hist)) ts a)
              else (applyConfirmedState rt st (of_nat (length hist)) ts a, []))"
  shows "a' = applyConfirmedState rt st (of_nat (length hist)) ts a
    \<and> list_all (snapreq_ok rt St a0 hist) (told effs) \<and> piped effs = None \<and> Shutdown \<notin> set effs \<and> Stash \<notin> set effs"
proof (cases "c \<and> ea_snapshotsWriter a \<and> ea_snapshotInterval a \<noteq> 0")
  case True
  let ?a = "applyConfirmedState rt st (of_nat (length hist)) ts a"
  have sp: "same_spawn ?a a0" "cache_ok rt ?a" "settled ?a hist st"
    using assms(1) by (simp_all add: applyConfirmedState_def cache_ok_def settled_def)
  have "ea_snapshotStore a0 \<noteq> None" "ea_snapshotInterval ?a \<noteq> 0"
    using assms(2) True by (simp_all add: applyConfirmedState_def)
  from snapshotAndRetain_ok [where St = St and st = st, OF sp assms(3,4,5) this] obtain req where
    "snapshotAndRetain rt ?a = (?a\<lparr>ea_cachedStateAny := any_New (rt_any rt) st\<rparr>, [Tell req])"
    and "snapreq_ok rt St a0 hist req" by blast
  with r True show ?thesis by (auto simp: applyConfirmedState_def)
next
  case False
  with r show ?thesis by auto
qed

lemma trigger_eq:
  "triggerSnapshotAndRetention rt a =
     (if ea_eventsCounter a mod ea_snapshotInterval a = 0 \<and> ea_snapshotsWriter a \<and> ea_snapshotInterval a \<noteq> 0
      then snapshotAndRetain rt a else (a, []))"
  by (auto simp: triggerSnapshotAndRetention_def)

lemma direct_response_inv:
  assumes st: "St st" and n: "length hist < 2 ^ 63" and hist: "\<And>ctx. apply_events rt ctx a0 hist (initial_state a0) = Inr st"
    and inv: "actor_inv rt St a0 a infl (add_mset r R) hist st" and nb: "\<not> batchEnabled a"
  shows "result_inv rt St a0 hist st infl R (handleDirectPersistResponse rt r a) \<and> Stash \<notin> set (snd (handleDirectPersistResponse rt r a))"
proof -
  from inv nb have ph: "ea_phase a = phasePersisting"
    by (auto simp: actor_inv_def phase_inv_def split: persistPhase.splits)
  from inv ph have w: "write_inv rt St a0 a infl (add_mset r R) hist st (ea_directPendingState a) (ea_directPendingCounter a)"
    by (simp add: actor_inv_def phase_inv_def)
  then have R: "infl = None" "R = {#}"
    and wr: "case r of None \<Rightarrow> st = ea_directPendingState a \<and> ea_directPendingCounter a = of_nat (length hist)
      | Some err \<Rightarrow> settled a hist st \<or> errors_As_conflict err = None"
    by (auto simp: write_inv_def split: option.splits)
  show ?thesis
  proof (cases r)
    case (Some err)
    with wr inv ph R show ?thesis
      by (auto simp: handleDirectPersistResponse_def result_inv_def actor_inv_def cache_ok_def phase_inv_def settled_def
          batchEnabled_def not_alive_without_conflict)
  next
    case None
    obtain a1 effs where r1: "triggerSnapshotAndRetention rt (applyConfirmedState rt st (of_nat (length hist)) (ea_directPendingTime a) a) = (a1, effs)"
      by fastforce
    define c where "c = ((of_nat (length hist) :: u64) mod ea_snapshotInterval a = 0)"
    have r2: "(a1, effs) = (if c \<and> ea_snapshotsWriter a \<and> ea_snapshotInterval a \<noteq> 0
        then snapshotAndRetain rt (applyConfirmedState rt st (of_nat (length hist)) (ea_directPendingTime a) a)
        else (applyConfirmedState rt st (of_nat (length hist)) (ea_directPendingTime a) a, []))"
      unfolding r1 [symmetric] trigger_eq c_def by (simp add: applyConfirmedState_def cong: if_cong)
    have c: "a1 = applyConfirmedState rt st (of_nat (length hist)) (ea_directPendingTime a) a
        \<and> list_all (snapreq_ok rt St a0 hist) (told effs) \<and> piped effs = None \<and> Shutdown \<notin> set effs \<and> Stash \<notin> set effs"
      using inv by (intro confirmed_inv [where St = St and st = st, OF _ _ st n hist r2]) (simp_all add: actor_inv_def)
    have app: "told (effs @ [UnstashAll]) = told effs" "piped (effs @ [UnstashAll]) = piped effs"
      by (induction effs rule: told.induct) (simp_all split: option.splits)
    from None wr ph r1 have "handleDirectPersistResponse rt r a = (a1\<lparr>ea_directErr := None, ea_phase := phaseDirectReplying\<rparr>, effs @ [UnstashAll])"
      by (simp add: handleDirectPersistResponse_def)
    with c app inv R nb show ?thesis
      by (simp add: result_inv_def actor_inv_def cache_ok_def phase_inv_def settled_def applyConfirmedState_def batchEnabled_def)
  qed
qed

lemma reply_direct_inv:
  assumes inv: "actor_inv rt St a0 a infl R hist st" and ph: "ea_phase a = phaseDirectReplying"
  shows "result_inv rt St a0 hist st infl R (replyDirect rt a)"
proof -
  from inv ph have s: "infl = None" "R = {#}" "settled a hist st \<or> ea_directErr a \<noteq> None \<and> ea_directShutdown a" "\<not> batchEnabled a"
    by (simp_all add: actor_inv_def phase_inv_def)
  let ?a1 = "a\<lparr>ea_phase := phaseProcessing\<rparr>"
  have c: "cache_ok rt ?a1" using inv by (simp add: actor_inv_def cache_ok_def)
  from inv s show ?thesis
    by (cases "ea_directErr a")
      (auto simp: replyDirect_def Let_def sendStateReply_eq [OF c] sendErrorReply_def result_inv_def actor_inv_def
        cache_ok_def phase_inv_def settled_def batch_inv_def batchEnabled_def)
qed

section \<open>Batches\<close>

lemma flush_inv:
  assumes inv: "actor_inv rt St a0 a None {#} hist st" and ph: "ea_phase a = phaseProcessing"
    and b: "batchEnabled a" "ea_batchEntries a \<noteq> []"
    and e: "told effs = []" "Shutdown \<notin> set effs" "piped effs = piped (snd (flushBatch a))"
  shows "result_inv rt St a0 hist st None {#} (fst (flushBatch a), effs)"
proof -
  from inv ph b have "extends rt St a0 hist st (ea_batchBuffer a) (ea_batchState a) (ea_batchCounter a)" "settled a hist st"
    by (simp_all add: actor_inv_def phase_inv_def batch_inv_def)
  moreover from inv have "ea_scope a = ea_scope a0" by (simp add: actor_inv_def same_spawn_def)
  ultimately show ?thesis using inv b e
    by (auto simp: flushBatch_def stopFlushTimer_def result_inv_def actor_inv_def phase_inv_def write_inv_def settled_def
        cache_ok_def batchEnabled_def)
qed

lemma noEventsReply_inv:
  assumes "actor_inv rt St a0 a infl R hist st"
  shows "result_inv rt St a0 hist st infl R (noEventsReply rt st' n' a)"
proof -
  have c: "cache_ok rt a" using assms by (simp add: actor_inv_def)
  show ?thesis
  proof (cases "ea_batchEntries a = []")
    case False
    then show ?thesis by (simp add: noEventsReply_def result_inv_same [OF assms])
  next
    case True
    let ?x = "case ea_cachedStateAny a of Some y \<Rightarrow> Some y | None \<Rightarrow> any_New (rt_any rt) (ea_currentState a)"
    from True show ?thesis
      by (simp add: noEventsReply_def currentStateAny_eq Let_def)
        (rule result_inv_quiet [OF assms, where x = ?x and b = "ea_batchHasPrecondition a" and t = "ea_flushTimer a"],
          use c in \<open>auto simp: cache_ok_def split: option.splits\<close>)
  qed
qed

text \<open>A command joins the batch: the buffer, with its envelopes, still extends the history.\<close>

lemma append_inv:
  assumes sp: "spawn_ok rt Ev St a0" and st: "St st" and n: "length hist < 2 ^ 63"
    and inv: "actor_inv rt St a0 a None {#} hist st" and ph: "ea_phase a = phaseProcessing" and b: "batchEnabled a"
    and p: "produces rt tn cmd a (latestState a) (latestCounter a) envs st' n'"
    and bound: "length hist + length (ea_batchBuffer a @ envs) < 2 ^ 63"
    and a2: "a2 = append_to_batch rt envs st' n' ts (a\<lparr>ea_batchHasPrecondition := q, ea_batchBase := base\<rparr>)"
  shows "actor_inv rt St a0 a2 None {#} hist st \<and> ea_phase a2 = phaseProcessing \<and> batchEnabled a2 \<and> ea_batchEntries a2 \<noteq> []"
proof -
  from inv have ss: "same_spawn a a0" by (simp add: actor_inv_def)
  from inv ph have s: "settled a hist st" "batch_inv rt St a0 a hist st" by (simp_all add: actor_inv_def phase_inv_def)
  have "extends rt St a0 hist st (ea_batchBuffer a @ envs) st' n'"
  proof (cases "ea_batchEntries a = []")
    case True
    with s have "ea_batchBuffer a = []" "latestState a = st" "latestCounter a = of_nat (length hist)"
      by (simp_all add: batch_inv_def latestState_def latestCounter_def settled_def)
    with produces_extends [OF sp ss st] p bound show ?thesis by simp
  next
    case False
    with s have e: "extends rt St a0 hist st (ea_batchBuffer a) (ea_batchState a) (ea_batchCounter a)"
      by (simp add: batch_inv_def)
    then have "St (ea_batchState a)" "ea_batchCounter a = of_nat (length (hist @ ea_batchBuffer a))"
      by (simp_all add: extends_def)
    with produces_extends [OF sp ss, of "ea_batchState a" tn cmd "hist @ ea_batchBuffer a" envs st' n'] p bound False
    have "extends rt St a0 (hist @ ea_batchBuffer a) (ea_batchState a) envs st' n'"
      by (simp add: latestState_def latestCounter_def)
    with e show ?thesis by (rule extends_append)
  qed
  with inv s(1) ph b show ?thesis
    by (auto simp: a2 append_to_batch_def actor_inv_def cache_ok_def phase_inv_def batch_inv_def settled_def batchEnabled_def)
qed

lemma process_batch_inv:
  assumes sp: "spawn_ok rt Ev St a0" and st: "St st" and n: "length hist < 2 ^ 63"
    and inv: "actor_inv rt St a0 a infl R hist st" and ph: "ea_phase a = phaseProcessing" and b: "batchEnabled a"
    and w: "within_counter a (processAndBatch rt tn cmd a)"
  shows "result_inv rt St a0 hist st infl R (processAndBatch rt tn cmd a)"
proof -
  from inv have ss: "same_spawn a a0" by (simp add: actor_inv_def)
  from inv ph have s: "settled a hist st" "infl = None" "R = {#}" by (simp_all add: actor_inv_def phase_inv_def)
  note inv0 = inv [unfolded s(2,3)]
  obtain a' effs where p: "processAndBatch rt tn cmd a = (a', effs)" by fastforce
  have quiet: "actor_inv rt St a0 (a\<lparr>ea_batchHasPrecondition := q\<rparr>) infl R hist st" for q
    using phase_inv_quiet [where x = "ea_cachedStateAny a" and b = q and t = "ea_flushTimer a" and a = a] inv
    by (simp add: actor_inv_def cache_ok_def batchEnabled_def)
  from spawn_ok_bound [OF sp ss] p show ?thesis
  proof (cases rule: processAndBatch_cases)
    case (error err q)
    then show ?thesis unfolding p by (auto intro: result_inv_same [OF quiet] simp: sendErrorReply_def)
  next
    case (noevents q)
    then show ?thesis unfolding p using noEventsReply_inv [OF quiet] by simp
  next
    case inadmissible
    then show ?thesis unfolding p s(2,3) using flush_inv [OF inv0 ph b] by (simp add: flushBatch_def)
  next
    case (batched envs st' n' q base)
    define a2 where "a2 = append_to_batch rt envs st' n' (tn_build tn) (a\<lparr>ea_batchHasPrecondition := q, ea_batchBase := base\<rparr>)"
    have out: "a' = startFlushTimer a2 \<and> effs = [Stash] \<or> a' = fst (flushBatch a2) \<and> effs = Stash # snd (flushBatch a2)"
      using batched(2) unfolding a2_def Let_def .
    have "ea_batchBuffer a' = ea_batchBuffer a @ envs"
      using out by (auto simp: startFlushTimer_def flushBatch_def stopFlushTimer_def a2_def append_to_batch_def)
    with w n s(1) have "length hist + length (ea_batchBuffer a @ envs) < 2 ^ 63"
      by (auto simp: p within_counter_def settled_def unat_of_nat_u64)
    from append_inv [where St = St and st = st, OF sp st n inv0 ph b batched(1) this a2_def]
    have a2: "actor_inv rt St a0 a2 None {#} hist st" "ea_phase a2 = phaseProcessing" "batchEnabled a2" "ea_batchEntries a2 \<noteq> []"
      by simp_all
    from out show ?thesis
    proof
      assume "a' = startFlushTimer a2 \<and> effs = [Stash]"
      moreover have "result_inv rt St a0 hist st None {#} (startFlushTimer a2, [Stash])"
        using a2(1) by (intro result_inv_quiet [OF a2(1), where x = "ea_cachedStateAny a2" and b = "ea_batchHasPrecondition a2" and t = True])
          (auto simp: startFlushTimer_def actor_inv_def cache_ok_def)
      ultimately show ?thesis by (simp add: p s)
    next
      assume "a' = fst (flushBatch a2) \<and> effs = Stash # snd (flushBatch a2)"
      with flush_inv [OF a2, of effs] show ?thesis by (simp add: p s flushBatch_def)
    qed
  qed
qed

lemma told_piped_append [simp]:
  "told (effs @ [UnstashAll]) = told effs" "piped (effs @ [UnstashAll]) = piped effs"
  by (induction effs rule: told.induct) (simp_all split: option.splits)

lemma batch_response_inv:
  assumes st: "St st" and n: "length hist < 2 ^ 63" and hist: "\<And>ctx. apply_events rt ctx a0 hist (initial_state a0) = Inr st"
    and inv: "actor_inv rt St a0 a infl (add_mset r R) hist st" and b: "batchEnabled a"
  shows "result_inv rt St a0 hist st infl R (handleBatchPersistResponse rt r a) \<and> Stash \<notin> set (snd (handleBatchPersistResponse rt r a))"
proof -
  from inv b have ph: "ea_phase a = phaseFlushing"
    by (auto simp: actor_inv_def phase_inv_def split: persistPhase.splits)
  from inv ph have w: "write_inv rt St a0 a infl (add_mset r R) hist st (ea_batchState a) (ea_batchCounter a)"
    and e: "ea_batchEntries a \<noteq> []" by (simp_all add: actor_inv_def phase_inv_def)
  from w have R: "infl = None" "R = {#}"
    and wr: "case r of None \<Rightarrow> st = ea_batchState a \<and> ea_batchCounter a = of_nat (length hist)
      | Some err \<Rightarrow> settled a hist st \<or> errors_As_conflict err = None"
    by (auto simp: write_inv_def split: option.splits)
  show ?thesis
  proof (cases r)
    case (Some err)
    with wr inv ph R b e show ?thesis
      by (auto simp: handleBatchPersistResponse_def result_inv_def actor_inv_def cache_ok_def phase_inv_def settled_def
          batchEnabled_def not_alive_without_conflict)
  next
    case None
    let ?a1 = "applyConfirmedState rt st (of_nat (length hist)) (ea_batchTime a) a"
    obtain a2 effs where r1: "(if crossedSnapshotBoundary (ea_eventsCounter a) ?a1 then snapshotAndRetain rt ?a1 else (?a1, [])) = (a2, effs)"
      by fastforce
    have cond: "(crossedSnapshotBoundary (ea_eventsCounter a) ?a1 \<and> ea_snapshotsWriter a \<and> ea_snapshotInterval a \<noteq> 0) =
        crossedSnapshotBoundary (ea_eventsCounter a) ?a1"
      by (auto simp: crossedSnapshotBoundary_def applyConfirmedState_def)
    have r2: "(a2, effs) = (if crossedSnapshotBoundary (ea_eventsCounter a) ?a1 \<and> ea_snapshotsWriter a \<and> ea_snapshotInterval a \<noteq> 0
        then snapshotAndRetain rt ?a1 else (?a1, []))"
      unfolding cond by (rule r1 [symmetric])
    have c: "a2 = ?a1 \<and> list_all (snapreq_ok rt St a0 hist) (told effs) \<and> piped effs = None \<and> Shutdown \<notin> set effs \<and> Stash \<notin> set effs"
      using inv by (intro confirmed_inv [where St = St and st = st, OF _ _ st n hist r2]) (simp_all add: actor_inv_def)
    have eqs: "ea_batchState a = st" "ea_batchCounter a = of_nat (length hist)" using None wr by simp_all
    have "handleBatchPersistResponse rt r a =
        (a2\<lparr>ea_remainingReplies := int (length (ea_batchEntries a2)), ea_phase := phaseReplying\<rparr>, effs @ [UnstashAll])"
      unfolding handleBatchPersistResponse_def None Let_def eqs option.case r1 by (simp add: ph)
    with c inv R b e show ?thesis
      by (simp add: result_inv_def actor_inv_def cache_ok_def phase_inv_def settled_def applyConfirmedState_def batchEnabled_def)
  qed
qed

lemma reply_batch_inv:
  assumes inv: "actor_inv rt St a0 a infl R hist st" and ph: "ea_phase a = phaseReplying"
  shows "result_inv rt St a0 hist st infl R (replyFromBatch rt tn cmd a)"
proof -
  from inv ph have s: "infl = None" "R = {#}" "settled a hist st \<or> ea_shutdownOnDrain a" "batchEnabled a"
    "0 < ea_remainingReplies a" "ea_remainingReplies a \<le> int (length (ea_batchEntries a))"
    by (simp_all add: actor_inv_def phase_inv_def)
  with inv ph show ?thesis
    by (auto simp: replyFromBatch_def Let_def resetBatch_def result_inv_def actor_inv_def cache_ok_def phase_inv_def
        settled_def batch_inv_def batchEnabled_def)
qed

lemma flush_tick_inv:
  assumes inv: "actor_inv rt St a0 a infl R hist st"
  shows "result_inv rt St a0 hist st infl R (handleBatchFlushTick a)"
proof -
  let ?a = "a\<lparr>ea_flushTimer := False\<rparr>"
  have q: "actor_inv rt St a0 ?a infl R hist st"
    using phase_inv_quiet [where x = "ea_cachedStateAny a" and b = "ea_batchHasPrecondition a" and t = False and a = a] inv
    by (simp add: actor_inv_def cache_ok_def batchEnabled_def)
  show ?thesis
  proof (cases "ea_phase a \<noteq> phaseProcessing \<or> ea_batchEntries a = []")
    case True
    then show ?thesis by (simp add: handleBatchFlushTick_def Let_def result_inv_same [OF q])
  next
    case False
    with q have b: "batchEnabled ?a" "infl = None" "R = {#}" by (auto simp: actor_inv_def phase_inv_def batchEnabled_def)
    with flush_inv [of rt St a0 ?a hist st] q False show ?thesis
      by (simp add: handleBatchFlushTick_def Let_def flushBatch_def)
  qed
qed

section \<open>Any message\<close>

lemma spawnChildren_eq:
  "spawnChildren a = a\<lparr>ea_eventsWriter := True, ea_snapshotsWriter := (ea_snapshotStore a \<noteq> None \<or> ea_snapshotsWriter a),
     ea_eventsJanitor := (ea_retentionPolicy a \<noteq> None \<or> ea_eventsJanitor a)\<rparr>"
  by (cases a) (simp add: spawnChildren_def Let_def)

lemma phase_inv_spawned:
  "phase_inv rt St a0 (a\<lparr>ea_shardNumber := n, ea_eventsWriter := x, ea_snapshotsWriter := y, ea_eventsJanitor := z\<rparr>) infl R hist st =
     phase_inv rt St a0 a infl R hist st"
  unfolding phase_inv_def settled_def batch_inv_def write_inv_def batchEnabled_def
  by (simp cong: persistPhase.case_cong option.case_cong)

lemma receive_inv:
  assumes sp: "spawn_ok rt Ev St a0" and st: "St st" and n: "length hist < 2 ^ 63"
    and inv: "actor_inv rt St a0 a infl R hist st" and w: "within_counter a (Receive rt tn msg a)"
    and msg: "\<And>r. msg \<noteq> PersistEventsResponse r"
  shows "result_inv rt St a0 hist st infl R (Receive rt tn msg a)"
proof (cases msg)
  case (PostStart shard)
  have "ea_snapshotStore a = ea_snapshotStore a0" using inv by (simp add: actor_inv_def same_spawn_def)
  with inv PostStart show ?thesis
    by (simp add: result_inv_def actor_inv_def cache_ok_def spawnChildren_eq phase_inv_spawned batchEnabled_def)
next
  case GetStateCommand
  show ?thesis
    by (auto simp: GetStateCommand handleGetStateCommand_def getStateAndReply_def sendErrorReply_def
        intro: result_inv_same [OF inv] result_inv_state_reply [OF inv] split: sum.splits)
next
  case (CommandMessage cmd)
  show ?thesis
  proof (cases "batchEnabled a")
    case True
    with w CommandMessage show ?thesis
      using process_batch_inv [OF sp st n inv _ True] reply_batch_inv [OF inv] result_inv_same [OF inv]
      by (cases "ea_phase a") (auto simp: handleCommandBatched_def)
  next
    case False
    have "ea_phase a = phaseFlushing \<or> ea_phase a = phaseReplying \<Longrightarrow> batchEnabled a"
      using inv by (auto simp: actor_inv_def phase_inv_def)
    with w CommandMessage False show ?thesis
      using process_direct_inv [OF sp st n inv _ False] reply_direct_inv [OF inv] result_inv_same [OF inv]
      by (cases "ea_phase a") auto
  qed
qed (use msg in \<open>simp_all add: flush_tick_inv [OF inv] result_inv_same [OF inv]\<close>)

end
