(* ===== verification/ES_Correct.thy ===== *)
theory ES_Correct
  imports ES_Invariant
begin

text \<open>
  An event-sourced entity never drifts from its stores.  Over any events store and any snapshot store
  that keep their contracts, in every run of the entity (commands one at a time or in batches, failed
  and lost writes, snapshots, retention, restarts) recovering from the stores gives back the state the
  actor answers with, and what is published is what was committed.
\<close>

section \<open>The invariant of a run\<close>

locale es_stores = ev: events_store es einv journal revision + sn: snapshot_store ss sinv snaps
  for es :: "'s EventsStore" and einv :: "'s \<Rightarrow> bool" and journal :: "'s \<Rightarrow> Scope \<Rightarrow> string \<Rightarrow> u64 \<rightharpoonup> Event"
    and revision :: "'s \<Rightarrow> Scope \<Rightarrow> string \<Rightarrow> u64 option"
    and ss :: "'t SnapshotStoreApi" and sinv :: "'t \<Rightarrow> bool" and snaps :: "'t \<Rightarrow> Scope \<Rightarrow> string \<Rightarrow> u64 \<rightharpoonup> Snapshot"
begin

abbreviation journal_at :: "('m, 's, 't) Actor \<Rightarrow> 's \<Rightarrow> u64 \<rightharpoonup> Event" where
  "journal_at a0 db \<equiv> journal db (ea_scope a0) (ea_persistenceID a0)"

abbreviation snaps_at :: "('m, 's, 't) Actor \<Rightarrow> 't \<Rightarrow> u64 \<rightharpoonup> Snapshot" where
  "snaps_at a0 sdb \<equiv> snaps sdb (ea_scope a0) (ea_persistenceID a0)"

definition stores_inv :: "'m runtime \<Rightarrow> ('m \<Rightarrow> bool) \<Rightarrow> ('m, 's, 't) Actor \<Rightarrow> 's \<Rightarrow> 't \<Rightarrow> Event list \<Rightarrow> 'm \<Rightarrow> bool" where
  "stores_inv rt St a0 db sdb hist st \<longleftrightarrow>
     einv db \<and> sinv sdb \<and> St st \<and> revision db (ea_scope a0) (ea_persistenceID a0) = revision_of hist
     \<and> (\<exists>d. holds_history rt a0 (journal_at a0 db) (snaps_at a0 sdb) hist d st)"

definition requests_inv :: "'m runtime \<Rightarrow> ('m \<Rightarrow> bool) \<Rightarrow> ('m, 's, 't) Actor \<Rightarrow> ('m, 's, 't) sys \<Rightarrow> Event list \<Rightarrow> bool" where
  "requests_inv rt St a0 s hist \<longleftrightarrow>
     list_all (snapreq_ok rt St a0 hist) (sy_snapshots s)
     \<and> list_all (\<lambda>r. retention_ok a0 r \<and> ea_snapshotStore a0 \<noteq> None
          \<and> (\<exists>k \<in> dom (snaps_at a0 (sy_sdb s)). ar_eventsCounter r \<le> k)) (sy_retentions s)"

definition sys_inv ::
    "'m runtime \<Rightarrow> ('m \<Rightarrow> bool) \<Rightarrow> ('m, 's, 't) Actor \<Rightarrow> nat \<Rightarrow> ('m, 's, 't) sys \<Rightarrow> Event list \<Rightarrow> 'm \<Rightarrow> bool" where
  "sys_inv rt St a0 n0 s hist st \<longleftrightarrow>
     stores_inv rt St a0 (sy_db s) (sy_sdb s) hist st \<and> requests_inv rt St a0 s hist
     \<and> responses (sy_stash s) = {#}
     \<and> n0 \<le> length hist \<and> sy_stream s = map (Pair eventsTopic) (drop n0 hist)
     \<and> (if sy_stopped s then sy_inflight s = None
        else actor_inv rt St a0 (sy_actor s) (sy_inflight s) (responses (sy_mailbox s)) hist st)"

text \<open>The actor as \<open>PreStart\<close> configures it, over these stores.\<close>

definition spawn_on :: "'m runtime \<Rightarrow> ('m \<Rightarrow> bool) \<Rightarrow> ('m \<Rightarrow> bool) \<Rightarrow> ('m, 's, 't) Actor \<Rightarrow> bool" where
  "spawn_on rt Ev St a0 \<longleftrightarrow>
     spawn_ok rt Ev St a0 \<and> ea_eventsStore a0 = Some es
     \<and> (ea_snapshotStore a0 = None \<or> ea_snapshotStore a0 = Some ss)
     \<and> ea_eventsCounter a0 = 0 \<and> ea_phase a0 = phaseProcessing \<and> ea_cachedStateAny a0 = None
     \<and> ea_batchEntries a0 = [] \<and> ea_batchBuffer a0 = [] \<and> \<not> ea_snapshotsWriter a0"

lemma stores_invD:
  assumes "stores_inv rt St a0 db sdb hist st"
  shows "St st" "length hist < 2 ^ 63" "apply_events rt ctx a0 hist (initial_state a0) = Inr st"
  using assms by (auto simp: stores_inv_def holds_history_def history_ok_def)

lemma recovered_inv:
  assumes "spawn_on rt Ev St a0" and "stores_inv rt St a0 db sdb hist st" and "recover rt ctx db sdb a0 = Inr a"
  shows "a = a0\<lparr>ea_currentState := st, ea_eventsCounter := of_nat (length hist)\<rparr>
    \<and> actor_inv rt St a0 a None {#} hist st"
proof -
  from assms obtain d where "a = a0\<lparr>ea_currentState := st, ea_eventsCounter := of_nat (length hist)\<rparr>"
    using recover_sound [OF ev.events_store_axioms sn.snapshot_store_axioms, where rt = rt and ctx = ctx]
    unfolding stores_inv_def spawn_on_def spawn_ok_def by blast
  with assms(1) show ?thesis
    by (simp add: spawn_on_def actor_inv_def cache_ok_def phase_inv_def settled_def batch_inv_def)
qed

section \<open>Every step keeps it\<close>

lemma sys_inv_arrive:
  "sys_inv rt St a0 n0 s hist st \<Longrightarrow> external (it_message it) \<Longrightarrow>
     sys_inv rt St a0 n0 (s\<lparr>sy_mailbox := sy_mailbox s @ [it]\<rparr>) hist st"
  by (simp add: sys_inv_def requests_inv_def)

lemma sys_inv_turn:
  assumes sp: "spawn_on rt Ev St a0" and rq: "requeue_all rq" and inv: "sys_inv rt St a0 n0 s hist st"
    and s: "\<not> sy_stopped s" "sy_mailbox s = it # rest"
    and w: "within_counter (sy_actor s) (Receive rt tn (it_message it) (sy_actor s))"
  shows "sys_inv rt St a0 n0 (take_turn rt rq tn it rest s) hist st"
proof -
  let ?a = "sy_actor s"
  obtain a' effs where r: "Receive rt tn (it_message it) ?a = (a', effs)" by fastforce
  from inv have st: "stores_inv rt St a0 (sy_db s) (sy_sdb s) hist st" by (simp add: sys_inv_def)
  from inv s have ai: "actor_inv rt St a0 ?a (sy_inflight s) (response_of it + responses rest) hist st"
    by (simp add: sys_inv_def)
  have "result_inv rt St a0 hist st (sy_inflight s) (responses rest) (a', effs)
      \<and> (Stash \<in> set effs \<longrightarrow> response_of it = {#})"
  proof (cases "\<exists>r. it_message it = PersistEventsResponse r")
    case True
    then obtain x where x: "it_message it = PersistEventsResponse x" ..
    then have "response_of it = {#x#}" by (simp add: response_of_def)
    with ai have "actor_inv rt St a0 ?a (sy_inflight s) (add_mset x (responses rest)) hist st" by simp
    with direct_response_inv [where St = St and st = st, OF stores_invD(1,2) [OF st] stores_invD(3) [OF st] this]
      batch_response_inv [where St = St and st = st, OF stores_invD(1,2) [OF st] stores_invD(3) [OF st] this]
    show ?thesis using r x by (cases "batchEnabled ?a") auto
  next
    case False
    then have no: "response_of it = {#}" by (auto simp: response_of_def split: message.splits)
    with ai have "actor_inv rt St a0 ?a (sy_inflight s) (responses rest) hist st" by simp
    moreover from sp have "spawn_ok rt Ev St a0" by (simp add: spawn_on_def)
    ultimately have "result_inv rt St a0 hist st (sy_inflight s) (responses rest) (Receive rt tn (it_message it) ?a)"
      using receive_inv [where St = St and st = st, OF _ stores_invD(1,2) [OF st] _ w] False by blast
    with r no show ?thesis by simp
  qed
  then have res: "list_all (snapreq_ok rt St a0 hist) (told effs)"
    "if Shutdown \<in> set effs then piped effs = None \<and> sy_inflight s = None
     else actor_inv rt St a0 a' (case piped effs of Some r \<Rightarrow> Some r | None \<Rightarrow> sy_inflight s) (responses rest) hist st"
    and stash: "Stash \<in> set effs \<Longrightarrow> response_of it = {#}"
    by (simp_all add: result_inv_def)
  from inv have "responses (sy_stash (s\<lparr>sy_actor := a', sy_mailbox := rest\<rparr>)) = {#}" by (simp add: sys_inv_def)
  note R = perform_all_responses [where rq = rq, OF rq stash this]
  show ?thesis
    using inv res R s(1) unfolding take_turn_def r sys_inv_def requests_inv_def
    by (simp add: perform_all_facts cong: option.case_cong)
qed

text \<open>The three ways a write in flight is answered.\<close>

lemma inflight_answered:
  assumes "actor_inv rt St a0 a (Some req) R hist st"
  obtains st' n' where "R = {#}" "pq_scope req = ea_scope a0" "pq_topic req = eventsTopic"
    "extends rt St a0 hist st (pq_envelopes req) st' n'"
    "actor_inv rt St a0 a None {#None#} (hist @ pq_envelopes req) st'"
    "\<forall>err. actor_inv rt St a0 a None {#Some err#} hist st"
    "\<forall>err. errors_As_conflict err = None \<longrightarrow> actor_inv rt St a0 a None {#Some err#} (hist @ pq_envelopes req) st'"
proof (cases "ea_phase a")
  case phasePersisting
  with assms show thesis
    by (intro that [of "ea_directPendingState a" "ea_directPendingCounter a"])
      (auto simp: actor_inv_def phase_inv_def write_inv_def extends_def)
next
  case phaseFlushing
  with assms show thesis
    by (intro that [of "ea_batchState a" "ea_batchCounter a"])
      (auto simp: actor_inv_def phase_inv_def write_inv_def extends_def)
qed (use assms in \<open>auto simp: actor_inv_def phase_inv_def\<close>)

lemma writer_stores:
  assumes sp: "spawn_on rt Ev St a0" and inv: "stores_inv rt St a0 (sy_db s) sdb hist st"
    and req: "pq_scope req = ea_scope a0" "pq_topic req = eventsTopic"
      "extends rt St a0 hist st (pq_envelopes req) st' n'"
    and w: "writer_turn es req s = (resp, s')"
  shows "\<exists>db' pub. s' = s\<lparr>sy_db := db', sy_stream := sy_stream s @ pub\<rparr>
    \<and> (case resp of
         None \<Rightarrow> stores_inv rt St a0 db' sdb (hist @ pq_envelopes req) st' \<and> pub = map (Pair eventsTopic) (pq_envelopes req)
       | Some _ \<Rightarrow> stores_inv rt St a0 db' sdb hist st \<and> pub = [])"
proof -
  let ?envs = "pq_envelopes req"
  obtain r db' where wr: "WriteEvents es (ea_scope a0) ?envs (pq_precondition req) (sy_db s) = (r, db')" by fastforce
  from inv obtain d where h: "holds_history rt a0 (journal_at a0 (sy_db s)) (snaps_at a0 sdb) hist d st"
    and i: "einv (sy_db s)" "sinv sdb" "revision (sy_db s) (ea_scope a0) (ea_persistenceID a0) = revision_of hist"
    by (auto simp: stores_inv_def)
  from sp have sc: "wf_scope (ea_scope a0)" by (simp add: spawn_on_def spawn_ok_def)
  from req(3) have plain: "list_all plain_event ?envs" by (simp add: extends_def)
  from req(3) have x: "?envs \<noteq> []" "continues (ea_persistenceID a0) hist ?envs" "St st'"
    "\<And>ctx. apply_events rt ctx a0 ?envs st = Inr st'"
    "ea_tenantAware a0 \<Longrightarrow> \<forall>e \<in> set ?envs. ev_tenant_metadata e = tenancy_MarshalMetadata (ea_actorTenant a0)"
    by (simp_all add: extends_def)
  from x(2) have pids: "\<forall>e \<in> set ?envs. ev_persistence_id e = ea_persistenceID a0"
    by (auto simp: continues_def in_set_conv_nth)
  from h have fresh: "fresh_events (journal_at a0 (sy_db s)) ?envs"
    using continues_fresh [OF x(2)] by (simp add: holds_history_def)
  show ?thesis
  proof (cases r)
    case None
    with w wr req have "resp = None" "s' = s\<lparr>sy_db := db', sy_stream := sy_stream s @ map (Pair eventsTopic) ?envs\<rparr>"
      by (auto simp: writer_turn_def handlePersistEvents_def)
    moreover have "stores_inv rt St a0 db' sdb (hist @ ?envs) st'"
      using ev.write_ok [OF i(1) sc x(1) pids plain wr [unfolded None]] fresh holds_write [OF h x(2,4,5)] i(2,3) x(3)
        rev_advance_continues [OF x(2,1)]
      by (auto simp: stores_inv_def)
    ultimately show ?thesis by auto
  next
    case (Some err)
    with w wr req have "resp = Some err" "s' = s\<lparr>sy_db := db', sy_stream := sy_stream s @ []\<rparr>"
      by (auto simp: writer_turn_def handlePersistEvents_def)
    moreover have "stores_inv rt St a0 db' sdb hist st"
      using ev.write_err [OF i(1) wr [unfolded Some]] inv by (auto simp: stores_inv_def)
    ultimately show ?thesis by auto
  qed
qed

lemma requests_inv_extend:
  "requests_inv rt St a0 s hist \<Longrightarrow> sy_snapshots s' = sy_snapshots s \<Longrightarrow> sy_retentions s' = sy_retentions s \<Longrightarrow>
     sy_sdb s' = sy_sdb s \<Longrightarrow> requests_inv rt St a0 s' (hist @ envs)"
  by (auto simp: requests_inv_def list_all_iff snapreq_ok_extend)

lemma sys_inv_write:
  assumes sp: "spawn_on rt Ev St a0" and inv: "sys_inv rt St a0 n0 s hist st" and infl: "sy_inflight s = Some req"
    and w: "writer_turn es req s = (resp, s')"
    and r: "r = resp \<or> (\<exists>err. r = Some err \<and> errors_As_conflict err = None)"
  shows "\<exists>envs st'. sys_inv rt St a0 n0 (post_response r s') (hist @ envs) st'"
proof -
  from inv infl have run: "\<not> sy_stopped s"
    "actor_inv rt St a0 (sy_actor s) (Some req) (responses (sy_mailbox s)) hist st"
    by (auto simp: sys_inv_def split: if_splits)
  from run(2) obtain st' n' where q: "responses (sy_mailbox s) = {#}" "pq_scope req = ea_scope a0" "pq_topic req = eventsTopic"
    "extends rt St a0 hist st (pq_envelopes req) st' n'"
    and a: "actor_inv rt St a0 (sy_actor s) None {#None#} (hist @ pq_envelopes req) st'"
    "\<forall>err. actor_inv rt St a0 (sy_actor s) None {#Some err#} hist st"
    "\<forall>err. errors_As_conflict err = None \<longrightarrow>
       actor_inv rt St a0 (sy_actor s) None {#Some err#} (hist @ pq_envelopes req) st'"
    by (rule inflight_answered)
  from inv have si: "stores_inv rt St a0 (sy_db s) (sy_sdb s) hist st" and ri: "requests_inv rt St a0 s hist"
    by (simp_all add: sys_inv_def)
  from writer_stores [OF sp si q(2,3,4) w] obtain db' pub where
    s': "s' = s\<lparr>sy_db := db', sy_stream := sy_stream s @ pub\<rparr>"
    and c: "case resp of
         None \<Rightarrow> stores_inv rt St a0 db' (sy_sdb s) (hist @ pq_envelopes req) st' \<and> pub = map (Pair eventsTopic) (pq_envelopes req)
       | Some _ \<Rightarrow> stores_inv rt St a0 db' (sy_sdb s) hist st \<and> pub = []"
    by blast
  show ?thesis
  proof (cases resp)
    case None
    with c inv run(1) q(1) s' a r
    have "sys_inv rt St a0 n0 (post_response r s') (hist @ pq_envelopes req) st'"
      using requests_inv_extend [OF ri, of "post_response r s'"] by (auto simp: sys_inv_def post_response_def)
    then show ?thesis by blast
  next
    case (Some e)
    with c inv run(1) q(1) s' a(2) r have "sys_inv rt St a0 n0 (post_response r s') hist st"
      using requests_inv_extend [OF ri, of "post_response r s'" "[]"] by (auto simp: sys_inv_def post_response_def)
    then show ?thesis by (intro exI [of _ "[]"]) auto
  qed
qed

lemma sys_inv_unsent:
  assumes inv: "sys_inv rt St a0 n0 s hist st" and infl: "sy_inflight s = Some req"
  shows "sys_inv rt St a0 n0 (post_response (Some err) s) hist st"
proof -
  from inv infl have run: "\<not> sy_stopped s"
    "actor_inv rt St a0 (sy_actor s) (Some req) (responses (sy_mailbox s)) hist st"
    by (auto simp: sys_inv_def split: if_splits)
  from run(2) have "responses (sy_mailbox s) = {#}" "actor_inv rt St a0 (sy_actor s) None {#Some err#} hist st"
    by (rule inflight_answered, blast)+
  with inv run(1) show ?thesis by (simp add: sys_inv_def requests_inv_def post_response_def)
qed

text \<open>The snapshots writer adds at most a snapshot the history goes through, and retention follows it.\<close>

lemma snapshot_stores:
  assumes sp: "spawn_on rt Ev St a0" and si: "stores_inv rt St a0 db sdb hist st" and ok: "snapreq_ok rt St a0 hist req"
    and h: "handlePersistSnapshot rt ctx rnd wait (Some ss) (ea_encryptor a0) req sdb = (sdb', fwd)"
  shows "stores_inv rt St a0 db sdb' hist st \<and> dom (snaps_at a0 sdb) \<subseteq> dom (snaps_at a0 sdb')
    \<and> (\<forall>r. fwd = Some r \<longrightarrow> retention_ok a0 r \<and> ar_eventsCounter r \<in> dom (snaps_at a0 sdb'))"
proof (cases "seal_snapshot rt ctx rnd (ea_encryptor a0) (ps_snapshot req)")
  case (Inl e)
  with h si show ?thesis by (simp add: handlePersistSnapshot_def)
next
  case (Inr sn')
  let ?sc = "ea_scope a0" and ?pid = "ea_persistenceID a0"
  from sp have app: "app_ok rt Ev St a0" and sc: "wf_scope ?sc" by (simp_all add: spawn_on_def spawn_ok_def)
  from si obtain d where hh: "holds_history rt a0 (journal_at a0 db) (snaps_at a0 sdb) hist d st"
    and i: "sinv sdb" by (auto simp: stores_inv_def)
  obtain res x where x: "retryWithBackoff wait defaultMaxRetries (WriteSnapshot ss ?sc sn') sdb = (res, x)"
    by fastforce
  from ok obtain sst where sst: "St sst" "sn_state (ps_snapshot req) = any_New (rt_any rt) sst"
    "\<And>ctx. apply_events rt ctx a0 (take (unat (sn_sequence_number (ps_snapshot req))) hist) (initial_state a0) = Inr sst"
    by (auto simp: snapreq_ok_def Let_def)
  from ok have so: "snapshot_of rt a0 hist sn' \<and> sn_sequence_number sn' = sn_sequence_number (ps_snapshot req)
      \<and> sn_persistence_id sn' = ?pid"
    by (intro sealed_snapshot_of [OF app sst(1,3) _ _ sst(2) _ _ Inr]) (simp_all add: snapreq_ok_def Let_def)
  from ok have req: "ps_scope req = ?sc" "\<And>r. ps_retentionReq req = Some r \<Longrightarrow>
      retention_ok a0 r \<and> ar_eventsCounter r = sn_sequence_number sn'"
    using so by (auto simp: snapreq_ok_def Let_def)
  note written = retry_WriteSnapshot [OF sn.snapshot_store_axioms i sc x]
  show ?thesis
  proof (cases res)
    case None
    with written so have snaps': "sinv sdb'" "snaps_at a0 sdb' = (snaps_at a0 sdb)(sn_sequence_number sn' \<mapsto> sn')"
      and "\<And>r. fwd = Some r \<Longrightarrow> ps_retentionReq req = Some r"
      using h Inr x req(1) by (auto simp: handlePersistSnapshot_def split: if_splits)
    with si holds_snapshot [OF hh conjunct1 [OF so]] req(2) show ?thesis by (auto simp: stores_inv_def)
  next
    case (Some e)
    with written si h Inr x req(1) show ?thesis by (auto simp: handlePersistSnapshot_def stores_inv_def)
  qed
qed

lemma sys_inv_snapshot:
  assumes sp: "spawn_on rt Ev St a0" and inv: "sys_inv rt St a0 n0 s hist st" and s: "sy_snapshots s = req # reqs"
    and h: "handlePersistSnapshot rt ctx rnd wait (Some ss) (ea_encryptor a0) req (sy_sdb s) = (sdb', fwd)"
  shows "sys_inv rt St a0 n0 (s\<lparr>sy_snapshots := reqs, sy_sdb := sdb',
     sy_retentions := sy_retentions s @ (case fwd of Some r \<Rightarrow> [r] | None \<Rightarrow> [])\<rparr>) hist st"
proof -
  from inv s have si: "stores_inv rt St a0 (sy_db s) (sy_sdb s) hist st" and ri: "requests_inv rt St a0 s hist"
    and ok: "snapreq_ok rt St a0 hist req" by (simp_all add: sys_inv_def requests_inv_def)
  from snapshot_stores [OF sp si ok h] have stores: "stores_inv rt St a0 (sy_db s) sdb' hist st"
    and kept: "\<And>c. \<exists>k \<in> dom (snaps_at a0 (sy_sdb s)). c \<le> k \<Longrightarrow> \<exists>k \<in> dom (snaps_at a0 sdb'). c \<le> k"
    and new: "\<And>r. fwd = Some r \<Longrightarrow> retention_ok a0 r \<and> (\<exists>k \<in> dom (snaps_at a0 sdb'). ar_eventsCounter r \<le> k)"
    by blast+
  from ok have "ea_snapshotStore a0 \<noteq> None" by (simp add: snapreq_ok_def)
  with ri s kept new have "requests_inv rt St a0 (s\<lparr>sy_snapshots := reqs, sy_sdb := sdb',
     sy_retentions := sy_retentions s @ (case fwd of Some r \<Rightarrow> [r] | None \<Rightarrow> [])\<rparr>) hist"
    by (cases fwd) (simp_all add: requests_inv_def list_all_iff)
  with inv stores show ?thesis by (simp add: sys_inv_def)
qed

lemma sys_inv_retain:
  assumes sp: "spawn_on rt Ev St a0" and inv: "sys_inv rt St a0 n0 s hist st" and s: "sy_retentions s = req # reqs"
    and h: "handleApplyRetention w1 w2 es (Some ss) req (sy_db s, sy_sdb s) = (db', sdb')"
  shows "sys_inv rt St a0 n0 (s\<lparr>sy_retentions := reqs, sy_db := db', sy_sdb := sdb'\<rparr>) hist st"
proof -
  from inv have si: "stores_inv rt St a0 (sy_db s) (sy_sdb s) hist st" and ri: "requests_inv rt St a0 s hist"
    by (simp_all add: sys_inv_def)
  from ri s have r: "retention_ok a0 req" "ea_snapshotStore a0 \<noteq> None"
    and "\<exists>k0 \<in> dom (snaps_at a0 (sy_sdb s)). ar_eventsCounter req \<le> k0"
    by (simp_all add: requests_inv_def)
  then obtain k0 where k0: "k0 \<in> dom (snaps_at a0 (sy_sdb s))" "ar_eventsCounter req \<le> k0" by blast
  from sp r(2) have sc: "wf_scope (ea_scope a0)" "ea_snapshotStore a0 = Some ss"
    by (auto simp: spawn_on_def spawn_ok_def)
  from si obtain d where hh: "holds_history rt a0 (journal_at a0 (sy_db s)) (snaps_at a0 (sy_sdb s)) hist d st"
    and i: "einv (sy_db s)" "sinv (sy_sdb s)" by (auto simp: stores_inv_def)
  note H = holds_retention [OF ev.events_store_axioms sn.snapshot_store_axioms i sc hh _ _ _ k0 h]
  from r(1) H have post: "stores_inv rt St a0 db' sdb' hist st"
    "\<And>k. k \<in> dom (snaps_at a0 (sy_sdb s)) \<Longrightarrow> k0 \<le> k \<Longrightarrow> k \<in> dom (snaps_at a0 sdb')"
    using si by (auto simp: stores_inv_def retention_ok_def)
  have "\<exists>k' \<in> dom (snaps_at a0 sdb'). c \<le> k'" if "\<exists>k \<in> dom (snaps_at a0 (sy_sdb s)). c \<le> k" for c
    using that post(2) k0(1) by (meson linear order_trans)
  with inv ri s post(1) show ?thesis by (simp add: sys_inv_def requests_inv_def list_all_iff)
qed

lemma sys_inv_restart:
  assumes "spawn_on rt Ev St a0" and "sys_inv rt St a0 n0 s hist st" and "sy_stopped s"
    and "recover rt ctx (sy_db s) (sy_sdb s) a0 = Inr a"
  shows "sys_inv rt St a0 n0
     (s\<lparr>sy_actor := a, sy_mailbox := [\<lparr>it_id = 0, it_ctx = context_Background, it_message = PostStart shard\<rparr>],
        sy_stash := [], sy_snapshots := [], sy_retentions := [], sy_stopped := False\<rparr>) hist st"
  using assms recovered_inv [OF assms(1) _ assms(4)]
  by (simp add: sys_inv_def requests_inv_def response_of_def)

lemma sys_inv_step:
  assumes sp: "spawn_on rt Ev St a0" and rq: "requeue_all rq"
    and "es_step rt rq es ss a0 s s'" and inv: "sys_inv rt St a0 n0 s hist st"
  shows "\<exists>envs st'. sys_inv rt St a0 n0 s' (hist @ envs) st'"
proof -
  have same: ?thesis if "sys_inv rt St a0 n0 s' hist st"
    using that by (intro exI [of _ "[]"]) auto
  from assms(3) show ?thesis
  proof cases
    case arrive then show ?thesis using sys_inv_arrive [OF inv] same by blast
  next
    case turn then show ?thesis using sys_inv_turn [OF sp rq inv] same by blast
  next
    case commit then show ?thesis using sys_inv_write [OF sp inv] by blast
  next
    case write_lost then show ?thesis using sys_inv_write [OF sp inv] by blast
  next
    case write_unsent then show ?thesis using sys_inv_unsent [OF inv] same by blast
  next
    case snapshot then show ?thesis using sys_inv_snapshot [OF sp inv] same by blast
  next
    case retain then show ?thesis using sys_inv_retain [OF sp inv] same by blast
  next
    case crash
    with inv have "sys_inv rt St a0 n0 s' hist st" by (simp add: sys_inv_def requests_inv_def)
    then show ?thesis by (rule same)
  next
    case restart then show ?thesis using sys_inv_restart [OF sp inv] same by blast
  qed
qed

lemma sys_inv_init:
  assumes "spawn_on rt Ev St a0" and "stores_inv rt St a0 db sdb hist st" and "recover rt ctx db sdb a0 = Inr a"
  shows "sys_inv rt St a0 (length hist) (es_init a shard db sdb) hist st"
  using assms(2) conjunct2 [OF recovered_inv [OF assms]]
  by (simp add: sys_inv_def es_init_def requests_inv_def response_of_def)

lemma sys_inv_reach:
  assumes sp: "spawn_on rt Ev St a0" and rq: "requeue_all rq"
    and "es_reach rt rq es ss a0 s s'" and inv: "sys_inv rt St a0 n0 s hist st"
  shows "\<exists>envs st'. sys_inv rt St a0 n0 s' (hist @ envs) st'"
  using assms(3)
proof induction
  case start
  from inv show ?case by (intro exI [of _ "[]"]) auto
next
  case (step s1 s2)
  then obtain envs st' where "sys_inv rt St a0 n0 s1 (hist @ envs) st'" by blast
  from sys_inv_step [OF sp rq step(2) this] show ?case by auto
qed

end

end
