(* ===== verification/ES_Start.thy ===== *)
theory ES_Start
  imports ES_Correct
begin

text \<open>
  How an entity starts: what \<open>PreStart\<close> configures, and that a run from there keeps the invariant of
  \<open>es_stores\<close>.  The stores of the testkit are the instance.
\<close>

section \<open>Configuration\<close>

text \<open>\<open>PreStart\<close> up to the point where it validates the configuration and recovers.\<close>

definition configure ::
    "'m runtime \<Rightarrow> string \<Rightarrow> ('s, 't) es_registry \<Rightarrow> 'm EventSourced dependency list \<Rightarrow> ('m, 's, 't) Actor
       \<Rightarrow> goerr + ('m, 's, 't) Actor" where
  "configure rt name rg deps a =
     sum_bind (ext_Require (rt_print rt) name EventsStoreExtensionID (rg_eventsStore rg)) (\<lambda>store.
     sum_bind (ext_Require (rt_print rt) name EventsStreamExtensionID (rg_eventsStream rg)) (\<lambda>_.
     sum_bind
       (resolveScope deps
          (a\<lparr>ea_eventsStore := Some store, ea_persistenceID := name,
             ea_persistTimeout := defaultPersistTimeout, ea_tenantAware := rg_tenancy rg\<rparr>)) (\<lambda>a1.
     sum_bind (loadOptionalExtensions rt rg a1) (\<lambda>a2. Inr (setConfig deps a2)))))"

lemma PreStart_configure:
  "PreStart rt ctx name rg deps db sdb a =
     sum_bind (configure rt name rg deps a) (validateAndRecover rt ctx rg db sdb)"
  by (simp add: PreStart_def configure_def sum_bind_assoc)

text \<open>The fields a configuration leaves as they were.\<close>

definition config_frame :: "('m, 's, 't) Actor \<Rightarrow> ('m, 's, 't) Actor \<Rightarrow> bool" where
  "config_frame a b \<longleftrightarrow>
     ea_eventsCounter a = ea_eventsCounter b \<and> ea_phase a = ea_phase b \<and> ea_cachedStateAny a = ea_cachedStateAny b
     \<and> ea_batchEntries a = ea_batchEntries b \<and> ea_batchBuffer a = ea_batchBuffer b
     \<and> ea_snapshotsWriter a = ea_snapshotsWriter b"

lemma set_entity_config_frame:
  "config_frame (set_entity_config c a) a \<and> ea_eventsStore (set_entity_config c a) = ea_eventsStore a
   \<and> ea_snapshotStore (set_entity_config c a) = ea_snapshotStore a \<and> ea_scope (set_entity_config c a) = ea_scope a"
  by (simp add: set_entity_config_def Let_def config_frame_def)

lemma setConfig_frame:
  "config_frame (setConfig deps a) a \<and> ea_eventsStore (setConfig deps a) = ea_eventsStore a
   \<and> ea_snapshotStore (setConfig deps a) = ea_snapshotStore a \<and> ea_scope (setConfig deps a) = ea_scope a"
proof (induction deps a rule: setConfig.induct)
  case (2 dep deps a)
  with set_entity_config_frame show ?case
    by (cases dep) (simp_all add: config_frame_def)
qed (simp add: config_frame_def)

lemma resolveScope_frame:
  "resolveScope deps a = Inr a1 \<Longrightarrow>
     config_frame a1 a \<and> ea_eventsStore a1 = ea_eventsStore a \<and> ea_snapshotStore a1 = ea_snapshotStore a
     \<and> wf_scope (ea_scope a1)"
  using bind_tenant_scope_wf
  by (fastforce simp: resolveScope_def return_iffs config_frame_def split: if_splits)

lemma loadOptionalExtensions_frame:
  "loadOptionalExtensions rt rg a = Inr a1 \<Longrightarrow>
     config_frame a1 a \<and> ea_eventsStore a1 = ea_eventsStore a \<and> ea_scope a1 = ea_scope a
     \<and> ea_snapshotStore a1 = (case rg_snapshotStore rg of ExtPresent ss \<Rightarrow> Some ss | _ \<Rightarrow> ea_snapshotStore a)"
  by (auto simp: loadOptionalExtensions_def Let_def return_iffs ext_Optional_def config_frame_def
      split: ext_slot.splits option.splits)

lemma configure_fresh:
  assumes "configure rt name rg deps (newActor rt) = Inr a0"
  shows "\<exists>es. rg_eventsStore rg = ExtPresent es \<and> ea_eventsStore a0 = Some es
    \<and> ea_snapshotStore a0 = (case rg_snapshotStore rg of ExtPresent ss \<Rightarrow> Some ss | _ \<Rightarrow> None)
    \<and> wf_scope (ea_scope a0) \<and> config_frame a0 (newActor rt)"
proof -
  from assms obtain es a1 a2 where es: "ext_Require (rt_print rt) name EventsStoreExtensionID (rg_eventsStore rg) = Inr es"
    and a1: "resolveScope deps ((newActor rt)\<lparr>ea_eventsStore := Some es, ea_persistenceID := name,
             ea_persistTimeout := defaultPersistTimeout, ea_tenantAware := rg_tenancy rg\<rparr>) = Inr a1"
    and a2: "loadOptionalExtensions rt rg a1 = Inr a2" "a0 = setConfig deps a2"
    by (auto simp: configure_def return_iffs)
  from resolveScope_frame [OF a1] loadOptionalExtensions_frame [OF a2(1)] setConfig_frame [of deps a2] es
  show ?thesis
    by (auto simp: a2(2) config_frame_def newActor_def ext_Require_def split: ext_slot.splits)
qed

section \<open>A run from the start\<close>

text \<open>
  The setting: an engine with these stores registered, an entity configured to \<open>a0\<close>, and an
  application that keeps its duties; the entity is new to the stores.
\<close>

definition es_setting ::
    "'m runtime \<Rightarrow> ('m \<Rightarrow> bool) \<Rightarrow> ('m \<Rightarrow> bool) \<Rightarrow> 's EventsStore \<Rightarrow> 't SnapshotStoreApi \<Rightarrow> string
       \<Rightarrow> ('s, 't) es_registry \<Rightarrow> 'm EventSourced dependency list \<Rightarrow> ('m, 's, 't) Actor \<Rightarrow> bool" where
  "es_setting rt Ev St es ss name rg deps a0 \<longleftrightarrow>
     rg_eventsStore rg = ExtPresent es \<and> (rg_snapshotStore rg = ExtMissing \<or> rg_snapshotStore rg = ExtPresent ss)
     \<and> configure rt name rg deps (newActor rt) = Inr a0 \<and> app_ok rt Ev St a0"

definition fresh_entity ::
    "('s \<Rightarrow> Scope \<Rightarrow> string \<Rightarrow> u64 \<rightharpoonup> Event) \<Rightarrow> ('s \<Rightarrow> Scope \<Rightarrow> string \<Rightarrow> u64 option)
       \<Rightarrow> ('t \<Rightarrow> Scope \<Rightarrow> string \<Rightarrow> u64 \<rightharpoonup> Snapshot) \<Rightarrow> ('m, 's, 't) Actor \<Rightarrow> 's \<Rightarrow> 't \<Rightarrow> bool" where
  "fresh_entity journal revision snaps a0 db sdb \<longleftrightarrow>
     journal db (ea_scope a0) (ea_persistenceID a0) = Map.empty
     \<and> revision db (ea_scope a0) (ea_persistenceID a0) = None
     \<and> snaps sdb (ea_scope a0) (ea_persistenceID a0) = Map.empty"

lemma PreStart_recovers:
  "configure rt name rg deps (newActor rt) = Inr a0 \<Longrightarrow> PreStart rt ctx name rg deps db sdb (newActor rt) = Inr a \<Longrightarrow>
     recover rt ctx db sdb a0 = Inr a"
  by (auto simp: PreStart_configure validateAndRecover_def return_iffs split: if_splits)

context es_stores
begin

lemma setting_spawn:
  assumes "es_setting rt Ev St es ss name rg deps a0"
  shows "spawn_on rt Ev St a0"
  using assms configure_fresh [of rt name rg deps a0]
  by (auto simp: es_setting_def spawn_on_def spawn_ok_def config_frame_def newActor_def)

lemma run_inv:
  assumes set: "es_setting rt Ev St es ss name rg deps a0"
    and db: "einv db" "sinv sdb" "fresh_entity journal revision snaps a0 db sdb" and rq: "requeue_all rq"
    and start: "PreStart rt ctx name rg deps db sdb (newActor rt) = Inr a"
    and run: "es_reach rt rq es ss a0 (es_init a shard db sdb) s"
  shows "\<exists>hist st. sys_inv rt St a0 0 s hist st"
proof -
  note sp = setting_spawn [OF set]
  from sp have app: "app_ok rt Ev St a0" by (simp add: spawn_on_def spawn_ok_def)
  from set start have rec: "recover rt ctx db sdb a0 = Inr a" by (auto simp: es_setting_def intro: PreStart_recovers)
  from app have "St (initial_state a0)" by (auto simp: app_ok_def behavior_ok_def initial_state_def)
  moreover have "holds_history rt a0 Map.empty Map.empty [] 0 (initial_state a0)"
    using app by (auto simp: holds_history_def history_ok_def journal_of_def app_ok_def)
  ultimately have "stores_inv rt St a0 db sdb [] (initial_state a0)"
    using db by (auto simp: stores_inv_def fresh_entity_def revision_of_def)
  from sys_inv_reach [OF sp rq run sys_inv_init [OF sp this rec]] show ?thesis by auto
qed

text \<open>What a restart recovers is the state of the committed history, which a quiet actor has.\<close>

lemma restart_recovers:
  assumes "es_setting rt Ev St es ss name rg deps a0" and "sys_inv rt St a0 n0 s hist st"
    and "PreStart rt ctx name rg deps (sy_db s) (sy_sdb s) (newActor rt) = Inr a"
  shows "a = a0\<lparr>ea_currentState := st, ea_eventsCounter := of_nat (length hist)\<rparr>"
proof -
  from assms(1,3) have "recover rt ctx (sy_db s) (sy_sdb s) a0 = Inr a"
    by (auto simp: es_setting_def intro: PreStart_recovers)
  moreover from assms(2) have "stores_inv rt St a0 (sy_db s) (sy_sdb s) hist st" by (simp add: sys_inv_def)
  ultimately show ?thesis using recovered_inv [OF setting_spawn [OF assms(1)]] by blast
qed

lemma quiet_settled:
  "sys_inv rt St a0 n0 s hist st \<Longrightarrow> \<not> sy_stopped s \<Longrightarrow> ea_phase (sy_actor s) = phaseProcessing \<Longrightarrow>
     settled (sy_actor s) hist st"
  by (simp add: sys_inv_def actor_inv_def phase_inv_def)

end

interpretation esk: es_stores testkit_EventsStore es_ok es_journal es_revision testkit_SnapshotStore sst_ok sst_snaps
  by unfold_locales

end
