(* ===== verification/ES_Sample.thy ===== *)
theory ES_Sample
  imports ES_Start
begin

text \<open>
  A run to read the theorems on: an entity that appends the texts it is sent, over the stores of the
  testkit, takes a command, writes its event and is about to answer it.
\<close>

section \<open>An application\<close>

lemma frame_codec_ok: "codec_ok (\<lambda>_. True) (\<lambda>_. True) initial frame_codec"
  by (auto simp: codec_ok_def frame_codec_def text_codec_def takeWhile_replicate_stop)

definition text_behavior :: "string EventSourced" where
  "text_behavior =
     \<lparr>bh_ID = ''text-1'', bh_InitialState = '''',
      bh_HandleCommand = (\<lambda>ctx cmd st. Inr (if cmd = '''' then [] else [cmd])),
      bh_HandleEvent = (\<lambda>ctx e st. Inr (st @ e)), bh_HandleEnvelope = None\<rparr>"

definition text_rt :: "string runtime" where
  "text_rt = \<lparr>rt_any = frame_codec, rt_time = sample_codec, rt_print = (\<lambda>_. True), rt_nil = ''nil'',
     rt_name = (\<lambda>_. text_url), rt_newErr = (\<lambda>_. ErrNew ''proto: invalid nil source message'')\<rparr>"

definition text_rg :: "bool \<Rightarrow> (EventStore, SnapshotStore) es_registry" where
  "text_rg tenancy =
     \<lparr>rg_eventsStore = ExtPresent testkit_EventsStore, rg_eventsStream = ExtPresent (),
      rg_snapshotStore = ExtPresent testkit_SnapshotStore, rg_eventAdapters = ExtMissing,
      rg_encryptor = ExtMissing, rg_telemetry = ExtMissing, rg_tenancy = tenancy,
      rg_pingEvents = None, rg_pingSnapshots = None\<rparr>"

definition text_spawned :: "(string, EventStore, SnapshotStore) Actor" where
  "text_spawned = (newActor text_rt)\<lparr>ea_eventsStore := Some testkit_EventsStore, ea_persistenceID := ''text-1'',
     ea_persistTimeout := defaultPersistTimeout, ea_tenantAware := False, ea_scope := Unscoped,
     ea_snapshotStore := Some testkit_SnapshotStore, ea_behavior := Some text_behavior\<rparr>"

lemma text_setting:
  "es_setting text_rt (\<lambda>_. True) (\<lambda>_. True) testkit_EventsStore testkit_SnapshotStore ''text-1'' (text_rg False)
     [DepBehavior text_behavior] text_spawned"
  using frame_codec_ok
  by (auto simp: es_setting_def text_rg_def configure_def ext_Require_def resolveScope_def bind_tenant_scope_def
      loadOptionalExtensions_def ext_Optional_def text_spawned_def newActor_def app_ok_def behavior_ok_def
      text_behavior_def adapters_ok_def text_rt_def)

lemma text_fresh: "fresh_entity es_journal es_revision sst_snaps a0 NewEventsStore NewSnapshotStore"
  by (auto simp: fresh_entity_def es_journal_def es_revision_def es_record_def sst_snaps_def NewEventsStore_def
      NewSnapshotStore_def fun_eq_iff)

lemma text_start:
  "PreStart text_rt context_Background ''text-1'' (text_rg False) [DepBehavior text_behavior] NewEventsStore
     NewSnapshotStore (newActor text_rt) = Inr (text_spawned\<lparr>ea_currentState := ''''\<rparr>)"
  using text_setting
  by (simp add: PreStart_configure es_setting_def validateAndRecover_def text_rg_def recover_def recoverFromSnapshot_def
      text_spawned_def testkit_SnapshotStore_def sst_GetLatestSnapshot_def NewSnapshotStore_def testkit_EventsStore_def
      es_GetLatestEvent_def NewEventsStore_def text_behavior_def)

section \<open>A run\<close>

definition next_turn :: "'m runtime \<Rightarrow> turn \<Rightarrow> ('m, 's, 't) sys \<Rightarrow> ('m, 's, 't) sys" where
  "next_turn rt tn s = take_turn rt (@) tn (hd (sy_mailbox s)) (tl (sy_mailbox s)) s"

definition next_write :: "'s EventsStore \<Rightarrow> ('m, 's, 't) sys \<Rightarrow> ('m, 's, 't) sys" where
  "next_write es s = (let (r, s') = writer_turn es (the (sy_inflight s)) s in post_response r s')"

lemma next_turn_step:
  "\<not> sy_stopped s \<Longrightarrow> sy_mailbox s \<noteq> [] \<Longrightarrow> tn_ctx tn = it_ctx (hd (sy_mailbox s)) \<Longrightarrow>
     within_counter (sy_actor s) (Receive rt tn (it_message (hd (sy_mailbox s))) (sy_actor s)) \<Longrightarrow>
     es_step rt (@) es ss a0 s (next_turn rt tn s)"
  unfolding next_turn_def by (intro es_step.turn) simp_all

lemma next_write_step: "sy_inflight s \<noteq> None \<Longrightarrow> es_step rt rq es ss a0 s (next_write es s)"
  by (auto simp: next_write_def split: prod.split intro: es_step.commit)

lemma requeue_append: "requeue_all (@)" "requeue_front (@)"
  by (simp_all add: requeue_all_def requeue_front_def)

definition text_turn :: turn where
  "text_turn = \<lparr>tn_ctx = context_Background, tn_gate = 1, tn_revision = 2, tn_dispatch = 3, tn_build = 4,
     tn_persist = 5, tn_random = (\<lambda>_. [])\<rparr>"

definition text_command :: "string item" where
  "text_command = \<lparr>it_id = 7, it_ctx = context_Background, it_message = CommandMessage ''hi''\<rparr>"

definition text_envelope :: Event where
  "text_envelope = \<lparr>ev_persistence_id = ''text-1'', ev_sequence_number = 1, ev_is_deleted = False,
     ev_event = Some \<lparr>any_type_url = text_url, any_value = ''hi''\<rparr>, ev_timestamp = 4, ev_shard = 9,
     ev_encryption_key_id = '''', ev_is_encrypted = False, ev_tenant_metadata = Map.empty\<rparr>"

definition text_init :: "(string, EventStore, SnapshotStore) sys" where
  "text_init = es_init (text_spawned\<lparr>ea_currentState := ''''\<rparr>) 9 NewEventsStore NewSnapshotStore"

definition text_arrived :: "(string, EventStore, SnapshotStore) sys" where
  "text_arrived = text_init\<lparr>sy_mailbox := sy_mailbox text_init @ [text_command]\<rparr>"

definition text_ready :: "(string, EventStore, SnapshotStore) sys" where
  "text_ready = next_turn text_rt text_turn text_arrived"

definition text_persisting :: "(string, EventStore, SnapshotStore) sys" where
  "text_persisting = next_turn text_rt text_turn text_ready"

definition text_written :: "(string, EventStore, SnapshotStore) sys" where
  "text_written = next_write testkit_EventsStore text_persisting"

definition text_replying :: "(string, EventStore, SnapshotStore) sys" where
  "text_replying = next_turn text_rt text_turn text_written"

lemma text_ready_eq:
  "text_ready = text_init\<lparr>sy_actor := text_spawned\<lparr>ea_currentState := '''', ea_shardNumber := 9, ea_eventsWriter := True,
      ea_snapshotsWriter := True\<rparr>, sy_mailbox := [text_command]\<rparr>"
  by (simp add: text_ready_def next_turn_def text_arrived_def text_init_def es_init_def take_turn_def spawnChildren_def
      text_spawned_def newActor_def)

definition text_request :: persistEventsRequest where
  "text_request = \<lparr>pq_envelopes = [text_envelope], pq_topic = eventsTopic, pq_precondition = Unconditional,
     pq_scope = Unscoped\<rparr>"

lemma text_process:
  "processCommandAndReply text_rt text_turn ''hi'' (sy_actor text_ready) =
     ((sy_actor text_ready)\<lparr>ea_directPendingState := ''hi'', ea_directPendingCounter := 1, ea_directPendingTime := 4,
        ea_directNumEvents := 1, ea_phase := phasePersisting\<rparr>, [Stash, PipeTo text_request])"
  by (simp add: processCommandAndReply_def text_ready_eq text_init_def es_init_def text_spawned_def newActor_def
      tenant_gate_def text_turn_def context_Background_def CheckDeadline_def dispatchToBehavior_def text_behavior_def
      buildEnvelopes_def marshalEvent_def seal_event_def verifyTenantForPersist_def persistAsync_def text_request_def
      text_envelope_def text_rt_def frame_codec_def text_codec_def establishActorTenant_def
      PreconditionFromRevision_def ExpectedRevisionFromContext_def MetadataFromContext_def CarrierFromContext_def
      time_UnixNano_def)

lemma text_ready_facts [simp]:
  "\<not> sy_stopped text_ready" "sy_mailbox text_ready = [text_command]" "sy_stash text_ready = []"
  "sy_db text_ready = NewEventsStore" "sy_sdb text_ready = NewSnapshotStore" "\<not> batchEnabled (sy_actor text_ready)"
  "ea_phase (sy_actor text_ready) = phaseProcessing" "ea_batchBuffer (sy_actor text_ready) = []"
  "ea_eventsCounter (sy_actor text_ready) = 0"
  by (simp_all add: text_ready_eq text_init_def es_init_def text_spawned_def newActor_def batchEnabled_def)

lemma text_command_facts [simp]:
  "it_message text_command = CommandMessage ''hi''" "it_ctx text_command = context_Background"
  "it_id text_command = 7" "tn_ctx text_turn = context_Background"
  by (simp_all add: text_command_def text_turn_def)

lemma text_persisting_eq:
  "text_persisting = text_ready\<lparr>sy_actor := (sy_actor text_ready)\<lparr>ea_directPendingState := ''hi'',
      ea_directPendingCounter := 1, ea_directPendingTime := 4, ea_directNumEvents := 1, ea_phase := phasePersisting\<rparr>,
      sy_mailbox := [], sy_stash := [text_command], sy_inflight := Some text_request\<rparr>"
  by (simp add: text_persisting_def next_turn_def take_turn_def text_process)

definition text_db :: EventStore where
  "text_db = snd (WriteEvents testkit_EventsStore Unscoped [text_envelope] Unconditional NewEventsStore)"

lemma text_write: "WriteEvents testkit_EventsStore Unscoped [text_envelope] Unconditional NewEventsStore = (None, text_db)"
proof -
  have "fst (the (es_WriteEvents Unscoped [text_envelope] Unconditional NewEventsStore)) = None"
    by (simp add: es_WriteEvents_def writeUnconditional_def Let_def wu_loop_eq)
  then show ?thesis by (simp add: text_db_def testkit_EventsStore_def prod_eq_iff)
qed

lemma text_written_eq:
  "text_written = text_persisting\<lparr>sy_db := text_db, sy_stream := [(eventsTopic, text_envelope)], sy_inflight := None,
      sy_mailbox := [response_item None]\<rparr>"
  by (simp add: text_written_def next_write_def writer_turn_def handlePersistEvents_def text_persisting_eq text_request_def
      text_write post_response_def text_ready_eq text_init_def es_init_def)

lemma text_replying_eq:
  "text_replying = text_written\<lparr>sy_actor := (sy_actor text_ready)\<lparr>ea_directPendingState := ''hi'',
      ea_directPendingCounter := 1, ea_directPendingTime := 4, ea_directNumEvents := 1, ea_eventsCounter := 1,
      ea_currentState := ''hi'', ea_cachedStateAny := Some \<lparr>any_type_url = text_url, any_value = ''hi''\<rparr>,
      ea_lastCommandTime := 4, ea_directErr := None, ea_phase := phaseDirectReplying\<rparr>,
      sy_mailbox := [text_command], sy_stash := []\<rparr>"
  by (simp add: text_replying_def next_turn_def take_turn_def text_written_eq response_item_def text_persisting_eq
      batchEnabled_def handleDirectPersistResponse_def triggerSnapshotAndRetention_def applyConfirmedState_def
      text_ready_eq text_init_def es_init_def text_spawned_def newActor_def text_rt_def frame_codec_def text_codec_def)

lemma text_run:
  "es_reach text_rt (@) testkit_EventsStore testkit_SnapshotStore text_spawned text_init text_ready"
  "es_reach text_rt (@) testkit_EventsStore testkit_SnapshotStore text_spawned text_init text_replying"
proof -
  let ?R = "es_reach text_rt (@) testkit_EventsStore testkit_SnapshotStore text_spawned text_init"
  have "?R text_arrived"
    unfolding text_arrived_def by (intro es_reach.step [OF es_reach.start] es_step.arrive) (simp add: external_def)
  then show ready: "?R text_ready"
    unfolding text_ready_def
    by (rule es_reach.step, intro next_turn_step)
      (simp_all add: text_arrived_def text_init_def es_init_def within_counter_def spawnChildren_def text_spawned_def
        newActor_def)
  then have "?R text_persisting"
    unfolding text_persisting_def
    by (rule es_reach.step, intro next_turn_step) (simp_all add: text_process within_counter_def text_request_def)
  then have "?R text_written"
    unfolding text_written_def
    by (rule es_reach.step, intro next_write_step) (simp add: text_persisting_eq)
  then show "?R text_replying"
    unfolding text_replying_def
    by (rule es_reach.step, intro next_turn_step)
      (simp_all add: text_written_eq text_persisting_eq response_item_def within_counter_def batchEnabled_def
        handleDirectPersistResponse_def triggerSnapshotAndRetention_def applyConfirmedState_def text_ready_eq
        text_init_def es_init_def text_spawned_def newActor_def)
qed

lemma text_snapshots_ok: "sst_ok NewSnapshotStore"
  by (simp add: sst_ok_def NewSnapshotStore_def)

end
