(* ===== verification/ES_Replies.thy ===== *)
theory ES_Replies
  imports ES_Sample
begin

text \<open>
  Which command gets which reply.  The actor answers the message it handles, and while a write is in
  flight the command that caused it waits in the stash; that it comes back first rests on the actor
  runtime, which puts stashed messages back in front of the mailbox in their order.
\<close>

section \<open>The command that waits\<close>

text \<open>A state and sequence number that are the outcome of the command of a message.\<close>

definition answers :: "'m runtime \<Rightarrow> ('m, 's, 't) Actor \<Rightarrow> 'm item \<Rightarrow> 'm \<Rightarrow> u64 \<Rightarrow> bool" where
  "answers rt a0 it st' n' \<longleftrightarrow>
     (\<exists>cmd tn a st n envs. it_message it = CommandMessage cmd \<and> tn_ctx tn = it_ctx it \<and> same_spawn a a0
        \<and> produces rt tn cmd a st n envs st' n')"

definition pending_inv :: "'m runtime \<Rightarrow> ('m, 's, 't) Actor \<Rightarrow> ('m, 's, 't) sys \<Rightarrow> bool" where
  "pending_inv rt a0 s =
     (case ea_phase (sy_actor s) of
        phaseProcessing \<Rightarrow> sy_stash s = []
      | phasePersisting \<Rightarrow>
          (\<exists>it its. sy_stash s = it # its
             \<and> answers rt a0 it (ea_directPendingState (sy_actor s)) (ea_directPendingCounter (sy_actor s)))
      | phaseDirectReplying \<Rightarrow>
          sy_stash s = []
          \<and> (\<exists>it its cmd. sy_mailbox s = it # its \<and> it_message it = CommandMessage cmd
               \<and> (ea_directErr (sy_actor s) = None \<longrightarrow>
                    answers rt a0 it (ea_currentState (sy_actor s)) (ea_eventsCounter (sy_actor s))))
      | _ \<Rightarrow> False)"

lemma pending_arrive: "pending_inv rt a0 s \<Longrightarrow> pending_inv rt a0 (s\<lparr>sy_mailbox := sy_mailbox s @ [it]\<rparr>)"
  by (auto simp: pending_inv_def split: persistPhase.splits)

lemma pending_requests:
  "pending_inv rt a0 s \<Longrightarrow> sy_actor s' = sy_actor s \<Longrightarrow> sy_stash s' = sy_stash s \<Longrightarrow> sy_mailbox s' = sy_mailbox s \<Longrightarrow>
     pending_inv rt a0 s'"
  by (simp add: pending_inv_def cong: persistPhase.case_cong)

lemma pending_post:
  "pending_inv rt a0 s \<Longrightarrow> pending_inv rt a0 (post_response r s)"
  "pending_inv rt a0 s \<Longrightarrow> writer_turn es req s = (resp, s') \<Longrightarrow> pending_inv rt a0 (post_response r s')"
  "writer_turn es req s = (resp, s') \<Longrightarrow> sy_stopped s' = sy_stopped s"
  "sy_stopped (post_response r s) = sy_stopped s"
  by (auto simp: pending_inv_def post_response_def writer_turn_def split: persistPhase.splits prod.splits)

text \<open>A handler that leaves the phase and what it depends on alone.\<close>

lemma pending_quiet:
  assumes "pending_inv rt a0 s" and "sy_mailbox s = it # rest" and "ea_phase (sy_actor s) \<noteq> phaseDirectReplying"
    and "sy_stash s' = sy_stash s \<or> sy_stash s' = sy_stash s @ [it] \<and> ea_phase (sy_actor s) = phasePersisting"
    and "ea_phase (sy_actor s') = ea_phase (sy_actor s)"
    and "ea_directPendingState (sy_actor s') = ea_directPendingState (sy_actor s)"
    and "ea_directPendingCounter (sy_actor s') = ea_directPendingCounter (sy_actor s)"
  shows "pending_inv rt a0 s'"
  using assms by (auto simp: pending_inv_def split: persistPhase.splits)

lemma trigger_fields:
  assumes "triggerSnapshotAndRetention rt a = (b, effs)"
  shows "ea_currentState b = ea_currentState a" "ea_eventsCounter b = ea_eventsCounter a"
    "Stash \<notin> set effs" "UnstashAll \<notin> set effs" "Shutdown \<notin> set effs"
  using assms
  by (auto simp: triggerSnapshotAndRetention_def snapshotAndRetain_def currentStateAny_eq Let_def split: if_splits)

lemma perform_all_append [simp]: "perform_all rq it (xs @ ys) s = perform_all rq it ys (perform_all rq it xs s)"
  by (simp add: perform_all_def)

text \<open>Effects that neither stash nor unstash leave both queues alone.\<close>

lemma perform_all_queues:
  "Stash \<notin> set effs \<Longrightarrow> UnstashAll \<notin> set effs \<Longrightarrow>
     sy_stash (perform_all rq it effs s) = sy_stash s \<and> sy_mailbox (perform_all rq it effs s) = sy_mailbox s"
proof (induction effs arbitrary: s)
  case (Cons e effs)
  then show ?case using Cons.IH [of "perform rq it e s"] by (cases e) auto
qed simp

lemma pending_response:
  assumes rq: "requeue_front rq" and p: "pending_inv rt a0 s" and ph: "ea_phase (sy_actor s) = phasePersisting"
    and r: "handleDirectPersistResponse rt resp (sy_actor s) = (a', effs)"
  shows "pending_inv rt a0 (perform_all rq it effs (s\<lparr>sy_actor := a', sy_mailbox := rest\<rparr>))"
proof -
  from p ph obtain w its where w: "sy_stash s = w # its"
    "answers rt a0 w (ea_directPendingState (sy_actor s)) (ea_directPendingCounter (sy_actor s))"
    by (auto simp: pending_inv_def)
  then obtain cmd where cmd: "it_message w = CommandMessage cmd" by (auto simp: answers_def)
  from rq have front: "rq x y = x @ y" for x y by (simp add: requeue_front_def)
  show ?thesis
  proof (cases resp)
    case (Some err)
    with r ph w cmd show ?thesis by (auto simp: handleDirectPersistResponse_def pending_inv_def front)
  next
    case None
    obtain b tells where b: "triggerSnapshotAndRetention rt (applyConfirmedState rt (ea_directPendingState (sy_actor s))
        (ea_directPendingCounter (sy_actor s)) (ea_directPendingTime (sy_actor s)) (sy_actor s)) = (b, tells)"
      by fastforce
    with None r ph have "a' = b\<lparr>ea_directErr := None, ea_phase := phaseDirectReplying\<rparr>" "effs = tells @ [UnstashAll]"
      by (simp_all add: handleDirectPersistResponse_def)
    with trigger_fields [OF b] w cmd
      perform_all_queues [of tells rq it "s\<lparr>sy_actor := a', sy_mailbox := rest\<rparr>"]
      perform_all_frame [of rq it tells "s\<lparr>sy_actor := a', sy_mailbox := rest\<rparr>"]
    show ?thesis by (auto simp: pending_inv_def front applyConfirmedState_def)
  qed
qed

lemma pending_reply:
  assumes rq: "requeue_front rq" and p: "pending_inv rt a0 s" and ph: "ea_phase (sy_actor s) = phaseDirectReplying"
    and r: "replyDirect rt (sy_actor s) = (a', effs)"
  shows "pending_inv rt a0 (perform_all rq it effs (s\<lparr>sy_actor := a', sy_mailbox := rest\<rparr>))"
  using p ph r
  by (auto simp: replyDirect_def pending_inv_def sendErrorReply_def sendStateReply_def currentStateAny_eq Let_def
      split: option.splits if_splits)

lemma pending_process:
  assumes sp: "same_spawn (sy_actor s) a0" "tenant_bound (sy_actor s)" and p: "pending_inv rt a0 s"
    and s: "sy_mailbox s = it # rest" "ea_phase (sy_actor s) = phaseProcessing"
    and it: "it_message it = CommandMessage cmd" "tn_ctx tn = it_ctx it"
    and r: "processCommandAndReply rt tn cmd (sy_actor s) = (a', effs)"
  shows "pending_inv rt a0 (perform_all rq it effs (s\<lparr>sy_actor := a', sy_mailbox := rest\<rparr>))"
  using sp(2) r
proof (cases rule: processCommandAndReply_cases)
  case (persist envs st n)
  then have "answers rt a0 it st n" unfolding answers_def using it sp(1) by blast
  with persist(2) p s show ?thesis by (simp add: persistAsync_def pending_inv_def)
qed (use p s in \<open>auto simp: pending_inv_def sendErrorReply_def sendStateReply_def currentStateAny_eq Let_def\<close>)

text \<open>The other messages, but for the response that is waited for.\<close>

lemma quiet_message:
  assumes "Receive rt tn msg a = (a', effs)" and "\<nexists>cmd. msg = CommandMessage cmd"
    and "\<not> batchEnabled a" "ea_batchEntries a = []"
    and "\<nexists>resp. msg = PersistEventsResponse resp \<and> ea_phase a = phasePersisting" and "ea_phase a \<noteq> phaseDirectReplying"
  shows "ea_phase a' = ea_phase a \<and> ea_directPendingState a' = ea_directPendingState a
    \<and> ea_directPendingCounter a' = ea_directPendingCounter a \<and> UnstashAll \<notin> set effs
    \<and> (Stash \<notin> set effs \<or> effs = [Stash] \<and> ea_phase a = phasePersisting)"
proof (cases msg)
  case GetStateCommand
  with assms(1,3,6) show ?thesis
    by (auto simp: handleGetStateCommand_def getStateAndReply_def sendErrorReply_def sendStateReply_def
        currentStateAny_eq Let_def split: if_splits sum.splits)
qed (use assms in \<open>auto simp: spawnChildren_def Let_def handleBatchFlushTick_def handleDirectPersistResponse_def
      split: if_splits\<close>)

section \<open>In a run\<close>

lemma pending_turn:
  assumes rq: "requeue_front rq" and sp: "same_spawn (sy_actor s) a0" "tenant_bound (sy_actor s)"
    and direct: "\<not> batchEnabled (sy_actor s)" "ea_batchEntries (sy_actor s) = []"
    and p: "pending_inv rt a0 s" and s: "sy_mailbox s = it # rest" "tn_ctx tn = it_ctx it"
  shows "pending_inv rt a0 (take_turn rt rq tn it rest s)"
proof -
  obtain a' effs where r: "Receive rt tn (it_message it) (sy_actor s) = (a', effs)" by fastforce
  let ?s' = "perform_all rq it effs (s\<lparr>sy_actor := a', sy_mailbox := rest\<rparr>)"
  have quiet: "pending_inv rt a0 ?s'"
    if "ea_phase (sy_actor s) \<noteq> phaseDirectReplying" "ea_phase a' = ea_phase (sy_actor s)"
      "ea_directPendingState a' = ea_directPendingState (sy_actor s)"
      "ea_directPendingCounter a' = ea_directPendingCounter (sy_actor s)" "UnstashAll \<notin> set effs"
      "Stash \<notin> set effs \<or> effs = [Stash] \<and> ea_phase (sy_actor s) = phasePersisting"
    by (rule pending_quiet [OF p s(1) that(1)])
      (use that in \<open>auto simp: perform_all_queues perform_all_frame\<close>)
  show ?thesis
  proof (cases "\<exists>cmd. it_message it = CommandMessage cmd")
    case True
    then obtain cmd where cmd: "it_message it = CommandMessage cmd" ..
    show ?thesis
    proof (cases "ea_phase (sy_actor s)")
      case phaseProcessing
      with r cmd direct(1) have "processCommandAndReply rt tn cmd (sy_actor s) = (a', effs)" by simp
      from pending_process [OF sp p s(1) phaseProcessing cmd s(2) this] show ?thesis by (simp add: take_turn_def r)
    next
      case phaseDirectReplying
      with r cmd direct(1) have "replyDirect rt (sy_actor s) = (a', effs)" by simp
      from pending_reply [OF rq p phaseDirectReplying this] show ?thesis by (simp add: take_turn_def r)
    next
      case phasePersisting
      with r cmd direct(1) have "a' = sy_actor s" "effs = [Stash]" by simp_all
      with quiet phasePersisting show ?thesis by (simp add: take_turn_def r)
    qed (use p in \<open>simp_all add: pending_inv_def\<close>)
  next
    case other: False
    with p s(1) have ph: "ea_phase (sy_actor s) \<noteq> phaseDirectReplying" by (auto simp: pending_inv_def)
    show ?thesis
    proof (cases "\<exists>resp. it_message it = PersistEventsResponse resp \<and> ea_phase (sy_actor s) = phasePersisting")
      case True
      then obtain resp where resp: "it_message it = PersistEventsResponse resp" "ea_phase (sy_actor s) = phasePersisting"
        by blast
      with r direct(1) have "handleDirectPersistResponse rt resp (sy_actor s) = (a', effs)" by simp
      from pending_response [OF rq p resp(2) this] show ?thesis by (simp add: take_turn_def r)
    next
      case False
      have "ea_phase a' = ea_phase (sy_actor s) \<and> ea_directPendingState a' = ea_directPendingState (sy_actor s)
          \<and> ea_directPendingCounter a' = ea_directPendingCounter (sy_actor s) \<and> UnstashAll \<notin> set effs
          \<and> (Stash \<notin> set effs \<or> effs = [Stash] \<and> ea_phase (sy_actor s) = phasePersisting)"
        by (rule quiet_message [OF r other direct False ph])
      with quiet [OF ph] show ?thesis by (simp add: take_turn_def r)
    qed
  qed
qed

context es_stores
begin

lemma pending_step:
  assumes sp: "spawn_on rt Ev St a0" and rq: "requeue_front rq" and direct: "\<not> batchEnabled a0"
    and inv: "sys_inv rt St a0 n0 s hist st" and p: "\<not> sy_stopped s \<Longrightarrow> pending_inv rt a0 s"
    and step: "es_step rt rq es ss a0 s s'" and run: "\<not> sy_stopped s'"
  shows "pending_inv rt a0 s'"
  using step
proof cases
  case (arrive it)
  with p run show ?thesis by (simp add: pending_arrive)
next
  case (turn it rest tn)
  with inv have ai: "actor_inv rt St a0 (sy_actor s) (sy_inflight s) (responses (sy_mailbox s)) hist st"
    by (simp add: sys_inv_def)
  then have ss: "same_spawn (sy_actor s) a0" by (simp add: actor_inv_def)
  with sp have "tenant_bound (sy_actor s)" by (auto simp: spawn_on_def intro: spawn_ok_bound)
  moreover from direct ss have "\<not> batchEnabled (sy_actor s)" by (simp add: same_spawn_def batchEnabled_def)
  moreover from ai this have "ea_batchEntries (sy_actor s) = []" by (simp add: actor_inv_def)
  ultimately show ?thesis unfolding turn(1) by (rule pending_turn [OF rq ss _ _ _ p [OF turn(2)] turn(3,4)])
next
  case (commit req resp s1)
  have "pending_inv rt a0 s" using p run commit(1) pending_post(3) [OF commit(3)] by (simp add: pending_post(4))
  from pending_post(2) [OF this commit(3)] show ?thesis by (simp add: commit(1))
next
  case (write_lost req resp s1 err)
  have "pending_inv rt a0 s" using p run write_lost(1) pending_post(3) [OF write_lost(3)] by (simp add: pending_post(4))
  from pending_post(2) [OF this write_lost(3)] show ?thesis by (simp add: write_lost(1))
next
  case (write_unsent req err)
  with p run show ?thesis by (simp add: pending_post(1,4))
next
  case (snapshot req reqs ctx rnd wait sdb' fwd)
  from p run have "pending_inv rt a0 s" by (simp add: snapshot(1))
  then show ?thesis by (rule pending_requests) (simp_all add: snapshot(1))
next
  case (retain req reqs w1 w2 db' sdb')
  from p run have "pending_inv rt a0 s" by (simp add: retain(1))
  then show ?thesis by (rule pending_requests) (simp_all add: retain(1))
next
  case crash
  with run show ?thesis by simp
next
  case (restart ctx a shard)
  from inv have "stores_inv rt St a0 (sy_db s) (sy_sdb s) hist st" by (simp add: sys_inv_def)
  from conjunct1 [OF recovered_inv [OF sp this restart(4)]] have "ea_phase a = ea_phase a0" by simp
  with sp show ?thesis by (simp add: restart(1) pending_inv_def spawn_on_def)
qed

lemma pending_run:
  assumes sp: "spawn_on rt Ev St a0" and rq: "requeue_front rq" and direct: "\<not> batchEnabled a0"
    and inv: "sys_inv rt St a0 n0 s hist st" "pending_inv rt a0 s" and run: "es_reach rt rq es ss a0 s s'"
  shows "\<not> sy_stopped s' \<longrightarrow> pending_inv rt a0 s'"
  using run
proof induction
  case (step s1 s2)
  from rq have all: "requeue_all rq" by (auto simp: requeue_front_def requeue_all_def)
  from sys_inv_reach [OF sp all step(1) inv(1)] obtain h x where "sys_inv rt St a0 n0 s1 (hist @ h) x" by blast
  from pending_step [OF sp rq direct this _ step(2)] step(3) show ?case by blast
qed (simp add: inv(2))

lemma sys_inv_actor:
  "sys_inv rt St a0 n0 s hist st \<Longrightarrow> \<not> sy_stopped s \<Longrightarrow> same_spawn (sy_actor s) a0 \<and> cache_ok rt (sy_actor s)"
  by (simp add: sys_inv_def actor_inv_def)

lemma reply_to_its_command:
  assumes set: "es_setting rt Ev St es ss name rg deps a0" and direct: "\<not> batchEnabled a0"
    and db: "einv db" "sinv sdb" "fresh_entity journal revision snaps a0 db sdb" and rq: "requeue_front rq"
    and start: "PreStart rt ctx name rg deps db sdb (newActor rt) = Inr a"
    and run: "es_reach rt rq es ss a0 (es_init a shard db sdb) s" and s: "\<not> sy_stopped s"
  shows "pending_inv rt a0 s"
proof -
  note sp = setting_spawn [OF set]
  from rq have all: "requeue_all rq" by (auto simp: requeue_front_def requeue_all_def)
  from run_inv [OF set db all start es_reach.start] obtain hist st where
    inv: "sys_inv rt St a0 0 (es_init a shard db sdb) hist st" by blast
  from set start have "recover rt ctx db sdb a0 = Inr a" by (auto simp: es_setting_def intro: PreStart_recovers)
  moreover from inv have "stores_inv rt St a0 db sdb hist st" by (auto simp: sys_inv_def es_init_def)
  ultimately have "a = a0\<lparr>ea_currentState := st, ea_eventsCounter := of_nat (length hist)\<rparr>"
    using recovered_inv [OF sp] by blast
  with sp have "pending_inv rt a0 (es_init a shard db sdb)"
    by (simp add: pending_inv_def es_init_def spawn_on_def)
  from pending_run [OF sp rq direct inv this run] s show ?thesis by blast
qed

end

text \<open>
  C3. A command gets its own reply.  Taking one command at a time, when the actor is about to answer
  after a successful write, the message in front of it is the command that caused the write: the reply
  carries the state and sequence number which that command produced, and goes to its sender.
\<close>

theorem command_gets_its_own_reply:
  assumes "events_store es einv journal revision" and "snapshot_store ss sinv snaps"
    and "es_setting rt Ev St es ss name rg deps a0" and "\<not> batchEnabled a0"
    and "einv db" and "sinv sdb" and "fresh_entity journal revision snaps a0 db sdb" and "requeue_front rq"
    and "PreStart rt ctx name rg deps db sdb (newActor rt) = Inr a"
    and "es_reach rt rq es ss a0 (es_init a shard db sdb) s"
    and "\<not> sy_stopped s" and "ea_phase (sy_actor s) = phaseDirectReplying" and "ea_directErr (sy_actor s) = None"
  shows "\<exists>it rest. sy_mailbox s = it # rest
    \<and> answers rt a0 it (ea_currentState (sy_actor s)) (ea_eventsCounter (sy_actor s))
    \<and> (\<forall>tn. sy_replies (take_turn rt rq tn it rest s) = sy_replies s @
         [(it_id it, state_reply (ea_persistenceID a0) (any_New (rt_any rt) (ea_currentState (sy_actor s)))
            (ea_eventsCounter (sy_actor s)) (ea_lastCommandTime (sy_actor s)))])"
proof -
  note es = es_stores.intro [OF assms(1,2)]
  have "pending_inv rt a0 s" by (rule es_stores.reply_to_its_command [OF es assms(3-11)])
  with assms(12,13) obtain it rest cmd where
    mb: "sy_mailbox s = it # rest" "it_message it = CommandMessage cmd"
    and ans: "answers rt a0 it (ea_currentState (sy_actor s)) (ea_eventsCounter (sy_actor s))"
    by (auto simp: pending_inv_def)
  from assms(8) have "requeue_all rq" by (auto simp: requeue_front_def requeue_all_def)
  from es_stores.run_inv [OF es assms(3,5-7) this assms(9,10)] obtain hist st where
    "es_stores.sys_inv einv journal revision sinv snaps rt St a0 0 s hist st" by (elim exE)
  from es_stores.sys_inv_actor [OF es this assms(11)]
  have sp: "same_spawn (sy_actor s) a0" "cache_ok rt (sy_actor s)" by simp_all
  let ?a1 = "(sy_actor s)\<lparr>ea_phase := phaseProcessing\<rparr>"
  from sp assms(4) have "\<not> batchEnabled (sy_actor s)" "cache_ok rt ?a1" "ea_persistenceID (sy_actor s) = ea_persistenceID a0"
    by (simp_all add: same_spawn_def reads_alike_def batchEnabled_def cache_ok_def)
  then have "sy_replies (take_turn rt rq tn it rest s) = sy_replies s @
      [(it_id it, state_reply (ea_persistenceID a0) (any_New (rt_any rt) (ea_currentState (sy_actor s)))
         (ea_eventsCounter (sy_actor s)) (ea_lastCommandTime (sy_actor s)))]" for tn
    using assms(12,13) mb(2)
    by (simp add: take_turn_def replyDirect_def sendStateReply_eq [of rt ?a1] perform_all_replies del: perform_all_simps)
  with mb(1) ans show ?thesis by (intro exI conjI allI)
qed

theorem command_gets_its_own_reply_witness:
  "sy_replies (take_turn text_rt (@) text_turn text_command [] text_replying) =
     [(7, state_reply ''text-1'' (Some \<lparr>any_type_url = text_url, any_value = ''hi''\<rparr>) 1 4)]"
proof -
  have a: "\<not> batchEnabled text_spawned" "\<not> sy_stopped text_replying"
    "ea_phase (sy_actor text_replying) = phaseDirectReplying" "ea_directErr (sy_actor text_replying) = None"
    and r: "sy_mailbox text_replying = [text_command]" "sy_replies text_replying = []"
    "ea_currentState (sy_actor text_replying) = ''hi''" "ea_eventsCounter (sy_actor text_replying) = 1"
    "ea_lastCommandTime (sy_actor text_replying) = 4" "ea_persistenceID text_spawned = ''text-1''"
    "any_New (rt_any text_rt) ''hi'' = Some \<lparr>any_type_url = text_url, any_value = ''hi''\<rparr>"
    by (simp_all add: text_spawned_def newActor_def batchEnabled_def text_replying_eq text_written_eq text_persisting_eq
        text_ready_eq text_init_def es_init_def text_rt_def frame_codec_def text_codec_def)
  from command_gets_its_own_reply [OF tk.events_store_axioms tkn.snapshot_store_axioms text_setting a(1) es_ok_New
      text_snapshots_ok text_fresh requeue_append(2) text_start text_run(2) [unfolded text_init_def] a(2-4), unfolded r]
  show ?thesis by simp
qed
end
