(* ===== verification/ES_Properties.thy ===== *)
theory ES_Properties
  imports ES_Replies
begin

text \<open>
  What an event-sourced entity promises, from \<open>PreStart\<close> on: theorems over any stores that keep
  their contracts, each read on a run over the testkit stores.
\<close>

section \<open>Replies\<close>

text \<open>One command at a time, a state reply carries the actor's own state and sequence number.\<close>

lemma direct_state_reply:
  assumes "cache_ok rt a" and "\<not> batchEnabled a" and "tenant_bound a"
    and "Receive rt tn msg a = (b, effs)" and "Respond (Reply_StateReply r) \<in> set effs"
  shows "ea_phase a \<noteq> phasePersisting \<and> (ea_phase a = phaseDirectReplying \<longrightarrow> ea_directErr a = None)
    \<and> sr_state r = any_New (rt_any rt) (ea_currentState a) \<and> sr_sequence_number r = ea_eventsCounter a"
proof -
  note err = sendErrorReply_def error_reply_def
  have snd: "sr_state r = any_New (rt_any rt) (ea_currentState x) \<and> sr_sequence_number r = ea_eventsCounter x"
    if "Respond (Reply_StateReply r) \<in> set (snd (sendStateReply rt x))" "cache_ok rt x" for x :: "('a, 'b, 'c) Actor"
    using that by (simp add: sendStateReply_eq state_reply_def)
  show ?thesis
  proof (cases msg)
    case GetStateCommand
    with assms snd [of a] show ?thesis
      by (auto simp: err handleGetStateCommand_def getStateAndReply_def split: if_splits sum.splits)
  next
    case (CommandMessage cmd)
    show ?thesis
    proof (cases "ea_phase a")
      case phaseDirectReplying
      let ?a1 = "a\<lparr>ea_phase := phaseProcessing\<rparr>"
      have "cache_ok rt ?a1" using assms(1) by (simp add: cache_ok_def)
      with assms snd [of ?a1] CommandMessage phaseDirectReplying show ?thesis
        by (auto simp: err replyDirect_def Let_def split: option.splits prod.splits if_splits)
    qed (use assms CommandMessage in
          \<open>auto elim!: processCommandAndReply_cases
             simp: err persistAsync_def sendStateReply_eq [OF assms(1)] state_reply_def\<close>)
  qed (use assms in \<open>auto simp: handleBatchFlushTick_def flushBatch_def handleDirectPersistResponse_def
          triggerSnapshotAndRetention_def snapshotAndRetain_def Let_def
          split: if_splits option.splits prod.splits\<close>)
qed

section \<open>What a run keeps\<close>

context es_stores
begin

lemma restart_succeeds:
  assumes set: "es_setting rt Ev St es ss name rg deps a0" and inv: "sys_inv rt St a0 n0 s hist st"
    and start: "PreStart rt ctx name rg deps db sdb (newActor rt) = Inr a"
    and reads: "\<exists>x. GetLatestSnapshot ss (ea_scope a0) (ea_persistenceID a0) (sy_sdb s) = Inr x"
      "\<exists>x. GetLatestEvent es (ea_scope a0) (ea_persistenceID a0) (sy_db s) = Inr x"
      "\<forall>from to n. unat n < 2 ^ 63 \<longrightarrow>
         (\<exists>x. ReplayEvents es (ea_scope a0) (ea_persistenceID a0) from to n (sy_db s) = Inr x)"
  shows "PreStart rt ctx' name rg deps (sy_db s) (sy_sdb s) (newActor rt) =
    Inr (a0\<lparr>ea_currentState := st, ea_eventsCounter := of_nat (length hist)\<rparr>)"
proof -
  note sp = setting_spawn [OF set]
  from inv obtain d where i: "einv (sy_db s)" "sinv (sy_sdb s)"
    and h: "holds_history rt a0 (journal_at a0 (sy_db s)) (snaps_at a0 (sy_sdb s)) hist d st"
    by (auto simp: sys_inv_def stores_inv_def)
  from sp have a: "wf_scope (ea_scope a0)" "ea_eventsStore a0 = Some es"
    "ea_snapshotStore a0 = None \<or> ea_snapshotStore a0 = Some ss" "ea_eventsCounter a0 = 0"
    by (simp_all add: spawn_on_def spawn_ok_def)
  have "recover rt ctx' (sy_db s) (sy_sdb s) a0 = Inr (a0\<lparr>ea_currentState := st, ea_eventsCounter := of_nat (length hist)\<rparr>)"
    using reads by (intro recover_exact [OF ev.events_store_axioms sn.snapshot_store_axioms i a h]) auto
  with set start show ?thesis
    by (auto simp: es_setting_def PreStart_configure validateAndRecover_def return_iffs split: if_splits)
qed

lemma reply_settled:
  assumes set: "es_setting rt Ev St es ss name rg deps a0" and inv: "sys_inv rt St a0 n0 s hist st"
    and s: "\<not> sy_stopped s" and direct: "\<not> batchEnabled a0"
    and r: "Receive rt tn msg (sy_actor s) = (b, effs)" "Respond (Reply_StateReply r) \<in> set effs"
  shows "sr_state r = any_New (rt_any rt) st \<and> sr_sequence_number r = of_nat (length hist)"
proof -
  from inv s have ai: "actor_inv rt St a0 (sy_actor s) (sy_inflight s) (responses (sy_mailbox s)) hist st"
    by (simp add: sys_inv_def)
  then have sp: "same_spawn (sy_actor s) a0" "cache_ok rt (sy_actor s)" by (simp_all add: actor_inv_def)
  with direct have "\<not> batchEnabled (sy_actor s)" by (simp add: same_spawn_def batchEnabled_def)
  moreover from setting_spawn [OF set] sp(1) have "tenant_bound (sy_actor s)"
    by (auto simp: spawn_on_def intro: spawn_ok_bound)
  moreover note direct_state_reply [OF sp(2) calculation r]
  ultimately show ?thesis using ai
    by (auto simp: actor_inv_def phase_inv_def settled_def split: persistPhase.splits)
qed

end

section \<open>Recovery\<close>

text \<open>
  C1. An entity never drifts from its stores.  Whatever has happened to it (commands alone or in
  batches, refused, failed and lost writes, snapshots, retention, losses, restarts), an entity that is ready
  for the next command has exactly the state and the sequence number that a restart at that moment
  would recover from the stores.
\<close>

theorem restart_recovers_running_state:
  assumes "events_store es einv journal revision" and "snapshot_store ss sinv snaps"
    and "es_setting rt Ev St es ss name rg deps a0"
    and "einv db" and "sinv sdb" and "fresh_entity journal revision snaps a0 db sdb" and "requeue_all rq"
    and "PreStart rt ctx name rg deps db sdb (newActor rt) = Inr a"
    and "es_reach rt rq es ss a0 (es_init a shard db sdb) s"
    and "\<not> sy_stopped s" and "ea_phase (sy_actor s) = phaseProcessing"
    and "PreStart rt ctx' name rg deps (sy_db s) (sy_sdb s) (newActor rt) = Inr a'"
  shows "ea_currentState a' = ea_currentState (sy_actor s) \<and> ea_eventsCounter a' = ea_eventsCounter (sy_actor s)"
proof -
  note es = es_stores.intro [OF assms(1,2)]
  from es_stores.run_inv [OF es assms(3-9)]
    es_stores.restart_recovers [OF es assms(3) _ assms(12)] es_stores.quiet_settled [OF es _ assms(10,11)]
  show ?thesis by (fastforce simp: settled_def)
qed

theorem restart_recovers_running_state_witness:
  "ea_currentState (text_spawned\<lparr>ea_currentState := ''''\<rparr>) = ea_currentState (sy_actor text_ready)
   \<and> ea_eventsCounter (text_spawned\<lparr>ea_currentState := ''''\<rparr>) = ea_eventsCounter (sy_actor text_ready)"
  by (rule restart_recovers_running_state
      [where ctx' = context_Background, OF tk.events_store_axioms tkn.snapshot_store_axioms text_setting es_ok_New text_snapshots_ok text_fresh requeue_append(1)
        text_start text_run(1) [unfolded text_init_def]])
    (simp_all add: text_start)

text \<open>
  C7. An entity can always be recovered.  Over the testkit stores, whatever the entity has gone
  through, stopped or not, a restart succeeds.
\<close>

theorem entity_always_recovers:
  assumes "es_setting rt Ev St testkit_EventsStore testkit_SnapshotStore name rg deps a0"
    and "es_ok db" and "sst_ok sdb" and "fresh_entity es_journal es_revision sst_snaps a0 db sdb" and "requeue_all rq"
    and "PreStart rt ctx name rg deps db sdb (newActor rt) = Inr a"
    and "es_reach rt rq testkit_EventsStore testkit_SnapshotStore a0 (es_init a shard db sdb) s"
  shows "\<exists>a'. PreStart rt ctx' name rg deps (sy_db s) (sy_sdb s) (newActor rt) = Inr a'"
proof -
  from esk.run_inv [OF assms] obtain hist st where inv: "esk.sys_inv rt St a0 0 s hist st" by blast
  then have ok: "es_ok (sy_db s)" by (simp add: esk.sys_inv_def esk.stores_inv_def)
  from esk.setting_spawn [OF assms(1)] have sc: "scope_Valid (ea_scope a0)"
    by (auto simp: esk.spawn_on_def spawn_ok_def intro: wf_scope_Valid)
  show ?thesis
    using esk.restart_succeeds [OF assms(1) inv assms(6)] es_replay_eq [OF ok sc] sc
    by (auto simp: testkit_EventsStore_def testkit_SnapshotStore_def sst_GetLatestSnapshot_def es_GetLatestEvent_def
        Let_def split: option.splits list.splits)
qed

theorem entity_always_recovers_witness:
  "\<exists>a'. PreStart text_rt context_Background ''text-1'' (text_rg False) [DepBehavior text_behavior] (sy_db text_replying)
     (sy_sdb text_replying) (newActor text_rt) = Inr a'"
  by (rule entity_always_recovers [OF text_setting es_ok_New text_snapshots_ok text_fresh requeue_append(1) text_start
        text_run(2) [unfolded text_init_def]])

section \<open>Acknowledgements\<close>

text \<open>
  C2. What an entity acknowledges is durable.  Taking one command at a time, every state reply an
  entity sends, to a command or to a read, carries the state and the sequence number that a restart at
  that moment would recover: nothing is acknowledged before it is in the stores.
\<close>

theorem acknowledged_state_is_durable:
  assumes "events_store es einv journal revision" and "snapshot_store ss sinv snaps"
    and "es_setting rt Ev St es ss name rg deps a0" and "\<not> batchEnabled a0"
    and "einv db" and "sinv sdb" and "fresh_entity journal revision snaps a0 db sdb" and "requeue_all rq"
    and "PreStart rt ctx name rg deps db sdb (newActor rt) = Inr a"
    and "es_reach rt rq es ss a0 (es_init a shard db sdb) s" and "\<not> sy_stopped s"
    and "Receive rt tn msg (sy_actor s) = (b, effs)" and "Respond (Reply_StateReply r) \<in> set effs"
    and "PreStart rt ctx' name rg deps (sy_db s) (sy_sdb s) (newActor rt) = Inr a'"
  shows "sr_state r = any_New (rt_any rt) (ea_currentState a') \<and> sr_sequence_number r = ea_eventsCounter a'"
proof -
  note es = es_stores.intro [OF assms(1,2)]
  from es_stores.run_inv [OF es assms(3,5-10)] obtain hist st where
    inv: "es_stores.sys_inv einv journal revision sinv snaps rt St a0 0 s hist st" by (elim exE)
  from es_stores.reply_settled [OF es assms(3) inv assms(11,4,12,13)]
    es_stores.restart_recovers [OF es assms(3) inv assms(14)]
  show ?thesis by simp
qed

theorem acknowledged_state_is_durable_witness:
  "sr_sequence_number \<lparr>sr_persistence_id = ''text-1'', sr_state = Some \<lparr>any_type_url = text_url, any_value = ''''\<rparr>,
     sr_sequence_number = 0, sr_timestamp = time_UnixNano zeroTime, sr_saga_status = SAGA_LIFECYCLE_STATUS_NONE\<rparr> =
   ea_eventsCounter (text_spawned\<lparr>ea_currentState := ''''\<rparr>)"
proof -
  let ?r = "\<lparr>sr_persistence_id = ''text-1'', sr_state = Some \<lparr>any_type_url = text_url, any_value = ''''\<rparr>,
     sr_sequence_number = 0, sr_timestamp = time_UnixNano zeroTime, sr_saga_status = SAGA_LIFECYCLE_STATUS_NONE\<rparr>"
  have "\<not> batchEnabled text_spawned" by (simp add: text_spawned_def newActor_def batchEnabled_def)
  moreover have "Respond (Reply_StateReply ?r) \<in> set (snd (Receive text_rt text_turn GetStateCommand (sy_actor text_ready)))"
    by (simp add: handleGetStateCommand_def getStateAndReply_def tenant_gate_def sendStateReply_def currentStateAny_def
        state_reply_def text_ready_eq text_init_def es_init_def text_spawned_def newActor_def text_rt_def
        frame_codec_def text_codec_def Let_def)
  ultimately show ?thesis
    using acknowledged_state_is_durable [where ctx' = context_Background and msg = GetStateCommand and tn = text_turn
        and r = ?r and b = "fst (Receive text_rt text_turn GetStateCommand (sy_actor text_ready))"
        and effs = "snd (Receive text_rt text_turn GetStateCommand (sy_actor text_ready))",
        OF tk.events_store_axioms tkn.snapshot_store_axioms text_setting _ es_ok_New text_snapshots_ok text_fresh
        requeue_append(1) text_start text_run(1) [unfolded text_init_def]]
    by (simp add: text_start)
qed

text \<open>
  C6. The events stream carries what was committed.  At every moment of a run the events published
  since the start are the events committed since the start, in the order of their sequence numbers,
  each once; the journal holds every one of them that retention has not deleted.
\<close>

theorem published_events_are_committed:
  assumes "events_store es einv journal revision" and "snapshot_store ss sinv snaps"
    and "es_setting rt Ev St es ss name rg deps a0"
    and "einv db" and "sinv sdb" and "fresh_entity journal revision snaps a0 db sdb" and "requeue_all rq"
    and "PreStart rt ctx name rg deps db sdb (newActor rt) = Inr a"
    and "es_reach rt rq es ss a0 (es_init a shard db sdb) s"
  shows "\<exists>hist d. sy_stream s = map (Pair eventsTopic) hist \<and> history_ok (ea_persistenceID a0) hist
    \<and> journal (sy_db s) (ea_scope a0) (ea_persistenceID a0) = journal_of hist d
    \<and> revision (sy_db s) (ea_scope a0) (ea_persistenceID a0) = revision_of hist"
proof -
  note es = es_stores.intro [OF assms(1,2)]
  from es_stores.run_inv [OF es assms(3-9)] obtain hist st where
    "es_stores.sys_inv einv journal revision sinv snaps rt St a0 0 s hist st" by (elim exE)
  then show ?thesis
    by (auto simp: es_stores.sys_inv_def [OF es] es_stores.stores_inv_def [OF es] holds_history_def)
qed

theorem published_events_are_committed_witness:
  "\<exists>hist d. [(eventsTopic, text_envelope)] = map (Pair eventsTopic) hist \<and> history_ok ''text-1'' hist
    \<and> es_journal (sy_db text_replying) Unscoped ''text-1'' = journal_of hist d
    \<and> es_revision (sy_db text_replying) Unscoped ''text-1'' = revision_of hist"
proof -
  have "sy_stream text_replying = [(eventsTopic, text_envelope)]" "ea_persistenceID text_spawned = ''text-1''"
    "ea_scope text_spawned = Unscoped"
    by (simp_all add: text_replying_eq text_written_eq text_spawned_def)
  with published_events_are_committed [OF tk.events_store_axioms tkn.snapshot_store_axioms text_setting es_ok_New
      text_snapshots_ok text_fresh requeue_append(1) text_start text_run(2) [unfolded text_init_def]]
  show ?thesis by simp
qed

end
