(* ===== verification/ES_Tenancy.thy ===== *)
theory ES_Tenancy
  imports ES_Replies
begin

text \<open>
  Tenant isolation of an event-sourced entity: in an engine with tenancy, an entity serves the tenant
  it was spawned for and no other.
\<close>

lemma setConfig_tenant:
  "ea_tenantAware (setConfig deps a) = ea_tenantAware a \<and> ea_actorTenant (setConfig deps a) = ea_actorTenant a"
proof (induction deps a rule: setConfig.induct)
  case (2 dep deps a)
  then show ?case by (cases dep) (simp_all add: set_entity_config_def Let_def)
qed simp

lemma loadOptionalExtensions_tenant:
  "loadOptionalExtensions rt rg a = Inr a1 \<Longrightarrow>
     ea_tenantAware a1 = ea_tenantAware a \<and> ea_actorTenant a1 = ea_actorTenant a"
  by (auto simp: loadOptionalExtensions_def Let_def return_iffs ext_Optional_def split: ext_slot.splits option.splits)

lemma resolveScope_tenant:
  assumes "resolveScope deps a = Inr a1" and "ea_tenantAware a"
  shows "ea_tenantAware a1 \<and> tc_Tenant (ea_actorTenant a1) = Some (sc_tenant (ea_scope a1))"
proof -
  from assms obtain scope tc where b: "bind_tenant_scope True deps = Inr (scope, tc)"
    and a1: "a1 = a\<lparr>ea_scope := scope, ea_actorTenant := tc\<rparr>"
    by (auto simp: resolveScope_def return_iffs)
  from bind_tenant_scope_wf [OF b] assms(2) show ?thesis by (simp add: a1)
qed

lemma configure_tenant:
  assumes "configure rt name rg deps (newActor rt) = Inr a0" and "rg_tenancy rg"
  shows "ea_tenantAware a0 \<and> tc_Tenant (ea_actorTenant a0) = Some (sc_tenant (ea_scope a0))"
proof -
  from assms(1) obtain es a1 a2 where
    a1: "resolveScope deps ((newActor rt)\<lparr>ea_eventsStore := Some es, ea_persistenceID := name,
             ea_persistTimeout := defaultPersistTimeout, ea_tenantAware := rg_tenancy rg\<rparr>) = Inr a1"
    and a2: "loadOptionalExtensions rt rg a1 = Inr a2" "a0 = setConfig deps a2"
    by (auto simp: configure_def return_iffs)
  from resolveScope_tenant [OF a1] assms(2)
  have "ea_tenantAware a1 \<and> tc_Tenant (ea_actorTenant a1) = Some (sc_tenant (ea_scope a1))" by simp
  with loadOptionalExtensions_tenant [OF a2(1)] loadOptionalExtensions_frame [OF a2(1)] setConfig_tenant [of deps a2]
    setConfig_frame [of deps a2]
  show ?thesis by (simp add: a2(2))
qed

section \<open>The commands that wait\<close>

text \<open>
  A command that was let through and waits for its reply is first in the stash while the write is in
  flight and first in the mailbox when the replies go out; the same holds of the commands of a batch.
\<close>

definition served :: "('m, 's, 't) Actor \<Rightarrow> 'm item \<Rightarrow> bool" where
  "served a0 it \<longleftrightarrow> (\<exists>cmd. it_message it = CommandMessage cmd) \<and> tenancy_Require (it_ctx it) = Inr (ea_actorTenant a0)"

definition served_first :: "('m, 's, 't) Actor \<Rightarrow> nat \<Rightarrow> 'm item list \<Rightarrow> bool" where
  "served_first a0 n its \<longleftrightarrow> n \<le> length its \<and> (\<forall>it \<in> set (take n its). served a0 it)"

definition waiting_inv :: "('m, 's, 't) Actor \<Rightarrow> ('m, 's, 't) sys \<Rightarrow> bool" where
  "waiting_inv a0 s =
     (case ea_phase (sy_actor s) of
        phaseProcessing \<Rightarrow>
          length (sy_stash s) = length (ea_batchEntries (sy_actor s))
          \<and> served_first a0 (length (ea_batchEntries (sy_actor s))) (sy_stash s)
      | phasePersisting \<Rightarrow> served_first a0 1 (sy_stash s)
      | phaseDirectReplying \<Rightarrow> sy_stash s = [] \<and> served_first a0 1 (sy_mailbox s)
      | phaseFlushing \<Rightarrow> served_first a0 (length (ea_batchEntries (sy_actor s))) (sy_stash s)
      | phaseReplying \<Rightarrow> sy_stash s = [] \<and> served_first a0 (nat (ea_remainingReplies (sy_actor s))) (sy_mailbox s))"

lemma served_first_append [intro]: "served_first a0 n its \<Longrightarrow> served_first a0 n (its @ its2)"
  by (auto simp: served_first_def)

lemma served_first_0 [simp]: "served_first a0 0 its"
  by (simp add: served_first_def)

lemma served_first_Suc [simp]: "served_first a0 (Suc n) (it # its) \<longleftrightarrow> served a0 it \<and> served_first a0 n its"
  by (auto simp: served_first_def)

lemma served_first_snoc:
  "served_first a0 n its \<Longrightarrow> length its = n \<Longrightarrow> served a0 it \<Longrightarrow> served_first a0 (Suc n) (its @ [it])"
  by (simp add: served_first_def)

text \<open>What joins a batch, or causes a write, was let through.\<close>

lemma produces_served:
  assumes "tenant_bound a" and "ea_tenantAware a" and "ea_actorTenant a = ea_actorTenant a0"
    and "it_message it = CommandMessage cmd" and "tn_ctx tn = it_ctx it" and "produces rt tn cmd a st n envs st' n'"
  shows "served a0 it"
proof -
  from assms(6) obtain tc where "tenant_gate (tn_ctx tn) a = Inr tc" by (auto simp: produces_def)
  from tenant_gate_bound [OF assms(1) this assms(2)] assms(3-5) show ?thesis by (simp add: served_def)
qed

text \<open>Only a command is in front when replies go out.\<close>

lemma waiting_front:
  assumes "waiting_inv a0 s" and "phase_inv rt St a0 (sy_actor s) infl R hist st" and "sy_mailbox s = it # rest"
    and "ea_phase (sy_actor s) = phaseDirectReplying \<or> ea_phase (sy_actor s) = phaseReplying"
  shows "served a0 it"
proof -
  have "0 < n \<Longrightarrow> served_first a0 n (it # rest) \<Longrightarrow> served a0 it" for n by (cases n) simp_all
  from this [of 1] this [of "nat (ea_remainingReplies (sy_actor s))"] assms show ?thesis
    by (auto simp: waiting_inv_def phase_inv_def)
qed

lemma waiting_quiet:
  assumes "waiting_inv a0 s" and "ea_phase (sy_actor s) \<noteq> phaseDirectReplying" and "ea_phase (sy_actor s) \<noteq> phaseReplying"
    and "sy_stash s' = sy_stash s
      \<or> sy_stash s' = sy_stash s @ [it] \<and> (ea_phase (sy_actor s) = phasePersisting \<or> ea_phase (sy_actor s) = phaseFlushing)"
    and "ea_phase (sy_actor s') = ea_phase (sy_actor s)" and "ea_batchEntries (sy_actor s') = ea_batchEntries (sy_actor s)"
  shows "waiting_inv a0 s'"
  using assms by (auto simp: waiting_inv_def split: persistPhase.splits)

lemma waiting_arrive:
  "waiting_inv a0 s \<Longrightarrow> sy_actor s' = sy_actor s \<Longrightarrow> sy_stash s' = sy_stash s \<Longrightarrow> sy_mailbox s' = sy_mailbox s @ its \<Longrightarrow>
     waiting_inv a0 s'"
  by (auto simp: waiting_inv_def split: persistPhase.splits)

lemma snapshotAndRetain_fields:
  assumes "snapshotAndRetain rt a = (b, effs)"
  shows "ea_batchEntries b = ea_batchEntries a" "Stash \<notin> set effs" "UnstashAll \<notin> set effs"
  using assms by (auto simp: snapshotAndRetain_def currentStateAny_eq Let_def)

lemma waiting_command_direct:
  assumes rq: "requeue_front rq" and w: "waiting_inv a0 s" and mb: "sy_mailbox s = it # rest"
    and a: "tenant_bound (sy_actor s)" "ea_tenantAware (sy_actor s)" "ea_actorTenant (sy_actor s) = ea_actorTenant a0"
      "\<not> batchEnabled (sy_actor s)" "ea_batchEntries (sy_actor s) = []"
    and it: "it_message it = CommandMessage cmd" "tn_ctx tn = it_ctx it"
    and ph: "ea_phase (sy_actor s) \<in> {phaseProcessing, phasePersisting, phaseDirectReplying}"
  shows "waiting_inv a0 (take_turn rt rq tn it rest s)"
proof (cases "ea_phase (sy_actor s)")
  case phaseProcessing
  obtain a' effs where r: "processCommandAndReply rt tn cmd (sy_actor s) = (a', effs)" by fastforce
  with phaseProcessing it a(4) have t: "take_turn rt rq tn it rest s = perform_all rq it effs (s\<lparr>sy_actor := a', sy_mailbox := rest\<rparr>)"
    by (simp add: take_turn_def)
  from a(1) r have "waiting_inv a0 (perform_all rq it effs (s\<lparr>sy_actor := a', sy_mailbox := rest\<rparr>))"
  proof (cases rule: processCommandAndReply_cases)
    case (persist envs st n)
    with produces_served [OF a(1-3) it persist(1)] w phaseProcessing a(5) show ?thesis
      by (simp add: persistAsync_def waiting_inv_def)
  qed (use w phaseProcessing a(5) in \<open>auto simp: waiting_inv_def sendErrorReply_def sendStateReply_def currentStateAny_eq Let_def\<close>)
  then show ?thesis by (simp only: t)
next
  case phasePersisting
  with it a(4) w show ?thesis by (auto simp: take_turn_def waiting_inv_def)
next
  case phaseDirectReplying
  with it a(4,5) w rq show ?thesis
    by (auto simp: take_turn_def waiting_inv_def replyDirect_def sendErrorReply_def sendStateReply_def currentStateAny_eq
        requeue_front_def Let_def split: option.splits)
qed (use ph in simp_all)

lemma waiting_command_batched:
  assumes w: "waiting_inv a0 s" and mb: "sy_mailbox s = it # rest"
    and a: "tenant_bound (sy_actor s)" "ea_tenantAware (sy_actor s)" "ea_actorTenant (sy_actor s) = ea_actorTenant a0"
      "batchEnabled (sy_actor s)"
    and it: "it_message it = CommandMessage cmd" "tn_ctx tn = it_ctx it"
    and ph: "ea_phase (sy_actor s) \<in> {phaseProcessing, phaseFlushing, phaseReplying}"
    and left: "ea_phase (sy_actor s) = phaseReplying \<Longrightarrow> 0 < ea_remainingReplies (sy_actor s)"
  shows "waiting_inv a0 (take_turn rt rq tn it rest s)"
proof (cases "ea_phase (sy_actor s)")
  case phaseProcessing
  obtain a' effs where r: "processAndBatch rt tn cmd (sy_actor s) = (a', effs)" by fastforce
  with phaseProcessing it a(4) have t: "take_turn rt rq tn it rest s = perform_all rq it effs (s\<lparr>sy_actor := a', sy_mailbox := rest\<rparr>)"
    by (simp add: take_turn_def handleCommandBatched_def)
  from w phaseProcessing have n: "length (sy_stash s) = length (ea_batchEntries (sy_actor s))"
    "served_first a0 (length (ea_batchEntries (sy_actor s))) (sy_stash s)" by (simp_all add: waiting_inv_def)
  from a(1) r have "waiting_inv a0 (perform_all rq it effs (s\<lparr>sy_actor := a', sy_mailbox := rest\<rparr>))"
  proof (cases rule: processAndBatch_cases)
    case inadmissible
    with n show ?thesis by (auto simp: flushBatch_def stopFlushTimer_def waiting_inv_def)
  next
    case (batched envs st m b base)
    from served_first_snoc [OF n(2,1) produces_served [OF a(1-3) it batched(1)]] batched(2) n phaseProcessing show ?thesis
      by (auto simp: Let_def flushBatch_def stopFlushTimer_def startFlushTimer_def append_to_batch_def waiting_inv_def)
  qed (use n phaseProcessing in \<open>auto simp: waiting_inv_def sendErrorReply_def noEventsReply_def currentStateAny_eq Let_def split: if_splits\<close>)
  then show ?thesis by (simp only: t)
next
  case phaseFlushing
  with it a(4) w show ?thesis by (auto simp: take_turn_def handleCommandBatched_def waiting_inv_def)
next
  case phaseReplying
  then obtain k where k: "ea_remainingReplies (sy_actor s) = int (Suc k)" using left by (metis gr0_implies_Suc zero_less_imp_eq_int)
  with phaseReplying w mb have "sy_stash s = []" "served_first a0 k rest" by (simp_all add: waiting_inv_def nat_add_distrib)
  with phaseReplying it a(4) k show ?thesis
    by (simp add: take_turn_def handleCommandBatched_def replyFromBatch_def waiting_inv_def resetBatch_def Let_def)
qed (use ph in simp_all)

lemma waiting_response:
  assumes rq: "requeue_front rq" and w: "waiting_inv a0 s" and it: "it_message it = PersistEventsResponse resp"
    and mode: "ea_phase (sy_actor s) = phasePersisting \<and> \<not> batchEnabled (sy_actor s)
      \<or> ea_phase (sy_actor s) = phaseFlushing \<and> batchEnabled (sy_actor s)"
  shows "waiting_inv a0 (take_turn rt rq tn it rest s)"
proof -
  from rq have front: "rq x y = x @ y" for x y by (simp add: requeue_front_def)
  let ?a = "sy_actor s"
  from mode show ?thesis
  proof
    assume m: "ea_phase ?a = phasePersisting \<and> \<not> batchEnabled ?a"
    obtain b tells where b: "triggerSnapshotAndRetention rt (applyConfirmedState rt (ea_directPendingState ?a)
        (ea_directPendingCounter ?a) (ea_directPendingTime ?a) ?a) = (b, tells)" by fastforce
    have w1: "served_first a0 1 (sy_stash s @ rest)" using w m by (auto simp: waiting_inv_def)
    show ?thesis
      by (cases resp) (use m it w1 b trigger_fields(3,4) [OF b] in
        \<open>simp_all add: take_turn_def handleDirectPersistResponse_def waiting_inv_def front perform_all_frame perform_all_queues\<close>)
  next
    assume m: "ea_phase ?a = phaseFlushing \<and> batchEnabled ?a"
    let ?a1 = "applyConfirmedState rt (ea_batchState ?a) (ea_batchCounter ?a) (ea_batchTime ?a) ?a"
    obtain b tells where b: "(if crossedSnapshotBoundary (ea_eventsCounter ?a) ?a1 then snapshotAndRetain rt ?a1 else (?a1, [])) = (b, tells)"
      by fastforce
    have q: "ea_batchEntries b = ea_batchEntries ?a" "Stash \<notin> set tells" "UnstashAll \<notin> set tells"
      using b snapshotAndRetain_fields [of rt ?a1 b tells] by (auto simp: applyConfirmedState_def split: if_splits)
    have w1: "served_first a0 (length (ea_batchEntries ?a)) (sy_stash s @ rest)" using w m by (auto simp: waiting_inv_def)
    show ?thesis
      by (cases resp) (use m it w1 b q in
        \<open>simp_all add: take_turn_def handleBatchPersistResponse_def waiting_inv_def front perform_all_frame perform_all_queues\<close>)
  qed
qed

text \<open>The remaining messages.\<close>

lemma waiting_other:
  assumes w: "waiting_inv a0 s" and it: "\<nexists>cmd. it_message it = CommandMessage cmd"
    and resp: "\<nexists>resp. it_message it = PersistEventsResponse resp
      \<and> (ea_phase (sy_actor s) = phasePersisting \<and> \<not> batchEnabled (sy_actor s)
         \<or> ea_phase (sy_actor s) = phaseFlushing \<and> batchEnabled (sy_actor s))"
    and ph: "ea_phase (sy_actor s) \<noteq> phaseDirectReplying" "ea_phase (sy_actor s) \<noteq> phaseReplying"
  shows "waiting_inv a0 (take_turn rt rq tn it rest s)"
proof (cases "it_message it = BatchFlushTick \<and> ea_phase (sy_actor s) = phaseProcessing \<and> ea_batchEntries (sy_actor s) \<noteq> []")
  case True
  with w show ?thesis
    by (auto simp: take_turn_def handleBatchFlushTick_def flushBatch_def stopFlushTimer_def waiting_inv_def Let_def)
next
  case False
  obtain a' effs where r: "Receive rt tn (it_message it) (sy_actor s) = (a', effs)" by fastforce
  have "ea_phase a' = ea_phase (sy_actor s) \<and> ea_batchEntries a' = ea_batchEntries (sy_actor s)
      \<and> UnstashAll \<notin> set effs \<and> (Stash \<notin> set effs \<or> effs = [Stash] \<and> ea_phase (sy_actor s) = phasePersisting)"
  proof (cases "it_message it")
    case GetStateCommand
    with r ph show ?thesis
      by (auto simp: handleGetStateCommand_def getStateAndReply_def sendErrorReply_def sendStateReply_def
          currentStateAny_eq Let_def split: if_splits sum.splits)
  qed (use r False it resp in \<open>auto simp: spawnChildren_def Let_def handleBatchFlushTick_def handleDirectPersistResponse_def
        handleBatchPersistResponse_def split: if_splits\<close>)
  then show ?thesis
    by (intro waiting_quiet [OF w ph, where it = it])
      (auto simp: take_turn_def r perform_all_queues perform_all_frame)
qed

lemma waiting_turn:
  assumes rq: "requeue_front rq" and w: "waiting_inv a0 s" and mb: "sy_mailbox s = it # rest" "tn_ctx tn = it_ctx it"
    and a: "tenant_bound (sy_actor s)" "ea_tenantAware (sy_actor s)" "actor_inv rt St a0 (sy_actor s) infl R hist st"
  shows "waiting_inv a0 (take_turn rt rq tn it rest s)"
proof -
  from a(3) have tenant: "ea_actorTenant (sy_actor s) = ea_actorTenant a0" and ph: "phase_inv rt St a0 (sy_actor s) infl R hist st"
    and direct: "\<not> batchEnabled (sy_actor s) \<Longrightarrow> ea_batchEntries (sy_actor s) = []"
    by (simp_all add: actor_inv_def same_spawn_def reads_alike_def)
  from ph have mode: "ea_phase (sy_actor s) \<in> (if batchEnabled (sy_actor s) then {phaseProcessing, phaseFlushing, phaseReplying}
      else {phaseProcessing, phasePersisting, phaseDirectReplying})"
    and left: "ea_phase (sy_actor s) = phaseReplying \<Longrightarrow> 0 < ea_remainingReplies (sy_actor s)"
    by (auto simp: phase_inv_def split: persistPhase.splits)
  show ?thesis
  proof (cases "\<exists>cmd. it_message it = CommandMessage cmd")
    case True
    then obtain cmd where cmd: "it_message it = CommandMessage cmd" ..
    show ?thesis
    proof (cases "batchEnabled (sy_actor s)")
      case True
      from waiting_command_batched [OF w mb(1) a(1,2) tenant True cmd mb(2) _ left] mode True show ?thesis by simp
    next
      case False
      from waiting_command_direct [OF rq w mb(1) a(1,2) tenant False direct [OF False] cmd mb(2)] mode False show ?thesis by simp
    qed
  next
    case False
    with waiting_front [OF w ph mb(1)] have quiet: "ea_phase (sy_actor s) \<noteq> phaseDirectReplying" "ea_phase (sy_actor s) \<noteq> phaseReplying"
      by (auto simp: served_def)
    show ?thesis
      using waiting_response [OF rq w, of it] waiting_other [OF w False _ quiet] by blast
  qed
qed

context es_stores
begin

lemma waiting_step:
  assumes sp: "spawn_on rt Ev St a0" and rq: "requeue_front rq" and t: "ea_tenantAware a0"
    and inv: "sys_inv rt St a0 n0 s hist st" and w: "\<not> sy_stopped s \<Longrightarrow> waiting_inv a0 s"
    and step: "es_step rt rq es ss a0 s s'" and run: "\<not> sy_stopped s'"
  shows "waiting_inv a0 s'"
  using step
proof cases
  case (turn it rest tn)
  with inv have ai: "actor_inv rt St a0 (sy_actor s) (sy_inflight s) (responses (sy_mailbox s)) hist st"
    by (simp add: sys_inv_def)
  then have ss: "same_spawn (sy_actor s) a0" by (simp add: actor_inv_def)
  with sp have "tenant_bound (sy_actor s)" by (auto simp: spawn_on_def intro: spawn_ok_bound)
  moreover from ss t have "ea_tenantAware (sy_actor s)" by (simp add: same_spawn_def reads_alike_def)
  ultimately show ?thesis unfolding turn(1) by (rule waiting_turn [OF rq w [OF turn(2)] turn(3,4) _ _ ai])
next
  case crash
  with run show ?thesis by simp
next
  case (restart ctx a shard)
  from inv have "stores_inv rt St a0 (sy_db s) (sy_sdb s) hist st" by (simp add: sys_inv_def)
  from conjunct1 [OF recovered_inv [OF sp this restart(4)]] have "ea_phase a = ea_phase a0" "ea_batchEntries a = ea_batchEntries a0"
    by simp_all
  with sp show ?thesis by (simp add: restart(1) waiting_inv_def spawn_on_def)
next
  case (arrive it)
  with w run show ?thesis by (auto intro: waiting_arrive)
next
  case (commit req resp s1)
  then have "sy_stopped s = sy_stopped s'" by (auto simp: post_response_def writer_turn_def split: prod.splits)
  with w run commit show ?thesis by (auto simp: post_response_def writer_turn_def split: prod.splits intro: waiting_arrive)
next
  case (write_lost req resp s1 err)
  then have "sy_stopped s = sy_stopped s'" by (auto simp: post_response_def writer_turn_def split: prod.splits)
  with w run write_lost show ?thesis by (auto simp: post_response_def writer_turn_def split: prod.splits intro: waiting_arrive)
next
  case (write_unsent req err)
  with w run show ?thesis by (auto simp: post_response_def intro: waiting_arrive)
next
  case (snapshot req reqs ctx rnd wait sdb' fwd)
  with w run show ?thesis by (auto intro: waiting_arrive [where its = "[]"])
next
  case (retain req reqs w1 w2 db' sdb')
  with w run show ?thesis by (auto intro: waiting_arrive [where its = "[]"])
qed

lemma waiting_run:
  assumes set: "es_setting rt Ev St es ss name rg deps a0" and t: "ea_tenantAware a0"
    and db: "einv db" "sinv sdb" "fresh_entity journal revision snaps a0 db sdb" and rq: "requeue_front rq"
    and start: "PreStart rt ctx name rg deps db sdb (newActor rt) = Inr a"
    and run: "es_reach rt rq es ss a0 (es_init a shard db sdb) s"
  shows "\<not> sy_stopped s \<longrightarrow> waiting_inv a0 s"
  using run
proof induction
  case start
  note sp = setting_spawn [OF set]
  from rq have all: "requeue_all rq" by (auto simp: requeue_front_def requeue_all_def)
  from run_inv [OF set db all assms(7) es_reach.start] obtain hist st where
    inv: "sys_inv rt St a0 0 (es_init a shard db sdb) hist st" by blast
  from set assms(7) have "recover rt ctx db sdb a0 = Inr a" by (auto simp: es_setting_def intro: PreStart_recovers)
  moreover from inv have "stores_inv rt St a0 db sdb hist st" by (auto simp: sys_inv_def es_init_def)
  ultimately have "a = a0\<lparr>ea_currentState := st, ea_eventsCounter := of_nat (length hist)\<rparr>"
    using recovered_inv [OF sp] by blast
  with sp show ?case by (simp add: waiting_inv_def es_init_def spawn_on_def)
next
  case (step s1 s2)
  from rq have all: "requeue_all rq" by (auto simp: requeue_front_def requeue_all_def)
  from run_inv [OF set db all assms(7) step(1)] obtain hist st where "sys_inv rt St a0 0 s1 hist st" by blast
  from waiting_step [OF setting_spawn [OF set] rq t this _ step(2)] step(3) show ?case by blast
qed

end

section \<open>Foreign messages\<close>

text \<open>
  A command or read that does not carry the actor's tenant changes nothing and gets an error, or is
  put aside while a write is in flight.
\<close>

lemma foreign_refused:
  assumes "tenant_bound a" and "ea_tenantAware a" and "tenancy_Require (tn_ctx tn) \<noteq> Inr (ea_actorTenant a)"
    and "ea_phase a \<noteq> phaseDirectReplying" and "ea_phase a \<noteq> phaseReplying" and "phase_inv rt St a0 a infl R hist st"
    and "msg = GetStateCommand \<or> (\<exists>cmd. msg = CommandMessage cmd)"
  shows "(\<exists>err. Receive rt tn msg a = (a, [sendErrorReply rt err]))
    \<or> (ea_phase a = phasePersisting \<or> ea_phase a = phaseFlushing) \<and> Receive rt tn msg a = (a, [Stash])"
proof -
  from tenant_gate_bound [OF assms(1) _ assms(2)] assms(3) obtain err where "tenant_gate (tn_ctx tn) a = Inl err"
    by (cases "tenant_gate (tn_ctx tn) a") auto
  with assms(4-7) show ?thesis
    by (auto simp: handleGetStateCommand_def getStateAndReply_def handleCommandBatched_def processAndBatch_def
        processCommandAndReply_def phase_inv_def Let_def split: persistPhase.splits)
qed

text \<open>
  C5. An entity serves its own tenant only.  In an engine with tenancy, whatever the entity has gone
  through and whatever it is doing, taking commands one at a time or in batches: when it takes from
  its mailbox a command or a read that does not carry the tenant the entity was spawned for, that turn
  leaves the entity as it was, writes nothing, and does exactly one thing: it answers with an error
  or, only while a write is in flight, stashes the message.  In particular no foreign message gets a
  reply that belongs to a command of the tenant.  Every event of the entity in the journal carries
  that tenant.  The actor runtime must put stashed messages back in front of the mailbox in order.
\<close>

theorem foreign_tenant_is_refused:
  assumes "events_store es einv journal revision" and "snapshot_store ss sinv snaps"
    and "es_setting rt Ev St es ss name rg deps a0" and "rg_tenancy rg"
    and "einv db" and "sinv sdb" and "fresh_entity journal revision snaps a0 db sdb" and "requeue_front rq"
    and "PreStart rt ctx name rg deps db sdb (newActor rt) = Inr a"
    and "es_reach rt rq es ss a0 (es_init a shard db sdb) s"
    and "\<not> sy_stopped s" and "sy_mailbox s = it # rest" and "tn_ctx tn = it_ctx it"
    and "it_message it = GetStateCommand \<or> (\<exists>cmd. it_message it = CommandMessage cmd)"
    and "tenancy_Require (it_ctx it) \<noteq> Inr (ea_actorTenant a0)"
  shows "((\<exists>err. Receive rt tn (it_message it) (sy_actor s) = (sy_actor s, [sendErrorReply rt err]))
          \<or> (ea_phase (sy_actor s) = phasePersisting \<or> ea_phase (sy_actor s) = phaseFlushing)
            \<and> Receive rt tn (it_message it) (sy_actor s) = (sy_actor s, [Stash]))
    \<and> tc_Tenant (ea_actorTenant a0) = Some (sc_tenant (ea_scope a0))
    \<and> (\<forall>e \<in> ran (journal (sy_db s) (ea_scope a0) (ea_persistenceID a0)).
         ev_tenant_metadata e = tenancy_MarshalMetadata (ea_actorTenant a0))"
proof -
  note es = es_stores.intro [OF assms(1,2)]
  from assms(8) have all: "requeue_all rq" by (auto simp: requeue_front_def requeue_all_def)
  from es_stores.run_inv [OF es assms(3,5-7) all assms(9,10)] obtain hist st where
    inv: "es_stores.sys_inv einv journal revision sinv snaps rt St a0 0 s hist st" by (elim exE)
  from es_stores.sys_inv_actor [OF es inv assms(11)] have ss: "same_spawn (sy_actor s) a0" by simp
  from assms(3) have "configure rt name rg deps (newActor rt) = Inr a0" by (simp add: es_setting_def)
  from configure_tenant [OF this assms(4)]
  have t: "ea_tenantAware a0" "tc_Tenant (ea_actorTenant a0) = Some (sc_tenant (ea_scope a0))" by simp_all
  from es_stores.setting_spawn [OF es assms(3)] have "spawn_ok rt Ev St a0" by (simp add: es_stores.spawn_on_def [OF es])
  from spawn_ok_bound [OF this ss] have bound: "tenant_bound (sy_actor s)" .
  have act: "ea_tenantAware (sy_actor s)" "ea_actorTenant (sy_actor s) = ea_actorTenant a0"
    using ss t(1) by (simp_all add: same_spawn_def reads_alike_def)
  from inv assms(11) have ph: "phase_inv rt St a0 (sy_actor s) (sy_inflight s) (responses (sy_mailbox s)) hist st"
    by (simp add: es_stores.sys_inv_def [OF es] actor_inv_def)
  have w: "waiting_inv a0 s" using es_stores.waiting_run [OF es assms(3) t(1) assms(5-10)] assms(11) by blast
  have "\<not> served a0 it" using assms(15) by (simp add: served_def)
  with waiting_front [OF w ph assms(12)] have "ea_phase (sy_actor s) \<noteq> phaseDirectReplying" "ea_phase (sy_actor s) \<noteq> phaseReplying"
    by blast+
  from foreign_refused [OF bound act(1) _ this ph assms(14), of tn] assms(13,15) act(2)
  have refused: "(\<exists>err. Receive rt tn (it_message it) (sy_actor s) = (sy_actor s, [sendErrorReply rt err]))
      \<or> (ea_phase (sy_actor s) = phasePersisting \<or> ea_phase (sy_actor s) = phaseFlushing)
        \<and> Receive rt tn (it_message it) (sy_actor s) = (sy_actor s, [Stash])" by simp
  from inv obtain d where h: "journal (sy_db s) (ea_scope a0) (ea_persistenceID a0) = journal_of hist d"
    "\<forall>e \<in> set hist. ev_tenant_metadata e = tenancy_MarshalMetadata (ea_actorTenant a0)"
    using t(1) by (auto simp: es_stores.sys_inv_def [OF es] es_stores.stores_inv_def [OF es] holds_history_def)
  have "ran (journal_of hist d) \<subseteq> set hist" by (auto simp: ran_def journal_of_def split: if_splits)
  with refused t(2) h show ?thesis by auto
qed

section \<open>An entity of a tenant\<close>

definition acme_tenant :: TenantContext where
  "acme_tenant = \<lparr>tc_scope = ScopeTenant, tc_tenant = ''acme'', tc_admin = zeroAdministrative\<rparr>"

definition acme_spawned :: "(string, EventStore, SnapshotStore) Actor" where
  "acme_spawned = text_spawned\<lparr>ea_tenantAware := True, ea_actorTenant := acme_tenant,
     ea_scope := \<lparr>sc_kind = scopeTenant, sc_tenant = ''acme''\<rparr>\<rparr>"

lemma acme_setting:
  "es_setting text_rt (\<lambda>_. True) (\<lambda>_. True) testkit_EventsStore testkit_SnapshotStore ''text-1'' (text_rg True)
     [DepBehavior text_behavior, DepTenantScope ''acme''] acme_spawned"
proof -
  have b: "bind_tenant_scope True [DepBehavior text_behavior, DepTenantScope ''acme''] =
      Inr (\<lparr>sc_kind = scopeTenant, sc_tenant = ''acme''\<rparr>, acme_tenant)"
    using NewTenantID_acme by (simp add: bind_tenant_scope_def NewTenantScope_def NewTenantContext_def scope_TenantID_def acme_tenant_def)
  have "app_ok text_rt (\<lambda>_. True) (\<lambda>_. True) acme_spawned"
    using text_setting NewTenantID_acme
    by (simp add: es_setting_def app_ok_def acme_spawned_def wf_TenantContext_def acme_tenant_def text_spawned_def)
  moreover have "configure text_rt ''text-1'' (text_rg True) [DepBehavior text_behavior, DepTenantScope ''acme'']
      (newActor text_rt) = Inr acme_spawned"
    by (simp add: text_rg_def configure_def ext_Require_def resolveScope_def b loadOptionalExtensions_def ext_Optional_def
        text_spawned_def newActor_def acme_spawned_def)
  ultimately show ?thesis by (simp add: es_setting_def text_rg_def)
qed

lemma acme_start:
  "PreStart text_rt context_Background ''text-1'' (text_rg True) [DepBehavior text_behavior, DepTenantScope ''acme'']
     NewEventsStore NewSnapshotStore (newActor text_rt) = Inr (acme_spawned\<lparr>ea_currentState := ''''\<rparr>)"
proof -
  from acme_setting have "configure text_rt ''text-1'' (text_rg True) [DepBehavior text_behavior, DepTenantScope ''acme'']
      (newActor text_rt) = Inr acme_spawned" by (simp add: es_setting_def)
  then show ?thesis
    unfolding PreStart_configure
    by (simp add: validateAndRecover_def text_rg_def recover_def recoverFromSnapshot_def scope_Valid_def
        acme_spawned_def text_spawned_def testkit_SnapshotStore_def sst_GetLatestSnapshot_def NewSnapshotStore_def
        testkit_EventsStore_def es_GetLatestEvent_def NewEventsStore_def text_behavior_def)
qed

definition acme_arrived :: "(string, EventStore, SnapshotStore) sys" where
  "acme_arrived =
     (let s = es_init (acme_spawned\<lparr>ea_currentState := ''''\<rparr>) 9 NewEventsStore NewSnapshotStore in
      s\<lparr>sy_mailbox := sy_mailbox s @ [text_command]\<rparr>)"

definition acme_ready :: "(string, EventStore, SnapshotStore) sys" where
  "acme_ready = next_turn text_rt text_turn acme_arrived"

lemma acme_ready_eq:
  "acme_ready = (es_init (acme_spawned\<lparr>ea_currentState := '''', ea_shardNumber := 9, ea_eventsWriter := True,
      ea_snapshotsWriter := True\<rparr>) 9 NewEventsStore NewSnapshotStore)\<lparr>sy_mailbox := [text_command]\<rparr>"
  by (simp add: acme_ready_def next_turn_def acme_arrived_def es_init_def take_turn_def spawnChildren_def
      acme_spawned_def text_spawned_def newActor_def Let_def)

lemma acme_run:
  "es_reach text_rt (@) testkit_EventsStore testkit_SnapshotStore acme_spawned
     (es_init (acme_spawned\<lparr>ea_currentState := ''''\<rparr>) 9 NewEventsStore NewSnapshotStore) acme_ready"
proof -
  let ?R = "es_reach text_rt (@) testkit_EventsStore testkit_SnapshotStore acme_spawned
     (es_init (acme_spawned\<lparr>ea_currentState := ''''\<rparr>) 9 NewEventsStore NewSnapshotStore)"
  have "?R acme_arrived"
    unfolding acme_arrived_def Let_def
    by (intro es_reach.step [OF es_reach.start] es_step.arrive) (simp add: external_def)
  then show ?thesis
    unfolding acme_ready_def
    by (rule es_reach.step, intro next_turn_step)
      (simp_all add: acme_arrived_def es_init_def within_counter_def spawnChildren_def acme_spawned_def text_spawned_def
        newActor_def Let_def)
qed

theorem foreign_tenant_is_refused_witness:
  "\<exists>err. Receive text_rt text_turn (CommandMessage ''hi'') (sy_actor acme_ready) = (sy_actor acme_ready, [sendErrorReply text_rt err])"
proof -
  have "\<not> sy_stopped acme_ready" "sy_mailbox acme_ready = [text_command]" "ea_phase (sy_actor acme_ready) = phaseProcessing"
    "rg_tenancy (text_rg True)" "tenancy_Require (it_ctx text_command) \<noteq> Inr (ea_actorTenant acme_spawned)"
    by (simp_all add: acme_ready_eq es_init_def acme_spawned_def text_spawned_def newActor_def text_rg_def
        context_Background_def tenancy_Require_def tenancy_From_def)
  then show ?thesis
    using foreign_tenant_is_refused [where tn = text_turn and it = text_command and rest = "[]",
        OF tk.events_store_axioms tkn.snapshot_store_axioms acme_setting _ es_ok_New
        text_snapshots_ok text_fresh requeue_append(2) acme_start acme_run] by simp
qed

end
