(* ===== verification/ES_Batch.thy ===== *)
theory ES_Batch
  imports ES_Replies
begin

text \<open>
  Batching does not change what commands do.  Commands collected in a batch see each other's effects,
  produce the envelopes and get the replies they would have produced and got one at a time.
\<close>

section \<open>What a command does\<close>

text \<open>
  The common core of the two ways to handle a command: an error, no events, or the envelopes with the
  state and sequence number after them.
\<close>

definition outcome ::
    "'m runtime \<Rightarrow> turn \<Rightarrow> 'm \<Rightarrow> 'm \<Rightarrow> u64 \<Rightarrow> ('m, 's, 't) Actor \<Rightarrow> goerr + (Event list \<times> 'm \<times> u64) option" where
  "outcome rt tn cmd st n a =
     sum_bind (tenant_gate (tn_ctx tn) a) (\<lambda>tc.
     check_err (CheckDeadline (tn_ctx tn) (tn_gate tn) ''before handler execution'')
       (sum_bind (dispatchToBehavior rt tn cmd st a) (\<lambda>events.
          if events = [] then Inr None
          else sum_bind (buildEnvelopes rt tn events tc st n a) (\<lambda>built.
                 check_err (CheckDeadline (tn_ctx tn) (tn_persist tn) ''before persistence'') (Inr (Some built))))))"

lemma outcome_alike:
  assumes "reads_alike a b" and "ea_shardNumber a = ea_shardNumber b"
  shows "outcome rt tn cmd st n a = outcome rt tn cmd st n b"
proof -
  from assms(1) have "tenant_gate (tn_ctx tn) a = tenant_gate (tn_ctx tn) b"
    unfolding tenant_gate_def reads_alike_def by (simp only:)
  then show ?thesis
    by (simp add: outcome_def dispatch_alike [OF assms(1)] buildEnvelopes_alike [OF assms] cong: if_cong)
qed

lemma verify_after_gate: "tenant_gate ctx a = Inr tc \<Longrightarrow> verifyTenantForPersist ctx a = None"
  by (auto simp: tenant_gate_def verifyTenantForPersist_def split: sum.splits if_splits)

text \<open>How far a command gets.\<close>

lemma outcome_cases:
  obtains (gate) err where "tenant_gate (tn_ctx tn) a = Inl err"
    | (deadline) tc err where "tenant_gate (tn_ctx tn) a = Inr tc"
        "CheckDeadline (tn_ctx tn) (tn_gate tn) ''before handler execution'' = Some err"
    | (handler) tc err where "tenant_gate (tn_ctx tn) a = Inr tc"
        "CheckDeadline (tn_ctx tn) (tn_gate tn) ''before handler execution'' = None"
        "dispatchToBehavior rt tn cmd st a = Inl err"
    | (noevents) tc where "tenant_gate (tn_ctx tn) a = Inr tc"
        "CheckDeadline (tn_ctx tn) (tn_gate tn) ''before handler execution'' = None"
        "dispatchToBehavior rt tn cmd st a = Inr []"
    | (unbuilt) tc events err where "tenant_gate (tn_ctx tn) a = Inr tc"
        "CheckDeadline (tn_ctx tn) (tn_gate tn) ''before handler execution'' = None"
        "dispatchToBehavior rt tn cmd st a = Inr events" "events \<noteq> []"
        "buildEnvelopes rt tn events tc st n a = Inl err"
    | (late) tc events built err where "tenant_gate (tn_ctx tn) a = Inr tc"
        "CheckDeadline (tn_ctx tn) (tn_gate tn) ''before handler execution'' = None"
        "dispatchToBehavior rt tn cmd st a = Inr events" "events \<noteq> []"
        "buildEnvelopes rt tn events tc st n a = Inr built"
        "CheckDeadline (tn_ctx tn) (tn_persist tn) ''before persistence'' = Some err"
    | (complete) tc events envs st' n' where "tenant_gate (tn_ctx tn) a = Inr tc"
        "CheckDeadline (tn_ctx tn) (tn_gate tn) ''before handler execution'' = None"
        "dispatchToBehavior rt tn cmd st a = Inr events" "events \<noteq> []"
        "buildEnvelopes rt tn events tc st n a = Inr (envs, st', n')"
        "CheckDeadline (tn_ctx tn) (tn_persist tn) ''before persistence'' = None"
  by (metis option.exhaust prod_cases3 sum.exhaust)

lemma direct_outcome:
  assumes "tenant_bound a" and "ExpectedRevisionFromContext (rt_time rt) (tn_revision tn) (tn_ctx tn) = None"
  shows "processCommandAndReply rt tn cmd a =
    (case outcome rt tn cmd (ea_currentState a) (ea_eventsCounter a) a of
       Inl err \<Rightarrow> (a, [sendErrorReply rt err])
     | Inr None \<Rightarrow> sendStateReply rt a
     | Inr (Some (envs, st, n)) \<Rightarrow> persistAsync envs st n (tn_build tn) Unconditional a)"
  by (cases rule: outcome_cases [where tn = tn and a = a and rt = rt and cmd = cmd and st = "ea_currentState a" and n = "ea_eventsCounter a"])
    (use assms verify_after_gate [of "tn_ctx tn" a] in
      \<open>simp_all add: processCommandAndReply_def outcome_def Let_def PreconditionFromRevision_def del: CheckDeadline_None\<close>)

lemma batch_outcome:
  assumes "tenant_bound a" and "ExpectedRevisionFromContext (rt_time rt) (tn_revision tn) (tn_ctx tn) = None"
  shows "processAndBatch rt tn cmd a =
    (case outcome rt tn cmd (latestState a) (latestCounter a) a of
       Inl err \<Rightarrow> (a, [sendErrorReply rt err])
     | Inr None \<Rightarrow> noEventsReply rt (latestState a) (latestCounter a) a
     | Inr (Some (envs, st, n)) \<Rightarrow>
         (let a2 = append_to_batch rt envs st n (tn_build tn) (open_batch None (latestCounter a) a) in
          if ea_batchNumEvents a2 \<ge> ea_batchThreshold a2 then (fst (flushBatch a2), Stash # snd (flushBatch a2))
          else (startFlushTimer a2, [Stash])))"
  by (cases rule: outcome_cases [where tn = tn and a = a and rt = rt and cmd = cmd and st = "latestState a" and n = "latestCounter a"])
    (use assms in \<open>simp_all add: processAndBatch_def outcome_def Let_def flushBatch_def del: CheckDeadline_None\<close>)

section \<open>One at a time\<close>

text \<open>A command whose write succeeds: it is handled, the response arrives, the reply is sent.\<close>

definition direct_turn ::
    "'m runtime \<Rightarrow> turn \<Rightarrow> 'm \<Rightarrow> ('m, 's, 't) Actor \<Rightarrow> ('m, 's, 't) Actor \<times> Event list \<times> CommandReply list" where
  "direct_turn rt tn cmd a =
     (let (a1, effs) = processCommandAndReply rt tn cmd a in
      case piped effs of
        None \<Rightarrow> (a1, [], [])
      | Some req \<Rightarrow>
          let (a2, _) = handleDirectPersistResponse rt None a1; (a3, effs') = replyDirect rt a2 in
          (a3, pq_envelopes req, responded effs'))"

fun direct_run ::
    "'m runtime \<Rightarrow> (turn \<times> 'm) list \<Rightarrow> ('m, 's, 't) Actor \<Rightarrow> ('m, 's, 't) Actor \<times> Event list \<times> CommandReply list" where
  "direct_run rt [] a = (a, [], [])"
| "direct_run rt ((tn, cmd) # cmds) a =
     (let (a1, envs, replies) = direct_turn rt tn cmd a; (a2, envs', replies') = direct_run rt cmds a1 in
      (a2, envs @ envs', replies @ replies'))"

fun batch_run :: "'m runtime \<Rightarrow> (turn \<times> 'm) list \<Rightarrow> ('m, 's, 't) Actor \<Rightarrow> ('m, 's, 't) Actor" where
  "batch_run rt [] a = a"
| "batch_run rt ((tn, cmd) # cmds) a = batch_run rt cmds (fst (processAndBatch rt tn cmd a))"

text \<open>The two actors after the same commands: \<open>a\<close> with an open batch, \<open>b\<close> with everything confirmed.\<close>

definition in_step :: "'m runtime \<Rightarrow> ('m, 's, 't) Actor \<Rightarrow> ('m, 's, 't) Actor \<Rightarrow> bool" where
  "in_step rt a b \<longleftrightarrow>
     reads_alike a b \<and> ea_shardNumber a = ea_shardNumber b \<and> tenant_bound a \<and> cache_ok rt b
     \<and> latestState a = ea_currentState b \<and> latestCounter a = ea_eventsCounter b
     \<and> \<not> ea_batchHasPrecondition a \<and> ea_phase b = phaseProcessing"

lemma in_step_bound: "in_step rt a b \<Longrightarrow> tenant_bound b"
  by (auto simp: in_step_def tenant_bound_def reads_alike_def)

text \<open>Taking a snapshot of a state just confirmed leaves the actor as it is.\<close>

lemma trigger_confirmed:
  "fst (triggerSnapshotAndRetention rt (applyConfirmedState rt st n t a)) = applyConfirmedState rt st n t a"
  by (cases a) (simp add: trigger_eq snapshotAndRetain_def currentStateAny_eq applyConfirmedState_def Let_def
      split: option.split)

lemma direct_turn_written:
  assumes "tenant_bound b" and "ExpectedRevisionFromContext (rt_time rt) (tn_revision tn) (tn_ctx tn) = None"
    and "outcome rt tn cmd (ea_currentState b) (ea_eventsCounter b) b = Inr (Some (envs, st, n))"
  shows "\<exists>b'. direct_turn rt tn cmd b =
      (b', envs, [state_reply (ea_persistenceID b) (any_New (rt_any rt) st) n (tn_build tn)])
    \<and> reads_alike b' b \<and> ea_shardNumber b' = ea_shardNumber b \<and> cache_ok rt b' \<and> ea_currentState b' = st
    \<and> ea_eventsCounter b' = n \<and> ea_phase b' = phaseProcessing"
proof -
  let ?p = "b\<lparr>ea_directPendingState := st, ea_directPendingCounter := n, ea_directPendingTime := tn_build tn,
      ea_directNumEvents := int (length envs), ea_phase := phasePersisting\<rparr>"
  let ?c = "applyConfirmedState rt st n (tn_build tn) ?p"
  have r: "fst (handleDirectPersistResponse rt None ?p) = ?c\<lparr>ea_directErr := None, ea_phase := phaseDirectReplying\<rparr>"
    using trigger_confirmed [of rt st n "tn_build tn" ?p]
    by (auto simp: handleDirectPersistResponse_def Let_def split: prod.split)
  have "cache_ok rt (?c\<lparr>ea_directErr := None, ea_phase := phaseProcessing\<rparr>)"
    by (simp add: cache_ok_def applyConfirmedState_def)
  from sendStateReply_eq [OF this] assms r direct_outcome [OF assms(1,2), of cmd]
  show ?thesis
    by (simp add: direct_turn_def persistAsync_def Let_def case_prod_unfold replyDirect_def)
      (simp add: applyConfirmedState_def reads_alike_def cache_ok_def)
qed

lemma direct_turn_quiet:
  assumes "tenant_bound b" and "ExpectedRevisionFromContext (rt_time rt) (tn_revision tn) (tn_ctx tn) = None"
    and "cache_ok rt b"
    and "case outcome rt tn cmd (ea_currentState b) (ea_eventsCounter b) b of Inr (Some _) \<Rightarrow> False | _ \<Rightarrow> True"
  shows "\<exists>x. direct_turn rt tn cmd b = (b\<lparr>ea_cachedStateAny := x\<rparr>, [], []) \<and> cache_ok rt (b\<lparr>ea_cachedStateAny := x\<rparr>)"
proof (cases "outcome rt tn cmd (ea_currentState b) (ea_eventsCounter b) b")
  case (Inl err)
  with direct_outcome [OF assms(1,2), of cmd] assms(3) show ?thesis
    by (intro exI [of _ "ea_cachedStateAny b"]) (simp add: direct_turn_def sendErrorReply_def)
next
  case (Inr x)
  with assms(4) direct_outcome [OF assms(1,2), of cmd] sendStateReply_eq [OF assms(3)] show ?thesis
    by (intro exI [of _ "any_New (rt_any rt) (ea_currentState b)"])
      (simp add: direct_turn_def cache_ok_def split: option.splits)
qed

section \<open>In a batch\<close>

lemma batch_step:
  assumes s: "in_step rt a b" and rev: "ExpectedRevisionFromContext (rt_time rt) (tn_revision tn) (tn_ctx tn) = None"
    and a': "fst (processAndBatch rt tn cmd a) = a'" "ea_phase a' = phaseProcessing"
    and b': "direct_turn rt tn cmd b = (b', envs, replies)"
  shows "in_step rt a' b' \<and> ea_batchBuffer a' = ea_batchBuffer a @ envs \<and> ea_batchEntries a' = ea_batchEntries a @ replies"
proof -
  from s have al: "reads_alike a b" "ea_shardNumber a = ea_shardNumber b" and bound: "tenant_bound a" and cache: "cache_ok rt b"
    and st: "latestState a = ea_currentState b" "latestCounter a = ea_eventsCounter b"
    by (simp_all add: in_step_def)
  note o = outcome_alike [OF al, of rt tn cmd] and boundb = in_step_bound [OF s]
  note p = batch_outcome [OF bound rev, of cmd, unfolded st o]
  show ?thesis
  proof (cases "case outcome rt tn cmd (ea_currentState b) (ea_eventsCounter b) b of Inr (Some _) \<Rightarrow> False | _ \<Rightarrow> True")
    case True
    with p a'(1) have "\<exists>x. a' = a\<lparr>ea_cachedStateAny := x\<rparr>"
      by (cases a) (auto simp: noEventsReply_def currentStateAny_eq Let_def split: sum.splits option.splits if_splits)
    with direct_turn_quiet [OF boundb rev cache True] s b' show ?thesis
      by (auto simp: in_step_def reads_alike_def tenant_bound_def latestState_def latestCounter_def)
  next
    case False
    then obtain es x n where out: "outcome rt tn cmd (ea_currentState b) (ea_eventsCounter b) b = Inr (Some (es, x, n))"
      by (auto split: sum.splits option.splits)
    let ?a2 = "append_to_batch rt es x n (tn_build tn) (open_batch None (ea_eventsCounter b) a)"
    from out p a' have a2: "a' = startFlushTimer ?a2"
      by (auto simp: Let_def flushBatch_def split: if_splits)
    have "ea_persistenceID a = ea_persistenceID b" using al by (simp add: reads_alike_def)
    with direct_turn_written [OF boundb rev out] b' s show ?thesis
      unfolding a2
      by (auto simp: in_step_def startFlushTimer_def append_to_batch_def open_batch_def reads_alike_def tenant_bound_def
          latestState_def latestCounter_def)
  qed
qed

text \<open>A batch that was sent off stays so until its response arrives.\<close>

lemma flushing_stays:
  assumes "tenant_bound a" and "ea_phase a = phaseFlushing"
  shows "ea_phase (fst (processAndBatch rt tn cmd a)) = phaseFlushing \<and> tenant_bound (fst (processAndBatch rt tn cmd a))"
proof -
  obtain a' effs where "processAndBatch rt tn cmd a = (a', effs)" by fastforce
  with assms(1) show ?thesis
    by (cases rule: processAndBatch_cases)
      (use assms in \<open>auto simp: tenant_bound_def noEventsReply_def currentStateAny_eq Let_def flushBatch_def
         stopFlushTimer_def append_to_batch_def startFlushTimer_def \<open>processAndBatch rt tn cmd a = (a', effs)\<close>
         split: if_splits\<close>)
qed

lemma batch_run_flushing: "tenant_bound a \<Longrightarrow> ea_phase a = phaseFlushing \<Longrightarrow> ea_phase (batch_run rt cmds a) = phaseFlushing"
  by (induction rt cmds a rule: batch_run.induct) (simp_all add: flushing_stays)

lemma batch_phases:
  assumes "tenant_bound a" and "ea_phase a = phaseProcessing"
  shows "ea_phase (fst (processAndBatch rt tn cmd a)) \<in> {phaseProcessing, phaseFlushing}
    \<and> tenant_bound (fst (processAndBatch rt tn cmd a))"
proof -
  obtain a' effs where p: "processAndBatch rt tn cmd a = (a', effs)" by fastforce
  with assms(1) show ?thesis
    by (cases rule: processAndBatch_cases)
      (use assms in \<open>auto simp: tenant_bound_def noEventsReply_def currentStateAny_eq Let_def flushBatch_def
         stopFlushTimer_def append_to_batch_def startFlushTimer_def p split: if_splits\<close>)
qed

lemma batch_run_in_step:
  assumes "in_step rt a b" and "ea_phase a = phaseProcessing"
    and "\<forall>(tn, cmd) \<in> set cmds. ExpectedRevisionFromContext (rt_time rt) (tn_revision tn) (tn_ctx tn) = None"
    and "ea_phase (batch_run rt cmds a) = phaseProcessing" and "direct_run rt cmds b = (b', envs, replies)"
  shows "in_step rt (batch_run rt cmds a) b' \<and> ea_batchBuffer (batch_run rt cmds a) = ea_batchBuffer a @ envs
    \<and> ea_batchEntries (batch_run rt cmds a) = ea_batchEntries a @ replies"
  using assms
proof (induction cmds arbitrary: a b envs replies)
  case (Cons x cmds)
  obtain tn cmd where x: "x = (tn, cmd)" by fastforce
  let ?a1 = "fst (processAndBatch rt tn cmd a)"
  obtain b1 envs1 replies1 where d: "direct_turn rt tn cmd b = (b1, envs1, replies1)" by (cases "direct_turn rt tn cmd b")
  obtain envs2 replies2 where r: "direct_run rt cmds b1 = (b', envs2, replies2)"
    "envs = envs1 @ envs2" "replies = replies1 @ replies2"
    using Cons.prems(5) by (auto simp: x d split: prod.splits)
  have "tenant_bound a" using Cons.prems(1) by (simp add: in_step_def)
  from batch_phases [OF this Cons.prems(2), of rt tn cmd] batch_run_flushing [of ?a1 rt cmds] Cons.prems(4)
  have ph: "ea_phase ?a1 = phaseProcessing" by (auto simp: x)
  have rev: "ExpectedRevisionFromContext (rt_time rt) (tn_revision tn) (tn_ctx tn) = None" using Cons.prems(3) by (simp add: x)
  note st = batch_step [OF Cons.prems(1) rev refl ph d]
  with Cons.IH [OF _ ph _ _ r(1)] Cons.prems(3,4) show ?case by (simp add: x r(2,3))
qed simp

text \<open>
  C4. Batching commands is the same as taking them one at a time.  A run of commands without declared
  revisions that fits in one batch collects exactly the envelopes, in order, and prepares exactly the
  replies, in order, that the commands would have written and got one at a time with every write
  succeeding; the batch's state and sequence number are those the actor would have ended with, and
  the batch is sent off without a precondition, as those commands would have been.
\<close>

theorem batch_equals_one_at_a_time:
  assumes "tenant_bound a" and "cache_ok rt a" and "ea_phase a = phaseProcessing"
    and "ea_batchEntries a = []" and "ea_batchBuffer a = []" and "\<not> ea_batchHasPrecondition a"
    and "\<forall>(tn, cmd) \<in> set cmds. ExpectedRevisionFromContext (rt_time rt) (tn_revision tn) (tn_ctx tn) = None"
    and "ea_phase (batch_run rt cmds a) = phaseProcessing" and "direct_run rt cmds a = (b, envs, replies)"
  shows "ea_batchBuffer (batch_run rt cmds a) = envs \<and> ea_batchEntries (batch_run rt cmds a) = replies
    \<and> latestState (batch_run rt cmds a) = ea_currentState b \<and> latestCounter (batch_run rt cmds a) = ea_eventsCounter b
    \<and> resolveBatchPrecondition (batch_run rt cmds a) = Unconditional"
proof -
  have "in_step rt a a" using assms(1-6) by (simp add: in_step_def latestState_def latestCounter_def)
  from batch_run_in_step [OF this assms(3,7-9)] assms(4,5) show ?thesis
    by (simp add: in_step_def resolveBatchPrecondition_def)
qed

theorem batch_equals_one_at_a_time_witness:
  "ea_batchBuffer (batch_run text_rt [(text_turn, ''hi'')] ((sy_actor text_ready)\<lparr>ea_batchThreshold := 10\<rparr>)) = [text_envelope]"
proof -
  let ?a = "(sy_actor text_ready)\<lparr>ea_batchThreshold := 10\<rparr>"
  have out: "outcome text_rt text_turn ''hi'' '''' 0 ?a = Inr (Some ([text_envelope], ''hi'', 1))"
    by (simp add: outcome_def text_ready_eq text_init_def es_init_def text_spawned_def newActor_def tenant_gate_def
        text_turn_def context_Background_def CheckDeadline_def dispatchToBehavior_def text_behavior_def buildEnvelopes_def
        marshalEvent_def seal_event_def text_envelope_def text_rt_def frame_codec_def text_codec_def time_UnixNano_def)
  have a: "tenant_bound ?a" "cache_ok text_rt ?a" "ea_phase ?a = phaseProcessing" "ea_batchEntries ?a = []"
    "ea_batchBuffer ?a = []" "\<not> ea_batchHasPrecondition ?a" "ea_currentState ?a = ''''" "ea_eventsCounter ?a = 0"
    "ea_batchThreshold ?a = 10" "ea_batchNumEvents ?a = 0"
    by (simp_all add: text_ready_eq text_init_def es_init_def text_spawned_def newActor_def tenant_bound_def cache_ok_def)
  have rev: "ExpectedRevisionFromContext (rt_time text_rt) (tn_revision text_turn) (tn_ctx text_turn) = None"
    by (simp add: ExpectedRevisionFromContext_def MetadataFromContext_def CarrierFromContext_def context_Background_def)
  have l: "latestState ?a = ''''" "latestCounter ?a = 0" using a by (simp_all add: latestState_def latestCounter_def)
  have "ea_phase (batch_run text_rt [(text_turn, ''hi'')] ?a) = phaseProcessing"
    using batch_outcome [OF a(1) rev, of "''hi''"] a
    by (simp add: l out append_to_batch_def open_batch_def startFlushTimer_def Let_def)
  moreover obtain b where "direct_run text_rt [(text_turn, ''hi'')] ?a = (b, [text_envelope],
      [state_reply (ea_persistenceID ?a) (any_New (rt_any text_rt) ''hi'') 1 (tn_build text_turn)])"
    using direct_turn_written [OF a(1) rev, of "''hi''"] a(7,8) out by (auto split: prod.split)
  ultimately show ?thesis
    using batch_equals_one_at_a_time [OF a(1-6), of "[(text_turn, ''hi'')]"] rev by simp
qed

end
