(* ===== verification/Runner.thy ===== *)
theory Runner
  imports Persistence
begin

text \<open>
  The error chain of \<open>src/internal/runner/runner.go\<close>.  A runner may change the world it runs in:
  it takes a state and returns its error with the state after it.  \<open>multierr.Append\<close> of the
  \<open>go.uber.org/multierr\<close> package is the parameter \<open>combine\<close>.
\<close>

section \<open>Chains\<close>

record 'c Chain =
  ch_returnFirst :: bool
  ch_err :: "goerr option"
  ch_ctx :: 'c

type_synonym 's runner_fn = "'s \<Rightarrow> goerr option \<times> 's"

definition WithFailFast :: "'c Chain \<Rightarrow> 'c Chain" where
  "WithFailFast c = c\<lparr>ch_returnFirst := True\<rparr>"

definition WithRunAll :: "'c Chain \<Rightarrow> 'c Chain" where
  "WithRunAll c = c\<lparr>ch_returnFirst := False\<rparr>"

definition WithContext :: "'c \<Rightarrow> 'c Chain \<Rightarrow> 'c Chain" where
  "WithContext ctx c = c\<lparr>ch_ctx := ctx\<rparr>"

definition runner_New :: "'c \<Rightarrow> ('c Chain \<Rightarrow> 'c Chain) list \<Rightarrow> 'c Chain" where
  "runner_New background opts = fold (\<lambda>opt c. opt c) opts \<lparr>ch_returnFirst = False, ch_err = None, ch_ctx = background\<rparr>"

text \<open>\<open>multierr.AppendInto\<close>: the error on its own, or combined with those before it.\<close>

definition AppendInto :: "(goerr \<Rightarrow> goerr \<Rightarrow> goerr) \<Rightarrow> goerr option \<Rightarrow> goerr \<Rightarrow> goerr option" where
  "AppendInto combine into err = Some (case into of None \<Rightarrow> err | Some e \<Rightarrow> combine e err)"

definition AddRunner ::
    "(goerr \<Rightarrow> goerr \<Rightarrow> goerr) \<Rightarrow> 's runner_fn \<Rightarrow> 'c Chain \<times> 's \<Rightarrow> 'c Chain \<times> 's" where
  "AddRunner combine fn cs =
     (let (c, s) = cs in
      if ch_returnFirst c then
        (if ch_err c \<noteq> None then (c, s)
         else case fn s of
                (Some err, s') \<Rightarrow> (c\<lparr>ch_err := Some err\<rparr>, s')
              | (None, s') \<Rightarrow> (c, s'))
      else case fn s of
             (Some err, s') \<Rightarrow> (c\<lparr>ch_err := AppendInto combine (ch_err c) err\<rparr>, s')
           | (None, s') \<Rightarrow> (c, s'))"

fun AddRunners ::
    "(goerr \<Rightarrow> goerr \<Rightarrow> goerr) \<Rightarrow> 's runner_fn list \<Rightarrow> 'c Chain \<times> 's \<Rightarrow> 'c Chain \<times> 's" where
  "AddRunners combine [] cs = cs"
| "AddRunners combine (fn # fns) cs =
     (if ch_returnFirst (fst cs) \<and> ch_err (fst cs) \<noteq> None then cs
      else AddRunners combine fns (AddRunner combine fn cs))"

definition AddContextRunner ::
    "(goerr \<Rightarrow> goerr \<Rightarrow> goerr) \<Rightarrow> ('c \<Rightarrow> 's runner_fn) \<Rightarrow> 'c Chain \<times> 's \<Rightarrow> 'c Chain \<times> 's" where
  "AddContextRunner combine fn cs =
     (let (c, s) = cs in
      if ch_returnFirst c then
        (if ch_err c \<noteq> None then (c, s)
         else case fn (ch_ctx c) s of
                (Some err, s') \<Rightarrow> (c\<lparr>ch_err := Some err\<rparr>, s')
              | (None, s') \<Rightarrow> (c, s'))
      else case fn (ch_ctx c) s of
             (Some err, s') \<Rightarrow> (c\<lparr>ch_err := AppendInto combine (ch_err c) err\<rparr>, s')
           | (None, s') \<Rightarrow> (c, s'))"

definition AddContextRunnerIf ::
    "(goerr \<Rightarrow> goerr \<Rightarrow> goerr) \<Rightarrow> bool \<Rightarrow> ('c \<Rightarrow> 's runner_fn) \<Rightarrow> 'c Chain \<times> 's \<Rightarrow> 'c Chain \<times> 's" where
  "AddContextRunnerIf combine condition fn cs =
     (if \<not> condition then cs
      else let (c, s) = cs in
      if ch_returnFirst c then
        (if ch_err c \<noteq> None then (c, s)
         else case fn (ch_ctx c) s of
                (Some err, s') \<Rightarrow> (c\<lparr>ch_err := Some err\<rparr>, s')
              | (None, s') \<Rightarrow> (c, s'))
      else case fn (ch_ctx c) s of
             (Some err, s') \<Rightarrow> (c\<lparr>ch_err := AppendInto combine (ch_err c) err\<rparr>, s')
           | (None, s') \<Rightarrow> (c, s'))"

definition chain_Run :: "'c Chain \<Rightarrow> goerr option" where
  "chain_Run c = ch_err c"

section \<open>What a chain does\<close>

text \<open>Runners one after the other up to the first error; all runners with all their errors.\<close>

fun until_error :: "'s runner_fn list \<Rightarrow> 's runner_fn" where
  "until_error [] s = (None, s)"
| "until_error (fn # fns) s =
     (case fn s of (Some err, s') \<Rightarrow> (Some err, s') | (None, s') \<Rightarrow> until_error fns s')"

fun run_every :: "'s runner_fn list \<Rightarrow> 's \<Rightarrow> goerr list \<times> 's" where
  "run_every [] s = ([], s)"
| "run_every (fn # fns) s =
     (let (e, s') = fn s; (es, s'') = run_every fns s' in (case e of Some err \<Rightarrow> err # es | None \<Rightarrow> es, s''))"

definition combined :: "(goerr \<Rightarrow> goerr \<Rightarrow> goerr) \<Rightarrow> goerr list \<Rightarrow> goerr option" where
  "combined combine errs = (case errs of [] \<Rightarrow> None | e # es \<Rightarrow> Some (fold (\<lambda>err acc. combine acc err) es e))"

lemma AddRunner_pair:
  "AddRunner combine fn (c, s) =
     (if ch_returnFirst c \<and> ch_err c \<noteq> None then (c, s)
      else case fn s of
             (Some err, s') \<Rightarrow>
               (c\<lparr>ch_err := (if ch_returnFirst c then Some err else AppendInto combine (ch_err c) err)\<rparr>, s')
           | (None, s') \<Rightarrow> (c, s'))"
  by (simp add: AddRunner_def split: prod.split option.split)

lemma fold_stopped:
  "ch_returnFirst c \<Longrightarrow> ch_err c \<noteq> None \<Longrightarrow> fold (AddRunner combine) fns (c, s) = (c, s)"
  by (induction fns) (simp_all add: AddRunner_pair)

lemma fold_fail_fast:
  "ch_returnFirst c \<Longrightarrow> ch_err c = None \<Longrightarrow> until_error fns s = (r, s') \<Longrightarrow>
     fold (AddRunner combine) fns (c, s) = (c\<lparr>ch_err := r\<rparr>, s')"
proof (induction fns arbitrary: s)
  case (Cons fn fns)
  obtain e t where f: "fn s = (e, t)" by fastforce
  show ?case
  proof (cases e)
    case None
    with Cons f show ?thesis by (simp add: AddRunner_pair)
  next
    case (Some err)
    with Cons.prems f show ?thesis by (auto simp: AddRunner_pair fold_stopped)
  qed
qed simp

lemma AddRunners_fold: "AddRunners combine fns cs = fold (AddRunner combine) fns cs"
proof (induction combine fns cs rule: AddRunners.induct)
  case (2 combine fn fns cs)
  then show ?case using fold_stopped [of "fst cs" combine "fn # fns" "snd cs"] by auto
qed simp

lemma fold_run_all:
  "\<not> ch_returnFirst c \<Longrightarrow> run_every fns s = (errs, s') \<Longrightarrow>
     fold (AddRunner combine) fns (c, s) =
       (c\<lparr>ch_err := (case ch_err c of None \<Rightarrow> combined combine errs
            | Some e \<Rightarrow> Some (fold (\<lambda>err acc. combine acc err) errs e))\<rparr>, s')"
proof (induction fns arbitrary: c s errs s')
  case (Cons fn fns)
  obtain e t where f: "fn s = (e, t)" by fastforce
  obtain es u where g: "run_every fns t = (es, u)" by fastforce
  show ?case
  proof (cases e)
    case None
    with Cons.prems f g Cons.IH [OF _ g, of c] show ?thesis by (auto simp: AddRunner_pair)
  next
    case (Some err)
    with Cons.prems f g Cons.IH [OF _ g, of "c\<lparr>ch_err := AppendInto combine (ch_err c) err\<rparr>"] show ?thesis
      by (auto simp: AddRunner_pair AppendInto_def combined_def split: option.splits)
  qed
qed (simp add: combined_def split: option.split)

text \<open>
  A chain runs its functions in the order they were added.  A fail-fast chain stops at the first
  error, returns exactly that error and runs nothing after it; the other chain runs every function
  and returns all their errors, combined in order.
\<close>

theorem chain_runs_in_order:
  "(let (c, s') = fold (AddRunner combine) fns (runner_New ctx [WithFailFast], s) in (chain_Run c, s')) = until_error fns s
   \<and> (let (c, s') = fold (AddRunner combine) fns (runner_New ctx [WithRunAll], s) in (chain_Run c, s')) =
       (combined combine (fst (run_every fns s)), snd (run_every fns s))"
proof -
  obtain r s1 where u: "until_error fns s = (r, s1)" by fastforce
  obtain errs s2 where e: "run_every fns s = (errs, s2)" by fastforce
  show ?thesis
    using fold_fail_fast [of "runner_New ctx [WithFailFast]", OF _ _ u, of combine]
      fold_run_all [of "runner_New ctx [WithRunAll]", OF _ e, of combine]
    by (simp add: u e chain_Run_def runner_New_def WithFailFast_def WithRunAll_def)
qed

definition fail_fast :: "'s runner_fn list \<Rightarrow> 's runner_fn" where
  "fail_fast fns s =
     (let (c, s') = fold (AddRunner (\<lambda>e _. e)) fns (runner_New () [WithFailFast], s) in (chain_Run c, s'))"

lemma fail_fast_eq [simp]: "fail_fast fns s = until_error fns s"
proof -
  obtain r s1 where u: "until_error fns s = (r, s1)" by fastforce
  show ?thesis
    using fold_fail_fast [of "runner_New () [WithFailFast]", OF _ _ u, of "\<lambda>e _. e"]
    by (simp add: fail_fast_def u chain_Run_def runner_New_def WithFailFast_def)
qed

end
