(* ===== verification/DS_Actor.thy ===== *)
theory DS_Actor
  imports Actor_Base State_Store Runner "HOL-Library.Log_Nat"
begin

text \<open>
  The durable-state actor, \<open>src/internal/engine/durablestate/durable_state_actor.go\<close>: its state and
  one definition per method.  The store is written within the turn, so a handler takes and returns
  the actor together with the store; the rest of what it does outside (replies, publications, a
  panic) are its effects, in order.  Tracing spans and metrics are left out.
\<close>

section \<open>State\<close>

record 'm DurableStateBehavior =
  dsb_ID :: string
  dsb_InitialState :: 'm
  dsb_HandleCommand :: "cmdctx \<Rightarrow> 'm \<Rightarrow> u64 \<Rightarrow> 'm \<Rightarrow> goerr + 'm \<times> u64"
  dsb_HandleEnvelope :: "(cmdctx \<Rightarrow> 'm Envelope \<Rightarrow> u64 \<Rightarrow> 'm \<Rightarrow> goerr + 'm \<times> u64) option"

record ('m, 's) DurableActor =
  da_behavior :: "'m DurableStateBehavior option"
  da_stateStore :: "'s StateStore option"
  da_currentState :: 'm
  da_cachedStateAny :: "any_pb option"
  da_currentVersion :: u64
  da_lastCommandTime :: int
  da_persistenceID :: string
  da_shardNumber :: u64
  da_tenantAware :: bool
  da_actorTenant :: TenantContext
  da_scope :: Scope

definition ds_New :: "'m runtime \<Rightarrow> ('m, 's) DurableActor" where
  "ds_New rt =
     \<lparr>da_behavior = None, da_stateStore = None, da_currentState = rt_nil rt, da_cachedStateAny = None,
      da_currentVersion = 0, da_lastCommandTime = zeroTime, da_persistenceID = '''', da_shardNumber = 0,
      da_tenantAware = False, da_actorTenant = noTenantContext, da_scope = zeroScope\<rparr>"

definition StatesTopic :: string where
  "StatesTopic = ''topic.states''"

datatype ds_effect =
  DRespond CommandReply
  | DRespondBinding TenantBindingReply
  | DPublish string DurableState
  | DPanic

datatype 'm ds_message =
  DPostStart
  | DGetStateCommand
  | DTenantBindingQuery string
  | DCommand 'm

section \<open>Replies\<close>

definition ds_currentStateAny ::
    "'m runtime \<Rightarrow> ('m, 's) DurableActor \<Rightarrow> any_pb option \<times> ('m, 's) DurableActor" where
  "ds_currentStateAny rt a =
     (case da_cachedStateAny a of
        Some x \<Rightarrow> (Some x, a)
      | None \<Rightarrow>
          let x = any_New (rt_any rt) (da_currentState a) in (x, a\<lparr>da_cachedStateAny := x\<rparr>))"

definition ds_sendErrorReply :: "'m runtime \<Rightarrow> goerr \<Rightarrow> ds_effect" where
  "ds_sendErrorReply rt err = DRespond (Reply_ErrorReply (error_text (rt_print rt) err))"

definition ds_sendStateReply ::
    "'m runtime \<Rightarrow> ('m, 's) DurableActor \<Rightarrow> ('m, 's) DurableActor \<times> ds_effect list" where
  "ds_sendStateReply rt a =
     (let (st, a') = ds_currentStateAny rt a in
      (a', [DRespond (Reply_StateReply
              \<lparr>sr_persistence_id = da_persistenceID a, sr_state = st, sr_sequence_number = da_currentVersion a,
               sr_timestamp = time_UnixNano (da_lastCommandTime a), sr_saga_status = SAGA_LIFECYCLE_STATUS_NONE\<rparr>)]))"

section \<open>Tenant identity\<close>

text \<open>
  The gate in front of every command and read; the result is the tenant resolved for the command.
\<close>

definition ds_tenant_gate :: "cmdctx \<Rightarrow> ('m, 's) DurableActor \<Rightarrow> goerr + TenantContext" where
  "ds_tenant_gate ctx a =
     (if \<not> da_tenantAware a then Inr noTenantContext
      else case tenancy_Require ctx of
             Inl err \<Rightarrow> Inl (ErrTenancy err)
           | Inr tc \<Rightarrow>
               if da_actorTenant a \<noteq> noTenantContext
               then (case tenancy_VerifyUnchanged (da_actorTenant a) tc of
                       Some err \<Rightarrow> Inl (ErrTenancy err)
                     | None \<Rightarrow> Inr tc)
               else Inr tc)"

definition ds_verifyTenantForPersist :: "cmdctx \<Rightarrow> ('m, 's) DurableActor \<Rightarrow> goerr option" where
  "ds_verifyTenantForPersist ctx a =
     (if \<not> da_tenantAware a then None
      else case tenancy_Require ctx of Inl err \<Rightarrow> Some (ErrTenancy err) | Inr _ \<Rightarrow> None)"

definition ds_getStateAndReply ::
    "'m runtime \<Rightarrow> cmdctx \<Rightarrow> ('m, 's) DurableActor \<Rightarrow> ('m, 's) DurableActor \<times> ds_effect list" where
  "ds_getStateAndReply rt ctx a =
     (case ds_tenant_gate ctx a of
        Inl err \<Rightarrow> (a, [ds_sendErrorReply rt err])
      | Inr _ \<Rightarrow> ds_sendStateReply rt a)"

section \<open>Commands\<close>

definition ds_dispatchToBehavior ::
    "'m runtime \<Rightarrow> turn \<Rightarrow> 'm \<Rightarrow> u64 \<Rightarrow> 'm \<Rightarrow> ('m, 's) DurableActor \<Rightarrow> goerr + 'm \<times> u64" where
  "ds_dispatchToBehavior rt tn cmd priorVersion priorState a =
     (let bh = the (da_behavior a); ctx = tn_ctx tn in
      case dsb_HandleEnvelope bh of
        None \<Rightarrow> dsb_HandleCommand bh ctx cmd priorVersion priorState
      | Some handleEnvelope \<Rightarrow>
          (case MetadataFromContext (rt_time rt) (tn_dispatch tn) ctx of
             None \<Rightarrow> dsb_HandleCommand bh ctx cmd priorVersion priorState
           | Some md \<Rightarrow>
               (case NewEnvelope (Some cmd) md of
                  Inl err \<Rightarrow> dsb_HandleCommand bh ctx cmd priorVersion priorState
                | Inr env \<Rightarrow> handleEnvelope ctx env priorVersion priorState)))"

text \<open>
  \<open>int(math.Abs(float64(n)))\<close> for an unsigned \<open>n\<close>: the nearest double with 53 significant bits, ties to
  even; where it exceeds \<open>int64\<close> the conversion gives the least integer, as on amd64.
\<close>

definition float64_of_nat :: "nat \<Rightarrow> nat" where
  "float64_of_nat n =
     (if n < 2 ^ 53 then n
      else let e = floorlog 2 n - 53; q = n div 2 ^ e; r = n mod 2 ^ e in
           (if 2 * r < 2 ^ e \<or> 2 * r = 2 ^ e \<and> even q then q else q + 1) * 2 ^ e)"

definition int_of_float64 :: "nat \<Rightarrow> int" where
  "int_of_float64 x = (if x < 2 ^ 63 then int x else - (2 ^ 63))"

text \<open>\<open>ProtoReflect\<close> on a nil message panics.\<close>

datatype ds_check = CheckPanics | CheckFails goerr | CheckPasses

definition ds_checkPreconditions ::
    "'m runtime \<Rightarrow> 'm \<Rightarrow> u64 \<Rightarrow> ('m, 's) DurableActor \<Rightarrow> ds_check" where
  "ds_checkPreconditions rt newState newVersion a =
     (if da_currentState a = rt_nil rt \<or> newState = rt_nil rt then CheckPanics
      else if rt_name rt (da_currentState a) \<noteq> rt_name rt newState then
        CheckFails (ErrNew (''mismatch state types: '' @ rt_name rt (da_currentState a) @ '' != '' @ rt_name rt newState))
      else if int_of_float64 (float64_of_nat (unat (newVersion - da_currentVersion a))) \<noteq> 1 then
        CheckFails (ErrNew (da_persistenceID a @ '' received version=('' @ strconv_FormatUint newVersion
          @ '') while current version is ('' @ strconv_FormatUint (da_currentVersion a) @ '')''))
      else CheckPasses)"

definition ds_provablyInSyncAfterConflict :: "goerr \<Rightarrow> ('m, 's) DurableActor \<Rightarrow> bool" where
  "ds_provablyInSyncAfterConflict err a =
     (case errors_As_conflict err of
        None \<Rightarrow> False
      | Some conflictErr \<Rightarrow>
          (case ce_ActualRevision conflictErr of
             None \<Rightarrow> False
           | Some actual \<Rightarrow> actual = da_currentVersion a))"

text \<open>
  Recovery reads the store.  On the error paths before the last assignments the actor keeps what
  was assigned so far: only the tenant can have been.
\<close>

definition ds_recoverFromStore ::
    "'m runtime \<Rightarrow> 's \<Rightarrow> ('m, 's) DurableActor \<Rightarrow> goerr option \<times> ('m, 's) DurableActor" where
  "ds_recoverFromStore rt db a =
     (let initial = dsb_InitialState (the (da_behavior a)) in
      case GetLatestState (the (da_stateStore a)) (da_scope a) (da_persistenceID a) db of
        Inl err \<Rightarrow> (Some (ErrWrap ''failed to get the latest state: '' err ''''), a)
      | Inr None \<Rightarrow> (None, a\<lparr>da_currentState := initial\<rparr>)
      | Inr (Some durableState) \<Rightarrow>
          if da_tenantAware a \<and> du_version_number durableState = 0 then (None, a\<lparr>da_currentState := initial\<rparr>)
          else
            (case (if \<not> da_tenantAware a then Inr a
                   else case tenancy_UnmarshalMetadata (du_tenant_metadata durableState) of
                          Inl err \<Rightarrow>
                            Inl (ErrWrap ''failed to unmarshal durable state tenant metadata: '' (ErrTenancy err) '''')
                        | Inr tc \<Rightarrow>
                            if da_actorTenant a \<noteq> noTenantContext then
                              (case tenancy_VerifyUnchanged (da_actorTenant a) tc of
                                 Some verifyErr \<Rightarrow>
                                   Inl (ErrWrap ''recovered tenant metadata does not match the spawn-bound tenant: ''
                                          (ErrTenancy verifyErr) '''')
                               | None \<Rightarrow> Inr a)
                            else Inr (a\<lparr>da_actorTenant := tc\<rparr>)) of
               Inl err \<Rightarrow> (Some err, a)
             | Inr a1 \<Rightarrow>
                 (case du_resulting_state durableState of
                    None \<Rightarrow>
                      (None, a1\<lparr>da_currentState := initial, da_currentVersion := du_version_number durableState\<rparr>)
                  | Some resultingState \<Rightarrow>
                      (case any_UnmarshalTo (rt_any rt) (Some resultingState) initial of
                         Inl err \<Rightarrow> (Some (ErrWrap ''failed to unmarshal the latest state: '' err ''''), a1)
                       | Inr st \<Rightarrow>
                           (None, a1\<lparr>da_currentState := st, da_currentVersion := du_version_number durableState\<rparr>)))))"

definition ds_recoverFromConflictIfNeeded ::
    "'m runtime \<Rightarrow> goerr \<Rightarrow> 's \<Rightarrow> ('m, 's) DurableActor \<Rightarrow> ('m, 's) DurableActor" where
  "ds_recoverFromConflictIfNeeded rt err db a =
     (if ds_provablyInSyncAfterConflict err a then a else snd (ds_recoverFromStore rt db a))"

section \<open>Commits\<close>

definition ds_commitState ::
    "'m runtime \<Rightarrow> 'm \<Rightarrow> u64 \<Rightarrow> int \<Rightarrow> TenantContext \<Rightarrow> WritePrecondition \<Rightarrow> ('m, 's) DurableActor \<times> 's
       \<Rightarrow> goerr option \<times> ('m, 's) DurableActor \<times> 's \<times> ds_effect list" where
  "ds_commitState rt newState newVersion commandTime candidateTenant precondition as =
     (let (a, db) = as in
      case any_New (rt_any rt) newState of
        None \<Rightarrow> (Some (rt_newErr rt newState), a, db, [])
      | Some newStateAny \<Rightarrow>
          let durableState =
                \<lparr>du_persistence_id = da_persistenceID a, du_version_number = newVersion,
                 du_resulting_state = Some newStateAny, du_timestamp = time_UnixNano commandTime,
                 du_shard = da_shardNumber a,
                 du_tenant_metadata =
                   (if da_tenantAware a then tenancy_MarshalMetadata candidateTenant else Map.empty)\<rparr> in
          (case WriteState (the (da_stateStore a)) (da_scope a) durableState precondition db of
             (Some err, db') \<Rightarrow> (Some err, a, db', [])
           | (None, db') \<Rightarrow>
               let a1 = a\<lparr>da_currentState := newState, da_cachedStateAny := Some newStateAny,
                          da_lastCommandTime := commandTime, da_currentVersion := newVersion\<rparr> in
               (None, if da_tenantAware a then a1\<lparr>da_actorTenant := candidateTenant\<rparr> else a1, db',
                [DPublish StatesTopic durableState])))"

definition ds_persistStateAndPublish ::
    "'m runtime \<Rightarrow> ('m, 's) DurableActor \<times> 's \<Rightarrow> goerr option \<times> ('m, 's) DurableActor \<times> 's \<times> ds_effect list" where
  "ds_persistStateAndPublish rt as =
     (let (a, db) = as;
          (st, a1) = ds_currentStateAny rt a;
          durableState =
            \<lparr>du_persistence_id = da_persistenceID a, du_version_number = da_currentVersion a,
             du_resulting_state = st, du_timestamp = time_UnixNano (da_lastCommandTime a),
             du_shard = da_shardNumber a,
             du_tenant_metadata =
               (if da_tenantAware a then tenancy_MarshalMetadata (da_actorTenant a) else Map.empty)\<rparr> in
      case WriteState (the (da_stateStore a)) (da_scope a) durableState Unconditional db of
        (Some err, db') \<Rightarrow> (Some err, a1, db', [])
      | (None, db') \<Rightarrow> (None, a1, db', [DPublish StatesTopic durableState]))"

text \<open>
  Up to the commit a command has changed nothing: every failure on the way is an error reply, and
  a nil state is a panic.
\<close>

definition ds_processCommand ::
    "'m runtime \<Rightarrow> turn \<Rightarrow> 'm \<Rightarrow> ('m, 's) DurableActor \<times> 's \<Rightarrow> (('m, 's) DurableActor \<times> 's) \<times> ds_effect list" where
  "ds_processCommand rt tn cmd as =
     (let (a, db) = as; ctx = tn_ctx tn in
      case sum_bind (ds_tenant_gate ctx a) (\<lambda>tc.
           check_err (CheckDeadline ctx (tn_gate tn) ''before handler execution'')
             (sum_bind (ds_dispatchToBehavior rt tn cmd (da_currentVersion a) (da_currentState a) a)
               (\<lambda>(newState, newVersion). Inr (tc, newState, newVersion)))) of
        Inl err \<Rightarrow> (as, [ds_sendErrorReply rt err])
      | Inr (candidateTenant, newState, newVersion) \<Rightarrow>
          (case ds_checkPreconditions rt newState newVersion a of
             CheckPanics \<Rightarrow> (as, [DPanic])
           | CheckFails err \<Rightarrow> (as, [ds_sendErrorReply rt err])
           | CheckPasses \<Rightarrow>
               (case check_err (CheckDeadline ctx (tn_persist tn) ''before persistence'')
                       (check_err (ds_verifyTenantForPersist ctx a) (Inr ())) of
                  Inl err \<Rightarrow> (as, [ds_sendErrorReply rt err])
                | Inr _ \<Rightarrow>
                    let precondition =
                          PreconditionFromRevision (ExpectedRevisionFromContext (rt_time rt) (tn_revision tn) ctx) in
                    (case ds_commitState rt newState newVersion (tn_build tn) candidateTenant precondition (a, db) of
                       (Some err, a1, db', effs) \<Rightarrow>
                         ((ds_recoverFromConflictIfNeeded rt err db' a1, db'), effs @ [ds_sendErrorReply rt err])
                     | (None, a1, db', effs) \<Rightarrow>
                         (let (a2, effs') = ds_sendStateReply rt a1 in ((a2, db'), effs @ effs'))))))"

section \<open>Messages\<close>

fun ds_Receive ::
    "'m runtime \<Rightarrow> turn \<Rightarrow> 'm ds_message \<Rightarrow> ('m, 's) DurableActor \<times> 's
       \<Rightarrow> (('m, 's) DurableActor \<times> 's) \<times> ds_effect list" where
  "ds_Receive rt tn DPostStart as = (as, [])"
| "ds_Receive rt tn DGetStateCommand (a, db) =
     (let (a', effs) = ds_getStateAndReply rt (tn_ctx tn) a in ((a', db), effs))"
| "ds_Receive rt tn (DTenantBindingQuery tid) (a, db) =
     ((a, db), [DRespondBinding (AnswerTenantBinding (da_tenantAware a) (da_scope a) tid)])"
| "ds_Receive rt tn (DCommand cmd) as = ds_processCommand rt tn cmd as"

text \<open>\<open>ping\<close> is what the store answers to a ping.  The state of the chain carries the effects.\<close>

definition ds_PostStop ::
    "'m runtime \<Rightarrow> goerr option \<Rightarrow> ('m, 's) DurableActor \<times> 's
       \<Rightarrow> goerr option \<times> ('m, 's) DurableActor \<times> 's \<times> ds_effect list" where
  "ds_PostStop rt ping as =
     (let a = fst as in
      fail_fast
        ((\<lambda>s. (ping, s)) #
         (if \<not> da_tenantAware a \<or> da_currentVersion a > 0
          then [\<lambda>(a, db, effs). ds_persistStateAndPublish rt (a, db)] else []))
        (a, snd as, []))"

section \<open>Starting\<close>

record 's ds_registry =
  dg_stateStore :: "'s StateStore option ext_slot"
  dg_eventsStream :: "unit ext_slot"
  dg_telemetry :: "unit ext_slot"
  dg_tenancy :: bool
  dg_ping :: "goerr option"
  dg_partition :: "string \<Rightarrow> u64"

definition ErrDurableStateStoreRequired :: goerr where
  "ErrDurableStateStoreRequired = ErrNew ''durable state store is required''"

definition ds_durableStateRequired :: "('m, 's) DurableActor \<Rightarrow> goerr option" where
  "ds_durableStateRequired a = (if da_stateStore a = None then Some ErrDurableStateStoreRequired else None)"

definition ds_resolveScope ::
    "'m DurableStateBehavior dependency list \<Rightarrow> ('m, 's) DurableActor \<Rightarrow> goerr + ('m, 's) DurableActor" where
  "ds_resolveScope deps a =
     sum_bind (bind_tenant_scope (da_tenantAware a) deps) (\<lambda>(scope, tc).
       Inr (if da_tenantAware a then a\<lparr>da_scope := scope, da_actorTenant := tc\<rparr> else a\<lparr>da_scope := scope\<rparr>))"

text \<open>The first behavior among the dependencies is the actor's.\<close>

fun first_behavior :: "'b dependency list \<Rightarrow> 'b option" where
  "first_behavior [] = None"
| "first_behavior (DepBehavior bh # deps) = Some bh"
| "first_behavior (_ # deps) = first_behavior deps"

definition ds_PreStart ::
    "'m runtime \<Rightarrow> string \<Rightarrow> 's ds_registry \<Rightarrow> 'm DurableStateBehavior dependency list \<Rightarrow> 's
       \<Rightarrow> ('m, 's) DurableActor \<Rightarrow> goerr + ('m, 's) DurableActor" where
  "ds_PreStart rt name rg deps db a =
     sum_bind (ext_Require (rt_print rt) name DurableStateStoreExtensionID (dg_stateStore rg)) (\<lambda>store.
     sum_bind (ext_Require (rt_print rt) name EventsStreamExtensionID (dg_eventsStream rg)) (\<lambda>_.
     sum_bind
       (ds_resolveScope deps
          (a\<lparr>da_stateStore := store, da_persistenceID := name, da_tenantAware := dg_tenancy rg\<rparr>)) (\<lambda>a1.
     let a2 = a1\<lparr>da_shardNumber := dg_partition rg name\<rparr>;
         a3 = (case first_behavior deps of Some bh \<Rightarrow> a2\<lparr>da_behavior := Some bh\<rparr> | None \<Rightarrow> a2) in
     sum_bind (ext_Optional (rt_print rt) name TelemetryExtensionID (dg_telemetry rg)) (\<lambda>_.
     case fail_fast
            [\<lambda>x. (ds_durableStateRequired x, x),
             \<lambda>x. (if da_behavior x = None then Some (ErrNew ''behavior is required'') else None, x),
             \<lambda>x. (dg_ping rg, x),
             ds_recoverFromStore rt db] a3 of
       (Some err, _) \<Rightarrow> Inl err
     | (None, a4) \<Rightarrow> Inr a4))))"

end
