(* ===== verification/DS_Correct.thy ===== *)
theory DS_Correct
  imports DS_Actor
begin

text \<open>
  Runs of a durable-state entity over a store that keeps its contract, and the invariant that ties
  the actor to its record: the record holds the state, the version and the tenant of the actor.
\<close>

section \<open>The version check\<close>

text \<open>
  The check computes \<open>int(math.Abs(float64(newVersion-currentVersion)))\<close> on wrapping unsigned integers;
  rounding to a double never turns another difference into one.
\<close>

lemma float64_of_nat_one: "float64_of_nat n = 1 \<longleftrightarrow> n = 1"
proof (cases "n < 2 ^ 53")
  case False
  define e where "e = floorlog 2 n - 53"
  have "\<not> floorlog 2 n \<le> 53"
    using False floorlog_leD[of 2 n 53] by auto
  then have "even (2 ^ e :: nat)"
    by (simp add: e_def)
  then have "even (float64_of_nat n)"
    using False by (simp add: float64_of_nat_def Let_def e_def)
  then have "float64_of_nat n \<noteq> 1" by auto
  then show ?thesis using False by auto
qed (simp add: float64_of_nat_def)

lemma version_check: "int_of_float64 (float64_of_nat (unat (w - v))) = 1 \<longleftrightarrow> w = v + (1 :: u64)"
proof -
  have "int_of_float64 (float64_of_nat (unat (w - v))) = 1 \<longleftrightarrow> unat (w - v) = 1"
    using float64_of_nat_one[of "unat (w - v)"] by (auto simp: int_of_float64_def)
  also have "\<dots> \<longleftrightarrow> w - v = 1" by (metis unat_1 word_unat_eq_iff)
  also have "\<dots> \<longleftrightarrow> w = v + 1" by (simp add: diff_eq_eq add.commute)
  finally show ?thesis .
qed

lemma checkPreconditions_passes:
  "ds_checkPreconditions rt st v a = CheckPasses \<longleftrightarrow>
     da_currentState a \<noteq> rt_nil rt \<and> st \<noteq> rt_nil rt \<and> rt_name rt st = rt_name rt (da_currentState a)
     \<and> v = da_currentVersion a + 1"
  by (auto simp: ds_checkPreconditions_def version_check)

section \<open>Runs\<close>

record ('m, 's) ds_sys =
  dy_actor :: "('m, 's) DurableActor"
  dy_db :: 's
  dy_out :: "ds_effect list"
  dy_running :: bool

text \<open>
  A running entity takes messages, is stopped (with the flush of \<open>PostStop\<close>) or lost with its node; a
  stopped one is started again from the store.  Turns end below the largest version.
\<close>

inductive ds_step ::
    "'m runtime \<Rightarrow> string \<Rightarrow> 's ds_registry \<Rightarrow> 'm DurableStateBehavior dependency list \<Rightarrow> ('m, 's) ds_sys \<Rightarrow> ('m, 's) ds_sys \<Rightarrow> bool"
  for rt name rg deps where
  turn: "\<lbrakk>dy_running s; da_currentVersion (dy_actor s) \<noteq> - 1;
      ds_Receive rt tn msg (dy_actor s, dy_db s) = ((a', db'), effs)\<rbrakk> \<Longrightarrow>
    ds_step rt name rg deps s (s\<lparr>dy_actor := a', dy_db := db', dy_out := dy_out s @ effs\<rparr>)"
| stop: "\<lbrakk>dy_running s; ds_PostStop rt ping (dy_actor s, dy_db s) = (err, a', db', effs)\<rbrakk> \<Longrightarrow>
    ds_step rt name rg deps s
      (s\<lparr>dy_actor := a', dy_db := db', dy_out := dy_out s @ effs, dy_running := False\<rparr>)"
| crash: "dy_running s \<Longrightarrow> ds_step rt name rg deps s (s\<lparr>dy_running := False\<rparr>)"
| start: "\<lbrakk>\<not> dy_running s; ds_PreStart rt name (rg\<lparr>dg_ping := ping\<rparr>) deps (dy_db s) (ds_New rt) = Inr a'\<rbrakk> \<Longrightarrow>
    ds_step rt name rg deps s (s\<lparr>dy_actor := a', dy_running := True\<rparr>)"

abbreviation ds_run ::
    "'m runtime \<Rightarrow> string \<Rightarrow> 's ds_registry \<Rightarrow> 'm DurableStateBehavior dependency list \<Rightarrow> ('m, 's) ds_sys \<Rightarrow> ('m, 's) ds_sys \<Rightarrow> bool" where
  "ds_run rt name rg deps \<equiv> (ds_step rt name rg deps)\<^sup>*\<^sup>*"

definition ds_started :: "('m, 's) DurableActor \<Rightarrow> 's \<Rightarrow> ('m, 's) ds_sys" where
  "ds_started a db = \<lparr>dy_actor = a, dy_db = db, dy_out = [], dy_running = True\<rparr>"

section \<open>Starting\<close>

text \<open>What \<open>PreStart\<close> assembles before it looks at the store.\<close>

definition ds_configure ::
    "'m runtime \<Rightarrow> string \<Rightarrow> 's ds_registry \<Rightarrow> 'm DurableStateBehavior dependency list \<Rightarrow> goerr + ('m, 's) DurableActor" where
  "ds_configure rt name rg deps =
     sum_bind (ext_Require (rt_print rt) name DurableStateStoreExtensionID (dg_stateStore rg)) (\<lambda>store.
     sum_bind (ext_Require (rt_print rt) name EventsStreamExtensionID (dg_eventsStream rg)) (\<lambda>_.
     sum_bind (bind_tenant_scope (dg_tenancy rg) deps) (\<lambda>(scope, tc).
     sum_bind (ext_Optional (rt_print rt) name TelemetryExtensionID (dg_telemetry rg)) (\<lambda>_.
     case (store, first_behavior deps) of
       (None, _) \<Rightarrow> Inl ErrDurableStateStoreRequired
     | (_, None) \<Rightarrow> Inl (ErrNew ''behavior is required'')
     | (Some api, Some bh) \<Rightarrow>
         Inr ((ds_New rt)\<lparr>da_stateStore := Some api, da_persistenceID := name, da_tenantAware := dg_tenancy rg,
                da_scope := scope, da_actorTenant := tc, da_shardNumber := dg_partition rg name,
                da_behavior := Some bh\<rparr>)))))"

lemma ds_PreStart_configure:
  "ds_PreStart rt name rg deps db (ds_New rt) =
     sum_bind (ds_configure rt name rg deps) (\<lambda>a.
       case dg_ping rg of
         Some err \<Rightarrow> Inl err
       | None \<Rightarrow> (case ds_recoverFromStore rt db a of (Some err, _) \<Rightarrow> Inl err | (None, a') \<Rightarrow> Inr a'))"
proof (cases "bind_tenant_scope (dg_tenancy rg) deps")
  case (Inl err)
  then show ?thesis
    by (simp add: ds_PreStart_def ds_configure_def ds_resolveScope_def sum_bind_assoc)
next
  case (Inr b)
  obtain scope tc where b: "b = (scope, tc)" by (cases b)
  with Inr have tc: "\<not> dg_tenancy rg \<Longrightarrow> tc = noTenantContext"
    using bind_tenant_scope_wf by blast
  show ?thesis
    unfolding ds_PreStart_def ds_configure_def ds_resolveScope_def sum_bind_assoc
    by (cases "ext_Require (rt_print rt) name DurableStateStoreExtensionID (dg_stateStore rg)";
        cases "ext_Optional (rt_print rt) name TelemetryExtensionID (dg_telemetry rg)")
      (auto simp: Inr b tc ds_durableStateRequired_def ds_New_def Let_def split: option.splits prod.splits)
qed

section \<open>What a record holds\<close>

text \<open>
  What the protocol-buffer runtime owes the entity, for the type of its initial state: unpacking
  gives a message of that type that can be packed again, and packing loses nothing.  Nothing is
  asked of the handlers.
\<close>

definition ds_codec_ok :: "'m runtime \<Rightarrow> 'm \<Rightarrow> bool" where
  "ds_codec_ok rt initial \<longleftrightarrow>
     initial \<noteq> rt_nil rt \<and> any_New (rt_any rt) initial \<noteq> None
     \<and> (\<forall>x st. any_UnmarshalTo (rt_any rt) (Some x) initial = Inr st \<longrightarrow>
          st \<noteq> rt_nil rt \<and> rt_name rt st = rt_name rt initial \<and> any_New (rt_any rt) st \<noteq> None)
     \<and> (\<forall>x st. st \<noteq> rt_nil rt \<longrightarrow> rt_name rt st = rt_name rt initial \<longrightarrow> any_New (rt_any rt) st = Some x \<longrightarrow>
          any_UnmarshalTo (rt_any rt) (Some x) initial = Inr st)"

definition state_ok :: "'m runtime \<Rightarrow> 'm \<Rightarrow> 'm \<Rightarrow> bool" where
  "state_ok rt initial st \<longleftrightarrow>
     st \<noteq> rt_nil rt \<and> rt_name rt st = rt_name rt initial \<and> any_New (rt_any rt) st \<noteq> None"

text \<open>
  The state, version and tenant a record stands for.  In tenant-aware mode a record of version 0 is
  a leftover of an installation without tenants and counts as none.
\<close>

definition holds_record ::
    "'m runtime \<Rightarrow> 'm \<Rightarrow> bool \<Rightarrow> TenantContext \<Rightarrow> DurableState option \<Rightarrow> 'm \<Rightarrow> u64 \<Rightarrow> bool" where
  "holds_record rt initial aware tc r st v \<longleftrightarrow>
     (case r of
        None \<Rightarrow> st = initial \<and> v = 0
      | Some d \<Rightarrow>
          if aware \<and> du_version_number d = 0 then st = initial \<and> v = 0
          else v = du_version_number d
            \<and> (case du_resulting_state d of
                 None \<Rightarrow> st = initial
               | Some x \<Rightarrow> any_UnmarshalTo (rt_any rt) (Some x) initial = Inr st)
            \<and> (aware \<longrightarrow> tenancy_UnmarshalMetadata (du_tenant_metadata d) = Inr tc))"

text \<open>
  What a running actor keeps of its configuration \<open>a0\<close>, and the tie between the actor, the cached
  packed state and its record \<open>r\<close>.
\<close>

definition same_config :: "('m, 's) DurableActor \<Rightarrow> ('m, 's) DurableActor \<Rightarrow> bool" where
  "same_config a0 a \<longleftrightarrow>
     da_behavior a = da_behavior a0 \<and> da_stateStore a = da_stateStore a0 \<and> da_persistenceID a = da_persistenceID a0
     \<and> da_shardNumber a = da_shardNumber a0 \<and> da_tenantAware a = da_tenantAware a0
     \<and> da_actorTenant a = da_actorTenant a0 \<and> da_scope a = da_scope a0"

definition cache_ok :: "'m runtime \<Rightarrow> ('m, 's) DurableActor \<Rightarrow> bool" where
  "cache_ok rt a \<longleftrightarrow> da_cachedStateAny a = None \<or> da_cachedStateAny a = any_New (rt_any rt) (da_currentState a)"

definition in_sync :: "'m runtime \<Rightarrow> ('m, 's) DurableActor \<Rightarrow> DurableState option \<Rightarrow> ('m, 's) DurableActor \<Rightarrow> bool" where
  "in_sync rt a0 r a \<longleftrightarrow>
     (let initial = dsb_InitialState (the (da_behavior a0)) in
      same_config a0 a \<and> state_ok rt initial (da_currentState a)
      \<and> cache_ok rt a
      \<and> holds_record rt initial (da_tenantAware a0) (da_actorTenant a0) r (da_currentState a) (da_currentVersion a))"

text \<open>A configured actor: as \<open>ds_configure\<close> leaves it.\<close>

definition configured :: "'m runtime \<Rightarrow> 's StateStore \<Rightarrow> ('m, 's) DurableActor \<Rightarrow> bool" where
  "configured rt api a0 \<longleftrightarrow>
     da_stateStore a0 = Some api \<and> da_behavior a0 \<noteq> None \<and> wf_scope (da_scope a0)
     \<and> (da_tenantAware a0 \<longrightarrow> wf_TenantContext (da_actorTenant a0))
     \<and> da_currentVersion a0 = 0 \<and> da_cachedStateAny a0 = None"

lemma configure_configured:
  assumes "ds_configure rt name rg deps = Inr a0"
  shows "\<exists>api. dg_stateStore rg = ExtPresent (Some api) \<and> configured rt api a0"
proof -
  from assms obtain scope tc store where b: "bind_tenant_scope (dg_tenancy rg) deps = Inr (scope, tc)"
    and store: "dg_stateStore rg = ExtPresent store"
    by (auto simp: ds_configure_def return_iffs ext_Require_def split: ext_slot.splits)
  from b have "wf_scope scope \<and> (dg_tenancy rg \<longrightarrow> wf_TenantContext tc)"
    using bind_tenant_scope_wf[OF b] bind_tenant_scope_context[OF b] by simp
  with assms b store show ?thesis
    by (auto simp: ds_configure_def configured_def ds_New_def return_iffs ext_Require_def
        split: ext_slot.splits option.split_asm)
qed

section \<open>Recovery\<close>

text \<open>Recovery installs what the record holds, whatever the actor had before.\<close>

lemma recover_holds:
  assumes "same_config a0 a" and "configured rt api a0"
    and "GetLatestState api (da_scope a0) (da_persistenceID a0) db = Inr r"
    and "holds_record rt (dsb_InitialState (the (da_behavior a0))) (da_tenantAware a0) (da_actorTenant a0) r st v"
    and "r = None \<or> (\<exists>d. r = Some d \<and> da_tenantAware a0 \<and> du_version_number d = 0) \<Longrightarrow> da_currentVersion a = 0"
  shows "ds_recoverFromStore rt db a = (None, a\<lparr>da_currentState := st, da_currentVersion := v\<rparr>)"
proof -
  have same: "a\<lparr>da_currentState := st, da_currentVersion := v\<rparr> = a\<lparr>da_currentState := st\<rparr>"
    if "da_currentVersion a = v" for st v
    using that by auto
  have cfg: "da_stateStore a = Some api" "da_scope a = da_scope a0" "da_persistenceID a = da_persistenceID a0"
    "da_behavior a = da_behavior a0" "da_tenantAware a = da_tenantAware a0" "da_actorTenant a = da_actorTenant a0"
    "da_tenantAware a0 \<longrightarrow> da_actorTenant a0 \<noteq> noTenantContext"
    using assms(1,2) wf_TenantContext_neq by (auto simp: same_config_def configured_def)
  show ?thesis
  proof (cases "r = None \<or> (\<exists>d. r = Some d \<and> da_tenantAware a0 \<and> du_version_number d = 0)")
    case True
    then show ?thesis
      using assms(3,4) same[OF assms(5)[OF True]] by (auto simp: ds_recoverFromStore_def cfg holds_record_def)
  next
    case False
    then obtain d where "r = Some d" and "\<not> (da_tenantAware a0 \<and> du_version_number d = 0)" by auto
    then show ?thesis
      using assms(3,4) cfg(7)
      by (cases "du_resulting_state d") (auto simp: ds_recoverFromStore_def cfg holds_record_def Let_def)
  qed
qed

lemma same_config_refl: "same_config a a"
  by (simp add: same_config_def)

lemma recover_verifies:
  assumes "da_stateStore a = Some api" and "GetLatestState api (da_scope a) (da_persistenceID a) db = Inr (Some d)"
    and "da_tenantAware a" and "du_version_number d \<noteq> 0 \<and> da_actorTenant a \<noteq> noTenantContext"
    and "ds_recoverFromStore rt db a = (None, a')"
  shows "tenancy_UnmarshalMetadata (du_tenant_metadata d) = Inr (da_actorTenant a)"
proof (cases "tenancy_UnmarshalMetadata (du_tenant_metadata d)")
  case (Inl err)
  then show ?thesis using assms by (simp add: ds_recoverFromStore_def)
next
  case (Inr tc)
  then show ?thesis
    using assms VerifyUnchanged_None[of "da_actorTenant a" tc]
    by (cases "tenancy_VerifyUnchanged (da_actorTenant a) tc") (simp_all add: ds_recoverFromStore_def)
qed

lemma recover_unpacks:
  assumes "da_stateStore a = Some api" and "GetLatestState api (da_scope a) (da_persistenceID a) db = Inr (Some d)"
    and "\<not> (da_tenantAware a \<and> du_version_number d = 0)" and "du_resulting_state d = Some x"
    and "ds_recoverFromStore rt db a = (None, a')"
  shows "\<exists>st. any_UnmarshalTo (rt_any rt) (Some x) (dsb_InitialState (the (da_behavior a))) = Inr st"
proof (cases "any_UnmarshalTo (rt_any rt) (Some x) (dsb_InitialState (the (da_behavior a)))")
  case (Inl err)
  then show ?thesis
    using assms(1-4) arg_cong[OF assms(5), of fst]
    by (auto simp: ds_recoverFromStore_def Let_def split: sum.splits)
qed simp

text \<open>When recovery of a fresh actor succeeds, the record holds what it installed.\<close>

lemma recover_success:
  assumes "configured rt api a0" and "ds_recoverFromStore rt db a0 = (None, a)"
  shows "\<exists>r st v. GetLatestState api (da_scope a0) (da_persistenceID a0) db = Inr r
    \<and> holds_record rt (dsb_InitialState (the (da_behavior a0))) (da_tenantAware a0) (da_actorTenant a0) r st v
    \<and> a = a0\<lparr>da_currentState := st, da_currentVersion := v\<rparr>"
proof -
  let ?i = "dsb_InitialState (the (da_behavior a0))"
  have cfg: "da_stateStore a0 = Some api" "da_tenantAware a0 \<longrightarrow> da_actorTenant a0 \<noteq> noTenantContext"
    "da_currentVersion a0 = 0"
    using assms(1) wf_TenantContext_neq by (auto simp: configured_def)
  have same: "a0\<lparr>da_currentState := ?i, da_currentVersion := 0\<rparr> = a0\<lparr>da_currentState := ?i\<rparr>"
    using cfg(3) by auto
  obtain r where r: "GetLatestState api (da_scope a0) (da_persistenceID a0) db = Inr r"
    using assms(2) by (cases "GetLatestState api (da_scope a0) (da_persistenceID a0) db")
      (auto simp: ds_recoverFromStore_def cfg(1))
  show ?thesis
  proof (cases "r = None \<or> (\<exists>d. r = Some d \<and> da_tenantAware a0 \<and> du_version_number d = 0)")
    case True
    then have "holds_record rt ?i (da_tenantAware a0) (da_actorTenant a0) r ?i 0"
      by (auto simp: holds_record_def)
    moreover have "a = a0\<lparr>da_currentState := ?i, da_currentVersion := 0\<rparr>"
      unfolding same using True assms(2) r by (auto simp: ds_recoverFromStore_def cfg)
    ultimately show ?thesis using r by blast
  next
    case False
    then obtain d where d: "r = Some d" "\<not> (da_tenantAware a0 \<and> du_version_number d = 0)" by auto
    have installs: ?thesis
      if h: "holds_record rt ?i (da_tenantAware a0) (da_actorTenant a0) r st v" for st v
    proof -
      have "ds_recoverFromStore rt db a0 = (None, a0\<lparr>da_currentState := st, da_currentVersion := v\<rparr>)"
        using False by (intro recover_holds[OF same_config_refl assms(1) r h]) blast
      with assms(2) have "a = a0\<lparr>da_currentState := st, da_currentVersion := v\<rparr>" by simp
      with r h show ?thesis by blast
    qed
    have meta: "tenancy_UnmarshalMetadata (du_tenant_metadata d) = Inr (da_actorTenant a0)" if "da_tenantAware a0"
      using recover_verifies[OF cfg(1) r[unfolded d] that _ assms(2)] d(2) cfg(2) that by blast
    show ?thesis
    proof (cases "du_resulting_state d")
      case None
      then have "holds_record rt ?i (da_tenantAware a0) (da_actorTenant a0) r ?i (du_version_number d)"
        using d meta by (auto simp: holds_record_def)
      then show ?thesis by (rule installs)
    next
      case (Some x)
      then obtain st where "any_UnmarshalTo (rt_any rt) (Some x) ?i = Inr st"
        using recover_unpacks[OF cfg(1) r[unfolded d] d(2) Some assms(2)] by blast
      then have "holds_record rt ?i (da_tenantAware a0) (da_actorTenant a0) r st (du_version_number d)"
        using d meta Some by (auto simp: holds_record_def)
      then show ?thesis by (rule installs)
    qed
  qed
qed

lemma codec_initial: "ds_codec_ok rt initial \<Longrightarrow> state_ok rt initial initial"
  unfolding ds_codec_ok_def state_ok_def by blast

lemma codec_unpacked:
  "ds_codec_ok rt initial \<Longrightarrow> any_UnmarshalTo (rt_any rt) (Some x) initial = Inr st \<Longrightarrow> state_ok rt initial st"
  unfolding ds_codec_ok_def state_ok_def by blast

lemma codec_packed:
  "ds_codec_ok rt initial \<Longrightarrow> state_ok rt initial st \<Longrightarrow>
     \<exists>x. any_New (rt_any rt) st = Some x \<and> any_UnmarshalTo (rt_any rt) (Some x) initial = Inr st"
  unfolding ds_codec_ok_def state_ok_def by blast

lemma holds_state_ok:
  "ds_codec_ok rt initial \<Longrightarrow> holds_record rt initial aware tc r st v \<Longrightarrow> state_ok rt initial st"
  unfolding holds_record_def by (auto intro: codec_initial codec_unpacked split: option.splits if_splits)

lemma holds_record_unique:
  "holds_record rt initial aware tc r st v \<Longrightarrow> holds_record rt initial aware tc r st' v' \<Longrightarrow> st' = st \<and> v' = v"
  by (auto simp: holds_record_def split: option.splits if_splits)

section \<open>Commits\<close>

definition record_of :: "('m, 's) DurableActor \<Rightarrow> any_pb option \<Rightarrow> u64 \<Rightarrow> int \<Rightarrow> TenantContext \<Rightarrow> DurableState" where
  "record_of a x v t tc =
     \<lparr>du_persistence_id = da_persistenceID a, du_version_number = v, du_resulting_state = x,
      du_timestamp = time_UnixNano t, du_shard = da_shardNumber a,
      du_tenant_metadata = (if da_tenantAware a then tenancy_MarshalMetadata tc else Map.empty)\<rparr>"

definition committed :: "'m \<Rightarrow> any_pb \<Rightarrow> u64 \<Rightarrow> int \<Rightarrow> TenantContext \<Rightarrow> ('m, 's) DurableActor \<Rightarrow> ('m, 's) DurableActor" where
  "committed st x v t tc a =
     (let a1 = a\<lparr>da_currentState := st, da_cachedStateAny := Some x, da_lastCommandTime := t, da_currentVersion := v\<rparr> in
      if da_tenantAware a then a1\<lparr>da_actorTenant := tc\<rparr> else a1)"

lemma commitState_eq:
  "ds_commitState rt st v t tc pre (a, db) =
     (case any_New (rt_any rt) st of
        None \<Rightarrow> (Some (rt_newErr rt st), a, db, [])
      | Some x \<Rightarrow>
          (case WriteState (the (da_stateStore a)) (da_scope a) (record_of a (Some x) v t tc) pre db of
             (Some err, db') \<Rightarrow> (Some err, a, db', [])
           | (None, db') \<Rightarrow>
               (None, committed st x v t tc a, db', [DPublish StatesTopic (record_of a (Some x) v t tc)])))"
  unfolding ds_commitState_def record_of_def committed_def Let_def by simp

lemma commitState_failed:
  assumes "ds_commitState rt st v t tc pre (a, db) = (Some err, a', db', effs)"
  shows "a' = a \<and> effs = [] \<and> (db' = db \<or>
    (\<exists>d. WriteState (the (da_stateStore a)) (da_scope a) d pre db = (Some err, db')))"
  using assms unfolding commitState_eq by (auto split: option.split_asm prod.split_asm)

lemma commitState_done:
  assumes "ds_commitState rt st v t tc pre (a, db) = (None, a', db', effs)"
  shows "\<exists>x. any_New (rt_any rt) st = Some x
    \<and> WriteState (the (da_stateStore a)) (da_scope a) (record_of a (Some x) v t tc) pre db = (None, db')
    \<and> effs = [DPublish StatesTopic (record_of a (Some x) v t tc)] \<and> a' = committed st x v t tc a"
  using assms unfolding commitState_eq by (auto split: option.split_asm prod.split_asm)

lemma holds_record_of:
  assumes "ds_codec_ok rt initial" and "state_ok rt initial st" and "any_New (rt_any rt) st = x"
    and "da_tenantAware a \<longrightarrow> wf_TenantContext tc \<and> v \<noteq> 0"
  shows "holds_record rt initial (da_tenantAware a) tc (Some (record_of a x v t tc)) st v"
  using assms(3,4) codec_packed[OF assms(1,2)] Unmarshal_Marshal[of tc]
  by (auto simp: holds_record_def record_of_def)

text \<open>In place recovery keeps an actor that is in sync as it is.\<close>

lemma recover_in_sync:
  assumes "configured rt api a0" and "in_sync rt a0 r a"
    and "\<And>r'. GetLatestState api (da_scope a0) (da_persistenceID a0) db = Inr r' \<Longrightarrow> r' = r"
  shows "snd (ds_recoverFromStore rt db a) = a"
proof (cases "GetLatestState api (da_scope a0) (da_persistenceID a0) db")
  case (Inl err)
  then show ?thesis
    using assms(1,2) by (auto simp: ds_recoverFromStore_def configured_def in_sync_def same_config_def Let_def)
next
  case (Inr r')
  then have r: "GetLatestState api (da_scope a0) (da_persistenceID a0) db = Inr r" using assms(3) by simp
  from assms(2) have cfg: "same_config a0 a"
    and h: "holds_record rt (dsb_InitialState (the (da_behavior a0))) (da_tenantAware a0) (da_actorTenant a0) r
      (da_currentState a) (da_currentVersion a)"
    by (simp_all add: in_sync_def Let_def)
  have "ds_recoverFromStore rt db a = (None, a\<lparr>da_currentState := da_currentState a, da_currentVersion := da_currentVersion a\<rparr>)"
    using h by (intro recover_holds[OF cfg assms(1) r h]) (auto simp: holds_record_def)
  then show ?thesis by simp
qed

text \<open>The gate in front of a command lets the tenant of the actor through, and no other.\<close>

lemma gate_tenant:
  assumes "ds_tenant_gate ctx a = Inr tc" and "da_tenantAware a" and "da_actorTenant a \<noteq> noTenantContext"
  shows "tc = da_actorTenant a"
  using assms by (auto simp: ds_tenant_gate_def split: sum.splits option.split_asm)

section \<open>Turns\<close>

lemma processCommand_cases:
  assumes "ds_processCommand rt tn cmd (a, db) = ((a', db'), effs)"
  obtains (refused) err where "a' = a" "db' = db" "effs = [ds_sendErrorReply rt err]"
  | (panics) "a' = a" "db' = db" "effs = [DPanic]"
  | (commits) st v tc res where
      "ds_tenant_gate (tn_ctx tn) a = Inr tc"
      "ds_dispatchToBehavior rt tn cmd (da_currentVersion a) (da_currentState a) a = Inr (st, v)"
      "ds_checkPreconditions rt st v a = CheckPasses"
      "res = ds_commitState rt st v (tn_build tn) tc
         (PreconditionFromRevision (ExpectedRevisionFromContext (rt_time rt) (tn_revision tn) (tn_ctx tn))) (a, db)"
      "((a', db'), effs) =
        (case res of
           (Some err, a1, db1, effs1) \<Rightarrow>
             ((ds_recoverFromConflictIfNeeded rt err db1 a1, db1), effs1 @ [ds_sendErrorReply rt err])
         | (None, a1, db1, effs1) \<Rightarrow>
             (let (a2, effs2) = ds_sendStateReply rt a1 in ((a2, db1), effs1 @ effs2)))"
proof -
  let ?gate = "sum_bind (ds_tenant_gate (tn_ctx tn) a) (\<lambda>tc.
           check_err (CheckDeadline (tn_ctx tn) (tn_gate tn) ''before handler execution'')
             (sum_bind (ds_dispatchToBehavior rt tn cmd (da_currentVersion a) (da_currentState a) a)
               (\<lambda>(newState, newVersion). Inr (tc, newState, newVersion))))"
  show thesis
  proof (cases ?gate)
    case (Inl err)
    then show thesis using assms by (intro refused[of err]) (simp_all add: ds_processCommand_def)
  next
    case (Inr b)
    obtain tc st v where b: "b = (tc, st, v)" by (cases b)
    from Inr b have g: "ds_tenant_gate (tn_ctx tn) a = Inr tc"
      "ds_dispatchToBehavior rt tn cmd (da_currentVersion a) (da_currentState a) a = Inr (st, v)"
      by (auto simp: return_iffs)
    show thesis
    proof (cases "ds_checkPreconditions rt st v a")
      case CheckPanics
      then show thesis using assms Inr b by (intro panics) (simp_all add: ds_processCommand_def)
    next
      case (CheckFails err)
      then show thesis using assms Inr b by (intro refused[of err]) (simp_all add: ds_processCommand_def)
    next
      case CheckPasses
      show thesis
      proof (cases "check_err (CheckDeadline (tn_ctx tn) (tn_persist tn) ''before persistence'')
                       (check_err (ds_verifyTenantForPersist (tn_ctx tn) a) (Inr ()))")
        case (Inl err)
        then show thesis using assms Inr b CheckPasses by (intro refused[of err]) (simp_all add: ds_processCommand_def)
      next
        case (Inr u)
        then show thesis
          using assms \<open>?gate = Inr b\<close> b CheckPasses by (intro commits[OF g CheckPasses refl]) (simp add: ds_processCommand_def)
      qed
    qed
  qed
qed

text \<open>The state reply of an actor with a valid cache.\<close>

definition state_reply :: "'m runtime \<Rightarrow> ('m, 's) DurableActor \<Rightarrow> ds_effect" where
  "state_reply rt a = DRespond (Reply_StateReply
     \<lparr>sr_persistence_id = da_persistenceID a, sr_state = any_New (rt_any rt) (da_currentState a),
      sr_sequence_number = da_currentVersion a, sr_timestamp = time_UnixNano (da_lastCommandTime a),
      sr_saga_status = SAGA_LIFECYCLE_STATUS_NONE\<rparr>)"


lemma currentStateAny_ok:
  assumes "cache_ok rt a"
  shows "ds_currentStateAny rt a =
    (any_New (rt_any rt) (da_currentState a), a\<lparr>da_cachedStateAny := any_New (rt_any rt) (da_currentState a)\<rparr>)"
proof (cases "da_cachedStateAny a")
  case (Some x)
  with assms have "any_New (rt_any rt) (da_currentState a) = Some x" by (simp add: cache_ok_def)
  with Some have "a\<lparr>da_cachedStateAny := any_New (rt_any rt) (da_currentState a)\<rparr> = a" by auto
  with Some \<open>any_New (rt_any rt) (da_currentState a) = Some x\<close> show ?thesis
    by (simp add: ds_currentStateAny_def)
qed (simp add: ds_currentStateAny_def Let_def)

lemma sendStateReply_ok:
  "cache_ok rt a \<Longrightarrow> ds_sendStateReply rt a =
     (a\<lparr>da_cachedStateAny := any_New (rt_any rt) (da_currentState a)\<rparr>, [state_reply rt a])"
  by (simp add: ds_sendStateReply_def currentStateAny_ok state_reply_def)

text \<open>
  One turn of an entity in sync, over a store that keeps its contract.  A command either leaves
  record and actor as they were and gets an error (or panics on a nil state), or the handler
  accepted it: then the record is replaced by the next version with the new state, published,
  and answered.
\<close>

definition commits_command ::
    "'m runtime \<Rightarrow> turn \<Rightarrow> 'm \<Rightarrow> ('m, 's) DurableActor \<Rightarrow> ('m, 's) DurableActor \<Rightarrow> DurableState option \<Rightarrow> DurableState \<Rightarrow> ds_effect list \<Rightarrow> bool" where
  "commits_command rt tn cmd a a' r d effs \<longleftrightarrow>
     (\<exists>st x. any_New (rt_any rt) st = Some x
      \<and> ds_dispatchToBehavior rt tn cmd (da_currentVersion a) (da_currentState a) a = Inr (st, da_currentVersion a + 1)
      \<and> precondition_holds
          (PreconditionFromRevision (ExpectedRevisionFromContext (rt_time rt) (tn_revision tn) (tn_ctx tn))) (version_of r)
      \<and> d = record_of a (Some x) (da_currentVersion a + 1) (tn_build tn) (da_actorTenant a)
      \<and> a' = a\<lparr>da_currentState := st, da_cachedStateAny := Some x, da_lastCommandTime := tn_build tn,
               da_currentVersion := da_currentVersion a + 1\<rparr>
      \<and> effs = [DPublish StatesTopic d, state_reply rt a'])"

lemma committed_same_tenant:
  "da_tenantAware a \<longrightarrow> tc = da_actorTenant a \<Longrightarrow> committed st x v t tc a =
     a\<lparr>da_currentState := st, da_cachedStateAny := Some x, da_lastCommandTime := t, da_currentVersion := v\<rparr>"
  by (cases a) (auto simp: committed_def Let_def)

lemma record_of_same_tenant:
  "da_tenantAware a \<longrightarrow> tc = da_actorTenant a \<Longrightarrow> record_of a x v t tc = record_of a x v t (da_actorTenant a)"
  by (auto simp: record_of_def)

lemma reply_after_commit:
  assumes "any_New (rt_any rt) st = Some x"
  shows "ds_sendStateReply rt (a\<lparr>da_currentState := st, da_cachedStateAny := Some x, da_lastCommandTime := t, da_currentVersion := v\<rparr>)
    = (a\<lparr>da_currentState := st, da_cachedStateAny := Some x, da_lastCommandTime := t, da_currentVersion := v\<rparr>,
       [state_reply rt (a\<lparr>da_currentState := st, da_cachedStateAny := Some x, da_lastCommandTime := t, da_currentVersion := v\<rparr>)])"
  using assms by (subst sendStateReply_ok) (simp_all add: cache_ok_def)

lemma in_sync_simps:
  assumes "configured rt api a0" and "in_sync rt a0 r a"
  shows "da_stateStore a = Some api" "da_scope a = da_scope a0" "da_persistenceID a = da_persistenceID a0"
    "da_tenantAware a = da_tenantAware a0" "da_actorTenant a = da_actorTenant a0" "same_config a0 a" "cache_ok rt a"
    "da_shardNumber a = da_shardNumber a0" "da_behavior a = da_behavior a0"
  using assms by (simp_all add: configured_def in_sync_def same_config_def Let_def)

lemma commit_in_sync:
  assumes cfg: "configured rt api a0" and sync: "in_sync rt a0 r a"
    and codec: "ds_codec_ok rt (dsb_InitialState (the (da_behavior a0)))"
    and check: "ds_checkPreconditions rt st v a = CheckPasses" and x: "any_New (rt_any rt) st = Some x"
    and v: "da_currentVersion a \<noteq> - 1"
  shows "in_sync rt a0 (Some (record_of a (Some x) v t (da_actorTenant a)))
    (a\<lparr>da_currentState := st, da_cachedStateAny := Some x, da_lastCommandTime := t, da_currentVersion := v\<rparr>)"
proof -
  let ?i = "dsb_InitialState (the (da_behavior a0))"
  note a = in_sync_simps[OF cfg sync]
  from check have v': "v = da_currentVersion a + 1" and ty: "st \<noteq> rt_nil rt" "rt_name rt st = rt_name rt (da_currentState a)"
    by (simp_all add: checkPreconditions_passes)
  from sync have "rt_name rt (da_currentState a) = rt_name rt ?i" by (simp add: in_sync_def Let_def state_ok_def)
  with ty x have ok: "state_ok rt ?i st" by (simp add: state_ok_def)
  from v v' have "v \<noteq> 0" by (metis add_eq_0_iff2)
  with cfg have "da_tenantAware a \<longrightarrow> wf_TenantContext (da_actorTenant a) \<and> v \<noteq> 0"
    by (simp add: a configured_def)
  from holds_record_of[OF codec ok x this] ok a(6) x show ?thesis
    by (simp add: in_sync_def Let_def cache_ok_def same_config_def a)
qed

context state_store
begin

lemma command_turn:
  assumes cfg: "configured rt api a0" and codec: "ds_codec_ok rt (dsb_InitialState (the (da_behavior a0)))"
    and r: "r = stored db (da_scope a0) (da_persistenceID a0)" and i: "inv db"
    and sync: "in_sync rt a0 r a" and v: "da_currentVersion a \<noteq> - 1"
    and turn: "ds_processCommand rt tn cmd (a, db) = ((a', db'), effs)"
  shows "inv db' \<and>
    (a' = a \<and> stored db' = stored db \<and> (effs = [DPanic] \<or> (\<exists>err. effs = [ds_sendErrorReply rt err]))
     \<or> (\<exists>d. commits_command rt tn cmd a a' r d effs \<and> in_sync rt a0 (Some d) a'
          \<and> stored db' = (stored db)(da_scope a0 := (stored db (da_scope a0))(da_persistenceID a0 \<mapsto> d))))"
  using turn
proof (cases rule: processCommand_cases)
  case (commits st v tc res)
  note a = in_sync_simps[OF cfg sync]
  have wf: "wf_scope (da_scope a0)" using cfg by (simp add: configured_def)
  have v': "v = da_currentVersion a + 1" using commits(3) by (simp add: checkPreconditions_passes)
  have tc: "da_tenantAware a \<longrightarrow> tc = da_actorTenant a"
    using gate_tenant[OF commits(1)] cfg wf_TenantContext_neq by (auto simp: a configured_def)
  obtain err a1 db1 effs1 where res: "res = (err, a1, db1, effs1)" by (cases res)
  let ?pre = "PreconditionFromRevision (ExpectedRevisionFromContext (rt_time rt) (tn_revision tn) (tn_ctx tn))"
  show ?thesis
  proof (cases err)
    case (Some e)
    from commits(4) res Some have f: "a1 = a" "effs1 = []" and db1: "inv db1 \<and> stored db1 = stored db"
      using commitState_failed[of rt st v "tn_build tn" tc ?pre a db e a1 db1 effs1] write_err[OF i] i
      by (auto simp: a)
    have "snd (ds_recoverFromStore rt db1 a) = a"
      using db1 get_ok[of db1, OF _ wf] by (intro recover_in_sync[OF cfg sync]) (auto simp: r)
    with commits(5) res Some f db1 show ?thesis
      by (auto simp: ds_recoverFromConflictIfNeeded_def split: if_splits)
  next
    case None
    from commitState_done[OF commits(4)[unfolded res None, symmetric]] obtain x where
      x: "any_New (rt_any rt) st = Some x"
      and w: "WriteState api (da_scope a0) (record_of a (Some x) v (tn_build tn) tc) ?pre db = (None, db1)"
      and e: "effs1 = [DPublish StatesTopic (record_of a (Some x) v (tn_build tn) tc)]"
      and a1: "a1 = committed st x v (tn_build tn) tc a"
      by (auto simp: a)
    let ?d = "record_of a (Some x) v (tn_build tn) (da_actorTenant a)"
    have w': "inv db1" "precondition_holds ?pre (version_of r)"
      "stored db1 = (stored db)(da_scope a0 := (stored db (da_scope a0))(da_persistenceID a0 \<mapsto> ?d))"
      using write_ok[OF i wf w] r record_of_same_tenant[OF tc, of "Some x" v "tn_build tn"]
      by (simp_all add: record_of_def a)
    have out: "a' = a1" "db' = db1" "effs = [DPublish StatesTopic ?d, state_reply rt a']"
      using commits(5) e a1 tc
      by (simp_all add: res None reply_after_commit[OF x] committed_same_tenant[OF tc] record_of_same_tenant[OF tc])
    have "commits_command rt tn cmd a a' r ?d effs"
      unfolding commits_command_def using x commits(2) v' w'(2) out a1
      by (auto simp: committed_same_tenant[OF tc])
    moreover have "in_sync rt a0 (Some ?d) a'"
      using commit_in_sync[OF cfg sync codec commits(3) x v] by (simp add: out(1) a1 committed_same_tenant[OF tc])
    ultimately show ?thesis using w' out(2) by blast
  qed
qed (use i in auto)

end

section \<open>Starting and stopping\<close>

lemma in_sync_cache:
  "in_sync rt a0 r a \<Longrightarrow> in_sync rt a0 r (a\<lparr>da_cachedStateAny := any_New (rt_any rt) (da_currentState a)\<rparr>)"
  by (simp add: in_sync_def Let_def same_config_def cache_ok_def)

lemma started_in_sync:
  assumes "configured rt api a0" and "ds_codec_ok rt (dsb_InitialState (the (da_behavior a0)))"
    and "ds_recoverFromStore rt db a0 = (None, a)"
  shows "\<exists>r. GetLatestState api (da_scope a0) (da_persistenceID a0) db = Inr r \<and> in_sync rt a0 r a"
proof -
  from recover_success[OF assms(1,3)] obtain r st v where
    r: "GetLatestState api (da_scope a0) (da_persistenceID a0) db = Inr r"
    and h: "holds_record rt (dsb_InitialState (the (da_behavior a0))) (da_tenantAware a0) (da_actorTenant a0) r st v"
    and a: "a = a0\<lparr>da_currentState := st, da_currentVersion := v\<rparr>"
    by blast
  with holds_state_ok[OF assms(2) h] assms(1) have "in_sync rt a0 r a"
    by (simp add: in_sync_def Let_def same_config_def cache_ok_def configured_def)
  with r show ?thesis by blast
qed

lemma flush_eq:
  assumes "cache_ok rt a"
  shows "ds_persistStateAndPublish rt (a, db) =
    (let x = any_New (rt_any rt) (da_currentState a); a1 = a\<lparr>da_cachedStateAny := x\<rparr>;
         d = record_of a x (da_currentVersion a) (da_lastCommandTime a) (da_actorTenant a) in
     case WriteState (the (da_stateStore a)) (da_scope a) d Unconditional db of
       (Some err, db') \<Rightarrow> (Some err, a1, db', [])
     | (None, db') \<Rightarrow> (None, a1, db', [DPublish StatesTopic d]))"
  unfolding ds_persistStateAndPublish_def record_of_def by (simp add: Let_def currentStateAny_ok[OF assms])

context state_store
begin

text \<open>The flush of \<open>PostStop\<close> rewrites the record with what it already holds.\<close>

lemma stop_turn:
  assumes cfg: "configured rt api a0" and codec: "ds_codec_ok rt (dsb_InitialState (the (da_behavior a0)))"
    and r: "r = stored db (da_scope a0) (da_persistenceID a0)" and i: "inv db" and sync: "in_sync rt a0 r a"
    and stop: "ds_PostStop rt ping (a, db) = (err, a', db', effs)"
  shows "inv db' \<and> in_sync rt a0 (stored db' (da_scope a0) (da_persistenceID a0)) a'
    \<and> da_currentState a' = da_currentState a \<and> da_currentVersion a' = da_currentVersion a"
proof (cases "ping = None \<and> (\<not> da_tenantAware a \<or> da_currentVersion a > 0)")
  case False
  then have "a' = a \<and> db' = db" using stop by (auto simp: ds_PostStop_def Let_def split: if_splits option.splits)
  with i sync r show ?thesis by simp
next
  case True
  note a = in_sync_simps[OF cfg sync]
  have wf: "wf_scope (da_scope a0)" using cfg by (simp add: configured_def)
  let ?x = "any_New (rt_any rt) (da_currentState a)"
  let ?d = "record_of a ?x (da_currentVersion a) (da_lastCommandTime a) (da_actorTenant a)"
  obtain e db1 where w: "WriteState api (da_scope a0) ?d Unconditional db = (e, db1)" by fastforce
  have out: "a' = a\<lparr>da_cachedStateAny := ?x\<rparr>" "db' = db1"
    using stop True w by (auto simp: ds_PostStop_def Let_def flush_eq[OF a(7)] a split: option.splits)
  have pid: "du_persistence_id ?d = da_persistenceID a0" by (simp add: record_of_def a)
  show ?thesis
  proof (cases e)
    case (Some err)
    with write_err[OF i] w have "inv db1" "stored db1 = stored db" by auto
    with out r in_sync_cache[OF sync] show ?thesis by simp
  next
    case None
    with write_ok[OF i wf] w pid have db1: "inv db1" "stored db1 (da_scope a0) (da_persistenceID a0) = Some ?d" by auto
    from sync have ok: "state_ok rt (dsb_InitialState (the (da_behavior a0))) (da_currentState a)"
      by (simp add: in_sync_def Let_def)
    have "da_tenantAware a \<longrightarrow> wf_TenantContext (da_actorTenant a) \<and> da_currentVersion a \<noteq> 0"
      using cfg True by (auto simp: a configured_def)
    from holds_record_of[OF codec ok refl this] have "in_sync rt a0 (Some ?d) a'"
      using sync out(1) by (simp add: in_sync_def Let_def same_config_def cache_ok_def)
    with db1 out show ?thesis by simp
  qed
qed

end

section \<open>The invariant of runs\<close>

definition ds_inv ::
    "('s \<Rightarrow> bool) \<Rightarrow> ('s \<Rightarrow> Scope \<Rightarrow> string \<Rightarrow> DurableState option) \<Rightarrow> 'm runtime \<Rightarrow> ('m, 's) DurableActor \<Rightarrow> ('m, 's) ds_sys \<Rightarrow> bool" where
  "ds_inv sinv stored rt a0 s \<longleftrightarrow>
     sinv (dy_db s) \<and> in_sync rt a0 (stored (dy_db s) (da_scope a0) (da_persistenceID a0)) (dy_actor s)"

lemma configure_ping: "ds_configure rt name (rg\<lparr>dg_ping := ping\<rparr>) deps = ds_configure rt name rg deps"
  by (simp add: ds_configure_def cong: option.case_cong)

lemma start_recovers:
  assumes "ds_configure rt name rg deps = Inr a0" and "ds_PreStart rt name rg deps db (ds_New rt) = Inr a"
  shows "dg_ping rg = None \<and> ds_recoverFromStore rt db a0 = (None, a)"
  using assms by (auto simp: ds_PreStart_configure split: option.splits prod.splits)

context state_store
begin

lemma start_inv:
  assumes "ds_configure rt name rg deps = Inr a0" and "configured rt api a0"
    and "ds_codec_ok rt (dsb_InitialState (the (da_behavior a0)))" and "inv db"
    and "ds_PreStart rt name rg deps db (ds_New rt) = Inr a"
  shows "in_sync rt a0 (stored db (da_scope a0) (da_persistenceID a0)) a"
proof -
  from start_recovers[OF assms(1,5)] started_in_sync[OF assms(2,3)] obtain r where
    "GetLatestState api (da_scope a0) (da_persistenceID a0) db = Inr r" "in_sync rt a0 r a" by blast
  with get_ok[OF assms(4)] assms(2) show ?thesis by (auto simp: configured_def)
qed

lemma ds_inv_step:
  assumes "ds_step rt name rg deps s s'" and "ds_configure rt name rg deps = Inr a0" and "configured rt api a0"
    and "ds_codec_ok rt (dsb_InitialState (the (da_behavior a0)))" and "ds_inv inv stored rt a0 s"
  shows "ds_inv inv stored rt a0 s'"
  using assms(1)
proof cases
  case (turn tn msg a' db' effs)
  note s = assms(5)[unfolded ds_inv_def]
  note ok = in_sync_simps(7)[OF assms(3) conjunct2[OF s]]
  show ?thesis
  proof (cases msg)
    case DPostStart
    with turn s show ?thesis by (simp add: ds_inv_def)
  next
    case DGetStateCommand
    with turn(4) s in_sync_cache have "db' = dy_db s"
      "in_sync rt a0 (stored (dy_db s) (da_scope a0) (da_persistenceID a0)) a'"
      by (auto simp: ds_getStateAndReply_def sendStateReply_ok[OF ok] split: sum.splits)
    with s turn(1) show ?thesis by (simp add: ds_inv_def)
  next
    case (DTenantBindingQuery tid)
    with turn s show ?thesis by (simp add: ds_inv_def)
  next
    case (DCommand cmd)
    with turn(4) have "ds_processCommand rt tn cmd (dy_actor s, dy_db s) = ((a', db'), effs)" by simp
    from command_turn[OF assms(3,4) refl conjunct1[OF s] conjunct2[OF s] turn(3) this] s turn(1)
    show ?thesis by (auto simp: ds_inv_def)
  qed
next
  case (stop ping err a' db' effs)
  note s = assms(5)[unfolded ds_inv_def]
  from stop_turn[OF assms(3,4) refl conjunct1[OF s] conjunct2[OF s] stop(3)] stop(1) show ?thesis
    by (simp add: ds_inv_def)
next
  case crash
  with assms(5) show ?thesis by (simp add: ds_inv_def)
next
  case (start ping a')
  note s = assms(5)[unfolded ds_inv_def]
  from start_inv[OF _ assms(3,4) conjunct1[OF s] start(3)] assms(2) s start(1) show ?thesis
    by (simp add: ds_inv_def configure_ping)
qed

lemma ds_inv_run:
  assumes "ds_run rt name rg deps (ds_started a db) s" and "ds_configure rt name rg deps = Inr a0"
    and "configured rt api a0" and "ds_codec_ok rt (dsb_InitialState (the (da_behavior a0)))" and "inv db"
    and "ds_PreStart rt name rg deps db (ds_New rt) = Inr a"
  shows "ds_inv inv stored rt a0 s"
  using assms(1)
proof (induction rule: rtranclp_induct)
  case base
  show ?case using start_inv[OF assms(2-6)] assms(5) by (simp add: ds_inv_def ds_started_def)
next
  case (step s s')
  then show ?case using ds_inv_step[OF _ assms(2-4)] by blast
qed

end

end
