(* ===== verification/DS_Properties.thy ===== *)
theory DS_Properties
  imports DS_Correct
begin

text \<open>
  The properties of the durable-state entity, and a sample entity over the testkit store to read
  them on.
\<close>

section \<open>A sample entity\<close>

text \<open>Messages are texts or nil; the entity is a register that takes the text it is sent.\<close>

definition reg_codec :: "string option AnyCodec" where
  "reg_codec =
     \<lparr>any_New = map_option (\<lambda>s. \<lparr>any_type_url = ''text'', any_value = s\<rparr>),
      any_UnmarshalNew = (\<lambda>a. case a of Some p \<Rightarrow> Inr (Some (any_value p)) | None \<Rightarrow> Inl (ErrNew ''invalid'')),
      any_UnmarshalTo = (\<lambda>a m. case a of Some p \<Rightarrow> Inr (Some (any_value p)) | None \<Rightarrow> Inl (ErrNew ''invalid'')),
      any_Marshal = (\<lambda>a. case a of Some p \<Rightarrow> Inr (any_value p) | None \<Rightarrow> Inr []),
      any_Unmarshal = (\<lambda>b. Inr \<lparr>any_type_url = ''text'', any_value = b\<rparr>)\<rparr>"

definition reg_rt :: "string option runtime" where
  "reg_rt = \<lparr>rt_any = reg_codec, rt_time = sample_codec, rt_print = (\<lambda>_. True), rt_nil = None,
     rt_name = (\<lambda>_. ''text''), rt_newErr = (\<lambda>_. ErrNew ''proto: invalid nil source message'')\<rparr>"

definition reg_behavior :: "string option DurableStateBehavior" where
  "reg_behavior = \<lparr>dsb_ID = ''reg-1'', dsb_InitialState = Some '''',
     dsb_HandleCommand = (\<lambda>ctx cmd v st. Inr (cmd, v + 1)), dsb_HandleEnvelope = None\<rparr>"

definition reg_rg :: "DurableStore ds_registry" where
  "reg_rg = \<lparr>dg_stateStore = ExtPresent (Some testkit_StateStore), dg_eventsStream = ExtPresent (),
     dg_telemetry = ExtMissing, dg_tenancy = False, dg_ping = None, dg_partition = (\<lambda>_. 9)\<rparr>"

abbreviation "reg_deps \<equiv> [DepBehavior reg_behavior]"

definition reg_db :: DurableStore where
  "reg_db = dst_Connect NewDurableStore"

definition reg_actor :: "(string option, DurableStore) DurableActor" where
  "reg_actor = (ds_New reg_rt)\<lparr>da_stateStore := Some testkit_StateStore, da_persistenceID := ''reg-1'',
     da_scope := Unscoped, da_shardNumber := 9, da_behavior := Some reg_behavior\<rparr>"

definition reg_turn :: turn where
  "reg_turn = \<lparr>tn_ctx = context_Background, tn_gate = 1, tn_revision = 2, tn_dispatch = 3, tn_build = 4,
     tn_persist = 5, tn_random = (\<lambda>_. [])\<rparr>"

lemma reg_codec_ok: "ds_codec_ok reg_rt (Some '''')"
  unfolding ds_codec_ok_def reg_rt_def reg_codec_def by auto

lemma reg_configure: "ds_configure reg_rt ''reg-1'' reg_rg reg_deps = Inr reg_actor"
  by (simp add: ds_configure_def reg_rg_def ext_Require_def ext_Optional_def bind_tenant_scope_def reg_actor_def
      ds_New_def)

lemma reg_db_ok: "dst_ok reg_db" "dst_stored reg_db = (\<lambda>_. Map.empty)"
  by (simp_all add: reg_db_def dst_ok_def dst_Connect_def NewDurableStore_def dst_stored_def fun_eq_iff)

lemma testkit_get: "dst_ok d \<Longrightarrow> wf_scope sc \<Longrightarrow> GetLatestState testkit_StateStore sc pid d = Inr (dst_stored d sc pid)"
  using wf_scope_Valid[of sc]
  by (simp add: testkit_StateStore_def dst_GetLatestState_def dst_ok_def dst_stored_def split: option.splits)

lemma reg_start:
  "ds_PreStart reg_rt ''reg-1'' reg_rg reg_deps reg_db (ds_New reg_rt) = Inr (reg_actor\<lparr>da_currentState := Some ''''\<rparr>)"
proof -
  have "ds_recoverFromStore reg_rt reg_db reg_actor = (None, reg_actor\<lparr>da_currentState := Some ''''\<rparr>)"
    using testkit_get[OF reg_db_ok(1) wf_scope_Unscoped, of "''reg-1''"]
    by (simp add: ds_recoverFromStore_def reg_actor_def reg_db_ok(2) reg_behavior_def)
  moreover have "dg_ping reg_rg = None" by (simp add: reg_rg_def)
  ultimately show ?thesis by (simp add: ds_PreStart_configure reg_configure)
qed

definition reg_run :: "(string option, DurableStore) ds_sys" where
  "reg_run = ds_started (reg_actor\<lparr>da_currentState := Some ''''\<rparr>) reg_db"

lemmas reg_setting = reg_configure reg_codec_ok reg_db_ok reg_start

section \<open>Properties\<close>

lemma configure_initial:
  "ds_configure rt name rg deps = Inr a0 \<Longrightarrow>
     da_behavior a0 = first_behavior deps \<and> da_persistenceID a0 = name \<and> da_tenantAware a0 = dg_tenancy rg
     \<and> bind_tenant_scope (dg_tenancy rg) deps = Inr (da_scope a0, da_actorTenant a0)"
  by (cases "first_behavior deps"; cases "bind_tenant_scope (dg_tenancy rg) deps")
    (auto simp: ds_configure_def return_iffs split: option.split_asm)

lemma started_configures:
  assumes "dg_stateStore rg = ExtPresent (Some api)" and "ds_PreStart rt name rg deps db (ds_New rt) = Inr a"
  shows "\<exists>a0. ds_configure rt name rg deps = Inr a0 \<and> configured rt api a0"
proof -
  from assms(2) obtain a0 where a0: "ds_configure rt name rg deps = Inr a0"
    by (auto simp: ds_PreStart_configure sum_bind_Inr_iff)
  with configure_configured[OF a0] assms(1) show ?thesis by auto
qed

text \<open>
  The run of an entity, from its first start over a store that keeps its contract, satisfies the
  invariant.
\<close>

lemma run_in_sync:
  assumes "state_store api sinv stored" and "dg_stateStore rg = ExtPresent (Some api)"
    and "ds_codec_ok rt (dsb_InitialState (the (first_behavior deps)))" and "sinv db"
    and "ds_PreStart rt name rg deps db (ds_New rt) = Inr a" and "ds_run rt name rg deps (ds_started a db) s"
  shows "\<exists>a0. ds_configure rt name rg deps = Inr a0 \<and> configured rt api a0
    \<and> ds_codec_ok rt (dsb_InitialState (the (da_behavior a0)))
    \<and> sinv (dy_db s) \<and> in_sync rt a0 (stored (dy_db s) (da_scope a0) name) (dy_actor s)"
proof -
  from started_configures[OF assms(2,5)] obtain a0 where
    a0: "ds_configure rt name rg deps = Inr a0" "configured rt api a0" by blast
  have c: "ds_codec_ok rt (dsb_InitialState (the (da_behavior a0)))" "da_persistenceID a0 = name"
    using configure_initial[OF a0(1)] assms(3) by simp_all
  from state_store.ds_inv_run[OF assms(1,6) a0 c(1) assms(4,5)] a0 c show ?thesis
    by (auto simp: ds_inv_def)
qed

text \<open>
  C11.  In every run of a durable-state entity over a store that keeps its contract (commands
  accepted and refused, failed and conflicting writes, reads, graceful stops with their flush,
  losses and restarts) a start from the store, whenever it succeeds, recovers exactly the state,
  version and tenant the entity has or last had; and it succeeds whenever the store answers the
  ping and the read.
\<close>

theorem durable_restart_recovers_state:
  assumes "state_store api sinv stored" and "dg_stateStore rg = ExtPresent (Some api)"
    and "ds_codec_ok rt (dsb_InitialState (the (first_behavior deps)))" and "sinv db"
    and "ds_PreStart rt name rg deps db (ds_New rt) = Inr a" and "ds_run rt name rg deps (ds_started a db) s"
  shows "(\<forall>ping a'. ds_PreStart rt name (rg\<lparr>dg_ping := ping\<rparr>) deps (dy_db s) (ds_New rt) = Inr a' \<longrightarrow>
       da_currentState a' = da_currentState (dy_actor s) \<and> da_currentVersion a' = da_currentVersion (dy_actor s)
       \<and> da_actorTenant a' = da_actorTenant (dy_actor s))
    \<and> (\<forall>r. GetLatestState api (da_scope (dy_actor s)) name (dy_db s) = Inr r \<longrightarrow>
        (\<exists>a'. ds_PreStart rt name (rg\<lparr>dg_ping := None\<rparr>) deps (dy_db s) (ds_New rt) = Inr a'))"
proof -
  from run_in_sync[OF assms] obtain a0 where a0: "ds_configure rt name rg deps = Inr a0" "configured rt api a0"
    and codec: "ds_codec_ok rt (dsb_InitialState (the (da_behavior a0)))" and i: "sinv (dy_db s)"
    and sync: "in_sync rt a0 (stored (dy_db s) (da_scope a0) name) (dy_actor s)"
    by blast
  note c = configure_initial[OF a0(1)]
  let ?r = "stored (dy_db s) (da_scope a0) name"
  let ?i = "dsb_InitialState (the (da_behavior a0))"
  have h: "holds_record rt ?i (da_tenantAware a0) (da_actorTenant a0) ?r
      (da_currentState (dy_actor s)) (da_currentVersion (dy_actor s))"
    using sync by (simp add: in_sync_def Let_def)
  have same: "da_currentState a' = da_currentState (dy_actor s) \<and> da_currentVersion a' = da_currentVersion (dy_actor s)
       \<and> da_actorTenant a' = da_actorTenant (dy_actor s)"
    if "ds_PreStart rt name (rg\<lparr>dg_ping := ping\<rparr>) deps (dy_db s) (ds_New rt) = Inr a'" for ping a'
  proof -
    from state_store.start_inv[OF assms(1) _ a0(2) codec i that] a0(1) c
    have s': "in_sync rt a0 ?r a'" by (simp add: configure_ping)
    then have "holds_record rt ?i (da_tenantAware a0) (da_actorTenant a0) ?r (da_currentState a') (da_currentVersion a')"
      by (simp add: in_sync_def Let_def)
    from holds_record_unique[OF h this] in_sync_simps(5)[OF a0(2) sync] in_sync_simps(5)[OF a0(2) s']
    show ?thesis by simp
  qed
  have "\<exists>a'. ds_PreStart rt name (rg\<lparr>dg_ping := None\<rparr>) deps (dy_db s) (ds_New rt) = Inr a'"
    if r: "GetLatestState api (da_scope (dy_actor s)) name (dy_db s) = Inr r" for r
  proof -
    from r have r0: "GetLatestState api (da_scope a0) (da_persistenceID a0) (dy_db s) = Inr r"
      using in_sync_simps(2)[OF a0(2) sync] c by simp
    with state_store.get_ok[OF assms(1) i] a0(2) c have "r = ?r" by (auto simp: configured_def)
    from recover_holds[OF same_config_refl a0(2) r0 h[folded this]] a0(2)
    show ?thesis by (auto simp: ds_PreStart_configure configure_ping a0(1) configured_def)
  qed
  with same show ?thesis by blast
qed

theorem durable_restart_recovers_state_witness:
  "\<exists>a'. ds_PreStart reg_rt ''reg-1'' (reg_rg\<lparr>dg_ping := None\<rparr>) reg_deps reg_db (ds_New reg_rt) = Inr a'
     \<and> da_currentState a' = Some ''''"
proof -
  have "state_store testkit_StateStore dst_ok dst_stored" by (rule tks.state_store_axioms)
  from durable_restart_recovers_state[OF this _ _ reg_db_ok(1) reg_start, of reg_run]
  have "\<forall>ping a'. ds_PreStart reg_rt ''reg-1'' (reg_rg\<lparr>dg_ping := ping\<rparr>) reg_deps reg_db (ds_New reg_rt) = Inr a' \<longrightarrow>
      da_currentState a' = Some ''''"
    and "\<exists>a'. ds_PreStart reg_rt ''reg-1'' (reg_rg\<lparr>dg_ping := None\<rparr>) reg_deps reg_db (ds_New reg_rt) = Inr a'"
    using reg_codec_ok testkit_get[OF reg_db_ok(1) wf_scope_Unscoped, of "''reg-1''"]
    by (auto simp: reg_run_def ds_started_def reg_rg_def reg_behavior_def reg_actor_def)
  then show ?thesis by blast
qed

text \<open>
  C12.  At every moment of such a run a command either changes neither the record nor the actor,
  publishes nothing and gets an error reply (or the handler returned nil and the turn panics), or
  the handler accepted it with the next version: then the revision the command declared matched
  the record, the record is replaced by that version with the new state and the tenant of the
  entity, no other record changes, exactly this record is published, and the reply carries it.
\<close>

theorem durable_command_commits_or_changes_nothing:
  assumes "state_store api sinv stored" and "dg_stateStore rg = ExtPresent (Some api)"
    and "ds_codec_ok rt (dsb_InitialState (the (first_behavior deps)))" and "sinv db"
    and "ds_PreStart rt name rg deps db (ds_New rt) = Inr a0" and "ds_run rt name rg deps (ds_started a0 db) s"
    and "a = dy_actor s" and "da_currentVersion a \<noteq> - 1"
    and "ds_Receive rt tn (DCommand cmd) (a, dy_db s) = ((a', db'), effs)"
  shows "a' = a \<and> stored db' = stored (dy_db s) \<and> (effs = [DPanic] \<or> (\<exists>msg. effs = [DRespond (Reply_ErrorReply msg)]))
    \<or> (\<exists>st x d. ds_dispatchToBehavior rt tn cmd (da_currentVersion a) (da_currentState a) a = Inr (st, da_currentVersion a + 1)
        \<and> any_New (rt_any rt) st = Some x
        \<and> precondition_holds
            (PreconditionFromRevision (ExpectedRevisionFromContext (rt_time rt) (tn_revision tn) (tn_ctx tn)))
            (version_of (stored (dy_db s) (da_scope a) name))
        \<and> d = \<lparr>du_persistence_id = name, du_version_number = da_currentVersion a + 1, du_resulting_state = Some x,
               du_timestamp = time_UnixNano (tn_build tn), du_shard = da_shardNumber a,
               du_tenant_metadata = (if da_tenantAware a then tenancy_MarshalMetadata (da_actorTenant a) else Map.empty)\<rparr>
        \<and> stored db' = (stored (dy_db s))(da_scope a := (stored (dy_db s) (da_scope a))(name \<mapsto> d))
        \<and> da_currentState a' = st \<and> da_currentVersion a' = da_currentVersion a + 1
        \<and> effs = [DPublish StatesTopic d, DRespond (Reply_StateReply
             \<lparr>sr_persistence_id = name, sr_state = Some x, sr_sequence_number = da_currentVersion a + 1,
              sr_timestamp = time_UnixNano (tn_build tn), sr_saga_status = SAGA_LIFECYCLE_STATUS_NONE\<rparr>)])"
proof -
  from run_in_sync[OF assms(1-6)] obtain a1 where c: "ds_configure rt name rg deps = Inr a1" "configured rt api a1"
    and codec: "ds_codec_ok rt (dsb_InitialState (the (da_behavior a1)))" and i: "sinv (dy_db s)"
    and sync: "in_sync rt a1 (stored (dy_db s) (da_scope a1) (da_persistenceID a1)) a"
    using configure_initial assms(7) by blast
  note sim = in_sync_simps[OF c(2) sync]
  have name: "da_persistenceID a1 = name" using configure_initial[OF c(1)] by simp
  have turn: "ds_processCommand rt tn cmd (a, dy_db s) = ((a', db'), effs)" using assms(9) by simp
  from state_store.command_turn[OF assms(1) c(2) codec refl i sync assms(8) turn]
  show ?thesis
  proof (elim conjE disjE exE)
    fix d
    assume d: "commits_command rt tn cmd a a' (stored (dy_db s) (da_scope a1) (da_persistenceID a1)) d effs"
      "stored db' = (stored (dy_db s))(da_scope a1 := (stored (dy_db s) (da_scope a1))(da_persistenceID a1 \<mapsto> d))"
    from d(1) obtain st x where "any_New (rt_any rt) st = Some x"
      "ds_dispatchToBehavior rt tn cmd (da_currentVersion a) (da_currentState a) a = Inr (st, da_currentVersion a + 1)"
      "precondition_holds
          (PreconditionFromRevision (ExpectedRevisionFromContext (rt_time rt) (tn_revision tn) (tn_ctx tn)))
          (version_of (stored (dy_db s) (da_scope a1) (da_persistenceID a1)))"
      "d = record_of a (Some x) (da_currentVersion a + 1) (tn_build tn) (da_actorTenant a)"
      "a' = a\<lparr>da_currentState := st, da_cachedStateAny := Some x, da_lastCommandTime := tn_build tn,
               da_currentVersion := da_currentVersion a + 1\<rparr>"
      "effs = [DPublish StatesTopic d, state_reply rt a']"
      unfolding commits_command_def by blast
    then show ?thesis
      by (intro disjI2 exI[of _ st] exI[of _ x] exI[of _ d])
        (simp add: d(2) record_of_def sim(2,3) name state_reply_def)
  qed (auto simp: ds_sendErrorReply_def)
qed

lemma reg_command:
  "ds_Receive reg_rt reg_turn (DCommand (Some ''x'')) (reg_actor\<lparr>da_currentState := Some ''''\<rparr>, reg_db) =
     ((a', db'), effs) \<Longrightarrow> effs \<noteq> [DPanic] \<and> (\<forall>msg. effs \<noteq> [DRespond (Reply_ErrorReply msg)])"
  by (auto simp: ds_processCommand_def reg_actor_def ds_New_def reg_turn_def ds_tenant_gate_def context_Background_def
      CheckDeadline_def ds_dispatchToBehavior_def reg_behavior_def ds_verifyTenantForPersist_def
      ds_checkPreconditions_def int_of_float64_def float64_of_nat_def reg_rt_def ds_commitState_def reg_codec_def
      PreconditionFromRevision_def ExpectedRevisionFromContext_def MetadataFromContext_def CarrierFromContext_def
      testkit_StateStore_def dst_WriteState_def reg_db_def dst_Connect_def NewDurableStore_def ds_sendStateReply_def
      ds_currentStateAny_def Let_def)

theorem durable_command_commits_or_changes_nothing_witness:
  "\<exists>a' db' effs d. ds_Receive reg_rt reg_turn (DCommand (Some ''x'')) (dy_actor reg_run, reg_db) = ((a', db'), effs)
     \<and> dst_stored db' Unscoped ''reg-1'' = Some d \<and> du_version_number d = 1"
proof -
  obtain a' db' effs where t: "ds_Receive reg_rt reg_turn (DCommand (Some ''x'')) (dy_actor reg_run, dy_db reg_run) = ((a', db'), effs)"
    by (metis prod.exhaust)
  have "state_store testkit_StateStore dst_ok dst_stored" by (rule tks.state_store_axioms)
  from durable_command_commits_or_changes_nothing[OF this _ _ reg_db_ok(1) reg_start _ refl _ t]
    reg_command[of a' db' effs] reg_codec_ok t
  show ?thesis
    by (fastforce simp: reg_run_def ds_started_def reg_rg_def reg_behavior_def reg_actor_def ds_New_def)
qed




lemma recover_type:
  "da_behavior (snd (ds_recoverFromStore rt db b)) = da_behavior b
   \<and> (fst (ds_recoverFromStore rt db b) \<noteq> None \<and> da_currentState (snd (ds_recoverFromStore rt db b)) = da_currentState b
     \<or> da_currentState (snd (ds_recoverFromStore rt db b)) = dsb_InitialState (the (da_behavior b))
     \<or> (\<exists>x. any_UnmarshalTo (rt_any rt) (Some x) (dsb_InitialState (the (da_behavior b)))
          = Inr (da_currentState (snd (ds_recoverFromStore rt db b)))))"
  by (simp add: ds_recoverFromStore_def Let_def split: sum.split option.split) blast

lemma currentStateAny_type:
  "da_behavior (snd (ds_currentStateAny rt a)) = da_behavior a
   \<and> da_currentState (snd (ds_currentStateAny rt a)) = da_currentState a"
  by (simp add: ds_currentStateAny_def Let_def split: option.split)

lemma sendStateReply_type:
  "da_behavior (fst (ds_sendStateReply rt a)) = da_behavior a
   \<and> da_currentState (fst (ds_sendStateReply rt a)) = da_currentState a"
  using currentStateAny_type[of rt a] by (auto simp: ds_sendStateReply_def split: prod.split)

lemma committed_type:
  "da_behavior (committed st x v t tc a) = da_behavior a \<and> da_currentState (committed st x v t tc a) = st"
  by (simp add: committed_def Let_def)

lemma command_type:
  assumes "ds_processCommand rt tn cmd (a, db) = ((a', db'), effs)"
  shows "da_behavior a' = da_behavior a \<and>
    (da_currentState a' = da_currentState a
     \<or> da_currentState a' \<noteq> rt_nil rt \<and> rt_name rt (da_currentState a') = rt_name rt (da_currentState a)
     \<or> a' = snd (ds_recoverFromStore rt db' a))"
  using assms
proof (cases rule: processCommand_cases)
  case (commits st v tc res)
  obtain err a1 db1 effs1 where res: "res = (err, a1, db1, effs1)" by (cases res)
  show ?thesis
  proof (cases err)
    case (Some e)
    with commits(4) res have "a1 = a" using commitState_failed by metis
    with commits(5) res Some recover_type[of rt db1 a] show ?thesis
      by (auto simp: ds_recoverFromConflictIfNeeded_def split: if_splits)
  next
    case None
    from commitState_done[OF commits(4)[unfolded res None, symmetric]] obtain x where
      "a1 = committed st x v (tn_build tn) tc a" by blast
    moreover have "a' = fst (ds_sendStateReply rt a1)"
      using commits(5) by (simp add: res None split: prod.splits)
    ultimately show ?thesis
      using commits(3) sendStateReply_type[of rt a1] committed_type[of st x v "tn_build tn" tc a]
      by (simp add: checkPreconditions_passes)
  qed
qed auto

lemma receive_type:
  assumes "ds_Receive rt tn msg (a, db) = ((a', db'), effs)"
  shows "da_behavior a' = da_behavior a \<and>
    (da_currentState a' = da_currentState a
     \<or> da_currentState a' \<noteq> rt_nil rt \<and> rt_name rt (da_currentState a') = rt_name rt (da_currentState a)
     \<or> a' = snd (ds_recoverFromStore rt db' a))"
proof (cases msg)
  case (DCommand cmd)
  with assms show ?thesis using command_type by simp
qed (use assms sendStateReply_type[of rt a] in
  \<open>auto simp: ds_getStateAndReply_def split: sum.splits prod.splits\<close>)

lemma stop_type:
  assumes "ds_PostStop rt ping (a, db) = (err, a', db', effs)"
  shows "da_behavior a' = da_behavior a \<and> da_currentState a' = da_currentState a"
  using assms currentStateAny_type[of rt a]
  by (auto simp: ds_PostStop_def ds_persistStateAndPublish_def Let_def split: if_splits option.splits prod.splits)

text \<open>
  C31.  Whatever the handlers return and whatever the store does, a running entity never holds nil
  or a message of another type than its initial state: nothing but the type of what unpacking
  returns is assumed.
\<close>

theorem durable_state_keeps_its_type:
  assumes "dsb_InitialState (the (first_behavior deps)) \<noteq> rt_nil rt"
    and "\<And>x st. any_UnmarshalTo (rt_any rt) (Some x) (dsb_InitialState (the (first_behavior deps))) = Inr st \<Longrightarrow>
      st \<noteq> rt_nil rt \<and> rt_name rt st = rt_name rt (dsb_InitialState (the (first_behavior deps)))"
    and "ds_PreStart rt name rg deps db (ds_New rt) = Inr a" and "ds_run rt name rg deps (ds_started a db) s"
  shows "da_currentState (dy_actor s) \<noteq> rt_nil rt
    \<and> rt_name rt (da_currentState (dy_actor s)) = rt_name rt (dsb_InitialState (the (first_behavior deps)))"
proof -
  let ?i = "dsb_InitialState (the (first_behavior deps))"
  define ok where "ok st \<longleftrightarrow> st \<noteq> rt_nil rt \<and> rt_name rt st = rt_name rt ?i" for st
  have recover: "ok (da_currentState (snd (ds_recoverFromStore rt db b))) \<and> da_behavior (snd (ds_recoverFromStore rt db b)) = first_behavior deps"
    if "da_behavior b = first_behavior deps" "fst (ds_recoverFromStore rt db b) = None \<or> ok (da_currentState b)" for db b
    using recover_type[of rt db b] that assms(1,2) unfolding ok_def by metis
  have restart: "ok (da_currentState a') \<and> da_behavior a' = first_behavior deps"
    if "ds_PreStart rt name (rg\<lparr>dg_ping := ping\<rparr>) deps db (ds_New rt) = Inr a'" for db ping a'
  proof -
    from that obtain a0 where a0: "ds_configure rt name (rg\<lparr>dg_ping := ping\<rparr>) deps = Inr a0"
      by (auto simp: ds_PreStart_configure sum_bind_Inr_iff)
    from start_recovers[OF a0 that] recover[of a0 db] configure_initial[OF a0] show ?thesis by simp
  qed
  have "ok (da_currentState (dy_actor s)) \<and> da_behavior (dy_actor s) = first_behavior deps"
    using assms(4)
  proof (induction rule: rtranclp_induct)
    case base
    show ?case using restart[of "dg_ping rg" db a] assms(3) by (simp add: ds_started_def)
  next
    case (step s s')
    from step.hyps(2) show ?case
    proof cases
      case (turn tn msg a' db' effs)
      with step.IH show ?thesis
        using receive_type[OF turn(4)] recover[of "dy_actor s" db'] by (auto simp: ok_def)
    next
      case (stop ping err a' db' effs)
      with step.IH show ?thesis using stop_type[OF stop(3)] by simp
    next
      case crash
      with step.IH show ?thesis by simp
    next
      case (start ping a')
      then show ?thesis using restart by simp
    qed
  qed
  then show ?thesis by (simp add: ok_def)
qed

theorem durable_state_keeps_its_type_witness:
  "da_currentState (dy_actor reg_run) \<noteq> rt_nil reg_rt
   \<and> rt_name reg_rt (da_currentState (dy_actor reg_run)) = rt_name reg_rt (dsb_InitialState (the (first_behavior reg_deps)))"
proof (rule durable_state_keeps_its_type[OF _ _ reg_start])
  show "ds_run reg_rt ''reg-1'' reg_rg reg_deps (ds_started (reg_actor\<lparr>da_currentState := Some ''''\<rparr>) reg_db) reg_run"
    by (simp add: reg_run_def)
qed (auto simp: reg_behavior_def reg_rt_def reg_codec_def)

text \<open>
  C32.  The version check, computed on doubles from a wrapping difference, accepts a state exactly
  when neither it nor the current one is nil, both have the same type and the version is the next
  one; after the largest version the next one is 0.
\<close>

theorem durable_version_check_exact:
  "ds_checkPreconditions rt st v a = CheckPasses \<longleftrightarrow>
     da_currentState a \<noteq> rt_nil rt \<and> st \<noteq> rt_nil rt \<and> rt_name rt st = rt_name rt (da_currentState a)
     \<and> (unat v = unat (da_currentVersion a) + 1 \<or> unat (da_currentVersion a) = 2 ^ 64 - 1 \<and> v = 0)"
proof -
  have bound: "unat x < 2 ^ 64" for x :: u64 using unsigned_less [of x] by simp
  have "v = da_currentVersion a + 1 \<longleftrightarrow>
      unat v = unat (da_currentVersion a) + 1 \<or> unat (da_currentVersion a) = 2 ^ 64 - 1 \<and> v = 0"
  proof (cases "unat (da_currentVersion a) + 1 < 2 ^ 64")
    case True
    then have "unat (da_currentVersion a + 1) = unat (da_currentVersion a) + 1"
      by (simp add: unat_word_ariths)
    then have "v = da_currentVersion a + 1 \<longleftrightarrow> unat v = unat (da_currentVersion a) + 1"
      by (simp add: word_unat_eq_iff)
    moreover have "unat (da_currentVersion a) \<noteq> 2 ^ 64 - 1" using True by simp
    ultimately show ?thesis by blast
  next
    case False
    then have "unat (da_currentVersion a) = 2 ^ 64 - 1"
      using bound[of "da_currentVersion a"] by simp
    moreover from this have "da_currentVersion a = - 1" by (simp add: word_unat_eq_iff unsigned_minus_1_eq_mask mask_eq_exp_minus_1)
    moreover note bound[of v]
    ultimately show ?thesis by auto
  qed
  then show ?thesis by (simp add: checkPreconditions_passes)
qed

text \<open>
  C33.  In-place recovery after a failed write does not drop the cached packed state: when another
  writer had replaced the record, the actor takes over its state and version, but its replies carry
  the old packed state under the new version, and the flush of \<open>PostStop\<close> writes that old state
  over the record.
\<close>

theorem recovered_actor_keeps_stale_cache:
  assumes "configured rt api a0" and "same_config a0 a" and "da_cachedStateAny a = Some x"
    and "GetLatestState api (da_scope a0) (da_persistenceID a0) db = Inr (Some d)" and "du_version_number d > 0"
    and "holds_record rt (dsb_InitialState (the (da_behavior a0))) (da_tenantAware a0) (da_actorTenant a0) (Some d) st v"
    and "\<not> ds_provablyInSyncAfterConflict err a"
    and "a' = ds_recoverFromConflictIfNeeded rt err db a"
  shows "da_currentState a' = st \<and> da_currentVersion a' = v
    \<and> (\<exists>sr. ds_sendStateReply rt a' = (a', [DRespond (Reply_StateReply sr)]) \<and> sr_state sr = Some x \<and> sr_sequence_number sr = v)
    \<and> (\<exists>d'. du_resulting_state d' = Some x \<and> du_version_number d' = v \<and> du_persistence_id d' = da_persistenceID a0
        \<and> (\<forall>db'. WriteState api (da_scope a0) d' Unconditional db = (None, db') \<longrightarrow>
             ds_PostStop rt None (a', db) = (None, a', db', [DPublish StatesTopic d'])))"
proof -
  have "ds_recoverFromStore rt db a = (None, a\<lparr>da_currentState := st, da_currentVersion := v\<rparr>)"
    using assms(5) by (intro recover_holds[OF assms(2,1,4,6)]) auto
  then have a': "a' = a\<lparr>da_currentState := st, da_currentVersion := v\<rparr>"
    using assms(7,8) by (simp add: ds_recoverFromConflictIfNeeded_def)
  have v: "v > 0" using assms(5,6) by (auto simp: holds_record_def split: if_splits)
  have cfg: "da_stateStore a = Some api" "da_scope a = da_scope a0" "da_persistenceID a = da_persistenceID a0"
    using assms(1,2) by (simp_all add: configured_def same_config_def)
  have any: "ds_currentStateAny rt a' = (Some x, a')"
    by (simp add: a' ds_currentStateAny_def assms(3))
  have flush: "ds_persistStateAndPublish rt (a', db) =
      (case WriteState (the (da_stateStore a')) (da_scope a')
              (record_of a' (Some x) (da_currentVersion a') (da_lastCommandTime a') (da_actorTenant a')) Unconditional db of
         (Some err, db') \<Rightarrow> (Some err, a', db', [])
       | (None, db') \<Rightarrow> (None, a', db',
           [DPublish StatesTopic (record_of a' (Some x) (da_currentVersion a') (da_lastCommandTime a') (da_actorTenant a'))]))"
    unfolding ds_persistStateAndPublish_def record_of_def by (simp add: any Let_def)
  let ?d = "record_of a' (Some x) v (da_lastCommandTime a') (da_actorTenant a')"
  have "ds_PostStop rt None (a', db) = (None, a', db', [DPublish StatesTopic ?d])"
    if "WriteState api (da_scope a0) ?d Unconditional db = (None, db')" for db'
    using that v cfg by (simp add: ds_PostStop_def flush) (simp add: a')
  moreover have "du_resulting_state ?d = Some x \<and> du_version_number ?d = v \<and> du_persistence_id ?d = da_persistenceID a0"
    by (simp add: record_of_def a' cfg)
  ultimately have "\<exists>d'. du_resulting_state d' = Some x \<and> du_version_number d' = v \<and> du_persistence_id d' = da_persistenceID a0
        \<and> (\<forall>db'. WriteState api (da_scope a0) d' Unconditional db = (None, db') \<longrightarrow>
             ds_PostStop rt None (a', db) = (None, a', db', [DPublish StatesTopic d']))"
    by blast
  moreover have "\<exists>sr. ds_sendStateReply rt a' = (a', [DRespond (Reply_StateReply sr)]) \<and> sr_state sr = Some x \<and> sr_sequence_number sr = v"
    by (simp add: ds_sendStateReply_def any) (simp add: a')
  ultimately show ?thesis by (simp add: a')
qed

text \<open>An entity at version 1 with the state \<open>mine\<close>, after another writer stored version 2 with \<open>theirs\<close>.\<close>

definition their_record :: DurableState where
  "their_record = \<lparr>du_persistence_id = ''reg-1'', du_version_number = 2,
     du_resulting_state = Some \<lparr>any_type_url = ''text'', any_value = ''theirs''\<rparr>, du_timestamp = 8, du_shard = 9,
     du_tenant_metadata = Map.empty\<rparr>"

definition their_db :: DurableStore where
  "their_db = snd (dst_WriteState Unscoped \<lparr>ref_ptr = 0, ref_val = their_record\<rparr> Unconditional reg_db)"

definition my_actor :: "(string option, DurableStore) DurableActor" where
  "my_actor = reg_actor\<lparr>da_currentState := Some ''mine'', da_currentVersion := 1,
     da_cachedStateAny := Some \<lparr>any_type_url = ''text'', any_value = ''mine''\<rparr>\<rparr>"

theorem recovered_actor_keeps_stale_cache_witness:
  "\<exists>a' d'. a' = ds_recoverFromConflictIfNeeded reg_rt (ErrNew ''connection reset'') their_db my_actor
     \<and> da_currentState a' = Some ''theirs'' \<and> da_currentVersion a' = 2
     \<and> du_resulting_state d' = Some \<lparr>any_type_url = ''text'', any_value = ''mine''\<rparr> \<and> du_version_number d' = 2
     \<and> (\<forall>db'. WriteState testkit_StateStore Unscoped d' Unconditional their_db = (None, db') \<longrightarrow>
          ds_PostStop reg_rt None (a', their_db) = (None, a', db', [DPublish StatesTopic d']))"
proof -
  have "WriteState testkit_StateStore Unscoped their_record Unconditional reg_db = (None, their_db)"
    using reg_db_ok(1) wf_scope_Valid[OF wf_scope_Unscoped]
    by (simp add: their_db_def testkit_StateStore_def dst_WriteState_def dst_ok_def Let_def)
  from tks.write_ok[OF reg_db_ok(1) wf_scope_Unscoped this]
  have ok: "dst_ok their_db" "dst_stored their_db Unscoped ''reg-1'' = Some their_record"
    by (simp_all add: their_record_def)
  have a0: "configured reg_rt testkit_StateStore reg_actor" "same_config reg_actor my_actor"
    by (simp_all add: configured_def reg_actor_def ds_New_def same_config_def my_actor_def)
  from recovered_actor_keeps_stale_cache[OF a0, of "\<lparr>any_type_url = ''text'', any_value = ''mine''\<rparr>" their_db
      their_record "Some ''theirs''" 2 "ErrNew ''connection reset''", OF _ _ _ _ _ refl]
  show ?thesis
    using testkit_get[OF ok(1) wf_scope_Unscoped, of "''reg-1''"] ok(2)
    by (auto simp: my_actor_def reg_actor_def ds_New_def their_record_def holds_record_def reg_rt_def reg_codec_def
        ds_provablyInSyncAfterConflict_def)
qed

end
