(* ===== verification/Saga_Actor.thy ===== *)
theory Saga_Actor
  imports Actor_Base Journal
begin

text \<open>
  The saga actor, \<open>src/internal/engine/saga/saga_actor.go\<close>, and its port \<open>src/port/behavior/saga.go\<close>.  A
  handler takes and returns the saga together with the world it acts on: the events store, what it
  did outside so far (commands sent, events written, replies) and how often it asked outside.  What
  the outside answers (clock, operation ids, entities) is a parameter, indexed by that number.

  A reaction to an answer may send further commands, so sending recurses without a bound of its
  own; the model carries fuel, and running out of it is \<open>None\<close>.
\<close>

section \<open>Behaviors\<close>

record 'm SagaCommand =
  sc_EntityID :: string
  sc_Command :: 'm
  sc_Timeout :: int
  sc_Metadata :: Metadata

record 'm SagaAction =
  act_Commands :: "'m SagaCommand list"
  act_Events :: "'m list"
  act_Complete :: bool
  act_Compensate :: bool

record 'm SagaBehavior =
  sbh_ID :: string
  sbh_InitialState :: 'm
  sbh_HandleEvent :: "cmdctx \<Rightarrow> 'm \<Rightarrow> 'm \<Rightarrow> goerr + 'm SagaAction option"
  sbh_HandleResult :: "cmdctx \<Rightarrow> string \<Rightarrow> 'm \<Rightarrow> 'm \<Rightarrow> goerr + 'm SagaAction option"
  sbh_HandleError :: "cmdctx \<Rightarrow> string \<Rightarrow> goerr \<Rightarrow> 'm \<Rightarrow> goerr + 'm SagaAction option"
  sbh_ApplyEvent :: "cmdctx \<Rightarrow> 'm \<Rightarrow> 'm \<Rightarrow> goerr + 'm"
  sbh_Compensate :: "cmdctx \<Rightarrow> 'm \<Rightarrow> goerr + 'm SagaCommand list"

definition actionIsNoop :: "'m SagaAction option \<Rightarrow> bool" where
  "actionIsNoop a =
     (case a of
        None \<Rightarrow> True
      | Some act \<Rightarrow> act_Commands act = [] \<and> act_Events act = [] \<and> \<not> act_Complete act \<and> \<not> act_Compensate act)"

section \<open>State\<close>

datatype SagaStatus = SagaRunning | SagaCompleted | SagaCompensating | SagaFailed

record ('m, 's) SagaActor =
  sa_behavior :: "'m SagaBehavior option"
  sa_eventsStore :: "'s EventsStore option"
  sa_subscribed :: bool
  sa_currentState :: 'm
  sa_eventsCounter :: u64
  sa_status :: SagaStatus
  sa_sagaID :: string
  sa_timeout :: int
  sa_tenantAware :: bool
  sa_boundTenant :: TenantContext
  sa_scope :: Scope
  sa_rootMetadata :: Metadata

definition sg_New :: "'m runtime \<Rightarrow> ('m, 's) SagaActor" where
  "sg_New rt =
     \<lparr>sa_behavior = None, sa_eventsStore = None, sa_subscribed = False, sa_currentState = rt_nil rt,
      sa_eventsCounter = 0, sa_status = SagaRunning, sa_sagaID = '''', sa_timeout = 0, sa_tenantAware = False,
      sa_boundTenant = noTenantContext, sa_scope = zeroScope, sa_rootMetadata = zeroMetadata\<rparr>"

text \<open>What an entity answers: a reply, or a message of another type.\<close>

datatype saga_answer = AnswerReply CommandReply | AnswerOther

record 'm saga_env =
  se_now :: "nat \<Rightarrow> int"
  se_operationID :: "nat \<Rightarrow> goerr + string"
  se_answer :: "nat \<Rightarrow> cmdctx \<Rightarrow> string \<Rightarrow> 'm \<Rightarrow> int \<Rightarrow> goerr + saga_answer"

datatype 'm saga_effect =
  SagaSend cmdctx string 'm int
  | SagaWrote "Event list"
  | SagaConsume
  | SagaSchedule int
  | SagaRespond CommandReply
  | SagaRespondBinding TenantBindingReply
  | SagaUnhandled

record ('m, 's) saga_world =
  sw_db :: 's
  sw_out :: "'m saga_effect list"
  sw_asked :: nat

definition sw_emit :: "'m saga_effect \<Rightarrow> ('m, 's) saga_world \<Rightarrow> ('m, 's) saga_world" where
  "sw_emit eff w = w\<lparr>sw_out := sw_out w @ [eff]\<rparr>"

definition sw_ask :: "('m, 's) saga_world \<Rightarrow> ('m, 's) saga_world" where
  "sw_ask w = w\<lparr>sw_asked := Suc (sw_asked w)\<rparr>"

section \<open>Tenant identity\<close>

definition sg_eventContext :: "cmdctx \<Rightarrow> Event \<Rightarrow> ('m, 's) SagaActor \<Rightarrow> goerr + cmdctx" where
  "sg_eventContext parent event s =
     (if \<not> sa_tenantAware s then Inr parent
      else case tenancy_UnmarshalMetadata (ev_tenant_metadata event) of
             Inl err \<Rightarrow> Inl (ErrWrap ''failed to unmarshal saga event tenant metadata: '' (ErrTenancy err) '''')
           | Inr tc \<Rightarrow>
               (case tenancy_Attach parent tc of
                  Inl err \<Rightarrow> Inl (ErrTenancy err)
                | Inr ctx \<Rightarrow> Inr ctx))"

definition sg_bindOrVerify :: "cmdctx \<Rightarrow> ('m, 's) SagaActor \<Rightarrow> goerr + ('m, 's) SagaActor" where
  "sg_bindOrVerify ctx s =
     (if \<not> sa_tenantAware s then Inr s
      else case tenancy_Require ctx of
             Inl err \<Rightarrow> Inl (ErrTenancy err)
           | Inr tc \<Rightarrow>
               if sa_boundTenant s = noTenantContext then Inr (s\<lparr>sa_boundTenant := tc\<rparr>)
               else case tenancy_VerifyUnchanged (sa_boundTenant s) tc of
                      Some err \<Rightarrow> Inl (ErrTenancy err)
                    | None \<Rightarrow> Inr s)"

definition sg_compensationContext :: "('m, 's) SagaActor \<Rightarrow> goerr + cmdctx" where
  "sg_compensationContext s =
     (if \<not> sa_tenantAware s then Inr context_Background
      else case tenancy_Attach context_Background (sa_boundTenant s) of
             Inl err \<Rightarrow> Inl (ErrTenancy err)
           | Inr ctx \<Rightarrow> Inr ctx)"

definition sg_checkStateReadTenant :: "cmdctx \<Rightarrow> ('m, 's) SagaActor \<Rightarrow> goerr option" where
  "sg_checkStateReadTenant ctx s =
     (if \<not> sa_tenantAware s then None
      else case tenancy_Require ctx of
             Inl err \<Rightarrow> Some (ErrTenancy err)
           | Inr tc \<Rightarrow>
               if sa_boundTenant s \<noteq> noTenantContext
               then map_option ErrTenancy (tenancy_VerifyUnchanged (sa_boundTenant s) tc)
               else None)"

section \<open>Recovery\<close>

text \<open>The payload of a tenant-binding marker, \<open>anypb.New(&emptypb.Empty{})\<close>, and how it is told apart.\<close>

definition emptypb_name :: string where
  "emptypb_name = ''google.protobuf.Empty''"

definition empty_any :: any_pb where
  "empty_any = \<lparr>any_type_url = ''type.googleapis.com/'' @ emptypb_name, any_value = ''''\<rparr>"

fun sg_replay :: "'m runtime \<Rightarrow> cmdctx \<Rightarrow> Event list \<Rightarrow> ('m, 's) SagaActor \<Rightarrow> goerr + ('m, 's) SagaActor" where
  "sg_replay rt ctx [] s = Inr s"
| "sg_replay rt ctx (envelope # events) s =
     (let at = strconv_FormatUint (ev_sequence_number envelope) @ '': '' in
      sum_bind (wrap_err (''failed to reconstruct tenant context for saga event at sequence '' @ at)
        (sg_eventContext ctx envelope s)) (\<lambda>eventCtx.
      sum_bind (wrap_err (''tenant mismatch replaying saga event at sequence '' @ at)
        (sg_bindOrVerify eventCtx s)) (\<lambda>s1.
      sum_bind (wrap_err (''failed to unmarshal saga event at sequence '' @ at)
        (any_UnmarshalNew (rt_any rt) (ev_event envelope))) (\<lambda>eventMsg.
      if rt_name rt eventMsg = emptypb_name then sg_replay rt ctx events s1
      else
        sum_bind (wrap_err (''failed to apply saga event at sequence '' @ at)
          (sbh_ApplyEvent (the (sa_behavior s1)) eventCtx eventMsg (sa_currentState s1))) (\<lambda>st.
        sg_replay rt ctx events (s1\<lparr>sa_currentState := st\<rparr>))))))"

definition sg_recover :: "'m runtime \<Rightarrow> cmdctx \<Rightarrow> 's \<Rightarrow> ('m, 's) SagaActor \<Rightarrow> goerr + ('m, 's) SagaActor" where
  "sg_recover rt ctx db s =
     (let s1 = s\<lparr>sa_currentState := sbh_InitialState (the (sa_behavior s)), sa_status := SagaRunning\<rparr>;
          store = the (sa_eventsStore s) in
      sum_bind (wrap_err ''failed to get latest saga event: ''
        (GetLatestEvent store (sa_scope s) (sa_sagaID s) db)) (\<lambda>latestEvent.
      case latestEvent of
        None \<Rightarrow> Inr s1
      | Some latest \<Rightarrow>
          let latestSeqNr = ev_sequence_number latest in
          sum_bind (wrap_err ''failed to replay saga events: ''
            (ReplayEvents store (sa_scope s) (sa_sagaID s) 1 latestSeqNr latestSeqNr db)) (\<lambda>events.
          sum_bind (sg_replay rt ctx events s1) (\<lambda>s2.
          Inr (s2\<lparr>sa_eventsCounter := latestSeqNr\<rparr>)))))"

section \<open>Persisting\<close>

text \<open>The loop of \<open>persistAndApplyEvents\<close>: the envelopes, the next counter and the next state.\<close>

fun sg_build_events ::
    "'m runtime \<Rightarrow> 'm saga_env \<Rightarrow> cmdctx \<Rightarrow> TenantContext \<Rightarrow> ('m, 's) SagaActor \<Rightarrow> 'm list \<Rightarrow> u64 \<Rightarrow> 'm \<Rightarrow> ('m, 's) saga_world
       \<Rightarrow> (goerr + Event list \<times> u64 \<times> 'm) \<times> ('m, 's) saga_world" where
  "sg_build_events rt env ctx tc s [] nextCounter nextState w = (Inr ([], nextCounter, nextState), w)"
| "sg_build_events rt env ctx tc s (event # events) nextCounter nextState w =
     (let envelope =
            \<lparr>ev_persistence_id = sa_sagaID s, ev_sequence_number = nextCounter + 1, ev_is_deleted = False,
             ev_event = any_New (rt_any rt) event, ev_timestamp = time_UnixNano (se_now env (sw_asked w)), ev_shard = 0,
             ev_encryption_key_id = '''', ev_is_encrypted = False,
             ev_tenant_metadata = (if sa_tenantAware s then tenancy_MarshalMetadata tc else Map.empty)\<rparr> in
      case sbh_ApplyEvent (the (sa_behavior s)) ctx event nextState of
        Inl err \<Rightarrow> (Inl (ErrWrap ''failed to apply saga event: '' err ''''), sw_ask w)
      | Inr newState \<Rightarrow>
          (case sg_build_events rt env ctx tc s events (nextCounter + 1) newState (sw_ask w) of
             (Inl err, w') \<Rightarrow> (Inl err, w')
           | (Inr (envelopes, c, st), w') \<Rightarrow> (Inr (envelope # envelopes, c, st), w')))"

definition sg_persistAndApplyEvents ::
    "'m runtime \<Rightarrow> 'm saga_env \<Rightarrow> cmdctx \<Rightarrow> 'm list \<Rightarrow> ('m, 's) SagaActor \<times> ('m, 's) saga_world
       \<Rightarrow> goerr option \<times> ('m, 's) SagaActor \<times> ('m, 's) saga_world" where
  "sg_persistAndApplyEvents rt env ctx events sw =
     (let (s, w) = sw in
      case (if sa_tenantAware s
            then wrap_err ''failed to persist saga events: ''
                   (case tenancy_Require ctx of Inl err \<Rightarrow> Inl (ErrTenancy err) | Inr tc \<Rightarrow> Inr tc)
            else Inr noTenantContext) of
        Inl err \<Rightarrow> (Some err, s, w)
      | Inr tc \<Rightarrow>
          (case sg_build_events rt env ctx tc s events (sa_eventsCounter s) (sa_currentState s) w of
             (Inl err, w1) \<Rightarrow> (Some err, s, w1)
           | (Inr (envelopes, nextCounter, nextState), w1) \<Rightarrow>
               (case WriteEvents (the (sa_eventsStore s)) (sa_scope s) envelopes Unconditional (sw_db w1) of
                  (Some err, db') \<Rightarrow> (Some err, s, w1\<lparr>sw_db := db'\<rparr>)
                | (None, db') \<Rightarrow>
                    (None, s\<lparr>sa_eventsCounter := nextCounter, sa_currentState := nextState\<rparr>,
                     sw_emit (SagaWrote envelopes) (w1\<lparr>sw_db := db'\<rparr>)))))"

definition sg_persistTenantBinding ::
    "'m saga_env \<Rightarrow> TenantContext \<Rightarrow> ('m, 's) SagaActor \<times> ('m, 's) saga_world
       \<Rightarrow> goerr option \<times> ('m, 's) SagaActor \<times> ('m, 's) saga_world" where
  "sg_persistTenantBinding env tc sw =
     (let (s, w) = sw;
          nextCounter = sa_eventsCounter s + 1;
          envelope =
            \<lparr>ev_persistence_id = sa_sagaID s, ev_sequence_number = nextCounter, ev_is_deleted = False,
             ev_event = Some empty_any, ev_timestamp = time_UnixNano (se_now env (sw_asked w)), ev_shard = 0,
             ev_encryption_key_id = '''', ev_is_encrypted = False, ev_tenant_metadata = tenancy_MarshalMetadata tc\<rparr>;
          w1 = sw_ask w in
      case WriteEvents (the (sa_eventsStore s)) (sa_scope s) [envelope] Unconditional (sw_db w1) of
        (Some err, db') \<Rightarrow> (Some err, s, w1\<lparr>sw_db := db'\<rparr>)
      | (None, db') \<Rightarrow>
          (None, s\<lparr>sa_eventsCounter := nextCounter\<rparr>, sw_emit (SagaWrote [envelope]) (w1\<lparr>sw_db := db'\<rparr>)))"

section \<open>Commands\<close>

definition sg_attachCommandMetadata ::
    "'m runtime \<Rightarrow> 'm saga_env \<Rightarrow> cmdctx \<Rightarrow> Metadata \<Rightarrow> ('m, 's) SagaActor \<Rightarrow> ('m, 's) saga_world
       \<Rightarrow> cmdctx \<times> ('m, 's) saga_world" where
  "sg_attachCommandMetadata rt env ctx explicit s w =
     (if md_operationID explicit \<noteq> '''' then (AttachCarrier ctx (cmd_MarshalMetadata (rt_time rt) explicit), w)
      else
        (case se_operationID env (sw_asked w) of
           Inl err \<Rightarrow> (ctx, sw_ask w)
         | Inr op \<Rightarrow>
             (case md_Derive (se_now env (sw_asked w)) (sa_rootMetadata s) op [] of
                Inl err \<Rightarrow> (ctx, sw_ask w)
              | Inr md \<Rightarrow> (AttachCarrier ctx (cmd_MarshalMetadata (rt_time rt) md), sw_ask w))))"

definition defaultCommandTimeout :: int where
  "defaultCommandTimeout = 5 * 1000000000"

definition effectiveCommandTimeout :: "int \<Rightarrow> int" where
  "effectiveCommandTimeout configured = (if configured = 0 then defaultCommandTimeout else configured)"

text \<open>\<open>SendSync\<close>: the command goes out, and the answer comes back.\<close>

definition sg_SendSync ::
    "'m saga_env \<Rightarrow> cmdctx \<Rightarrow> string \<Rightarrow> 'm \<Rightarrow> int \<Rightarrow> ('m, 's) saga_world \<Rightarrow> (goerr + saga_answer) \<times> ('m, 's) saga_world" where
  "sg_SendSync env ctx entityID cmd timeout w =
     (se_answer env (sw_asked w) ctx entityID cmd timeout, sw_ask (sw_emit (SagaSend ctx entityID cmd timeout) w))"

definition sg_dispatch ::
    "'m runtime \<Rightarrow> 'm saga_env \<Rightarrow> cmdctx \<Rightarrow> 'm SagaCommand \<Rightarrow> ('m, 's) SagaActor \<Rightarrow> ('m, 's) saga_world
       \<Rightarrow> (goerr + saga_answer) \<times> ('m, 's) saga_world" where
  "sg_dispatch rt env ctx cmd s w =
     (let (ctx', w1) = sg_attachCommandMetadata rt env ctx (sc_Metadata cmd) s w in
      sg_SendSync env ctx' (sc_EntityID cmd) (sc_Command cmd) (effectiveCommandTimeout (sc_Timeout cmd)) w1)"

fun sg_compensate_loop ::
    "'m runtime \<Rightarrow> 'm saga_env \<Rightarrow> cmdctx \<Rightarrow> 'm SagaCommand list \<Rightarrow> ('m, 's) SagaActor \<times> ('m, 's) saga_world
       \<Rightarrow> ('m, 's) SagaActor \<times> ('m, 's) saga_world" where
  "sg_compensate_loop rt env ctx [] (s, w) = (s\<lparr>sa_status := SagaCompleted\<rparr>, w)"
| "sg_compensate_loop rt env ctx (cmd # cmds) (s, w) =
     (case sg_dispatch rt env ctx cmd s w of
        (Inl err, w1) \<Rightarrow> (s\<lparr>sa_status := SagaFailed\<rparr>, w1)
      | (Inr _, w1) \<Rightarrow> sg_compensate_loop rt env ctx cmds (s, w1))"

definition sg_compensate ::
    "'m runtime \<Rightarrow> 'm saga_env \<Rightarrow> cmdctx \<Rightarrow> ('m, 's) SagaActor \<times> ('m, 's) saga_world
       \<Rightarrow> ('m, 's) SagaActor \<times> ('m, 's) saga_world" where
  "sg_compensate rt env ctx sw =
     (let (s, w) = sw in
      case sbh_Compensate (the (sa_behavior s)) ctx (sa_currentState s) of
        Inl err \<Rightarrow> (s\<lparr>sa_status := SagaFailed\<rparr>, w)
      | Inr commands \<Rightarrow> sg_compensate_loop rt env ctx commands (s, w))"

section \<open>Actions\<close>

text \<open>
  \<open>processAction\<close>, \<open>dispatchActionEffects\<close> and \<open>sendCommand\<close> call each other.  The first two take the
  third as an argument; \<open>sg_sendCommand\<close> ties the knot, one unit of fuel for each nested command.
\<close>

fun sg_sendCommands ::
    "('m SagaCommand \<Rightarrow> ('m, 's) SagaActor \<times> ('m, 's) saga_world \<Rightarrow> (('m, 's) SagaActor \<times> ('m, 's) saga_world) option)
       \<Rightarrow> 'm SagaCommand list \<Rightarrow> ('m, 's) SagaActor \<times> ('m, 's) saga_world
       \<Rightarrow> (('m, 's) SagaActor \<times> ('m, 's) saga_world) option" where
  "sg_sendCommands send [] sw = Some sw"
| "sg_sendCommands send (cmd # cmds) sw = Option.bind (send cmd sw) (sg_sendCommands send cmds)"

definition sg_dispatchActionEffects ::
    "('m SagaCommand \<Rightarrow> ('m, 's) SagaActor \<times> ('m, 's) saga_world \<Rightarrow> (('m, 's) SagaActor \<times> ('m, 's) saga_world) option)
       \<Rightarrow> 'm runtime \<Rightarrow> 'm saga_env \<Rightarrow> cmdctx \<Rightarrow> 'm SagaAction \<Rightarrow> ('m, 's) SagaActor \<times> ('m, 's) saga_world
       \<Rightarrow> (('m, 's) SagaActor \<times> ('m, 's) saga_world) option" where
  "sg_dispatchActionEffects send rt env ctx action sw =
     Option.bind (sg_sendCommands send (act_Commands action) sw) (\<lambda>(s, w).
       if act_Complete action then Some (s\<lparr>sa_status := SagaCompleted\<rparr>, w)
       else if act_Compensate action then Some (sg_compensate rt env ctx (s\<lparr>sa_status := SagaCompensating\<rparr>, w))
       else Some (s, w))"

definition sg_processAction ::
    "('m SagaCommand \<Rightarrow> ('m, 's) SagaActor \<times> ('m, 's) saga_world \<Rightarrow> (('m, 's) SagaActor \<times> ('m, 's) saga_world) option)
       \<Rightarrow> 'm runtime \<Rightarrow> 'm saga_env \<Rightarrow> cmdctx \<Rightarrow> 'm SagaAction option \<Rightarrow> ('m, 's) SagaActor \<times> ('m, 's) saga_world
       \<Rightarrow> (('m, 's) SagaActor \<times> ('m, 's) saga_world) option" where
  "sg_processAction send rt env ctx action sw =
     (case action of
        None \<Rightarrow> Some sw
      | Some act \<Rightarrow>
          if act_Events act \<noteq> [] then
            (case sg_persistAndApplyEvents rt env ctx (act_Events act) sw of
               (Some err, sw1) \<Rightarrow> Some sw1
             | (None, sw1) \<Rightarrow> sg_dispatchActionEffects send rt env ctx act sw1)
          else sg_dispatchActionEffects send rt env ctx act sw)"

text \<open>What the saga makes of an answer: the action of its behavior, unless that fails.\<close>

definition sg_reaction ::
    "'m runtime \<Rightarrow> cmdctx \<Rightarrow> string \<Rightarrow> goerr + saga_answer \<Rightarrow> ('m, 's) SagaActor \<Rightarrow> goerr + 'm SagaAction option" where
  "sg_reaction rt ctx entityID answer s =
     (let bh = the (sa_behavior s) in
      case answer of
        Inl err \<Rightarrow> sbh_HandleError bh ctx entityID err (sa_currentState s)
      | Inr AnswerOther \<Rightarrow> Inr None
      | Inr (AnswerReply reply) \<Rightarrow>
          (case ParseCommandReply (rt_any rt) reply of
             Inl err \<Rightarrow> sbh_HandleError bh ctx entityID err (sa_currentState s)
           | Inr (resultState, _) \<Rightarrow> sbh_HandleResult bh ctx entityID resultState (sa_currentState s)))"

primrec sg_sendCommand ::
    "'m runtime \<Rightarrow> 'm saga_env \<Rightarrow> nat \<Rightarrow> cmdctx \<Rightarrow> 'm SagaCommand \<Rightarrow> ('m, 's) SagaActor \<times> ('m, 's) saga_world
       \<Rightarrow> (('m, 's) SagaActor \<times> ('m, 's) saga_world) option" where
  "sg_sendCommand rt env 0 ctx cmd sw = None"
| "sg_sendCommand rt env (Suc fuel) ctx cmd sw =
     (let (s, w) = sw;
          (answer, w1) = sg_dispatch rt env ctx cmd s w in
      case sg_reaction rt ctx (sc_EntityID cmd) answer s of
        Inl err \<Rightarrow> Some (s, w1)
      | Inr action \<Rightarrow> sg_processAction (sg_sendCommand rt env fuel ctx) rt env ctx action (s, w1))"

section \<open>Messages\<close>

text \<open>An event of the stream.  Log entries are left out.\<close>

definition sg_handleStreamEvent ::
    "'m runtime \<Rightarrow> 'm saga_env \<Rightarrow> nat \<Rightarrow> Event \<Rightarrow> ('m, 's) SagaActor \<times> ('m, 's) saga_world
       \<Rightarrow> (('m, 's) SagaActor \<times> ('m, 's) saga_world) option" where
  "sg_handleStreamEvent rt env fuel event sw =
     (let (s, w) = sw in
      if sa_status s \<noteq> SagaRunning then Some sw
      else
        (case sg_eventContext context_Background event s of
           Inl err \<Rightarrow> Some sw
         | Inr ctx \<Rightarrow>
             let alreadyBound = (sa_tenantAware s \<and> sa_boundTenant s \<noteq> noTenantContext) in
             if alreadyBound \<and> (case sg_bindOrVerify ctx s of Inl _ \<Rightarrow> True | Inr _ \<Rightarrow> False) then Some sw
             else
               (case any_UnmarshalNew (rt_any rt) (ev_event event) of
                  Inl err \<Rightarrow> Some sw
                | Inr eventMsg \<Rightarrow>
                    (case sbh_HandleEvent (the (sa_behavior s)) ctx eventMsg (sa_currentState s) of
                       Inl err \<Rightarrow> Some sw
                     | Inr action \<Rightarrow>
                         let send = sg_sendCommand rt env fuel ctx in
                         if alreadyBound then sg_processAction send rt env ctx action sw
                         else if actionIsNoop action then Some sw
                         else if \<not> sa_tenantAware s then sg_processAction send rt env ctx action sw
                         else
                           (case tenancy_Require ctx of
                              Inl err \<Rightarrow> Some sw
                            | Inr tc \<Rightarrow>
                                (case (if act_Events (the action) \<noteq> []
                                       then sg_persistAndApplyEvents rt env ctx (act_Events (the action)) sw
                                       else sg_persistTenantBinding env tc sw) of
                                   (Some err, sw1) \<Rightarrow> Some sw1
                                 | (None, s1, w1) \<Rightarrow>
                                     sg_dispatchActionEffects send rt env ctx (the action)
                                       (s1\<lparr>sa_boundTenant := tc\<rparr>, w1)))))))"

fun StatusToProto :: "SagaStatus \<Rightarrow> SagaLifecycleStatus" where
  "StatusToProto SagaCompleted = SAGA_LIFECYCLE_STATUS_COMPLETED"
| "StatusToProto SagaCompensating = SAGA_LIFECYCLE_STATUS_COMPENSATING"
| "StatusToProto SagaFailed = SAGA_LIFECYCLE_STATUS_FAILED"
| "StatusToProto SagaRunning = SAGA_LIFECYCLE_STATUS_RUNNING"

fun StatusFromProto :: "SagaLifecycleStatus \<Rightarrow> SagaStatus" where
  "StatusFromProto SAGA_LIFECYCLE_STATUS_COMPLETED = SagaCompleted"
| "StatusFromProto SAGA_LIFECYCLE_STATUS_COMPENSATING = SagaCompensating"
| "StatusFromProto SAGA_LIFECYCLE_STATUS_FAILED = SagaFailed"
| "StatusFromProto _ = SagaRunning"

definition sg_replyWithState :: "'m runtime \<Rightarrow> ('m, 's) SagaActor \<Rightarrow> CommandReply" where
  "sg_replyWithState rt s =
     Reply_StateReply
       \<lparr>sr_persistence_id = sa_sagaID s, sr_state = any_New (rt_any rt) (sa_currentState s),
        sr_sequence_number = sa_eventsCounter s, sr_timestamp = 0, sr_saga_status = StatusToProto (sa_status s)\<rparr>"

definition sg_getStateAndReply :: "'m runtime \<Rightarrow> cmdctx \<Rightarrow> ('m, 's) SagaActor \<Rightarrow> CommandReply" where
  "sg_getStateAndReply rt ctx s =
     (case sg_checkStateReadTenant ctx s of
        Some err \<Rightarrow> Reply_ErrorReply (error_text (rt_print rt) err)
      | None \<Rightarrow> sg_replyWithState rt s)"

datatype saga_message =
  SagaPostStart
  | SagaEvent Event
  | SagaTimeoutMsg
  | SagaGetState cmdctx
  | SagaTenantBindingQuery string
  | SagaOther

fun sg_Receive ::
    "'m runtime \<Rightarrow> 'm saga_env \<Rightarrow> nat \<Rightarrow> saga_message \<Rightarrow> ('m, 's) SagaActor \<times> ('m, 's) saga_world
       \<Rightarrow> (('m, 's) SagaActor \<times> ('m, 's) saga_world) option" where
  "sg_Receive rt env fuel SagaPostStart (s, w) =
     Some (s, if sa_timeout s > 0 then sw_emit (SagaSchedule (sa_timeout s)) (sw_emit SagaConsume w)
              else sw_emit SagaConsume w)"
| "sg_Receive rt env fuel (SagaEvent event) sw = sg_handleStreamEvent rt env fuel event sw"
| "sg_Receive rt env fuel SagaTimeoutMsg (s, w) =
     (if sa_status s = SagaRunning then
        let s1 = s\<lparr>sa_status := SagaCompensating\<rparr> in
        (case sg_compensationContext s1 of
           Inl err \<Rightarrow> Some (s1\<lparr>sa_status := SagaFailed\<rparr>, w)
         | Inr sagaCtx \<Rightarrow> Some (sg_compensate rt env sagaCtx (s1, w)))
      else Some (s, w))"
| "sg_Receive rt env fuel (SagaGetState ctx) (s, w) =
     Some (s, sw_emit (SagaRespond (sg_getStateAndReply rt ctx s)) w)"
| "sg_Receive rt env fuel (SagaTenantBindingQuery tid) (s, w) =
     Some (s, sw_emit (SagaRespondBinding (AnswerTenantBinding (sa_tenantAware s) (sa_scope s) tid)) w)"
| "sg_Receive rt env fuel SagaOther (s, w) = Some (s, sw_emit SagaUnhandled w)"

text \<open>
  One drained snapshot of the subscription: what is forwarded to the mailbox.  A payload is nil, an
  event or something else; \<open>stopped\<close> tells of each message whether the stop channel is closed
  when the loop reaches it.
\<close>

datatype saga_payload = PayloadNil | PayloadEvent Event | PayloadOther

fun sg_consumeEvents :: "string \<Rightarrow> (saga_payload \<times> bool) list \<Rightarrow> Event list" where
  "sg_consumeEvents sagaID [] = []"
| "sg_consumeEvents sagaID ((payload, stopped) # rest) =
     (if stopped then []
      else case payload of
             PayloadEvent event \<Rightarrow>
               if ev_persistence_id event = sagaID then sg_consumeEvents sagaID rest
               else event # sg_consumeEvents sagaID rest
           | _ \<Rightarrow> sg_consumeEvents sagaID rest)"

section \<open>Starting and stopping\<close>

record 's sg_registry =
  gg_eventsStore :: "'s EventsStore ext_slot"
  gg_eventsStream :: "unit ext_slot"
  gg_tenancy :: bool
  gg_ping :: "goerr option"

definition sg_resolveScope ::
    "'m SagaBehavior dependency list \<Rightarrow> ('m, 's) SagaActor \<Rightarrow> goerr + ('m, 's) SagaActor" where
  "sg_resolveScope deps s =
     sum_bind (bind_tenant_scope (sa_tenantAware s) deps) (\<lambda>(scope, tc).
       Inr (if sa_tenantAware s then s\<lparr>sa_scope := scope, sa_boundTenant := tc\<rparr> else s\<lparr>sa_scope := scope\<rparr>))"

fun sg_setConfig :: "'m SagaBehavior dependency list \<Rightarrow> ('m, 's) SagaActor \<Rightarrow> ('m, 's) SagaActor" where
  "sg_setConfig [] s = s"
| "sg_setConfig (dep # deps) s =
     sg_setConfig deps
       (case dep of
          DepBehavior bh \<Rightarrow> s\<lparr>sa_behavior := Some bh\<rparr>
        | DepSagaConfig timeout \<Rightarrow> s\<lparr>sa_timeout := timeout\<rparr>
        | _ \<Rightarrow> s)"

definition sg_PreStart ::
    "'m runtime \<Rightarrow> cmdctx \<Rightarrow> int \<Rightarrow> string \<Rightarrow> 's sg_registry \<Rightarrow> 'm SagaBehavior dependency list \<Rightarrow> 's
       \<Rightarrow> ('m, 's) SagaActor \<Rightarrow> goerr + ('m, 's) SagaActor" where
  "sg_PreStart rt ctx now name rg deps db s =
     sum_bind (ext_Require (rt_print rt) name EventsStoreExtensionID (gg_eventsStore rg)) (\<lambda>store.
     sum_bind (ext_Require (rt_print rt) name EventsStreamExtensionID (gg_eventsStream rg)) (\<lambda>_.
     sum_bind
       (sg_resolveScope deps
          (s\<lparr>sa_eventsStore := Some store, sa_sagaID := name, sa_tenantAware := gg_tenancy rg\<rparr>)) (\<lambda>s1.
     sum_bind (wrap_err ''saga: invalid saga id for root command metadata: '' (NewOperationID name)) (\<lambda>rootOp.
     sum_bind (wrap_err ''saga: failed to build root command metadata: '' (NewMetadata now rootOp [])) (\<lambda>md.
     let s2 = sg_setConfig deps (s1\<lparr>sa_rootMetadata := md\<rparr>) in
     if sa_behavior s2 = None then Inl (ErrNew ''saga behavior is required'')
     else
       (case gg_ping rg of
          Some err \<Rightarrow> Inl (ErrWrap ''saga events store ping failed: '' err '''')
        | None \<Rightarrow> sum_bind (sg_recover rt ctx db s2) (\<lambda>s3. Inr (s3\<lparr>sa_subscribed := True\<rparr>))))))))"

definition sg_PostStop :: "('m, 's) SagaActor \<Rightarrow> ('m, 's) SagaActor" where
  "sg_PostStop s = s\<lparr>sa_subscribed := False\<rparr>"

end
