(* ===== verification/Saga_Correct.thy ===== *)
theory Saga_Correct
  imports Saga_Actor
begin

text \<open>
  How to reason about sagas: what the nested handlers keep, which fuel is enough, and that the state
  of a saga is what its journal replays to.
\<close>

section \<open>What actions keep\<close>

text \<open>
  A property of saga and world that survives sending a command, persisting the events of an
  admissible action and reaching a final status survives every action.
\<close>

lemma dispatch_status: "sg_dispatch rt env ctx cmd (s\<lparr>sa_status := x\<rparr>) w = sg_dispatch rt env ctx cmd s w"
  by (simp add: sg_dispatch_def sg_attachCommandMetadata_def cong: sum.case_cong)

lemma compensate_loop_keeps:
  assumes dispatch: "\<And>cmd s w. P (s, w) \<Longrightarrow> P (s, snd (sg_dispatch rt env ctx cmd s w))"
    and status: "\<And>s w x. P (s, w) \<Longrightarrow> x = SagaCompleted \<or> x = SagaFailed \<Longrightarrow> P (s\<lparr>sa_status := x\<rparr>, w)"
  shows "P (s, w) \<Longrightarrow> P (sg_compensate_loop rt env ctx cmds (s\<lparr>sa_status := y\<rparr>, w))"
proof (induction cmds arbitrary: w)
  case Nil
  then show ?case using status[of s w SagaCompleted] by simp
next
  case (Cons cmd cmds)
  have "P (s, snd (sg_dispatch rt env ctx cmd s w))" using dispatch Cons.prems by blast
  with Cons.IH status show ?case by (auto simp: dispatch_status split: prod.splits sum.splits)
qed

lemma compensate_keeps:
  assumes "\<And>cmd s w. P (s, w) \<Longrightarrow> P (s, snd (sg_dispatch rt env ctx cmd s w))"
    and "\<And>s w x. P (s, w) \<Longrightarrow> x = SagaCompleted \<or> x = SagaFailed \<Longrightarrow> P (s\<lparr>sa_status := x\<rparr>, w)"
    and "P (s, w)"
  shows "P (sg_compensate rt env ctx (s\<lparr>sa_status := y\<rparr>, w))"
  using compensate_loop_keeps[where P = P, OF assms(1,2,3)] assms(2)[OF assms(3), of SagaFailed]
  by (auto simp: sg_compensate_def split: sum.splits)

lemma sendCommands_keeps:
  assumes "\<And>cmd sw sw'. P sw \<Longrightarrow> send cmd sw = Some sw' \<Longrightarrow> P sw'"
  shows "P sw \<Longrightarrow> sg_sendCommands send cmds sw = Some sw' \<Longrightarrow> P sw'"
proof (induction cmds arbitrary: sw)
  case (Cons cmd cmds)
  from Cons.prems(2) obtain sw1 where s: "send cmd sw = Some sw1" "sg_sendCommands send cmds sw1 = Some sw'"
    by (auto split: bind_splits)
  from assms[OF Cons.prems(1) s(1)] Cons.IH[of sw1] s(2) show ?case by simp
qed simp

lemma dispatchActionEffects_keeps:
  assumes dispatch: "\<And>cmd s w. P (s, w) \<Longrightarrow> P (s, snd (sg_dispatch rt env ctx cmd s w))"
    and status: "\<And>s w x. P (s, w) \<Longrightarrow> x = SagaCompleted \<or> x = SagaFailed \<Longrightarrow> P (s\<lparr>sa_status := x\<rparr>, w)"
    and send: "\<And>cmd sw sw'. P sw \<Longrightarrow> send cmd sw = Some sw' \<Longrightarrow> P sw'"
    and P: "P sw" and r: "sg_dispatchActionEffects send rt env ctx act sw = Some sw'"
  shows "P sw'"
proof -
  from r obtain s w where sw: "sg_sendCommands send (act_Commands act) sw = Some (s, w)"
    by (auto simp: sg_dispatchActionEffects_def split: bind_splits)
  have "P (s, w)" by (rule sendCommands_keeps[where P = P and send = send, OF _ P sw]) (rule send)
  with r sw status compensate_keeps[where P = P, OF dispatch status] show ?thesis
    by (auto simp: sg_dispatchActionEffects_def split: if_splits)
qed

lemma processAction_keeps:
  assumes dispatch: "\<And>cmd s w. P (s, w) \<Longrightarrow> P (s, snd (sg_dispatch rt env ctx cmd s w))"
    and status: "\<And>s w x. P (s, w) \<Longrightarrow> x = SagaCompleted \<or> x = SagaFailed \<Longrightarrow> P (s\<lparr>sa_status := x\<rparr>, w)"
    and send: "\<And>cmd sw sw'. P sw \<Longrightarrow> send cmd sw = Some sw' \<Longrightarrow> P sw'"
    and persist: "\<And>act sw. P sw \<Longrightarrow> act_ok act \<Longrightarrow> act_Events act \<noteq> [] \<Longrightarrow>
      P (snd (sg_persistAndApplyEvents rt env ctx (act_Events act) sw))"
    and P: "P sw" and ok: "\<And>act. action = Some act \<Longrightarrow> act_ok act"
    and r: "sg_processAction send rt env ctx action sw = Some sw'"
  shows "P sw'"
proof (cases action)
  case None
  with r P show ?thesis by (simp add: sg_processAction_def)
next
  case (Some act)
  have effects: "P sw1 \<Longrightarrow> sg_dispatchActionEffects send rt env ctx act sw1 = Some sw' \<Longrightarrow> P sw'" for sw1
    by (rule dispatchActionEffects_keeps[where P = P and send = send]) (use dispatch status send in auto)
  show ?thesis
  proof (cases "act_Events act = []")
    case True
    with r Some effects[OF P] show ?thesis by (simp add: sg_processAction_def)
  next
    case False
    obtain err sw1 where p: "sg_persistAndApplyEvents rt env ctx (act_Events act) sw = (err, sw1)"
      by (cases "sg_persistAndApplyEvents rt env ctx (act_Events act) sw")
    with persist[OF P ok[OF Some] False] have "P sw1" by simp
    with r Some False p effects show ?thesis by (cases err) (auto simp: sg_processAction_def)
  qed
qed

lemma sendCommand_keeps:
  assumes dispatch: "\<And>cmd s w. P (s, w) \<Longrightarrow> P (s, snd (sg_dispatch rt env ctx cmd s w))"
    and status: "\<And>s w x. P (s, w) \<Longrightarrow> x = SagaCompleted \<or> x = SagaFailed \<Longrightarrow> P (s\<lparr>sa_status := x\<rparr>, w)"
    and persist: "\<And>act sw. P sw \<Longrightarrow> act_ok act \<Longrightarrow> act_Events act \<noteq> [] \<Longrightarrow>
      P (snd (sg_persistAndApplyEvents rt env ctx (act_Events act) sw))"
    and react: "\<And>s w entity answer act. P (s, w) \<Longrightarrow> sg_reaction rt ctx entity answer s = Inr (Some act) \<Longrightarrow> act_ok act"
  shows "P sw \<Longrightarrow> sg_sendCommand rt env fuel ctx cmd sw = Some sw' \<Longrightarrow> P sw'"
proof (induction fuel arbitrary: cmd sw sw')
  case (Suc fuel)
  obtain s w where sw: "sw = (s, w)" by (cases sw)
  obtain answer w1 where d: "sg_dispatch rt env ctx cmd s w = (answer, w1)"
    by (cases "sg_dispatch rt env ctx cmd s w")
  with dispatch[of s w cmd] Suc.prems(1) sw have P1: "P (s, w1)" by simp
  show ?case
  proof (cases "sg_reaction rt ctx (sc_EntityID cmd) answer s")
    case (Inl err)
    with Suc.prems(2) sw d P1 show ?thesis by simp
  next
    case (Inr action)
    with Suc.prems(2) sw d have r: "sg_processAction (sg_sendCommand rt env fuel ctx) rt env ctx action (s, w1) = Some sw'"
      by simp
    show ?thesis
      by (rule processAction_keeps[where P = P and act_ok = act_ok, OF dispatch status Suc.IH persist P1 _ r])
        (use react[OF P1] Inr in auto)
  qed
qed simp

section \<open>Handlers\<close>

text \<open>A tenant-aware saga is bound from the start, and acts under contexts of its tenant.\<close>

definition saga_bound :: "('m, 's) SagaActor \<Rightarrow> bool" where
  "saga_bound s \<longleftrightarrow>
     (sa_tenantAware s \<longrightarrow> wf_TenantContext (sa_boundTenant s) \<and> tc_scope (sa_boundTenant s) = ScopeTenant)"

definition saga_ctx :: "('m, 's) SagaActor \<Rightarrow> cmdctx \<Rightarrow> bool" where
  "saga_ctx s ctx \<longleftrightarrow> (sa_tenantAware s \<longrightarrow> tenant_value ctx = Some (sa_boundTenant s))"

lemma eventContext_tenant:
  assumes "sa_tenantAware s" and "tenant_value parent = None" and "sg_eventContext parent event s = Inr ctx"
  shows "tenancy_UnmarshalMetadata (ev_tenant_metadata event) = Inr (the (tenant_value ctx)) \<and> tenant_value ctx \<noteq> None"
  using assms by (auto simp: sg_eventContext_def tenancy_Attach_def tenancy_From_def split: sum.splits if_splits)

lemma bindOrVerify_bound:
  assumes "saga_bound s"
  shows "sg_bindOrVerify ctx s = Inr s' \<longleftrightarrow>
    s' = s \<and> (sa_tenantAware s \<longrightarrow> tenant_value ctx = Some (sa_boundTenant s))"
proof (cases "sa_tenantAware s")
  case True
  with assms have "sa_boundTenant s \<noteq> noTenantContext" "tc_valid (sa_boundTenant s)"
    using wf_TenantContext_neq wf_TenantContext_valid by (auto simp: saga_bound_def)
  with True show ?thesis
    by (auto simp: sg_bindOrVerify_def Require_Inr_iff tenancy_Require_def tenancy_From_def split: option.splits sum.splits
        if_splits)
qed (auto simp: sg_bindOrVerify_def)

lemma handleStreamEvent_cases:
  assumes "saga_bound s"
  shows "sg_handleStreamEvent rt env fuel event (s, w) = Some (s, w)
    \<or> (\<exists>ctx m action. sa_status s = SagaRunning \<and> saga_ctx s ctx
        \<and> (sa_tenantAware s \<longrightarrow> tenancy_UnmarshalMetadata (ev_tenant_metadata event) = Inr (sa_boundTenant s))
        \<and> any_UnmarshalNew (rt_any rt) (ev_event event) = Inr m
        \<and> sbh_HandleEvent (the (sa_behavior s)) ctx m (sa_currentState s) = Inr action
        \<and> sg_handleStreamEvent rt env fuel event (s, w) =
            sg_processAction (sg_sendCommand rt env fuel ctx) rt env ctx action (s, w))"
proof (cases "sg_eventContext context_Background event s")
  case (Inl err)
  then show ?thesis by (simp add: sg_handleStreamEvent_def)
next
  case (Inr ctx)
  note ctx = Inr
  have bound: "sa_tenantAware s \<Longrightarrow> sa_boundTenant s \<noteq> noTenantContext"
    using assms wf_TenantContext_neq by (auto simp: saga_bound_def)
  consider "sa_status s \<noteq> SagaRunning" | "\<exists>err. sa_tenantAware s \<and> sg_bindOrVerify ctx s = Inl err"
    | "\<exists>err. any_UnmarshalNew (rt_any rt) (ev_event event) = Inl err"
    | m where "sa_status s = SagaRunning" "sa_tenantAware s \<longrightarrow> sg_bindOrVerify ctx s = Inr s"
      "any_UnmarshalNew (rt_any rt) (ev_event event) = Inr m"
    using bindOrVerify_bound[OF assms, of ctx] by (metis sum.exhaust)
  then show ?thesis
  proof cases
    case (4 m)
    have sc: "saga_ctx s ctx" using 4(2) bindOrVerify_bound[OF assms, of ctx s] by (auto simp: saga_ctx_def)
    have tm: "sa_tenantAware s \<longrightarrow> tenancy_UnmarshalMetadata (ev_tenant_metadata event) = Inr (sa_boundTenant s)"
      using eventContext_tenant[OF _ _ ctx] sc by (auto simp: saga_ctx_def context_Background_def)
    show ?thesis
    proof (cases "sbh_HandleEvent (the (sa_behavior s)) ctx m (sa_currentState s)")
      case (Inl err)
      with 4 ctx bound show ?thesis by (auto simp: sg_handleStreamEvent_def split: sum.splits)
    next
      case (Inr action)
      have "sg_handleStreamEvent rt env fuel event (s, w) = Some (s, w)
        \<or> sg_handleStreamEvent rt env fuel event (s, w) =
            sg_processAction (sg_sendCommand rt env fuel ctx) rt env ctx action (s, w)"
        using 4 ctx bound Inr by (cases "sa_tenantAware s") (simp_all add: sg_handleStreamEvent_def Let_def)
      with 4 sc tm Inr show ?thesis by blast
    qed
  qed (use ctx bound in \<open>auto simp: sg_handleStreamEvent_def Let_def split: sum.splits\<close>)
qed

text \<open>The same for a whole turn: what all its steps keep, the turn keeps.\<close>

lemma receive_keeps:
  assumes bound: "saga_bound s"
    and dispatch: "\<And>ctx cmd s' w. saga_ctx s ctx \<Longrightarrow> P (s', w) \<Longrightarrow> P (s', snd (sg_dispatch rt env ctx cmd s' w))"
    and status: "\<And>s' w x. P (s', w) \<Longrightarrow> x = SagaCompleted \<or> x = SagaFailed \<Longrightarrow> P (s'\<lparr>sa_status := x\<rparr>, w)"
    and persist: "\<And>ctx act sw. saga_ctx s ctx \<Longrightarrow> P sw \<Longrightarrow> act_ok act \<Longrightarrow> act_Events act \<noteq> [] \<Longrightarrow>
      P (snd (sg_persistAndApplyEvents rt env ctx (act_Events act) sw))"
    and react: "\<And>ctx s' w entity answer act. P (s', w) \<Longrightarrow> sg_reaction rt ctx entity answer s' = Inr (Some act) \<Longrightarrow> act_ok act"
    and handle: "\<And>ctx m act. sbh_HandleEvent (the (sa_behavior s)) ctx m (sa_currentState s) = Inr (Some act) \<Longrightarrow> act_ok act"
    and emit: "\<And>s' w eff. P (s', w) \<Longrightarrow> (\<forall>ctx e m t. eff \<noteq> SagaSend ctx e m t) \<Longrightarrow> (\<forall>evs. eff \<noteq> SagaWrote evs) \<Longrightarrow> P (s', sw_emit eff w)"
    and P: "P (s, w)" and r: "sg_Receive rt env fuel msg (s, w) = Some sw'"
  shows "P sw'"
proof (cases msg)
  case (SagaEvent event)
  from handleStreamEvent_cases[OF bound] r SagaEvent consider "sw' = (s, w)"
    | ctx m action where "saga_ctx s ctx" "sbh_HandleEvent (the (sa_behavior s)) ctx m (sa_currentState s) = Inr action"
      "sg_processAction (sg_sendCommand rt env fuel ctx) rt env ctx action (s, w) = Some sw'"
    by (metis option.inject sg_Receive.simps(2))
  then show ?thesis
  proof cases
    case 1
    with P show ?thesis by simp
  next
    case (2 ctx m action)
    have send: "P sw1 \<Longrightarrow> sg_sendCommand rt env fuel ctx cmd sw1 = Some sw2 \<Longrightarrow> P sw2" for cmd sw1 sw2
      by (rule sendCommand_keeps[where P = P and act_ok = act_ok]) (use dispatch status persist react 2(1) in auto)
    show ?thesis
      by (rule processAction_keeps[where P = P and act_ok = act_ok and send = "sg_sendCommand rt env fuel ctx", OF _ _ _ _ P _ 2(3)])
        (use dispatch status persist send handle 2(1,2) in auto)
  qed
next
  case SagaTimeoutMsg
  show ?thesis
  proof (cases "sg_compensationContext s")
    case (Inl err)
    with SagaTimeoutMsg r P status[OF P] show ?thesis
      by (auto simp: sg_compensationContext_def split: if_splits sum.splits)
  next
    case (Inr ctx)
    then have sc: "saga_ctx s ctx"
      by (auto simp: sg_compensationContext_def saga_ctx_def tenancy_Attach_def tenancy_From_def context_Background_def
          split: if_splits sum.splits)
    have c: "sg_compensationContext (s\<lparr>sa_status := y\<rparr>) = Inr ctx" for y
      using Inr by (simp add: sg_compensationContext_def split: if_splits)
    have "P (sg_compensate rt env ctx (s\<lparr>sa_status := y\<rparr>, w))" for y
      by (rule compensate_keeps[where P = P, OF _ _ P]) (use dispatch[OF sc] status in auto)
    with SagaTimeoutMsg r P c show ?thesis by (auto simp: Let_def split: if_splits)
  qed
qed (use r P emit in \<open>auto split: if_splits\<close>)

section \<open>The journal of a saga\<close>

text \<open>
  What is asked of the application: events are applied purely, and the events a behavior emits (the
  messages \<open>Ev\<close>) survive packing and are no tenant-binding markers.
\<close>

definition saga_app_ok :: "'m runtime \<Rightarrow> ('m \<Rightarrow> bool) \<Rightarrow> 'm SagaBehavior \<Rightarrow> bool" where
  "saga_app_ok rt Ev bh \<longleftrightarrow>
     (\<forall>ctx ctx' e st. sbh_ApplyEvent bh ctx e st = sbh_ApplyEvent bh ctx' e st)
     \<and> (\<forall>ctx e st act. sbh_HandleEvent bh ctx e st = Inr (Some act) \<longrightarrow> list_all Ev (act_Events act))
     \<and> (\<forall>ctx i r st act. sbh_HandleResult bh ctx i r st = Inr (Some act) \<longrightarrow> list_all Ev (act_Events act))
     \<and> (\<forall>ctx i err st act. sbh_HandleError bh ctx i err st = Inr (Some act) \<longrightarrow> list_all Ev (act_Events act))
     \<and> (\<forall>e. Ev e \<longrightarrow> any_New (rt_any rt) e \<noteq> None \<and> any_UnmarshalNew (rt_any rt) (any_New (rt_any rt) e) = Inr e
          \<and> rt_name rt e \<noteq> emptypb_name)"

text \<open>The state a journal stands for.\<close>

fun history_state :: "'m runtime \<Rightarrow> 'm SagaBehavior \<Rightarrow> Event list \<Rightarrow> 'm \<Rightarrow> 'm option" where
  "history_state rt bh [] st = Some st"
| "history_state rt bh (e # es) st =
     (case any_UnmarshalNew (rt_any rt) (ev_event e) of
        Inl _ \<Rightarrow> None
      | Inr m \<Rightarrow>
          if rt_name rt m = emptypb_name then history_state rt bh es st
          else case sbh_ApplyEvent bh context_Background m st of
                 Inl _ \<Rightarrow> None
               | Inr st' \<Rightarrow> history_state rt bh es st')"

lemma history_state_append:
  "history_state rt bh (xs @ ys) st = Option.bind (history_state rt bh xs st) (history_state rt bh ys)"
  by (induction xs arbitrary: st) (auto split: sum.splits)

definition tenant_events :: "('m, 's) SagaActor \<Rightarrow> Event list \<Rightarrow> bool" where
  "tenant_events s evs \<longleftrightarrow>
     (sa_tenantAware s \<longrightarrow> (\<forall>e \<in> set evs. tenancy_UnmarshalMetadata (ev_tenant_metadata e) = Inr (sa_boundTenant s)))"

text \<open>Replaying a history of the saga's own tenant gives its state.\<close>

lemma replay_history:
  assumes "saga_bound s" and "saga_app_ok rt Ev (the (sa_behavior s))" and "tenant_value ctx = None"
    and "tenant_events s hist" and "history_state rt (the (sa_behavior s)) hist (sa_currentState s) = Some st"
  shows "sg_replay rt ctx hist s = Inr (s\<lparr>sa_currentState := st\<rparr>)"
  using assms(1,2,4,5)
proof (induction hist arbitrary: s)
  case (Cons e hist)
  have app: "sbh_ApplyEvent (the (sa_behavior s)) c m x = sbh_ApplyEvent (the (sa_behavior s)) context_Background m x" for c m x
    using Cons.prems(2) unfolding saga_app_ok_def by blast
  obtain ctx' where c: "sg_eventContext ctx e s = Inr ctx'" "sa_tenantAware s \<longrightarrow> tenant_value ctx' = Some (sa_boundTenant s)"
  proof (cases "sa_tenantAware s")
    case True
    with Cons.prems(1,3) have "tc_valid (sa_boundTenant s)"
      "tenancy_UnmarshalMetadata (ev_tenant_metadata e) = Inr (sa_boundTenant s)"
      by (simp_all add: saga_bound_def tenant_events_def wf_TenantContext_valid)
    with True assms(3) that[of "ctx\<lparr>tenant_value := Some (sa_boundTenant s)\<rparr>"] show ?thesis
      by (simp add: sg_eventContext_def tenancy_Attach_def tenancy_From_def)
  qed (use that in \<open>simp add: sg_eventContext_def\<close>)
  then have b: "sg_bindOrVerify ctx' s = Inr s" using bindOrVerify_bound[OF Cons.prems(1)] by blast
  from Cons.prems(4) obtain m where m: "any_UnmarshalNew (rt_any rt) (ev_event e) = Inr m"
    by (auto split: sum.splits)
  have te: "tenant_events s hist" using Cons.prems(3) by (simp add: tenant_events_def)
  show ?case
  proof (cases "rt_name rt m = emptypb_name")
    case True
    with Cons.IH[OF Cons.prems(1,2) te] Cons.prems(4) m c b show ?thesis by simp
  next
    case False
    with Cons.prems(4) m obtain st1 where st1: "sbh_ApplyEvent (the (sa_behavior s)) context_Background m (sa_currentState s) = Inr st1"
      "history_state rt (the (sa_behavior s)) hist st1 = Some st"
      by (auto split: sum.splits)
    have "sg_replay rt ctx hist (s\<lparr>sa_currentState := st1\<rparr>) = Inr (s\<lparr>sa_currentState := st1, sa_currentState := st\<rparr>)"
      using Cons.IH[of "s\<lparr>sa_currentState := st1\<rparr>"] Cons.prems(1,2) te st1(2)
      by (simp add: saga_bound_def tenant_events_def)
    with False m c b st1 app[of ctx' m "sa_currentState s"] show ?thesis by simp
  qed
qed simp

text \<open>The envelopes built for a list of events continue the journal and replay to the new state.\<close>

lemma build_events_result:
  assumes "saga_app_ok rt Ev (the (sa_behavior s))" and "list_all Ev evs"
    and "sg_build_events rt env ctx tc s evs c st w = (res, w')"
  shows "sw_db w' = sw_db w \<and> sw_out w' = sw_out w \<and> (\<forall>envs c' st'. res = Inr (envs, c', st') \<longrightarrow>
    length envs = length evs \<and> c' = c + of_nat (length evs) \<and> history_state rt (the (sa_behavior s)) envs st = Some st'
    \<and> (\<forall>j < length envs. ev_sequence_number (envs ! j) = c + of_nat (Suc j) \<and> ev_persistence_id (envs ! j) = sa_sagaID s
         \<and> ev_event (envs ! j) \<noteq> None \<and> ev_tenant_metadata (envs ! j) = (if sa_tenantAware s then tenancy_MarshalMetadata tc else Map.empty)))"
  using assms(2,3)
proof (induction evs arbitrary: c st w res w')
  case (Cons e evs)
  let ?bh = "the (sa_behavior s)"
  have app: "sbh_ApplyEvent ?bh ctx e st = sbh_ApplyEvent ?bh context_Background e st"
    using assms(1) unfolding saga_app_ok_def by blast
  have ev: "any_UnmarshalNew (rt_any rt) (any_New (rt_any rt) e) = Inr e" "rt_name rt e \<noteq> emptypb_name"
    "any_New (rt_any rt) e \<noteq> None"
    using assms(1) Cons.prems(1) by (auto simp: saga_app_ok_def)
  show ?case
  proof (cases "sbh_ApplyEvent ?bh ctx e st")
    case (Inl err)
    with Cons.prems(2) show ?thesis by (auto simp: sw_ask_def)
  next
    case (Inr st1)
    obtain res1 w1 where r: "sg_build_events rt env ctx tc s evs (c + 1) st1 (sw_ask w) = (res1, w1)"
      by (cases "sg_build_events rt env ctx tc s evs (c + 1) st1 (sw_ask w)")
    note IH = Cons.IH[OF _ r]
    show ?thesis
    proof (cases res1)
      case (Inl err)
      with Cons.prems r Inr IH show ?thesis by (auto simp: sw_ask_def)
    next
      case (Inr b)
      obtain envs c' st' where b: "b = (envs, c', st')" by (cases b)
      from IH Cons.prems(1) Inr b have i: "length envs = length evs" "c' = c + 1 + of_nat (length evs)"
        "history_state rt ?bh envs st1 = Some st'"
        "\<forall>j < length envs. ev_sequence_number (envs ! j) = c + 1 + of_nat (Suc j) \<and> ev_persistence_id (envs ! j) = sa_sagaID s
         \<and> ev_event (envs ! j) \<noteq> None \<and> ev_tenant_metadata (envs ! j) = (if sa_tenantAware s then tenancy_MarshalMetadata tc else Map.empty)"
        by auto
      from IH Cons.prems(1) have "sw_db w1 = sw_db w \<and> sw_out w1 = sw_out w" by (simp add: sw_ask_def)
      with Cons.prems(2) r \<open>sbh_ApplyEvent ?bh ctx e st = Inr st1\<close> Inr b i ev app show ?thesis
        by (auto simp: nth_Cons' add.assoc less_Suc_eq_0_disj)
    qed
  qed
qed auto

section \<open>The invariant\<close>

text \<open>The events a saga wrote, in order.\<close>

fun wrote :: "'m saga_effect \<Rightarrow> Event list" where
  "wrote (SagaWrote evs) = evs"
| "wrote _ = []"

definition written :: "('m, 's) saga_world \<Rightarrow> Event list" where
  "written w = concat (map wrote (sw_out w))"

definition saga_config :: "('m, 's) SagaActor \<Rightarrow> ('m, 's) SagaActor \<Rightarrow> bool" where
  "saga_config s0 s \<longleftrightarrow>
     sa_behavior s = sa_behavior s0 \<and> sa_eventsStore s = sa_eventsStore s0 \<and> sa_sagaID s = sa_sagaID s0
     \<and> sa_tenantAware s = sa_tenantAware s0 \<and> sa_boundTenant s = sa_boundTenant s0 \<and> sa_scope s = sa_scope s0"

text \<open>
  The saga is configured as \<open>s0\<close>; the store holds exactly what it wrote, and its counter and state
  are those of its journal, as long as sequence numbers do not run out.
\<close>

definition replays_to ::
    "'m runtime \<Rightarrow> ('m, 's) SagaActor \<Rightarrow> Event list \<Rightarrow> (u64 \<rightharpoonup> Event) \<Rightarrow> u64 \<Rightarrow> 'm \<Rightarrow> bool" where
  "replays_to rt s0 hist j counter st \<longleftrightarrow>
     j = journal_of hist 0 \<and> history_ok (sa_sagaID s0) hist \<and> tenant_events s0 hist \<and> counter = of_nat (length hist)
     \<and> history_state rt (the (sa_behavior s0)) hist (sbh_InitialState (the (sa_behavior s0))) = Some st"

definition saga_inv ::
    "('s \<Rightarrow> bool) \<Rightarrow> ('s \<Rightarrow> Scope \<Rightarrow> string \<Rightarrow> u64 \<rightharpoonup> Event) \<Rightarrow> 'm runtime \<Rightarrow> ('m, 's) SagaActor
       \<Rightarrow> ('m, 's) SagaActor \<times> ('m, 's) saga_world \<Rightarrow> bool" where
  "saga_inv einv journal rt s0 sw \<longleftrightarrow>
     einv (sw_db (snd sw)) \<and> saga_config s0 (fst sw)
     \<and> (length (written (snd sw)) < 2 ^ 63 \<longrightarrow>
          replays_to rt s0 (written (snd sw)) (journal (sw_db (snd sw)) (sa_scope s0) (sa_sagaID s0))
            (sa_eventsCounter (fst sw)) (sa_currentState (fst sw)))"
definition saga_configured :: "'s EventsStore \<Rightarrow> ('m, 's) SagaActor \<Rightarrow> bool" where
  "saga_configured es s0 \<longleftrightarrow>
     sa_eventsStore s0 = Some es \<and> sa_behavior s0 \<noteq> None \<and> wf_scope (sa_scope s0) \<and> saga_bound s0"

lemma written_emit: "written (sw_emit eff w) = written w @ wrote eff"
  by (simp add: written_def sw_emit_def)

lemma written_simps [simp]: "written (w\<lparr>sw_db := db\<rparr>) = written w" "written (sw_ask w) = written w"
  by (simp_all add: written_def sw_ask_def)

lemma dispatch_world:
  "\<exists>ctx'. tenant_value ctx' = tenant_value ctx \<and> sw_db (snd (sg_dispatch rt env ctx cmd s w)) = sw_db w
     \<and> sw_out (snd (sg_dispatch rt env ctx cmd s w)) =
         sw_out w @ [SagaSend ctx' (sc_EntityID cmd) (sc_Command cmd) (effectiveCommandTimeout (sc_Timeout cmd))]"
proof -
  obtain ctx' w1 where a: "sg_attachCommandMetadata rt env ctx (sc_Metadata cmd) s w = (ctx', w1)"
    by (cases "sg_attachCommandMetadata rt env ctx (sc_Metadata cmd) s w")
  then have "tenant_value ctx' = tenant_value ctx" "sw_db w1 = sw_db w" "sw_out w1 = sw_out w"
    by (auto simp: sg_attachCommandMetadata_def AttachCarrier_def sw_ask_def split: if_splits sum.splits)
  with a show ?thesis
    by (intro exI[of _ ctx']) (simp add: sg_dispatch_def sg_SendSync_def sw_ask_def sw_emit_def)
qed

lemma dispatch_written: "written (snd (sg_dispatch rt env ctx cmd s w)) = written w"
  using dispatch_world[of ctx rt env cmd s w] by (auto simp: written_def)

lemma saga_inv_dispatch:
  "saga_inv einv journal rt s0 (s, w) \<Longrightarrow> saga_inv einv journal rt s0 (s, snd (sg_dispatch rt env ctx cmd s w))"
  using dispatch_world[of ctx rt env cmd s w] by (auto simp: saga_inv_def dispatch_written)

lemma saga_inv_status: "saga_inv einv journal rt s0 (s, w) \<Longrightarrow> saga_inv einv journal rt s0 (s\<lparr>sa_status := x\<rparr>, w)"
  by (simp add: saga_inv_def saga_config_def)

lemma saga_inv_emit:
  "saga_inv einv journal rt s0 (s, w) \<Longrightarrow> wrote eff = [] \<Longrightarrow> saga_inv einv journal rt s0 (s, sw_emit eff w)"
  by (simp add: saga_inv_def written_emit) (simp add: sw_emit_def)

lemma replays_to_fresh:
  assumes "replays_to rt s0 hist j c st" and "length (hist @ envs) < 2 ^ 63"
    and "\<forall>i < length envs. ev_sequence_number (envs ! i) = c + of_nat (Suc i) \<and> ev_persistence_id (envs ! i) = sa_sagaID s0"
  shows "fresh_events j envs"
proof -
  have "continues (sa_sagaID s0) hist envs" using assms by (simp add: continues_def replays_to_def)
  with assms(1) show ?thesis by (simp add: replays_to_def continues_fresh)
qed

lemma replays_to_extend:
  assumes "replays_to rt s0 hist j c st" and "length (hist @ envs) < 2 ^ 63"
    and "\<forall>i < length envs. ev_sequence_number (envs ! i) = c + of_nat (Suc i) \<and> ev_persistence_id (envs ! i) = sa_sagaID s0"
    and "tenant_events s0 envs" and "history_state rt (the (sa_behavior s0)) envs st = Some st'"
  shows "replays_to rt s0 (hist @ envs) (ev_override j envs) (c + of_nat (length envs)) st'"
proof -
  have cont: "continues (sa_sagaID s0) hist envs"
    using assms(1-3) by (simp add: continues_def replays_to_def)
  then show ?thesis
    using assms continues_history[OF _ cont, of] ev_override_continues[OF cont, of 0]
    by (auto simp: replays_to_def history_state_append tenant_events_def)
qed

text \<open>What \<open>persistAndApplyEvents\<close> comes to, under a context of the saga's tenant.\<close>

lemma persist_cases:
  assumes "saga_config s0 s" and "saga_configured es s0" and "saga_app_ok rt Ev (the (sa_behavior s0))"
    and "saga_ctx s0 ctx" and "list_all Ev evs"
  obtains (fails) err w1 where "sg_persistAndApplyEvents rt env ctx evs (s, w) = (Some err, s, w1)"
      "sw_db w1 = sw_db w" "sw_out w1 = sw_out w"
  | (writes) envs st err db' w1 where
      "WriteEvents es (sa_scope s0) envs Unconditional (sw_db w) = (err, db')"
      "length envs = length evs" "tenant_events s0 envs" "list_all plain_event envs"
      "\<forall>i < length envs. ev_sequence_number (envs ! i) = sa_eventsCounter s + of_nat (Suc i) \<and> ev_persistence_id (envs ! i) = sa_sagaID s0"
      "history_state rt (the (sa_behavior s0)) envs (sa_currentState s) = Some st" "sw_out w1 = sw_out w"
      "sg_persistAndApplyEvents rt env ctx evs (s, w) = (case err of
         Some e \<Rightarrow> (Some e, s, w1\<lparr>sw_db := db'\<rparr>)
       | None \<Rightarrow> (None, s\<lparr>sa_eventsCounter := sa_eventsCounter s + of_nat (length envs), sa_currentState := st\<rparr>,
                  sw_emit (SagaWrote envs) (w1\<lparr>sw_db := db'\<rparr>)))"
proof -
  note cs = assms(1)[unfolded saga_config_def]
  have bound: "saga_bound s0" and es: "sa_eventsStore s = Some es"
    using assms(2) cs by (simp_all add: saga_configured_def)
  define tc where "tc = (if sa_tenantAware s then sa_boundTenant s0 else noTenantContext)"
  have gate: "(if sa_tenantAware s then wrap_err ''failed to persist saga events: ''
      (case tenancy_Require ctx of Inl err \<Rightarrow> Inl (ErrTenancy err) | Inr tc \<Rightarrow> Inr tc) else Inr noTenantContext) = Inr tc"
    using assms(4) bound cs
    by (simp add: tc_def saga_ctx_def saga_bound_def tenancy_Require_def tenancy_From_def wf_TenantContext_valid)
  obtain res w1 where b: "sg_build_events rt env ctx tc s evs (sa_eventsCounter s) (sa_currentState s) w = (res, w1)"
    by (cases "sg_build_events rt env ctx tc s evs (sa_eventsCounter s) (sa_currentState s) w")
  have "saga_app_ok rt Ev (the (sa_behavior s))" using assms(3) cs by simp
  note r = build_events_result[OF this assms(5) b]
  show thesis
  proof (cases res)
    case (Inl err)
    with b gate r show thesis by (intro fails[of err w1]) (simp_all add: sg_persistAndApplyEvents_def)
  next
    case (Inr x)
    obtain envs c' st where x: "x = (envs, c', st)" by (cases x)
    obtain err db' where wr: "WriteEvents es (sa_scope s0) envs Unconditional (sw_db w) = (err, db')"
      by (cases "WriteEvents es (sa_scope s0) envs Unconditional (sw_db w)")
    from r Inr x cs have n: "length envs = length evs" "c' = sa_eventsCounter s + of_nat (length envs)"
      and st: "history_state rt (the (sa_behavior s0)) envs (sa_currentState s) = Some st"
      and envs: "\<forall>j < length envs. ev_sequence_number (envs ! j) = sa_eventsCounter s + of_nat (Suc j)
            \<and> ev_persistence_id (envs ! j) = sa_sagaID s0 \<and> ev_event (envs ! j) \<noteq> None
            \<and> ev_tenant_metadata (envs ! j) = (if sa_tenantAware s then tenancy_MarshalMetadata tc else Map.empty)"
      by auto
    have te: "tenant_events s0 envs"
      using envs bound cs by (auto simp: tenant_events_def in_set_conv_nth tc_def saga_bound_def Unmarshal_Marshal)
    have "sg_persistAndApplyEvents rt env ctx evs (s, w) = (case err of
         Some e \<Rightarrow> (Some e, s, w1\<lparr>sw_db := db'\<rparr>)
       | None \<Rightarrow> (None, s\<lparr>sa_eventsCounter := c', sa_currentState := st\<rparr>, sw_emit (SagaWrote envs) (w1\<lparr>sw_db := db'\<rparr>)))"
      unfolding sg_persistAndApplyEvents_def Let_def prod.case gate sum.case b Inr x
      using wr es r cs(1) by (cases err) (simp_all add: conjunct2[OF cs])
    note out = this[unfolded n(2)]
    have "text_metadata (if sa_tenantAware s then tenancy_MarshalMetadata tc else Map.empty)"
      using bound cs by (auto simp: tc_def saga_bound_def intro: tenant_metadata_text)
    then have "list_all plain_event envs" using envs by (simp add: list_all_length plain_event_def)
    then show thesis by (rule writes[OF wr n(1) te _ _ st _ out]) (use envs r in auto)
  qed
qed

context events_store
begin

lemma saga_inv_persist:
  assumes cfg: "saga_configured api s0" and app: "saga_app_ok rt Ev (the (sa_behavior s0))"
    and i: "saga_inv inv journal rt s0 (s, w)" and ctx: "saga_ctx s0 ctx" and ev: "list_all Ev evs" "evs \<noteq> []"
  shows "saga_inv inv journal rt s0 (snd (sg_persistAndApplyEvents rt env ctx evs (s, w)))"
proof -
  have c: "saga_config s0 s" and db: "inv (sw_db w)" using i by (simp_all add: saga_inv_def)
  have wf: "wf_scope (sa_scope s0)" using cfg by (simp add: saga_configured_def)
  from c cfg app ctx ev(1) show ?thesis
  proof (cases rule: persist_cases[where env = env and w = w])
    case (fails err w1)
    with i show ?thesis by (simp add: saga_inv_def written_def)
  next
    case (writes envs st err db' w1)
    show ?thesis
    proof (cases err)
      case (Some e)
      with writes i write_err[OF db] show ?thesis by (auto simp: saga_inv_def written_def)
    next
      case None
      have pid: "\<forall>e \<in> set envs. ev_persistence_id e = sa_sagaID s0" and ne: "envs \<noteq> []"
        using writes(2,5) ev(2) by (auto simp: in_set_conv_nth)
      note j = write_ok[OF db wf ne pid writes(4) writes(1)[unfolded None]]
      let ?w = "sw_emit (SagaWrote envs) (w1\<lparr>sw_db := db'\<rparr>)"
      have w: "written ?w = written w @ envs" "sw_db ?w = db'"
        using writes(7) by (simp_all add: written_emit) (simp_all add: written_def sw_emit_def)
      have "length (written w @ envs) < 2 ^ 63 \<longrightarrow>
        replays_to rt s0 (written w @ envs) (journal db' (sa_scope s0) (sa_sagaID s0))
          (sa_eventsCounter s + of_nat (length envs)) st"
      proof
        assume n: "length (written w @ envs) < 2 ^ 63"
        with i have r: "replays_to rt s0 (written w) (journal (sw_db w) (sa_scope s0) (sa_sagaID s0)) (sa_eventsCounter s) (sa_currentState s)"
          by (simp add: saga_inv_def)
        from replays_to_extend[OF r n writes(5,3,6)] j replays_to_fresh[OF r n writes(5)]
        show "replays_to rt s0 (written w @ envs) (journal db' (sa_scope s0) (sa_sagaID s0))
          (sa_eventsCounter s + of_nat (length envs)) st" by simp
      qed
      with j c writes(8) None w show ?thesis by (simp add: saga_inv_def saga_config_def)
    qed
  qed
qed

end

section \<open>Recovery\<close>

lemma saga_bound_config: "saga_config s0 s \<Longrightarrow> saga_bound s = saga_bound s0"
  by (simp add: saga_config_def saga_bound_def)

lemma history_last:
  assumes "history_ok pid hist" and "hist \<noteq> []"
  shows "ev_sequence_number (last hist) = of_nat (length hist)"
  using assms by (simp add: history_ok_def last_conv_nth) (metis Suc_pred diff_less length_greater_0_conv zero_less_one of_nat_Suc)

lemma replays_to_replay:
  assumes "replays_to rt s0 hist j c st" and "saga_config s0 s" and "saga_configured es s0"
    and "saga_app_ok rt Ev (the (sa_behavior s0))" and "tenant_value ctx = None"
    and "sa_currentState s = sbh_InitialState (the (sa_behavior s0))"
  shows "sg_replay rt ctx hist s = Inr (s\<lparr>sa_currentState := st\<rparr>)"
proof (rule replay_history)
  show "saga_bound s" using assms(2,3) saga_bound_config by (auto simp: saga_configured_def)
  show "saga_app_ok rt Ev (the (sa_behavior s))" using assms(2,4) by (simp add: saga_config_def)
  show "tenant_events s hist" using assms(1,2) by (simp add: replays_to_def tenant_events_def saga_config_def)
  show "history_state rt (the (sa_behavior s)) hist (sa_currentState s) = Some st"
    using assms(1,2,6) by (simp add: replays_to_def saga_config_def)
qed (rule assms(5))

context events_store
begin

text \<open>What the store answers to the two reads of a recovery.\<close>

lemma recovery_reads:
  assumes "inv db" and "wf_scope sc" and "history_ok pid hist" and "journal db sc pid = journal_of hist 0"
  shows "GetLatestEvent api sc pid db = Inr r \<Longrightarrow> r = (if hist = [] then None else Some (last hist))"
    and "ReplayEvents api sc pid 1 (of_nat (length hist)) (of_nat (length hist)) db = Inr evs \<Longrightarrow> evs = hist"
proof -
  note n = history_okD[OF assms(3)]
  show "r = (if hist = [] then None else Some (last hist))" if "GetLatestEvent api sc pid db = Inr r"
    using latest_ok[OF assms(1,2) that] journal_latest_of[OF assms(3), of 0] assms(4) by simp
  show "evs = hist" if "ReplayEvents api sc pid 1 (of_nat (length hist)) (of_nat (length hist)) db = Inr evs"
    using replay_ok[OF assms(1,2) _ that] n journal_range_of[OF assms(3), of 0 0] assms(4)
    by (simp add: unat_of_nat_u64)
qed

lemma recover_result:
  assumes "inv db" and h: "replays_to rt s0 hist (journal db (sa_scope s0) (sa_sagaID s0)) c st" and cfg: "saga_config s0 s"
    and s0: "saga_configured api s0" and app: "saga_app_ok rt Ev (the (sa_behavior s0))" and ctx: "tenant_value ctx = None"
    and c0: "sa_eventsCounter s = 0"
  shows "sg_recover rt ctx db s = Inr s' \<Longrightarrow>
      s' = s\<lparr>sa_currentState := st, sa_status := SagaRunning, sa_eventsCounter := c\<rparr>"
    and "GetLatestEvent api (sa_scope s0) (sa_sagaID s0) db = Inr r \<Longrightarrow>
      ReplayEvents api (sa_scope s0) (sa_sagaID s0) 1 c c db = Inr evs \<Longrightarrow> \<exists>s'. sg_recover rt ctx db s = Inr s'"
proof -
  let ?s1 = "s\<lparr>sa_currentState := sbh_InitialState (the (sa_behavior s)), sa_status := SagaRunning\<rparr>"
  note cs = cfg[unfolded saga_config_def]
  have es: "sa_eventsStore s = Some api" and wf: "wf_scope (sa_scope s0)" using s0 cs by (simp_all add: saga_configured_def)
  have hok: "history_ok (sa_sagaID s0) hist" "journal db (sa_scope s0) (sa_sagaID s0) = journal_of hist 0"
    and c: "c = of_nat (length hist)" using h by (simp_all add: replays_to_def)
  note reads = recovery_reads[OF assms(1) wf hok]
  have rep: "sg_replay rt ctx hist ?s1 = Inr (?s1\<lparr>sa_currentState := st\<rparr>)"
    by (rule replays_to_replay[OF h _ s0 app ctx]) (use cs in \<open>simp_all add: saga_config_def\<close>)
  have rec: "sg_recover rt ctx db s =
      sum_bind (wrap_err ''failed to get latest saga event: '' (GetLatestEvent api (sa_scope s0) (sa_sagaID s0) db)) (\<lambda>latest.
      case latest of
        None \<Rightarrow> Inr ?s1
      | Some l \<Rightarrow>
          sum_bind (wrap_err ''failed to replay saga events: ''
            (ReplayEvents api (sa_scope s0) (sa_sagaID s0) 1 (ev_sequence_number l) (ev_sequence_number l) db)) (\<lambda>events.
          sum_bind (sg_replay rt ctx events ?s1) (\<lambda>s2. Inr (s2\<lparr>sa_eventsCounter := ev_sequence_number l\<rparr>))))"
  proof -
    have e: "the (sa_eventsStore s) = api" "sa_scope s = sa_scope s0" "sa_sagaID s = sa_sagaID s0" using es cs by simp_all
    show ?thesis unfolding sg_recover_def Let_def e ..
  qed
  show "s' = s\<lparr>sa_currentState := st, sa_status := SagaRunning, sa_eventsCounter := c\<rparr>"
    if s': "sg_recover rt ctx db s = Inr s'"
  proof -
    from s' obtain r where r: "GetLatestEvent api (sa_scope s0) (sa_sagaID s0) db = Inr r"
      by (auto simp: rec return_iffs wrap_err_Inr_iff)
    show ?thesis
    proof (cases "hist = []")
      case True
      with h have "st = sbh_InitialState (the (sa_behavior s))" "c = 0" using cs by (simp_all add: replays_to_def)
      moreover have "s' = ?s1" using s' reads(1)[OF r] True by (simp add: rec r)
      ultimately show ?thesis using c0 by (cases s) simp
    next
      case False
      note l = reads(1)[OF r] history_last[OF hok(1) False]
      from s' False obtain evs where
        evs: "ReplayEvents api (sa_scope s0) (sa_sagaID s0) 1 (of_nat (length hist)) (of_nat (length hist)) db = Inr evs"
        by (auto simp: rec r l return_iffs wrap_err_Inr_iff)
      with s' reads(2)[OF evs] False have "s' = ?s1\<lparr>sa_currentState := st, sa_eventsCounter := c\<rparr>"
        by (simp add: rec r l rep c)
      then show ?thesis by (cases s) simp
    qed
  qed
  show "\<exists>s'. sg_recover rt ctx db s = Inr s'"
    if "GetLatestEvent api (sa_scope s0) (sa_sagaID s0) db = Inr r"
      "ReplayEvents api (sa_scope s0) (sa_sagaID s0) 1 c c db = Inr evs"
    using that reads(1)[OF that(1)] reads(2) c rep history_last[OF hok(1)]
    by (cases "hist = []") (simp_all add: rec)
qed

end

end
