(* ===== verification/Saga_Properties.thy ===== *)
theory Saga_Properties
  imports Saga_Correct
begin

text \<open>Runs of a saga, and its properties.\<close>

section \<open>Runs\<close>

record ('m, 's) sg_sys =
  gy_saga :: "('m, 's) SagaActor"
  gy_world :: "('m, 's) saga_world"
  gy_running :: bool

text \<open>
  A running saga takes messages (turns that return), is stopped or lost; a stopped one is started
  again from the store.
\<close>

inductive sg_step ::
    "'m runtime \<Rightarrow> string \<Rightarrow> 's sg_registry \<Rightarrow> 'm SagaBehavior dependency list \<Rightarrow> ('m, 's) sg_sys \<Rightarrow> ('m, 's) sg_sys \<Rightarrow> bool"
  for rt name rg deps where
  turn: "\<lbrakk>gy_running y; sg_Receive rt env fuel msg (gy_saga y, gy_world y) = Some (s', w')\<rbrakk> \<Longrightarrow>
    sg_step rt name rg deps y (y\<lparr>gy_saga := s', gy_world := w'\<rparr>)"
| stop: "gy_running y \<Longrightarrow> sg_step rt name rg deps y (y\<lparr>gy_saga := sg_PostStop (gy_saga y), gy_running := False\<rparr>)"
| crash: "gy_running y \<Longrightarrow> sg_step rt name rg deps y (y\<lparr>gy_running := False\<rparr>)"
| start: "\<lbrakk>\<not> gy_running y; tenant_value ctx = None;
      sg_PreStart rt ctx now name (rg\<lparr>gg_ping := ping\<rparr>) deps (sw_db (gy_world y)) (sg_New rt) = Inr s'\<rbrakk> \<Longrightarrow>
    sg_step rt name rg deps y (y\<lparr>gy_saga := s', gy_running := True\<rparr>)"

abbreviation sg_run ::
    "'m runtime \<Rightarrow> string \<Rightarrow> 's sg_registry \<Rightarrow> 'm SagaBehavior dependency list \<Rightarrow> ('m, 's) sg_sys \<Rightarrow> ('m, 's) sg_sys \<Rightarrow> bool" where
  "sg_run rt name rg deps \<equiv> (sg_step rt name rg deps)\<^sup>*\<^sup>*"

definition sg_started :: "('m, 's) SagaActor \<Rightarrow> 's \<Rightarrow> ('m, 's) sg_sys" where
  "sg_started s db = \<lparr>gy_saga = s, gy_world = \<lparr>sw_db = db, sw_out = [], sw_asked = 0\<rparr>, gy_running = True\<rparr>"

section \<open>Starting\<close>

text \<open>What \<open>PreStart\<close> assembles before it looks at the store.\<close>

definition sg_configure ::
    "'m runtime \<Rightarrow> int \<Rightarrow> string \<Rightarrow> 's sg_registry \<Rightarrow> 'm SagaBehavior dependency list \<Rightarrow> goerr + ('m, 's) SagaActor" where
  "sg_configure rt now name rg deps =
     sum_bind (ext_Require (rt_print rt) name EventsStoreExtensionID (gg_eventsStore rg)) (\<lambda>store.
     sum_bind (ext_Require (rt_print rt) name EventsStreamExtensionID (gg_eventsStream rg)) (\<lambda>_.
     sum_bind
       (sg_resolveScope deps
          ((sg_New rt)\<lparr>sa_eventsStore := Some store, sa_sagaID := name, sa_tenantAware := gg_tenancy rg\<rparr>)) (\<lambda>s1.
     sum_bind (wrap_err ''saga: invalid saga id for root command metadata: '' (NewOperationID name)) (\<lambda>rootOp.
     sum_bind (wrap_err ''saga: failed to build root command metadata: '' (NewMetadata now rootOp [])) (\<lambda>md.
     let s2 = sg_setConfig deps (s1\<lparr>sa_rootMetadata := md\<rparr>) in
     if sa_behavior s2 = None then Inl (ErrNew ''saga behavior is required'') else Inr s2)))))"

lemma sg_PreStart_configure:
  "sg_PreStart rt ctx now name rg deps db (sg_New rt) =
     sum_bind (sg_configure rt now name rg deps) (\<lambda>s.
       case gg_ping rg of
         Some err \<Rightarrow> Inl (ErrWrap ''saga events store ping failed: '' err '''')
       | None \<Rightarrow> sum_bind (sg_recover rt ctx db s) (\<lambda>s3. Inr (s3\<lparr>sa_subscribed := True\<rparr>)))"
  unfolding sg_PreStart_def sg_configure_def sum_bind_assoc
  by (intro arg_cong[where f = "sum_bind _"] ext) (simp add: Let_def)

fun saga_behavior :: "'b dependency list \<Rightarrow> 'b option \<Rightarrow> 'b option" where
  "saga_behavior [] bh = bh"
| "saga_behavior (DepBehavior b # deps) bh = saga_behavior deps (Some b)"
| "saga_behavior (_ # deps) bh = saga_behavior deps bh"

lemma setConfig_config:
  "sa_eventsStore (sg_setConfig deps s) = sa_eventsStore s \<and> sa_sagaID (sg_setConfig deps s) = sa_sagaID s
   \<and> sa_tenantAware (sg_setConfig deps s) = sa_tenantAware s \<and> sa_boundTenant (sg_setConfig deps s) = sa_boundTenant s
   \<and> sa_scope (sg_setConfig deps s) = sa_scope s \<and> sa_eventsCounter (sg_setConfig deps s) = sa_eventsCounter s
   \<and> sa_behavior (sg_setConfig deps s) = saga_behavior deps (sa_behavior s)"
proof (induction deps arbitrary: s)
  case (Cons dep deps)
  then show ?case by (cases dep) simp_all
qed simp

lemma configure_facts:
  assumes "sg_configure rt now name rg deps = Inr s"
  shows "\<exists>es scope tc. gg_eventsStore rg = ExtPresent es \<and> bind_tenant_scope (gg_tenancy rg) deps = Inr (scope, tc)
    \<and> sa_eventsStore s = Some es \<and> sa_sagaID s = name \<and> sa_tenantAware s = gg_tenancy rg \<and> sa_scope s = scope
    \<and> sa_boundTenant s = tc \<and> sa_behavior s = saga_behavior deps None \<and> saga_behavior deps None \<noteq> None
    \<and> sa_eventsCounter s = 0"
proof -
  from assms obtain es scope tc where b: "bind_tenant_scope (gg_tenancy rg) deps = Inr (scope, tc)"
    and es: "gg_eventsStore rg = ExtPresent es"
    by (auto simp: sg_configure_def return_iffs ext_Require_def sg_resolveScope_def split: ext_slot.splits)
  have tc: "\<not> gg_tenancy rg \<Longrightarrow> tc = noTenantContext" using bind_tenant_scope_wf[OF b] by simp
  from assms b es tc show ?thesis
    by (auto simp: sg_configure_def return_iffs ext_Require_def sg_resolveScope_def setConfig_config sg_New_def Let_def
        split: if_split_asm)
qed

lemma configure_saga_configured:
  assumes "sg_configure rt now name rg deps = Inr s" and "gg_eventsStore rg = ExtPresent es"
  shows "saga_configured es s"
proof -
  from configure_facts[OF assms(1)] assms(2) obtain scope tc where
    b: "bind_tenant_scope (gg_tenancy rg) deps = Inr (scope, tc)" "sa_eventsStore s = Some es" "sa_scope s = scope"
    "sa_boundTenant s = tc" "sa_tenantAware s = gg_tenancy rg" "sa_behavior s \<noteq> None" by auto
  from bind_tenant_scope_wf[OF b(1)] bind_tenant_scope_context[OF b(1)] b show ?thesis
    by (simp add: saga_configured_def saga_bound_def)
qed

lemma configure_config:
  assumes "sg_configure rt now name rg deps = Inr s" and "sg_configure rt now' name (rg\<lparr>gg_ping := ping\<rparr>) deps = Inr s'"
  shows "saga_config s s'"
  using configure_facts[OF assms(1)] configure_facts[OF assms(2)] by (auto simp: saga_config_def)

section \<open>The invariant of runs\<close>

lemma reaction_events:
  "saga_app_ok rt Ev (the (sa_behavior s)) \<Longrightarrow> sg_reaction rt ctx entity answer s = Inr (Some act) \<Longrightarrow> list_all Ev (act_Events act)"
  by (auto simp: sg_reaction_def Let_def saga_app_ok_def split: sum.splits saga_answer.splits)

lemma handle_events:
  "saga_app_ok rt Ev bh \<Longrightarrow> sbh_HandleEvent bh ctx m st = Inr (Some act) \<Longrightarrow> list_all Ev (act_Events act)"
  unfolding saga_app_ok_def by blast

lemma saga_ctx_config: "saga_config s0 s \<Longrightarrow> saga_ctx s ctx = saga_ctx s0 ctx"
  by (simp add: saga_config_def saga_ctx_def)

text \<open>Recovery of a bound saga keeps its configuration.\<close>

lemma replay_frame:
  "sg_replay rt ctx evs s = Inr s' \<Longrightarrow> saga_bound s \<Longrightarrow> saga_config s s' \<and> sa_status s' = sa_status s"
proof (induction evs arbitrary: s)
  case Nil
  then show ?case by (simp add: saga_config_def)
next
  case (Cons e evs)
  from Cons.prems(1) obtain ctx' s1 where b: "sg_bindOrVerify ctx' s = Inr s1"
    and r: "sg_replay rt ctx evs s1 = Inr s' \<or> (\<exists>st. sg_replay rt ctx evs (s1\<lparr>sa_currentState := st\<rparr>) = Inr s')"
    by (auto simp: Let_def return_iffs wrap_err_Inr_iff split: if_splits)
  from b bindOrVerify_bound[OF Cons.prems(2)] have "s1 = s" by blast
  with r Cons.IH[of s] Cons.IH[of "s\<lparr>sa_currentState := st\<rparr>" for st] Cons.prems(2) show ?case
    by (auto simp: saga_bound_def saga_config_def)
qed

lemma start_config:
  assumes "sg_configure rt now name rg deps = Inr s1" and "saga_bound s1"
    and "sg_PreStart rt ctx now name rg deps db (sg_New rt) = Inr s'"
  shows "saga_config s1 s'"
proof -
  from assms(1,3) obtain s2 where s2: "sg_recover rt ctx db s1 = Inr s2" "s' = s2\<lparr>sa_subscribed := True\<rparr>"
    by (auto simp: sg_PreStart_configure return_iffs split: option.splits)
  let ?s = "s1\<lparr>sa_currentState := sbh_InitialState (the (sa_behavior s1)), sa_status := SagaRunning\<rparr>"
  have bound: "saga_bound ?s" using assms(2) by (simp add: saga_bound_def)
  from s2(1) consider "s2 = ?s" | evs s3 n where "sg_replay rt ctx evs ?s = Inr s3" "s2 = s3\<lparr>sa_eventsCounter := n\<rparr>"
    by (auto simp: sg_recover_def Let_def return_iffs split: option.splits)
  then show ?thesis
  proof cases
    case 1
    with s2(2) show ?thesis by (simp add: saga_config_def)
  next
    case (2 evs s3 n)
    from replay_frame[OF 2(1) bound] 2(2) s2(2) show ?thesis by (simp add: saga_config_def)
  qed
qed

context events_store
begin

lemma saga_inv_turn:
  assumes cfg: "saga_configured api s0" and app: "saga_app_ok rt Ev (the (sa_behavior s0))"
    and i: "saga_inv inv journal rt s0 (s, w)" and r: "sg_Receive rt env fuel msg (s, w) = Some sw'"
  shows "saga_inv inv journal rt s0 sw'"
proof -
  have c: "saga_config s0 s" using i by (simp add: saga_inv_def)
  have bound: "saga_bound s" using cfg saga_bound_config[OF c] by (simp add: saga_configured_def)
  have cs: "saga_config s0 s'" if "saga_inv inv journal rt s0 (s', w')" for s' w' using that by (simp add: saga_inv_def)
  show ?thesis
  proof (rule receive_keeps[where P = "saga_inv inv journal rt s0" and act_ok = "\<lambda>act. list_all Ev (act_Events act)", OF bound _ _ _ _ _ _ i r])
    fix ctx act sw assume "saga_ctx s ctx" "saga_inv inv journal rt s0 sw" "list_all Ev (act_Events act)" "act_Events act \<noteq> []"
    then show "saga_inv inv journal rt s0 (snd (sg_persistAndApplyEvents rt env ctx (act_Events act) sw))"
      using saga_inv_persist[OF cfg app] saga_ctx_config[OF c] by (cases sw) simp
  next
    fix ctx s' w' entity answer act
    assume "saga_inv inv journal rt s0 (s', w')" "sg_reaction rt ctx entity answer s' = Inr (Some act)"
    then show "list_all Ev (act_Events act)"
      using cs app by (intro reaction_events[of rt Ev s']) (auto simp: saga_config_def)
  next
    fix ctx m act assume "sbh_HandleEvent (the (sa_behavior s)) ctx m (sa_currentState s) = Inr (Some act)"
    then show "list_all Ev (act_Events act)" using handle_events[of rt Ev] app c by (simp add: saga_config_def)
  next
    fix s' and w' :: "('a, 's) saga_world" and eff :: "'a saga_effect"
    assume "saga_inv inv journal rt s0 (s', w')" "\<forall>evs. eff \<noteq> SagaWrote evs"
    then show "saga_inv inv journal rt s0 (s', sw_emit eff w')" using saga_inv_emit[of inv journal rt s0 s' w' eff] by (cases eff) auto
  qed (auto intro: saga_inv_dispatch saga_inv_status)
qed

lemma saga_inv_start:
  assumes "saga_configured api s0" and "saga_app_ok rt Ev (the (sa_behavior s0))"
    and "saga_inv inv journal rt s0 (s, w)" and "sg_configure rt now name rg deps = Inr s1" and "saga_config s0 s1"
    and "tenant_value ctx = None" and "sg_PreStart rt ctx now name rg deps (sw_db w) (sg_New rt) = Inr s'"
    and "length (written w) < 2 ^ 63"
  shows "sa_currentState s' = sa_currentState s \<and> sa_eventsCounter s' = sa_eventsCounter s \<and> sa_status s' = SagaRunning
    \<and> saga_config s0 s'"
proof -
  from assms(3,8) have h: "inv (sw_db w)" "replays_to rt s0 (written w) (journal (sw_db w) (sa_scope s0) (sa_sagaID s0))
      (sa_eventsCounter s) (sa_currentState s)" by (simp_all add: saga_inv_def)
  from assms(4,7) obtain s2 where s2: "sg_recover rt ctx (sw_db w) s1 = Inr s2" "s' = s2\<lparr>sa_subscribed := True\<rparr>"
    by (auto simp: sg_PreStart_configure return_iffs split: option.splits)
  have "sa_eventsCounter s1 = 0" using configure_facts[OF assms(4)] by auto
  from recover_result(1)[OF h assms(5,1,2,6) this s2(1)] s2(2) assms(5) show ?thesis
    by (simp add: saga_config_def)
qed

lemma saga_inv_step:
  assumes "sg_step rt name rg deps y y'" and cfg: "saga_configured api s0" and app: "saga_app_ok rt Ev (the (sa_behavior s0))"
    and s0: "sg_configure rt now0 name rg deps = Inr s0" and i: "saga_inv inv journal rt s0 (gy_saga y, gy_world y)"
  shows "saga_inv inv journal rt s0 (gy_saga y', gy_world y')"
  using assms(1)
proof cases
  case (turn env fuel msg s' w')
  with saga_inv_turn[OF cfg app i turn(3)] show ?thesis by simp
next
  case stop
  with i show ?thesis by (simp add: saga_inv_def sg_PostStop_def saga_config_def)
next
  case crash
  with i show ?thesis by simp
next
  case (start ctx now ping s')
  from start(4) obtain s1 where s1: "sg_configure rt now name (rg\<lparr>gg_ping := ping\<rparr>) deps = Inr s1"
    by (auto simp: sg_PreStart_configure sum_bind_Inr_iff)
  note c = configure_config[OF s0 s1]
  have "saga_bound s1" using saga_bound_config[OF c] cfg by (simp add: saga_configured_def)
  from start_config[OF s1 this start(4)] c have c': "saga_config s0 s'" by (simp add: saga_config_def)
  show ?thesis
  proof (cases "length (written (gy_world y)) < 2 ^ 63")
    case True
    from saga_inv_start[OF cfg app i s1 c start(3,4) True] i start(1) show ?thesis by (simp add: saga_inv_def)
  next
    case False
    with i c' start(1) show ?thesis by (simp add: saga_inv_def)
  qed
qed

end

lemma saga_inv_run:
  assumes es: "events_store es einv journal revision" and "gg_eventsStore rg = ExtPresent es"
    and app: "saga_app_ok rt Ev (the (saga_behavior deps None))" and "einv db" and "\<forall>sc. journal db sc name = Map.empty"
    and "tenant_value ctx = None" and start: "sg_PreStart rt ctx now name rg deps db (sg_New rt) = Inr s"
    and run: "sg_run rt name rg deps (sg_started s db) y"
  shows "\<exists>s0. sg_configure rt now name rg deps = Inr s0 \<and> saga_configured es s0
    \<and> saga_app_ok rt Ev (the (sa_behavior s0)) \<and> sa_sagaID s0 = name
    \<and> saga_inv einv journal rt s0 (gy_saga y, gy_world y)"
proof -
  from start obtain s0 where s0: "sg_configure rt now name rg deps = Inr s0"
    by (auto simp: sg_PreStart_configure sum_bind_Inr_iff)
  note cfg = configure_saga_configured[OF s0 assms(2)]
  have c: "sa_behavior s0 = saga_behavior deps None" "sa_sagaID s0 = name" "sa_eventsCounter s0 = 0"
    using configure_facts[OF s0] by auto
  let ?bh = "the (sa_behavior s0)"
  let ?w = "\<lparr>sw_db = db, sw_out = [], sw_asked = 0\<rparr>"
  have app0: "saga_app_ok rt Ev ?bh" using app c by simp
  have empty: "journal_of [] 0 = Map.empty" by (auto simp: journal_of_def)
  have i: "saga_inv einv journal rt s0 (s0\<lparr>sa_currentState := sbh_InitialState ?bh\<rparr>, ?w)"
    using assms(4,5) c by (simp add: saga_inv_def written_def replays_to_def saga_config_def tenant_events_def empty)
  have "saga_config s0 s0" "length (written ?w) < 2 ^ 63" by (simp_all add: saga_config_def written_def)
  from events_store.saga_inv_start[OF es cfg app0 i s0 this(1) assms(6) _ this(2)] start i
  have "saga_inv einv journal rt s0 (s, ?w)" by (simp add: saga_inv_def)
  with run have "saga_inv einv journal rt s0 (gy_saga y, gy_world y)"
  proof (induction rule: rtranclp_induct)
    case base
    then show ?case by (simp add: sg_started_def)
  next
    case (step y z)
    then show ?case using events_store.saga_inv_step[OF es _ cfg app0 s0] by blast
  qed
  with s0 cfg app0 c show ?thesis by blast
qed

section \<open>Properties\<close>

text \<open>
  C14.  In every run of a saga over an events store that keeps its contract (events of the stream,
  nested commands and answers, failed writes, timeouts, reads, stops, losses and restarts) the
  store holds exactly the events the saga wrote, in order, and a start from the store recovers
  the state, the sequence number and the tenant the saga has or last had.  The status is not
  recovered: whatever it was, the saga runs again.
\<close>

theorem saga_restart_recovers_state:
  assumes "events_store es einv journal revision" and "gg_eventsStore rg = ExtPresent es"
    and "saga_app_ok rt Ev (the (saga_behavior deps None))" and "einv db" and "\<forall>sc. journal db sc name = Map.empty"
    and "tenant_value ctx = None" and "sg_PreStart rt ctx now name rg deps db (sg_New rt) = Inr s"
    and "sg_run rt name rg deps (sg_started s db) y" and "length (written (gy_world y)) < 2 ^ 63"
  shows "journal (sw_db (gy_world y)) (sa_scope (gy_saga y)) name = journal_of (written (gy_world y)) 0
    \<and> (\<forall>ctx' now' ping s'. tenant_value ctx' = None \<longrightarrow>
        sg_PreStart rt ctx' now' name (rg\<lparr>gg_ping := ping\<rparr>) deps (sw_db (gy_world y)) (sg_New rt) = Inr s' \<longrightarrow>
        sa_currentState s' = sa_currentState (gy_saga y) \<and> sa_eventsCounter s' = sa_eventsCounter (gy_saga y)
        \<and> sa_boundTenant s' = sa_boundTenant (gy_saga y) \<and> sa_status s' = SagaRunning)"
proof -
  from saga_inv_run[OF assms(1-8)] obtain s0 where s0: "sg_configure rt now name rg deps = Inr s0"
    and cfg: "saga_configured es s0" and app: "saga_app_ok rt Ev (the (sa_behavior s0))" and name: "sa_sagaID s0 = name"
    and i: "saga_inv einv journal rt s0 (gy_saga y, gy_world y)" by blast
  have c: "saga_config s0 (gy_saga y)" using i by (simp add: saga_inv_def)
  have "sa_currentState s' = sa_currentState (gy_saga y) \<and> sa_eventsCounter s' = sa_eventsCounter (gy_saga y)
        \<and> sa_boundTenant s' = sa_boundTenant (gy_saga y) \<and> sa_status s' = SagaRunning"
    if t: "tenant_value ctx' = None"
      and r: "sg_PreStart rt ctx' now' name (rg\<lparr>gg_ping := ping\<rparr>) deps (sw_db (gy_world y)) (sg_New rt) = Inr s'"
    for ctx' now' ping s'
  proof -
    from r obtain s1 where s1: "sg_configure rt now' name (rg\<lparr>gg_ping := ping\<rparr>) deps = Inr s1"
      by (auto simp: sg_PreStart_configure sum_bind_Inr_iff)
    from events_store.saga_inv_start[OF assms(1) cfg app i s1 configure_config[OF s0 s1] t r assms(9)] c
    show ?thesis by (simp add: saga_config_def)
  qed
  moreover have "journal (sw_db (gy_world y)) (sa_scope (gy_saga y)) name = journal_of (written (gy_world y)) 0"
    using i assms(9) name c by (simp add: saga_inv_def replays_to_def saga_config_def)
  ultimately show ?thesis by blast
qed

section \<open>Tenants\<close>

text \<open>What a saga of a tenant does outside carries the tenant.\<close>

fun effect_of_tenant :: "TenantContext \<Rightarrow> 'm saga_effect \<Rightarrow> bool" where
  "effect_of_tenant tc (SagaSend ctx e m t) = (tenant_value ctx = Some tc)"
| "effect_of_tenant tc (SagaWrote evs) = (\<forall>e \<in> set evs. ev_tenant_metadata e = tenancy_MarshalMetadata tc)"
| "effect_of_tenant tc _ = True"

lemma build_events_frame:
  "sg_build_events rt env ctx tc s evs c st w = (res, w') \<Longrightarrow>
     sw_out w' = sw_out w \<and> (\<forall>envs c' st'. res = Inr (envs, c', st') \<longrightarrow>
       (\<forall>e \<in> set envs. ev_tenant_metadata e = (if sa_tenantAware s then tenancy_MarshalMetadata tc else Map.empty)))"
proof (induction evs arbitrary: c st w res w')
  case (Cons e evs)
  show ?case
  proof (cases "sbh_ApplyEvent (the (sa_behavior s)) ctx e st")
    case (Inl err)
    with Cons.prems show ?thesis by (auto simp: sw_ask_def)
  next
    case (Inr st1)
    obtain res1 w1 where r: "sg_build_events rt env ctx tc s evs (c + 1) st1 (sw_ask w) = (res1, w1)"
      by (cases "sg_build_events rt env ctx tc s evs (c + 1) st1 (sw_ask w)")
    from Cons.IH[OF r] Cons.prems Inr r show ?thesis by (cases res1) (auto simp: sw_ask_def)
  qed
qed auto

lemma persist_frame:
  assumes "sg_persistAndApplyEvents rt env ctx evs (s, w) = (err, s', w')"
  shows "saga_config s s' \<and> sa_status s' = sa_status s \<and> (\<exists>new. sw_out w' = sw_out w @ new \<and>
    (sa_tenantAware s \<longrightarrow> tenant_value ctx = Some tc \<longrightarrow> list_all (effect_of_tenant tc) new))"
proof (cases "sa_tenantAware s \<and> (\<exists>e. tenancy_Require ctx = Inl e)")
  case True
  with assms show ?thesis by (auto simp: sg_persistAndApplyEvents_def saga_config_def)
next
  case False
  then obtain tc' where tc': "(if sa_tenantAware s then wrap_err ''failed to persist saga events: ''
      (case tenancy_Require ctx of Inl err \<Rightarrow> Inl (ErrTenancy err) | Inr tc \<Rightarrow> Inr tc) else Inr noTenantContext) = Inr tc'"
    "sa_tenantAware s \<longrightarrow> tenancy_Require ctx = Inr tc'"
    by (cases "tenancy_Require ctx"; cases "sa_tenantAware s") auto
  obtain res w1 where b: "sg_build_events rt env ctx tc' s evs (sa_eventsCounter s) (sa_currentState s) w = (res, w1)"
    by (cases "sg_build_events rt env ctx tc' s evs (sa_eventsCounter s) (sa_currentState s) w")
  have eq: "sa_tenantAware s \<longrightarrow> tenant_value ctx = Some tc \<longrightarrow> tc' = tc" using tc'(2) by (auto simp: Require_Inr_iff)
  from assms b tc'(1) build_events_frame[OF b] eq show ?thesis
    unfolding sg_persistAndApplyEvents_def Let_def prod.case
    by (auto simp: saga_config_def sw_emit_def split: sum.splits prod.splits option.splits)
qed

lemma turn_effects:
  assumes "saga_bound s" and "sg_Receive rt env fuel msg (s, w) = Some (s', w')"
  shows "saga_config s s' \<and> (\<exists>new. sw_out w' = sw_out w @ new \<and>
    (sa_tenantAware s \<longrightarrow> list_all (effect_of_tenant (sa_boundTenant s)) new))"
proof -
  define P where "P = (\<lambda>(s1 :: ('a, 'b) SagaActor, w1 :: ('a, 'b) saga_world). saga_config s s1
    \<and> (\<exists>new. sw_out w1 = sw_out w @ new \<and> (sa_tenantAware s \<longrightarrow> list_all (effect_of_tenant (sa_boundTenant s)) new)))"
  have "P (s', w')"
  proof (rule receive_keeps[where P = P and act_ok = "\<lambda>_. True", OF assms(1) _ _ _ _ _ _ _ assms(2)])
    fix ctx cmd s1 w1 assume "saga_ctx s ctx" "P (s1, w1)"
    then show "P (s1, snd (sg_dispatch rt env ctx cmd s1 w1))"
      using dispatch_world[of ctx rt env cmd s1 w1] by (auto simp: P_def saga_ctx_def)
  next
    fix ctx and act :: "'a SagaAction" and sw assume "saga_ctx s ctx" "P sw"
    then show "P (snd (sg_persistAndApplyEvents rt env ctx (act_Events act) sw))"
      using persist_frame[of rt env ctx "act_Events act" "fst sw" "snd sw" _ _ _ "sa_boundTenant s"]
      by (cases "sg_persistAndApplyEvents rt env ctx (act_Events act) sw")
        (fastforce simp: P_def saga_ctx_def saga_config_def)
  next
    fix s1 w1 and eff :: "'a saga_effect"
    assume "P (s1, w1)" "\<forall>ctx e m t. eff \<noteq> SagaSend ctx e m t" "\<forall>evs. eff \<noteq> SagaWrote evs"
    then show "P (s1, sw_emit eff w1)" by (cases eff) (auto simp: P_def sw_emit_def)
  qed (auto simp: P_def saga_config_def)
  then show ?thesis by (simp add: P_def)
qed

text \<open>
  C15.  A tenant-aware saga stays with the tenant it was started for: in every turn all commands it
  sends (nested and compensating ones included) carry that tenant and so do all events it writes,
  and its tenant does not change.  An event of another tenant, or without a valid tenant, changes
  nothing and causes nothing, and a read of another tenant gets an error.
\<close>

theorem saga_stays_with_its_tenant:
  assumes "saga_bound s" and "sa_tenantAware s" and "sg_Receive rt env fuel msg (s, w) = Some (s', w')"
  shows "sa_boundTenant s' = sa_boundTenant s
    \<and> (\<exists>new. sw_out w' = sw_out w @ new \<and> list_all (effect_of_tenant (sa_boundTenant s)) new)
    \<and> (\<forall>event. msg = SagaEvent event \<longrightarrow> tenancy_UnmarshalMetadata (ev_tenant_metadata event) \<noteq> Inr (sa_boundTenant s) \<longrightarrow>
         s' = s \<and> w' = w)
    \<and> (\<forall>ctx. msg = SagaGetState ctx \<longrightarrow> tenant_value ctx \<noteq> Some (sa_boundTenant s) \<longrightarrow>
         (\<exists>err. w' = sw_emit (SagaRespond (Reply_ErrorReply err)) w))"
proof (intro conjI allI impI)
  note t = turn_effects[OF assms(1,3)]
  show "sa_boundTenant s' = sa_boundTenant s" using t by (simp add: saga_config_def)
  show "\<exists>new. sw_out w' = sw_out w @ new \<and> list_all (effect_of_tenant (sa_boundTenant s)) new" using t assms(2) by blast
  fix event assume "msg = SagaEvent event" "tenancy_UnmarshalMetadata (ev_tenant_metadata event) \<noteq> Inr (sa_boundTenant s)"
  with handleStreamEvent_cases[OF assms(1), of rt env fuel event w] assms(2,3) show "s' = s" "w' = w" by auto
next
  fix ctx assume "msg = SagaGetState ctx" "tenant_value ctx \<noteq> Some (sa_boundTenant s)"
  with assms wf_TenantContext_neq show "\<exists>err. w' = sw_emit (SagaRespond (Reply_ErrorReply err)) w"
    by (auto simp: sg_getStateAndReply_def sg_checkStateReadTenant_def tenancy_Require_def tenancy_From_def saga_bound_def
        split: option.splits if_splits)
qed

section \<open>Status\<close>





section \<open>Termination\<close>

text \<open>
  An order of the participants: in answer to an entity the saga sends commands only to entities of
  smaller rank.
\<close>

definition ranked :: "'m SagaBehavior \<Rightarrow> (string \<Rightarrow> nat) \<Rightarrow> bool" where
  "ranked bh rank \<longleftrightarrow>
     (\<forall>ctx i r st act. sbh_HandleResult bh ctx i r st = Inr (Some act) \<longrightarrow> (\<forall>c \<in> set (act_Commands act). rank (sc_EntityID c) < rank i))
     \<and> (\<forall>ctx i err st act. sbh_HandleError bh ctx i err st = Inr (Some act) \<longrightarrow> (\<forall>c \<in> set (act_Commands act). rank (sc_EntityID c) < rank i))"

lemma reaction_ranked:
  "ranked (the (sa_behavior s)) rank \<Longrightarrow> sg_reaction rt ctx i answer s = Inr (Some act) \<Longrightarrow> c \<in> set (act_Commands act) \<Longrightarrow>
     rank (sc_EntityID c) < rank i"
  by (auto simp: sg_reaction_def Let_def ranked_def split: sum.splits saga_answer.splits)

text \<open>Sending returns when every single command does, and changes no behavior.\<close>

lemma sendCommands_returns:
  assumes "\<And>c s w. c \<in> set cmds \<Longrightarrow> sa_behavior s = bh \<Longrightarrow> \<exists>s' w'. send c (s, w) = Some (s', w') \<and> sa_behavior s' = bh"
    and "sa_behavior s = bh"
  shows "\<exists>s' w'. sg_sendCommands send cmds (s, w) = Some (s', w') \<and> sa_behavior s' = bh"
  using assms
proof (induction cmds arbitrary: s w)
  case (Cons c cmds)
  from Cons.prems(1)[of c s w] Cons.prems(2) obtain s1 w1 where "send c (s, w) = Some (s1, w1)" "sa_behavior s1 = bh"
    by auto
  with Cons.IH[of s1 w1] Cons.prems(1) show ?case by simp
qed simp

lemma compensate_behavior: "sa_behavior (fst (sg_compensate rt env ctx (s, w))) = sa_behavior s"
proof -
  have "sa_behavior (fst (sg_compensate_loop rt env ctx cmds (s, w))) = sa_behavior s" for cmds w
    by (induction cmds arbitrary: w) (auto split: prod.splits sum.splits)
  then show ?thesis by (simp add: sg_compensate_def split: sum.splits)
qed

lemma effects_return:
  assumes "\<And>c s w. c \<in> set (act_Commands act) \<Longrightarrow> sa_behavior s = bh \<Longrightarrow> \<exists>s' w'. send c (s, w) = Some (s', w') \<and> sa_behavior s' = bh"
    and "sa_behavior s = bh"
  shows "\<exists>s' w'. sg_dispatchActionEffects send rt env ctx act (s, w) = Some (s', w') \<and> sa_behavior s' = bh"
proof -
  from sendCommands_returns[of "act_Commands act" bh send, OF assms(1,2), of w] obtain s1 w1 where
    "sg_sendCommands send (act_Commands act) (s, w) = Some (s1, w1)" "sa_behavior s1 = bh" by auto
  moreover have "\<exists>s' w'. sg_compensate rt env ctx (s1\<lparr>sa_status := SagaCompensating\<rparr>, w1) = (s', w') \<and> sa_behavior s' = sa_behavior s1"
    using compensate_behavior[of rt env ctx "s1\<lparr>sa_status := SagaCompensating\<rparr>" w1]
    by (cases "sg_compensate rt env ctx (s1\<lparr>sa_status := SagaCompensating\<rparr>, w1)") simp
  ultimately show ?thesis by (auto simp: sg_dispatchActionEffects_def)
qed

lemma processAction_returns:
  assumes "\<And>act c s w. action = Some act \<Longrightarrow> c \<in> set (act_Commands act) \<Longrightarrow> sa_behavior s = bh \<Longrightarrow>
      \<exists>s' w'. send c (s, w) = Some (s', w') \<and> sa_behavior s' = bh"
    and "sa_behavior s = bh"
  shows "\<exists>s' w'. sg_processAction send rt env ctx action (s, w) = Some (s', w') \<and> sa_behavior s' = bh"
proof (cases action)
  case None
  with assms(2) show ?thesis by (simp add: sg_processAction_def)
next
  case (Some act)
  note eff = effects_return[of act bh send, OF assms(1)[OF Some]]
  obtain err s1 w1 where p: "sg_persistAndApplyEvents rt env ctx (act_Events act) (s, w) = (err, s1, w1)"
    by (cases "sg_persistAndApplyEvents rt env ctx (act_Events act) (s, w)")
  have "sa_behavior s1 = bh" using persist_frame[OF p] assms(2) by (simp add: saga_config_def)
  with Some p eff assms(2) show ?thesis by (cases err) (auto simp: sg_processAction_def)
qed

lemma sendCommand_returns:
  "ranked (the bh) rank \<Longrightarrow> sa_behavior s = bh \<Longrightarrow> rank (sc_EntityID cmd) < fuel \<Longrightarrow>
     \<exists>s' w'. sg_sendCommand rt env fuel ctx cmd (s, w) = Some (s', w') \<and> sa_behavior s' = bh"
proof (induction fuel arbitrary: cmd s w)
  case (Suc fuel)
  obtain answer w1 where d: "sg_dispatch rt env ctx cmd s w = (answer, w1)" by (cases "sg_dispatch rt env ctx cmd s w")
  show ?case
  proof (cases "sg_reaction rt ctx (sc_EntityID cmd) answer s")
    case (Inl err)
    with d Suc.prems(2) show ?thesis by simp
  next
    case (Inr action)
    have "\<exists>s' w'. sg_processAction (sg_sendCommand rt env fuel ctx) rt env ctx action (s, w1) = Some (s', w') \<and> sa_behavior s' = bh"
    proof (rule processAction_returns[OF _ Suc.prems(2)])
      fix act c and s1 :: "('a, 'b) SagaActor" and w2 :: "('a, 'b) saga_world"
      assume "action = Some act" "c \<in> set (act_Commands act)" "sa_behavior s1 = bh"
      with reaction_ranked[of s rank rt ctx "sc_EntityID cmd" answer act c] Inr Suc.prems
      show "\<exists>s' w'. sg_sendCommand rt env fuel ctx c (s1, w2) = Some (s', w') \<and> sa_behavior s' = bh"
        by (intro Suc.IH) auto
    qed
    with d Inr show ?thesis by simp
  qed
qed simp

text \<open>More fuel changes no result.\<close>

lemma sendCommands_more:
  "(\<And>c sw r. send c sw = Some r \<Longrightarrow> send' c sw = Some r) \<Longrightarrow> sg_sendCommands send cmds sw = Some r \<Longrightarrow>
     sg_sendCommands send' cmds sw = Some r"
proof (induction cmds arbitrary: sw)
  case (Cons c cmds)
  from Cons.prems(2) obtain sw1 where "send c sw = Some sw1" "sg_sendCommands send cmds sw1 = Some r"
    by (auto split: bind_splits)
  with Cons.IH[OF Cons.prems(1), of sw1] Cons.prems(1) show ?case by simp
qed simp

lemma effects_more:
  assumes "\<And>c sw r. send c sw = Some r \<Longrightarrow> send' c sw = Some r" and "sg_dispatchActionEffects send rt env ctx act sw = Some r"
  shows "sg_dispatchActionEffects send' rt env ctx act sw = Some r"
  using assms(2) sendCommands_more[of send send' "act_Commands act" sw, OF assms(1)]
  by (auto simp: sg_dispatchActionEffects_def split: bind_splits)

lemma processAction_more:
  assumes "\<And>c sw r. send c sw = Some r \<Longrightarrow> send' c sw = Some r" and "sg_processAction send rt env ctx action sw = Some r"
  shows "sg_processAction send' rt env ctx action sw = Some r"
  using assms(2) effects_more[of send send', OF assms(1)]
  by (cases sw; cases r) (auto simp: sg_processAction_def split: option.splits if_splits prod.splits)

lemma sendCommand_more:
  "sg_sendCommand rt env fuel ctx cmd sw = Some r \<Longrightarrow> fuel \<le> fuel' \<Longrightarrow> sg_sendCommand rt env fuel' ctx cmd sw = Some r"
proof (induction fuel arbitrary: fuel' cmd sw r)
  case (Suc fuel)
  then obtain f where f: "fuel' = Suc f" "fuel \<le> f" by (cases fuel') auto
  obtain s w where sw: "sw = (s, w)" by (cases sw)
  obtain answer w1 where d: "sg_dispatch rt env ctx cmd s w = (answer, w1)" by (cases "sg_dispatch rt env ctx cmd s w")
  note IH = Suc.IH[OF _ f(2)]
  show ?case
    using Suc.prems(1) processAction_more[OF IH, where rt = rt and env = env and ctx = ctx]
    by (cases "sg_reaction rt ctx (sc_EntityID cmd) answer s") (auto simp: f(1) sw d)
qed simp

lemma handleStreamEvent_more:
  assumes "sg_handleStreamEvent rt env fuel event sw = Some r" and "fuel \<le> fuel'"
  shows "sg_handleStreamEvent rt env fuel' event sw = Some r"
proof -
  have send: "sg_sendCommand rt env fuel ctx c x = Some y \<Longrightarrow> sg_sendCommand rt env fuel' ctx c x = Some y" for ctx c x y
    using sendCommand_more assms(2) by blast
  note eff = effects_more[of "sg_sendCommand rt env fuel ctx" "sg_sendCommand rt env fuel' ctx" for ctx, OF send]
  note act = processAction_more[of "sg_sendCommand rt env fuel ctx" "sg_sendCommand rt env fuel' ctx" for ctx, OF send]
  from assms(1) show ?thesis
    unfolding sg_handleStreamEvent_def Let_def
    by (auto split: prod.split_asm if_split_asm sum.split_asm option.split_asm intro: act eff)
qed

text \<open>
  C16.  When the participants of a saga can be ordered so that an answer of one only leads to
  commands to smaller ones, every turn returns: fuel above the ranks of the first commands is
  enough, and more fuel gives the same result.
\<close>

theorem saga_turn_returns:
  assumes "saga_bound s" and "ranked (the (sa_behavior s)) rank"
    and "\<And>ctx m st act c. sbh_HandleEvent (the (sa_behavior s)) ctx m st = Inr (Some act) \<Longrightarrow>
      c \<in> set (act_Commands act) \<Longrightarrow> rank (sc_EntityID c) < fuel"
  shows "\<exists>r. \<forall>fuel' \<ge> fuel. sg_Receive rt env fuel' msg (s, w) = Some r"
proof (cases "\<exists>event. msg = SagaEvent event")
  case True
  then obtain event where msg: "msg = SagaEvent event" by blast
  have "\<exists>r. sg_Receive rt env fuel msg (s, w) = Some r"
    using handleStreamEvent_cases[OF assms(1), of rt env fuel event w]
  proof (elim disjE exE conjE)
    fix ctx m action
    assume h: "sbh_HandleEvent (the (sa_behavior s)) ctx m (sa_currentState s) = Inr action"
      and e: "sg_handleStreamEvent rt env fuel event (s, w) =
            sg_processAction (sg_sendCommand rt env fuel ctx) rt env ctx action (s, w)"
    have "\<exists>s' w'. sg_processAction (sg_sendCommand rt env fuel ctx) rt env ctx action (s, w) = Some (s', w') \<and> sa_behavior s' = sa_behavior s"
      by (rule processAction_returns[OF _ refl], rule sendCommand_returns[OF assms(2)]) (use assms(3) h in auto)
    with e msg show ?thesis by auto
  qed (simp add: msg)
  then obtain r where "sg_Receive rt env fuel msg (s, w) = Some r" by blast
  then have "sg_Receive rt env fuel' msg (s, w) = Some r" if "fuel \<le> fuel'" for fuel'
    using that handleStreamEvent_more msg by simp
  then show ?thesis by blast
next
  case False
  then show ?thesis by (cases msg) (auto simp: Let_def split: sum.splits)
qed

text \<open>
  C34.  Without such an order a turn need not return: a saga that answers every error by sending a
  command again, without events in between, recurses for as long as the entity is unreachable; no
  fuel is enough.
\<close>

theorem saga_retry_never_returns:
  assumes "\<And>n ctx i m t. \<exists>err. se_answer env n ctx i m t = Inl err"
    and "\<And>ctx i err st. \<exists>act. sbh_HandleError (the (sa_behavior s)) ctx i err st = Inr (Some act)
      \<and> act_Events act = [] \<and> act_Commands act \<noteq> []"
  shows "sg_sendCommand rt env fuel ctx cmd (s, w) = None"
proof (induction fuel arbitrary: cmd w)
  case (Suc fuel)
  obtain answer w1 where d: "sg_dispatch rt env ctx cmd s w = (answer, w1)" by (cases "sg_dispatch rt env ctx cmd s w")
  have "\<exists>err. answer = Inl err"
    using d assms(1) by (simp add: sg_dispatch_def sg_SendSync_def split: prod.splits) (metis prod.inject)
  then obtain act where r: "sg_reaction rt ctx (sc_EntityID cmd) answer s = Inr (Some act)" "act_Events act = []" "act_Commands act \<noteq> []"
    using assms(2) by (auto simp: sg_reaction_def Let_def) metis
  then obtain c cs where "act_Commands act = c # cs" by (cases "act_Commands act") auto
  with Suc.IH[of c w1] d r show ?case by (simp add: sg_processAction_def sg_dispatchActionEffects_def)
qed simp

text \<open>
  C35.  Compensation looks only at the transport: when every compensating command is answered, be it
  by a refusal of the entity, the saga counts as completed.
\<close>

theorem refused_compensation_counts_as_completed:
  assumes "sbh_Compensate (the (sa_behavior s)) ctx (sa_currentState s) = Inr cmds"
    and "\<And>n ctx i m t. se_answer env n ctx i m t = Inr (AnswerReply (Reply_ErrorReply refusal))"
  shows "sa_status (fst (sg_compensate rt env ctx (s, w))) = SagaCompleted"
proof -
  have "sa_status (fst (sg_compensate_loop rt env ctx cmds (s, w))) = SagaCompleted"
  proof (induction cmds arbitrary: w)
    case (Cons cmd cmds)
    then show ?case using assms(2) by (simp add: sg_dispatch_def sg_SendSync_def split: prod.split)
  qed simp
  with assms(1) show ?thesis by (simp add: sg_compensate_def)
qed

section \<open>A sample saga\<close>

text \<open>
  Messages are texts.  On any event the saga notes it and asks the entity \<open>stock\<close>; an answer ends it;
  errors and compensation cancel the order.
\<close>

definition order_command :: "string \<Rightarrow> string \<Rightarrow> string SagaCommand" where
  "order_command entity cmd = \<lparr>sc_EntityID = entity, sc_Command = cmd, sc_Timeout = 0, sc_Metadata = zeroMetadata\<rparr>"

definition order_behavior :: "string SagaBehavior" where
  "order_behavior =
     \<lparr>sbh_ID = ''order-1'', sbh_InitialState = '''',
      sbh_HandleEvent = (\<lambda>ctx e st. Inr (Some \<lparr>act_Commands = [order_command ''stock'' ''reserve''], act_Events = [e],
        act_Complete = False, act_Compensate = False\<rparr>)),
      sbh_HandleResult = (\<lambda>ctx i r st. Inr (Some \<lparr>act_Commands = [], act_Events = [''ok''], act_Complete = True, act_Compensate = False\<rparr>)),
      sbh_HandleError = (\<lambda>ctx i err st. Inr (Some \<lparr>act_Commands = [order_command ''stock'' ''reserve''], act_Events = [],
        act_Complete = False, act_Compensate = False\<rparr>)),
      sbh_ApplyEvent = (\<lambda>ctx e st. Inr (st @ e)),
      sbh_Compensate = (\<lambda>ctx st. Inr [order_command ''stock'' ''release''])\<rparr>"

definition order_rt :: "string runtime" where
  "order_rt = \<lparr>rt_any = text_codec, rt_time = sample_codec, rt_print = (\<lambda>_. True), rt_nil = ''nil'',
     rt_name = (\<lambda>_. ''text''), rt_newErr = (\<lambda>_. ErrNew ''proto: invalid nil source message'')\<rparr>"

definition order_rg :: "EventStore sg_registry" where
  "order_rg = \<lparr>gg_eventsStore = ExtPresent testkit_EventsStore, gg_eventsStream = ExtPresent (), gg_tenancy = False, gg_ping = None\<rparr>"

abbreviation "order_deps \<equiv> [DepBehavior order_behavior]"

definition order_saga :: "(string, EventStore) SagaActor" where
  "order_saga = (sg_New order_rt)\<lparr>sa_eventsStore := Some testkit_EventsStore, sa_sagaID := ''order-1'', sa_scope := Unscoped,
     sa_rootMetadata := zeroMetadata\<lparr>md_operationID := ''order-1'', md_correlationID := ''order-1'', md_timestamp := 7\<rparr>,
     sa_behavior := Some order_behavior, sa_currentState := '''', sa_subscribed := True\<rparr>"

definition order_env :: "goerr + saga_answer \<Rightarrow> string saga_env" where
  "order_env answer = \<lparr>se_now = int, se_operationID = (\<lambda>_. Inr ''op-2''), se_answer = (\<lambda>_ _ _ _ _. answer)\<rparr>"

lemma order_app_ok: "saga_app_ok order_rt (\<lambda>_. True) order_behavior"
  by (auto simp: saga_app_ok_def order_behavior_def order_rt_def text_codec_def emptypb_name_def)

lemma order_start:
  "sg_PreStart order_rt context_Background 7 ''order-1'' order_rg order_deps NewEventsStore (sg_New order_rt) = Inr order_saga"
  by (simp add: sg_PreStart_def order_rg_def ext_Require_def sg_resolveScope_def bind_tenant_scope_def sg_New_def
      NewOperationID_def maxOperationIDBytes_def go_string_eval NewMetadata_def sg_recover_def testkit_EventsStore_def
      es_GetLatestEvent_def NewEventsStore_def order_saga_def order_behavior_def)

definition order_event :: Event where
  "order_event = \<lparr>ev_persistence_id = ''cart-1'', ev_sequence_number = 1, ev_is_deleted = False,
     ev_event = Some \<lparr>any_type_url = text_url, any_value = ''bought''\<rparr>, ev_timestamp = 3, ev_shard = 0,
     ev_encryption_key_id = '''', ev_is_encrypted = False, ev_tenant_metadata = Map.empty\<rparr>"

abbreviation "order_world \<equiv> \<lparr>sw_db = NewEventsStore, sw_out = [], sw_asked = 0\<rparr>"

section \<open>The properties on the sample\<close>

lemma fresh_store: "\<forall>sc. es_journal NewEventsStore sc ''order-1'' = Map.empty" "es_ok NewEventsStore"
  by (auto simp: es_journal_def es_record_def NewEventsStore_def es_ok_def)

theorem saga_restart_recovers_state_witness:
  "es_journal NewEventsStore Unscoped ''order-1'' = journal_of [] 0
   \<and> (\<exists>s'. sg_PreStart order_rt context_Background 7 ''order-1'' order_rg order_deps NewEventsStore (sg_New order_rt) = Inr s'
        \<and> sa_currentState s' = '''' \<and> sa_eventsCounter s' = 0)"
proof -
  have side: "gg_eventsStore order_rg = ExtPresent testkit_EventsStore" "tenant_value context_Background = None"
    "saga_app_ok order_rt (\<lambda>_. True) (the (saga_behavior order_deps None))" "sa_eventsCounter order_saga = 0"
    "sa_currentState order_saga = ''''" "sa_scope order_saga = Unscoped"
    "length (written (gy_world (sg_started order_saga NewEventsStore))) < 2 ^ 63"
    using order_app_ok
    by (simp_all add: order_rg_def context_Background_def order_saga_def sg_New_def sg_started_def written_def)
  have "es_journal (sw_db (gy_world (sg_started order_saga NewEventsStore))) (sa_scope order_saga) ''order-1'' = journal_of [] 0
    \<and> (\<forall>ctx' now' ping s'. tenant_value ctx' = None \<longrightarrow>
        sg_PreStart order_rt ctx' now' ''order-1'' (order_rg\<lparr>gg_ping := ping\<rparr>) order_deps NewEventsStore (sg_New order_rt) = Inr s' \<longrightarrow>
        sa_currentState s' = sa_currentState order_saga \<and> sa_eventsCounter s' = sa_eventsCounter order_saga)"
    using saga_restart_recovers_state[OF tk.events_store_axioms side(1,3) fresh_store(2,1) side(2) order_start rtranclp.rtrancl_refl side(7)]
    by (simp add: sg_started_def written_def)
  with side order_start show ?thesis by (simp add: sg_started_def)
qed

definition acme :: TenantContext where
  "acme = \<lparr>tc_scope = ScopeTenant, tc_tenant = ''acme'', tc_admin = zeroAdministrative\<rparr>"

definition tenant_saga :: "(string, EventStore) SagaActor" where
  "tenant_saga = order_saga\<lparr>sa_tenantAware := True, sa_boundTenant := acme\<rparr>"

lemma tenant_saga_bound: "saga_bound tenant_saga"
  by (simp add: saga_bound_def tenant_saga_def wf_TenantContext_def acme_def NewTenantID_acme)

theorem saga_stays_with_its_tenant_witness:
  "sg_Receive order_rt (order_env (Inr AnswerOther)) 1 (SagaEvent order_event) (tenant_saga, order_world) = Some (tenant_saga, order_world)"
proof -
  have meta: "tenancy_UnmarshalMetadata (ev_tenant_metadata order_event) \<noteq> Inr (sa_boundTenant tenant_saga)"
    by (simp add: order_event_def tenancy_UnmarshalMetadata_def md_get_def)
  obtain r where r: "sg_Receive order_rt (order_env (Inr AnswerOther)) 1 (SagaEvent order_event) (tenant_saga, order_world) = Some r"
    by (simp add: sg_handleStreamEvent_def tenant_saga_def order_saga_def sg_New_def sg_eventContext_def order_event_def
        tenancy_UnmarshalMetadata_def md_get_def)
  obtain s' w' where r': "r = (s', w')" by (cases r)
  from saga_stays_with_its_tenant[OF tenant_saga_bound _ r[unfolded r']] meta have "s' = tenant_saga \<and> w' = order_world"
    by (simp add: tenant_saga_def)
  with r r' show ?thesis by simp
qed


text \<open>The same saga, but one that gives up at an error.\<close>

definition quiet_saga :: "(string, EventStore) SagaActor" where
  "quiet_saga = order_saga\<lparr>sa_behavior := Some (order_behavior\<lparr>
     sbh_HandleResult := (\<lambda>ctx i r st. Inr None), sbh_HandleError := (\<lambda>ctx i err st. Inr None)\<rparr>)\<rparr>"

theorem saga_turn_returns_witness:
  "\<exists>r. \<forall>fuel' \<ge> 1. sg_Receive order_rt (order_env (Inr AnswerOther)) fuel' (SagaEvent order_event) (quiet_saga, order_world) = Some r"
proof (rule saga_turn_returns[where rank = "\<lambda>_. 0"])
  show "ranked (the (sa_behavior quiet_saga)) (\<lambda>_. 0)"
    by (simp add: ranked_def quiet_saga_def)
qed (auto simp: saga_bound_def quiet_saga_def order_saga_def sg_New_def)

theorem saga_retry_never_returns_witness:
  "sg_sendCommand order_rt (order_env (Inl (ErrNew ''no route''))) 100 context_Background (order_command ''stock'' ''reserve'')
     (order_saga, order_world) = None"
  by (rule saga_retry_never_returns) (auto simp: order_env_def order_saga_def order_behavior_def order_command_def)

theorem refused_compensation_counts_as_completed_witness:
  "sa_status (fst (sg_compensate order_rt (order_env (Inr (AnswerReply (Reply_ErrorReply ''no'')))) context_Background
     (order_saga, order_world))) = SagaCompleted"
  by (rule refused_compensation_counts_as_completed) (simp_all add: order_env_def order_saga_def order_behavior_def)

end
