(* ===== verification/Projection_Runner.thy ===== *)
theory Projection_Runner
  imports Actor_Base
begin

text \<open>
  The projection runner of \<open>src/internal/projectionrunner\<close> with the recovery policies of
  \<open>src/projection\<close>.  The handler and the dead-letter handler are application code: functions on a
  state of the application.  What happens outside the runner (calls of the handlers, offsets
  written, waits, the failure reported to the host) is appended to a trace.  The workers of a pass
  each take whole shards, and shards share nothing but the application, so a pass is its shards one
  after the other, in the order the loop over the map of shards visits them.  Metrics and log
  entries are left out.
\<close>

section \<open>Recovery policies\<close>

datatype RecoveryPolicy = PolicyFail | PolicyRetryAndFail | PolicySkip | PolicyRetryAndSkip | PolicyOther int

record Recovery =
  rc_retries :: u64
  rc_retryDelay :: int
  rc_policy :: RecoveryPolicy

definition rc_WithRetries :: "u64 \<Rightarrow> Recovery \<Rightarrow> Recovery" where
  "rc_WithRetries retries recovery = recovery\<lparr>rc_retries := retries\<rparr>"

definition rc_WithRetryDelay :: "int \<Rightarrow> Recovery \<Rightarrow> Recovery" where
  "rc_WithRetryDelay delay recovery = recovery\<lparr>rc_retryDelay := delay\<rparr>"

definition rc_WithRecoveryPolicy :: "RecoveryPolicy \<Rightarrow> Recovery \<Rightarrow> Recovery" where
  "rc_WithRecoveryPolicy policy recovery = recovery\<lparr>rc_policy := policy\<rparr>"

definition time_Second :: int where
  "time_Second = 1000000000"

definition NewRecovery :: "(Recovery \<Rightarrow> Recovery) list \<Rightarrow> Recovery" where
  "NewRecovery options =
     foldl (\<lambda>recovery opt. opt recovery)
       \<lparr>rc_retries = 5, rc_retryDelay = time_Second, rc_policy = PolicyFail\<rparr> options"

section \<open>Retries\<close>

text \<open>\<open>ended n\<close>: the context ends during the wait after attempt \<open>n\<close>.\<close>

definition defaultRetryTries :: int where "defaultRetryTries = 5"
definition defaultRetryDelay :: int where "defaultRetryDelay = 200000000"

function retry_from ::
    "int \<Rightarrow> (nat \<Rightarrow> bool) \<Rightarrow> ('w \<Rightarrow> goerr option \<times> 'w) \<Rightarrow> nat \<Rightarrow> 'w \<Rightarrow> goerr option \<times> 'w" where
  "retry_from maxTries ended fn attempt w =
     (case fn w of
        (None, w') \<Rightarrow> (None, w')
      | (Some err, w') \<Rightarrow>
          if maxTries \<le> int attempt then (Some err, w')
          else if ended attempt then (Some err, w')
          else retry_from maxTries ended fn (Suc attempt) w')"
  by pat_completeness auto
termination
  by (relation "measure (\<lambda>(m, _, _, n, _). nat (m - int n))") auto

declare retry_from.simps [simp del]

definition retryOn :: "(nat \<Rightarrow> bool) \<Rightarrow> int \<Rightarrow> ('w \<Rightarrow> goerr option \<times> 'w) \<Rightarrow> 'w \<Rightarrow> goerr option \<times> 'w" where
  "retryOn ended maxTries fn w =
     retry_from (if maxTries \<le> 0 then defaultRetryTries else maxTries) ended fn 1 w"

section \<open>The runner\<close>

text \<open>The methods of the stores the runner calls.\<close>

record 's ShardSource =
  GetShardEvents :: "u64 \<Rightarrow> int \<Rightarrow> u64 \<Rightarrow> 's \<Rightarrow> goerr + Event list \<times> int"
  ShardOffsets :: "'s \<Rightarrow> goerr + (u64 \<rightharpoonup> int)"

record 'o OffsetsApi =
  WriteOffset :: "OffsetPb \<Rightarrow> 'o \<Rightarrow> goerr option \<times> 'o"
  GetCurrentOffset :: "ProjectionId \<Rightarrow> 'o \<Rightarrow> goerr + OffsetPb option"
  ResetOffset :: "string \<Rightarrow> int \<Rightarrow> 'o \<Rightarrow> goerr option \<times> 'o"

text \<open>A handler returns or panics; a panic is its value and the stack, as texts.\<close>

datatype handle_outcome = HandleReturned "goerr option" | HandlePanicked string string

type_synonym 'h Handler = "cmdctx \<Rightarrow> string \<Rightarrow> any_pb option \<Rightarrow> u64 \<Rightarrow> 'h \<Rightarrow> handle_outcome \<times> 'h"
type_synonym 'h DeadLetterHandler =
  "cmdctx \<Rightarrow> string \<Rightarrow> string \<Rightarrow> any_pb option \<Rightarrow> u64 \<Rightarrow> goerr \<Rightarrow> 'h \<Rightarrow> goerr option \<times> 'h"

definition DiscardHandler :: "'h Handler" where
  "DiscardHandler ctx persistenceID event revision h = (HandleReturned None, h)"

definition DiscardDeadLetterHandler :: "'h DeadLetterHandler" where
  "DiscardDeadLetterHandler ctx projectionName persistenceID event revision cause h = (None, h)"

datatype proj_effect =
    Handled string "any_pb option" u64 "goerr option"
  | DeadLettered string "any_pb option" u64 goerr
  | OffsetWritten u64 int
  | BackedOff int
  | ReportedFailure goerr

record ('s, 'o, 'h) proj_world =
  pw_events :: 's
  pw_offsets :: 'o
  pw_app :: 'h
  pw_trace :: "proj_effect list"

record ('s, 'o, 'h) ProjRunner =
  pr_name :: string
  pr_handler :: "'h Handler"
  pr_eventsStore :: "'s ShardSource option"
  pr_offsetsStore :: "'o OffsetsApi option"
  pr_recovery :: Recovery
  pr_stopSignal :: bool
  pr_running :: bool
  pr_pullInterval :: int
  pr_maxBufferSize :: int
  pr_startingOffset :: int
  pr_resetOffsetTo :: int
  pr_deadLetterHandler :: "'h DeadLetterHandler option"
  pr_eventAdapters :: "EventAdapter list"
  pr_encryptor :: "Encryptor option"
  pr_committedOffsets :: "u64 \<rightharpoonup> int"
  pr_storeFailures :: int
  pr_eventsStream :: "string option"
  pr_subscribed :: bool
  pr_nudge :: bool
  pr_sawFullBatch :: bool
  pr_onFailure :: bool

text \<open>\<open>pr_eventsStream\<close> is the topic when a stream is configured; \<open>pr_onFailure\<close> whether the host wants the cause.\<close>

definition pr_WithPullInterval :: "int \<Rightarrow> ('s, 'o, 'h) ProjRunner \<Rightarrow> ('s, 'o, 'h) ProjRunner" where
  "pr_WithPullInterval interval runner = runner\<lparr>pr_pullInterval := interval\<rparr>"

definition pr_WithMaxBufferSize :: "int \<Rightarrow> ('s, 'o, 'h) ProjRunner \<Rightarrow> ('s, 'o, 'h) ProjRunner" where
  "pr_WithMaxBufferSize bufferSize runner = runner\<lparr>pr_maxBufferSize := bufferSize\<rparr>"

definition pr_WithStartOffset :: "int \<Rightarrow> ('s, 'o, 'h) ProjRunner \<Rightarrow> ('s, 'o, 'h) ProjRunner" where
  "pr_WithStartOffset startOffset runner = runner\<lparr>pr_startingOffset := startOffset\<rparr>"

definition pr_WithResetOffset :: "int \<Rightarrow> ('s, 'o, 'h) ProjRunner \<Rightarrow> ('s, 'o, 'h) ProjRunner" where
  "pr_WithResetOffset resetOffset runner = runner\<lparr>pr_resetOffsetTo := resetOffset\<rparr>"

definition pr_WithRecoveryStrategy :: "Recovery \<Rightarrow> ('s, 'o, 'h) ProjRunner \<Rightarrow> ('s, 'o, 'h) ProjRunner" where
  "pr_WithRecoveryStrategy strategy runner = runner\<lparr>pr_recovery := strategy\<rparr>"

definition pr_WithDeadLetterHandler ::
    "'h DeadLetterHandler option \<Rightarrow> ('s, 'o, 'h) ProjRunner \<Rightarrow> ('s, 'o, 'h) ProjRunner" where
  "pr_WithDeadLetterHandler handler runner = runner\<lparr>pr_deadLetterHandler := handler\<rparr>"

definition pr_WithEventAdapters :: "EventAdapter list \<Rightarrow> ('s, 'o, 'h) ProjRunner \<Rightarrow> ('s, 'o, 'h) ProjRunner" where
  "pr_WithEventAdapters adapters runner = runner\<lparr>pr_eventAdapters := adapters\<rparr>"

definition pr_WithEncryptor :: "Encryptor option \<Rightarrow> ('s, 'o, 'h) ProjRunner \<Rightarrow> ('s, 'o, 'h) ProjRunner" where
  "pr_WithEncryptor enc runner = runner\<lparr>pr_encryptor := enc\<rparr>"

definition pr_WithEventsStream :: "string \<Rightarrow> ('s, 'o, 'h) ProjRunner \<Rightarrow> ('s, 'o, 'h) ProjRunner" where
  "pr_WithEventsStream topic runner = runner\<lparr>pr_eventsStream := Some topic\<rparr>"

definition pr_New ::
    "string \<Rightarrow> 'h Handler \<Rightarrow> 's ShardSource option \<Rightarrow> 'o OffsetsApi option
       \<Rightarrow> (('s, 'o, 'h) ProjRunner \<Rightarrow> ('s, 'o, 'h) ProjRunner) list \<Rightarrow> ('s, 'o, 'h) ProjRunner" where
  "pr_New name handler eventsStore offsetStore opts =
     foldl (\<lambda>runner opt. opt runner)
       \<lparr>pr_name = name, pr_handler = handler, pr_eventsStore = eventsStore, pr_offsetsStore = offsetStore,
        pr_recovery = NewRecovery [], pr_stopSignal = False, pr_running = False, pr_pullInterval = time_Second,
        pr_maxBufferSize = 500, pr_startingOffset = zeroTime, pr_resetOffsetTo = zeroTime,
        pr_deadLetterHandler = None, pr_eventAdapters = [], pr_encryptor = None,
        pr_committedOffsets = Map.empty, pr_storeFailures = 0, pr_eventsStream = None, pr_subscribed = False,
        pr_nudge = False, pr_sawFullBatch = False, pr_onFailure = False\<rparr> opts"

definition time_UnixMilli :: "int \<Rightarrow> int" where
  "time_UnixMilli t = t div 1000000"

definition pw_emit :: "proj_effect \<Rightarrow> ('s, 'o, 'h) proj_world \<Rightarrow> ('s, 'o, 'h) proj_world" where
  "pw_emit eff w = w\<lparr>pw_trace := pw_trace w @ [eff]\<rparr>"

section \<open>One event\<close>

definition handleSafely ::
    "cmdctx \<Rightarrow> string \<Rightarrow> any_pb option \<Rightarrow> u64 \<Rightarrow> ('s, 'o, 'h) ProjRunner \<Rightarrow> ('s, 'o, 'h) proj_world
       \<Rightarrow> goerr option \<times> ('s, 'o, 'h) proj_world" where
  "handleSafely ctx persistenceID event seqNr x w =
     (case pr_handler x ctx persistenceID event seqNr (pw_app w) of
        (HandleReturned err, h) \<Rightarrow> (err, pw_emit (Handled persistenceID event seqNr err) (w\<lparr>pw_app := h\<rparr>))
      | (HandlePanicked recovered stack, h) \<Rightarrow>
          (let err = Some (ErrNew (''projection handler panic: '' @ recovered @ [CHR 0x0A] @ stack)) in
           (err, pw_emit (Handled persistenceID event seqNr err) (w\<lparr>pw_app := h\<rparr>))))"

text \<open>The wait between two attempts ignores the context.\<close>

definition retryHandle ::
    "cmdctx \<Rightarrow> string \<Rightarrow> any_pb option \<Rightarrow> u64 \<Rightarrow> ('s, 'o, 'h) ProjRunner \<Rightarrow> ('s, 'o, 'h) proj_world
       \<Rightarrow> goerr option \<times> ('s, 'o, 'h) proj_world" where
  "retryHandle ctx persistenceID event seqNr x w =
     retryOn (\<lambda>_. False) (go_int (rc_retries (pr_recovery x))) (handleSafely ctx persistenceID event seqNr x) w"

definition sendToDeadLetter ::
    "cmdctx \<Rightarrow> string \<Rightarrow> any_pb option \<Rightarrow> u64 \<Rightarrow> goerr \<Rightarrow> ('s, 'o, 'h) ProjRunner \<Rightarrow> ('s, 'o, 'h) proj_world
       \<Rightarrow> ('s, 'o, 'h) proj_world" where
  "sendToDeadLetter ctx persistenceID event seqNr cause x w =
     (case pr_deadLetterHandler x of
        None \<Rightarrow> w
      | Some dl \<Rightarrow>
          (let (_, h) = dl ctx (pr_name x) persistenceID event seqNr cause (pw_app w) in
           pw_emit (DeadLettered persistenceID event seqNr cause) (w\<lparr>pw_app := h\<rparr>)))"

definition handleWithPolicy ::
    "cmdctx \<Rightarrow> string \<Rightarrow> any_pb option \<Rightarrow> u64 \<Rightarrow> ('s, 'o, 'h) ProjRunner \<Rightarrow> ('s, 'o, 'h) proj_world
       \<Rightarrow> goerr option \<times> ('s, 'o, 'h) proj_world" where
  "handleWithPolicy ctx persistenceID event seqNr x w =
     (case rc_policy (pr_recovery x) of
        PolicyFail \<Rightarrow> handleSafely ctx persistenceID event seqNr x w
      | PolicyRetryAndFail \<Rightarrow> retryHandle ctx persistenceID event seqNr x w
      | PolicyRetryAndSkip \<Rightarrow>
          (case retryHandle ctx persistenceID event seqNr x w of
             (None, w') \<Rightarrow> (None, w')
           | (Some err, w') \<Rightarrow> (None, sendToDeadLetter ctx persistenceID event seqNr err x w'))
      | PolicySkip \<Rightarrow>
          (case handleSafely ctx persistenceID event seqNr x w of
             (None, w') \<Rightarrow> (None, w')
           | (Some err, w') \<Rightarrow> (None, sendToDeadLetter ctx persistenceID event seqNr err x w'))
      | PolicyOther _ \<Rightarrow> handleSafely ctx persistenceID event seqNr x w)"

definition at_revision :: "string \<Rightarrow> string \<Rightarrow> u64 \<Rightarrow> string" where
  "at_revision what persistenceID seqNr =
     what @ '' for persistence id='' @ persistenceID @ '', revision='' @ strconv_FormatUint seqNr @ '': ''"

text \<open>The payload handed to the handler: decrypted, then adapted.\<close>

definition event_payload ::
    "'m AnyCodec \<Rightarrow> cmdctx \<Rightarrow> Event \<Rightarrow> ('s, 'o, 'h) ProjRunner \<Rightarrow> goerr + any_pb option" where
  "event_payload cod ctx envelope x =
     (let event = ev_event envelope; seqNr = ev_sequence_number envelope; persistenceID = ev_persistence_id envelope in
      sum_bind
        (case pr_encryptor x of
           None \<Rightarrow> Inr event
         | Some enc \<Rightarrow>
             if \<not> ev_is_encrypted envelope then Inr event
             else
               sum_bind (wrap_err (at_revision ''failed to decrypt event'' persistenceID seqNr)
                 (enc_Decrypt enc ctx persistenceID (case event of Some p \<Rightarrow> any_value p | None \<Rightarrow> [])
                    (ev_encryption_key_id envelope))) (\<lambda>plaintext.
               sum_bind (wrap_err (at_revision ''failed to unmarshal decrypted event'' persistenceID seqNr)
                 (any_Unmarshal cod plaintext)) (\<lambda>decrypted. Inr (Some decrypted))))
        (\<lambda>event.
           if pr_eventAdapters x \<noteq> []
           then wrap_err (at_revision ''failed to adapt event'' persistenceID seqNr)
                  (adapter_Chain (pr_eventAdapters x) event seqNr)
           else Inr event))"

definition processEnvelope ::
    "'m AnyCodec \<Rightarrow> cmdctx \<Rightarrow> Event \<Rightarrow> ('s, 'o, 'h) ProjRunner \<Rightarrow> ('s, 'o, 'h) proj_world
       \<Rightarrow> goerr option \<times> ('s, 'o, 'h) proj_world" where
  "processEnvelope cod ctx envelope x w =
     (case event_payload cod ctx envelope x of
        Inl err \<Rightarrow> (Some err, w)
      | Inr event \<Rightarrow> handleWithPolicy ctx (ev_persistence_id envelope) event (ev_sequence_number envelope) x w)"

section \<open>One shard\<close>

text \<open>An error of a worker: an event that cannot be processed, or a failed round trip to a store.\<close>

datatype run_error = EventError goerr | StoreError goerr

fun processEach ::
    "'m AnyCodec \<Rightarrow> cmdctx \<Rightarrow> Event list \<Rightarrow> ('s, 'o, 'h) ProjRunner \<Rightarrow> ('s, 'o, 'h) proj_world
       \<Rightarrow> run_error option \<times> ('s, 'o, 'h) proj_world" where
  "processEach cod ctx [] x w = (None, w)"
| "processEach cod ctx (envelope # events) x w =
     (case processEnvelope cod ctx envelope x w of
        (Some err, w') \<Rightarrow> (Some (EventError err), w')
      | (None, w') \<Rightarrow> processEach cod ctx events x w')"

definition commitOffset ::
    "int \<Rightarrow> u64 \<Rightarrow> int \<Rightarrow> string \<Rightarrow> ('s, 'o, 'h) ProjRunner \<Rightarrow> ('s, 'o, 'h) proj_world
       \<Rightarrow> run_error option \<times> ('s, 'o, 'h) ProjRunner \<times> ('s, 'o, 'h) proj_world" where
  "commitOffset now shard nextOffset persistenceID x w =
     (let offset = \<lparr>of_shard_number = shard, of_projection_name = pr_name x, of_value = nextOffset,
                    of_timestamp = time_UnixMilli now\<rparr> in
      case WriteOffset (the (pr_offsetsStore x)) offset (pw_offsets w) of
        (Some err, db) \<Rightarrow>
          (Some (StoreError (ErrWrap (''failed to persist offset for persistence id='' @ persistenceID @ '': '') err '''')),
           x, w\<lparr>pw_offsets := db\<rparr>)
      | (None, db) \<Rightarrow>
          (None, x\<lparr>pr_committedOffsets := (pr_committedOffsets x)(shard \<mapsto> nextOffset)\<rparr>,
           pw_emit (OffsetWritten shard nextOffset) (w\<lparr>pw_offsets := db\<rparr>)))"

definition processEvents ::
    "'m AnyCodec \<Rightarrow> cmdctx \<Rightarrow> int \<Rightarrow> u64 \<Rightarrow> Event list \<Rightarrow> int \<Rightarrow> ('s, 'o, 'h) ProjRunner \<Rightarrow> ('s, 'o, 'h) proj_world
       \<Rightarrow> run_error option \<times> ('s, 'o, 'h) ProjRunner \<times> ('s, 'o, 'h) proj_world" where
  "processEvents cod ctx now shard events nextOffset x w =
     (case processEach cod ctx events x w of
        (Some err, w') \<Rightarrow> (Some err, x, w')
      | (None, w') \<Rightarrow> commitOffset now shard nextOffset (ev_persistence_id (last events)) x w')"

definition currentOffset ::
    "u64 \<Rightarrow> ('s, 'o, 'h) ProjRunner \<Rightarrow> ('s, 'o, 'h) proj_world \<Rightarrow> goerr + int \<times> ('s, 'o, 'h) ProjRunner" where
  "currentOffset shard x w =
     sum_bind
       (case pr_committedOffsets x shard of
          Some currOffset \<Rightarrow> Inr (currOffset, x)
        | None \<Rightarrow>
            sum_bind (GetCurrentOffset (the (pr_offsetsStore x))
                \<lparr>pj_projection_name = pr_name x, pj_shard_number = shard\<rparr> (pw_offsets w)) (\<lambda>offset.
              let currOffset = (case offset of Some v \<Rightarrow> of_value v | None \<Rightarrow> 0) in
              Inr (currOffset, x\<lparr>pr_committedOffsets := (pr_committedOffsets x)(shard \<mapsto> currOffset)\<rparr>)))
       (\<lambda>(currOffset, x).
          Inr (if pr_startingOffset x \<noteq> zeroTime then time_UnixMilli (pr_startingOffset x) else currOffset, x))"

definition doProcess ::
    "'m AnyCodec \<Rightarrow> cmdctx \<Rightarrow> int \<Rightarrow> u64 \<Rightarrow> ('s, 'o, 'h) ProjRunner \<Rightarrow> ('s, 'o, 'h) proj_world
       \<Rightarrow> run_error option \<times> ('s, 'o, 'h) ProjRunner \<times> ('s, 'o, 'h) proj_world" where
  "doProcess cod ctx now shard x w =
     (if \<not> pr_running x then (None, x, w)
      else
        (case currentOffset shard x w of
           Inl err \<Rightarrow> (Some (StoreError err), x, w)
         | Inr (currOffset, x1) \<Rightarrow>
             (case GetShardEvents (the (pr_eventsStore x1)) shard currOffset (of_int (pr_maxBufferSize x1)) (pw_events w) of
                Inl err \<Rightarrow> (Some (StoreError err), x1, w)
              | Inr (events, nextOffset) \<Rightarrow>
                  (let x2 = (if pr_maxBufferSize x1 \<le> int (length events) then x1\<lparr>pr_sawFullBatch := True\<rparr> else x1) in
                   if events = [] then (None, x2, w)
                   else processEvents cod ctx now shard events nextOffset x2 w))))"

section \<open>A pass\<close>

text \<open>
  What a pass meets: the order in which the loop over the map of shards visits them, the clock, and, if
  the context ended, the number of shards dispatched by then, those of them the workers took before
  they saw the end, and the number of errors reported before it; and whether a backoff wait was waited
  out.
\<close>

record pass_turn =
  pt_order :: "u64 list"
  pt_now :: int
  pt_cancelled :: "nat option"
  pt_taken :: "u64 list"
  pt_reported :: nat
  pt_waited :: bool

definition pendingShards ::
    "u64 list \<Rightarrow> ('s, 'o, 'h) ProjRunner \<Rightarrow> ('s, 'o, 'h) proj_world \<Rightarrow> goerr + u64 list" where
  "pendingShards order x w =
     sum_bind (ShardOffsets (the (pr_eventsStore x)) (pw_events w)) (\<lambda>shardOffsets.
       if pr_startingOffset x \<noteq> zeroTime then
         Inr (filter (\<lambda>shard. case shardOffsets shard of
                        Some latest \<Rightarrow> time_UnixMilli (pr_startingOffset x) < latest | None \<Rightarrow> False) order)
       else
         Inr (filter (\<lambda>shard. case shardOffsets shard of
                        Some latest \<Rightarrow> (case pr_committedOffsets x shard of
                                            Some committed \<Rightarrow> committed < latest | None \<Rightarrow> True)
                      | None \<Rightarrow> False) order))"

definition storeRetryInitialDelay :: "64 word" where "storeRetryInitialDelay = 1000000000"
definition storeRetryMaxDelay :: int where "storeRetryMaxDelay = 30000000000"

definition storeRetryDelay :: "int \<Rightarrow> int" where
  "storeRetryDelay failures =
     (let delay = sint (push_bit (nat (failures - 1)) storeRetryInitialDelay) in
      if delay \<le> 0 \<or> storeRetryMaxDelay < delay then storeRetryMaxDelay else delay)"

definition retryAfterStoreFailure ::
    "pass_turn \<Rightarrow> ('s, 'o, 'h) ProjRunner \<Rightarrow> ('s, 'o, 'h) proj_world
       \<Rightarrow> bool \<times> ('s, 'o, 'h) ProjRunner \<times> ('s, 'o, 'h) proj_world" where
  "retryAfterStoreFailure t x w =
     (let x1 = x\<lparr>pr_storeFailures := pr_storeFailures x + 1\<rparr> in
      (pt_waited t, x1, pw_emit (BackedOff (storeRetryDelay (pr_storeFailures x1))) w))"

definition pr_Stop :: "('s, 'o, 'h) ProjRunner \<Rightarrow> ('s, 'o, 'h) ProjRunner" where
  "pr_Stop x =
     (if \<not> pr_running x then x
      else x\<lparr>pr_running := False, pr_stopSignal := True, pr_subscribed := False\<rparr>)"

definition requestPull :: "('s, 'o, 'h) ProjRunner \<Rightarrow> ('s, 'o, 'h) ProjRunner" where
  "requestPull x = x\<lparr>pr_nudge := True\<rparr>"

text \<open>The workers on the shards of a pass, and the errors they report.\<close>

fun runShards ::
    "'m AnyCodec \<Rightarrow> cmdctx \<Rightarrow> int \<Rightarrow> u64 list \<Rightarrow> ('s, 'o, 'h) ProjRunner \<Rightarrow> ('s, 'o, 'h) proj_world
       \<Rightarrow> run_error list \<times> ('s, 'o, 'h) ProjRunner \<times> ('s, 'o, 'h) proj_world" where
  "runShards cod ctx now [] x w = ([], x, w)"
| "runShards cod ctx now (shard # shards) x w =
     (case doProcess cod ctx now shard x w of
        (err, x1, w1) \<Rightarrow>
          (case runShards cod ctx now shards x1 w1 of
             (errs, x2, w2) \<Rightarrow> ((case err of Some e \<Rightarrow> [e] | None \<Rightarrow> []) @ errs, x2, w2)))"

definition numWorkers :: nat where "numWorkers = 5"

fun first_event_error :: "run_error list \<Rightarrow> goerr option" where
  "first_event_error [] = None"
| "first_event_error (EventError err # errs) = Some err"
| "first_event_error (StoreError err # errs) = first_event_error errs"

text \<open>The end of a pass, from the errors the workers reported.\<close>

definition finishPass ::
    "pass_turn \<Rightarrow> run_error list \<Rightarrow> ('s, 'o, 'h) ProjRunner \<Rightarrow> ('s, 'o, 'h) proj_world
       \<Rightarrow> bool \<times> ('s, 'o, 'h) ProjRunner \<times> ('s, 'o, 'h) proj_world" where
  "finishPass t errs x w =
     (case first_event_error errs of
        Some err \<Rightarrow> (False, pr_Stop x, if pr_onFailure x then pw_emit (ReportedFailure err) w else w)
      | None \<Rightarrow>
          if errs \<noteq> [] then retryAfterStoreFailure t x w
          else
            (let x1 = x\<lparr>pr_storeFailures := 0, pr_sawFullBatch := False\<rparr> in
             (True, if pr_sawFullBatch x then requestPull x1 else x1, w)))"

text \<open>
  The context ended before every shard was dispatched, or before a worker took one that was: a worker
  that sees the end returns without \<open>Done\<close> for the items still in the channel, so \<open>wg.Wait\<close> does not
  return and the loop makes no further pass.
\<close>

definition cut_short :: "pass_turn \<Rightarrow> u64 list \<Rightarrow> bool" where
  "cut_short t shards =
     (case pt_cancelled t of
        Some dispatched \<Rightarrow> dispatched < length shards \<or> (\<exists>shard \<in> set shards. shard \<notin> set (pt_taken t))
      | None \<Rightarrow> False)"

definition taken_shards :: "pass_turn \<Rightarrow> u64 list \<Rightarrow> u64 list" where
  "taken_shards t shards = filter (\<lambda>shard. shard \<in> set (pt_taken t)) (take (the (pt_cancelled t)) shards)"

definition reported_errors :: "pass_turn \<Rightarrow> run_error list \<Rightarrow> run_error list" where
  "reported_errors t errs =
     (if pt_cancelled t = None then take numWorkers errs else take (pt_reported t) (take numWorkers errs))"

definition runPass ::
    "'m AnyCodec \<Rightarrow> cmdctx \<Rightarrow> pass_turn \<Rightarrow> ('s, 'o, 'h) ProjRunner \<Rightarrow> ('s, 'o, 'h) proj_world
       \<Rightarrow> bool \<times> ('s, 'o, 'h) ProjRunner \<times> ('s, 'o, 'h) proj_world" where
  "runPass cod ctx t x w =
     (case pendingShards (pt_order t) x w of
        Inl err \<Rightarrow> retryAfterStoreFailure t x w
      | Inr shards \<Rightarrow>
          if shards = [] then (True, x\<lparr>pr_storeFailures := 0\<rparr>, w)
          else if cut_short t shards
          then (False, snd (runShards cod ctx (pt_now t) (taken_shards t shards) x w))
          else
            (case runShards cod ctx (pt_now t) shards x w of
               (errs, x1, w1) \<Rightarrow> finishPass t (reported_errors t errs) x1 w1))"

section \<open>Starting\<close>

text \<open>The pings of a start: the answers of both stores at each attempt, and which of two failures came first.\<close>

record start_turn =
  st_pingEvents :: "nat \<Rightarrow> goerr option"
  st_pingOffsets :: "nat \<Rightarrow> goerr option"
  st_offsetsFirst :: "nat \<Rightarrow> bool"
  st_ended :: "nat \<Rightarrow> bool"

definition ping_stores :: "start_turn \<Rightarrow> nat \<Rightarrow> goerr option \<times> nat" where
  "ping_stores t n =
     (case (st_pingEvents t n, st_pingOffsets t n) of
        (None, err) \<Rightarrow> err
      | (Some err, None) \<Rightarrow> Some err
      | (Some err, Some err') \<Rightarrow> Some (if st_offsetsFirst t n then err' else err), Suc n)"

definition preStart ::
    "('s, 'o, 'h) ProjRunner \<Rightarrow> ('s, 'o, 'h) proj_world \<Rightarrow> goerr option \<times> ('s, 'o, 'h) proj_world" where
  "preStart x w =
     (if pr_resetOffsetTo x = zeroTime then (None, w)
      else
        (case ResetOffset (the (pr_offsetsStore x)) (pr_name x) (time_UnixMilli (pr_resetOffsetTo x)) (pw_offsets w) of
           (Some err, db) \<Rightarrow>
             (Some (ErrWrap (''failed to reset projection='' @ pr_name x @ '': '') err ''''), w\<lparr>pw_offsets := db\<rparr>)
         | (None, db) \<Rightarrow> (None, w\<lparr>pw_offsets := db\<rparr>)))"

definition pr_Start ::
    "start_turn \<Rightarrow> ('s, 'o, 'h) ProjRunner \<Rightarrow> ('s, 'o, 'h) proj_world
       \<Rightarrow> goerr option \<times> ('s, 'o, 'h) ProjRunner \<times> ('s, 'o, 'h) proj_world" where
  "pr_Start t x w =
     (if pr_running x then (None, x, w)
      else if pr_offsetsStore x = None then (Some (ErrNew ''offsets store is not defined''), x, w)
      else if pr_eventsStore x = None then (Some (ErrNew ''events store is not defined''), x, w)
      else
        (case fst (retryOn (st_ended t) 5 (ping_stores t) 0) of
           Some err \<Rightarrow> (Some (ErrWrap ''failed to start the projection: '' err ''''), x, w)
         | None \<Rightarrow>
             (case preStart x w of
                (Some err, w1) \<Rightarrow> (Some err, x, w1)
              | (None, w1) \<Rightarrow>
                  if pr_pullInterval x \<le> 0 then (Some (ErrPanic ''intervals must be greater than zero''), x, w1)
                  else (None, x\<lparr>pr_running := True, pr_subscribed := (pr_eventsStream x \<noteq> None)\<rparr>, w1))))"

definition pr_Run :: "bool \<Rightarrow> ('s, 'o, 'h) ProjRunner \<Rightarrow> ('s, 'o, 'h) ProjRunner" where
  "pr_Run onFailure x = x\<lparr>pr_onFailure := onFailure\<rparr>"

end
