(* ===== verification/Postgres.thy ===== *)
theory Postgres
  imports Actor_Base Journal "HOL-Library.List_Lexorder" "HOL-Library.Char_ord"
begin

text \<open>
  The PostgreSQL stores of \<open>src/persistence/postgres\<close>: \<open>event_store.go\<close> and \<open>offset_store.go\<close> over the
  tables of \<open>schema/*.sql\<close>.  A table is the list of its rows in insertion order or, for a
  table read by its key only, a map; each SQL statement of the source is what it does to the
  tables.  The server is outside the source: any statement may fail with any error
  (\<open>pe_fault\<close>: a lost connection, a value outside its column's type, a cancelled context), at any
  position of a transaction.  When the statement that fails is a commit, or one that commits by itself,
  the error does not tell whether the server carried it out; \<open>pe_landed\<close> says whether it did, and the
  code never sees it.  The protocol-buffer and JSON codecs and the collation of the text
  columns are parameters too.  Transactions run one after the other, which is what the lock on the
  row of \<open>events_store_revisions\<close> gives the writers of one record.
\<close>

section \<open>Tables and statements\<close>

record event_row =
  er_tenant_id :: string
  er_persistence_id :: string
  er_sequence_number :: u64
  er_is_deleted :: bool
  er_event_payload :: bytes
  er_event_manifest :: string
  er_timestamp :: int
  er_shard_number :: u64
  er_encryption_key_id :: string
  er_is_encrypted :: bool
  er_tenant_metadata :: "bytes option"

definition er_key :: "event_row \<Rightarrow> string \<times> string \<times> u64" where
  "er_key r = (er_tenant_id r, er_persistence_id r, er_sequence_number r)"

text \<open>\<open>pg_clock\<close> counts the statements the server was sent in transactions and writes.\<close>

record pg_db =
  pg_events :: "event_row list"
  pg_revisions :: "string \<times> string \<rightharpoonup> u64"
  pg_offsets :: "string \<times> u64 \<rightharpoonup> int \<times> int"
  pg_clock :: nat

definition pg_empty :: pg_db where
  "pg_empty = \<lparr>pg_events = [], pg_revisions = Map.empty, pg_offsets = Map.empty, pg_clock = 0\<rparr>"

datatype pg_stmt =
    StBegin | StCommit
  | StUpsertRevision string string u64
  | StInsertEvent event_row
  | StInsertEventIgnoreDuplicate event_row
  | StSelectRevision string string
  | StClaimRevision string string
  | StUpdateRevision string string u64
  | StDeleteEvents string string u64
  | StReplayEvents string string u64 u64 u64
  | StLatestEvent string string
  | StPersistenceIDs string "string option" u64
  | StShardEvents u64 int u64
  | StShardOffsets
  | StWriteOffset OffsetPb
  | StCurrentOffset string u64
  | StResetOffset int string

record 'm pg_env =
  pe_any :: "'m AnyCodec"
  pe_toJSON :: "metadata \<Rightarrow> goerr + bytes"
  pe_fromJSON :: "bytes \<Rightarrow> goerr + metadata"
  pe_collate :: "string \<Rightarrow> string"
  pe_fault :: "nat \<Rightarrow> pg_stmt \<Rightarrow> goerr option"
  pe_landed :: "nat \<Rightarrow> bool"

text \<open>What a piece of a transaction does: an error or a result, and the tables it leaves.\<close>

type_synonym 'a tx = "pg_db \<Rightarrow> (goerr + 'a) \<times> pg_db"

definition tx_bind :: "'a tx \<Rightarrow> ('a \<Rightarrow> 'b tx) \<Rightarrow> 'b tx" where
  "tx_bind m f x = (case m x of (Inl err, x') \<Rightarrow> (Inl err, x') | (Inr a, x') \<Rightarrow> f a x')"

definition tx_wrap :: "string \<Rightarrow> 'a tx \<Rightarrow> 'a tx" where
  "tx_wrap pre m x = (case m x of (Inl err, x') \<Rightarrow> (Inl (ErrWrap pre err ''''), x') | (Inr a, x') \<Rightarrow> (Inr a, x'))"

fun tx_each :: "('a \<Rightarrow> unit tx) \<Rightarrow> 'a list \<Rightarrow> unit tx" where
  "tx_each f [] x = (Inr (), x)"
| "tx_each f (a # as) x = tx_bind (f a) (\<lambda>_. tx_each f as) x"

definition pg_exec :: "'m pg_env \<Rightarrow> pg_stmt \<Rightarrow> 'a tx \<Rightarrow> 'a tx" where
  "pg_exec env stmt run x =
     (let x' = x\<lparr>pg_clock := Suc (pg_clock x)\<rparr> in
      case pe_fault env (pg_clock x) stmt of Some err \<Rightarrow> (Inl err, x') | None \<Rightarrow> run x')"

text \<open>
  \<open>tx, err := s.pool.Begin(ctx)\<close>, \<open>defer tx.Rollback(ctx)\<close>, the body, \<open>return tx.Commit(ctx)\<close>.  A
  commit that reports an error may have taken place: the rollback that follows then finds nothing to
  undo.
\<close>

definition pg_rollback :: "pg_db \<Rightarrow> pg_db \<Rightarrow> pg_db" where
  "pg_rollback x x' = x\<lparr>pg_clock := pg_clock x'\<rparr>"

definition pg_transaction :: "'m pg_env \<Rightarrow> (pg_db \<Rightarrow> ((goerr + unit) \<times> pg_db) option) \<Rightarrow> pg_db \<Rightarrow> (goerr option \<times> pg_db) option" where
  "pg_transaction env body x =
     (case tx_wrap ''begin tx: '' (pg_exec env StBegin (Pair (Inr ()))) x of
        (Inl err, x1) \<Rightarrow> Some (Some err, x1)
      | (Inr _, x1) \<Rightarrow>
          (case body x1 of
             None \<Rightarrow> None
           | Some (Inl err, x2) \<Rightarrow> Some (Some err, pg_rollback x x2)
           | Some (Inr _, x2) \<Rightarrow>
               (case pg_exec env StCommit (Pair (Inr ())) x2 of
                  (Inl err, x3) \<Rightarrow> Some (Some err, if pe_landed env (pg_clock x2) then x3 else pg_rollback x x3)
                | (Inr _, x3) \<Rightarrow> Some (None, x3))))"

text \<open>A statement outside a transaction, \<open>s.pool.Exec(ctx, ...)\<close>, commits by itself.\<close>

definition pg_autocommit :: "'m pg_env \<Rightarrow> pg_stmt \<Rightarrow> unit tx \<Rightarrow> pg_db \<Rightarrow> goerr option \<times> pg_db" where
  "pg_autocommit env stmt run x =
     (case pg_exec env stmt run x of
        (Inl err, x') \<Rightarrow> (Some err, if pe_landed env (pg_clock x) then snd (run x') else x')
      | (Inr _, x') \<Rightarrow> (None, x'))"

section \<open>Writing events\<close>

definition scopeKey :: "Scope \<Rightarrow> goerr + string" where
  "scopeKey scope =
     (if \<not> scope_Valid scope then Inl ErrInvalidScope
      else if scope_IsUnscoped scope then Inr ''''
      else Inr (scope_TenantID scope))"

definition duplicate_key :: goerr where
  "duplicate_key = ErrNew ''duplicate key value violates unique constraint''"

definition pg_insert :: "event_row \<Rightarrow> unit tx" where
  "pg_insert r x =
     (if \<exists>q \<in> set (pg_events x). er_key q = er_key r then (Inl duplicate_key, x)
      else (Inr (), x\<lparr>pg_events := pg_events x @ [r]\<rparr>))"

definition pg_insert_ignore :: "event_row \<Rightarrow> unit tx" where
  "pg_insert_ignore r x =
     (if \<exists>q \<in> set (pg_events x). er_key q = er_key r then (Inr (), x)
      else (Inr (), x\<lparr>pg_events := pg_events x @ [r]\<rparr>))"

definition event_columns :: "'m pg_env \<Rightarrow> string \<Rightarrow> Event \<Rightarrow> goerr + event_row" where
  "event_columns env tenantID event =
     sum_bind (wrap_err ''marshal event: '' (any_Marshal (pe_any env) (ev_event event))) (\<lambda>payload.
     sum_bind (if ev_tenant_metadata event \<noteq> Map.empty
               then sum_bind (wrap_err ''marshal tenant metadata: '' (pe_toJSON env (ev_tenant_metadata event))) (Inr \<circ> Some)
               else Inr None) (\<lambda>tenantMetadata.
       Inr \<lparr>er_tenant_id = tenantID, er_persistence_id = ev_persistence_id event,
            er_sequence_number = ev_sequence_number event, er_is_deleted = ev_is_deleted event,
            er_event_payload = payload,
            er_event_manifest = (case ev_event event of Some x \<Rightarrow> any_type_url x | None \<Rightarrow> ''''),
            er_timestamp = ev_timestamp event, er_shard_number = ev_shard event,
            er_encryption_key_id = ev_encryption_key_id event, er_is_encrypted = ev_is_encrypted event,
            er_tenant_metadata = tenantMetadata\<rparr>))"

definition insertEvent :: "'m pg_env \<Rightarrow> bool \<Rightarrow> string \<Rightarrow> Event \<Rightarrow> unit tx" where
  "insertEvent env ignoreDuplicate tenantID event x =
     (case event_columns env tenantID event of
        Inl err \<Rightarrow> (Inl err, x)
      | Inr r \<Rightarrow>
          tx_wrap ''insert event: ''
            (if ignoreDuplicate then pg_exec env (StInsertEventIgnoreDuplicate r) (pg_insert_ignore r)
             else pg_exec env (StInsertEvent r) (pg_insert r)) x)"

fun highest_step :: "(string \<rightharpoonup> u64) \<Rightarrow> Event \<Rightarrow> (string \<rightharpoonup> u64)" where
  "highest_step highest event =
     (case highest (ev_persistence_id event) of
        None \<Rightarrow> highest(ev_persistence_id event \<mapsto> ev_sequence_number event)
      | Some seq \<Rightarrow>
          if seq < ev_sequence_number event then highest(ev_persistence_id event \<mapsto> ev_sequence_number event)
          else highest)"

definition upsert_revision :: "string \<Rightarrow> string \<Rightarrow> u64 \<Rightarrow> unit tx" where
  "upsert_revision tenantID persistenceID revision x =
     (Inr (), x\<lparr>pg_revisions := (pg_revisions x)((tenantID, persistenceID) \<mapsto>
        (case pg_revisions x (tenantID, persistenceID) of
           None \<Rightarrow> revision
         | Some r \<Rightarrow> max r revision))\<rparr>)"

definition pg_writeUnconditional :: "'m pg_env \<Rightarrow> string \<Rightarrow> Event list \<Rightarrow> pg_db \<Rightarrow> (goerr option \<times> pg_db) option" where
  "pg_writeUnconditional env tenantID events x =
     (if events = [] then Some (None, x)
      else
        (let highest = foldl highest_step Map.empty events in
         pg_transaction env (Some \<circ>
           tx_bind
             (tx_each (\<lambda>persistenceID.
                let h = the (highest persistenceID) in
                tx_wrap ''advance revision: ''
                  (pg_exec env (StUpsertRevision tenantID persistenceID h) (upsert_revision tenantID persistenceID h)))
                (sort (remdups (map ev_persistence_id events))))
             (\<lambda>_. tx_each (insertEvent env True tenantID) events)) x))"

definition pg_revision_row :: "string \<Rightarrow> string \<Rightarrow> u64 option tx" where
  "pg_revision_row tenantID persistenceID x = (Inr (pg_revisions x (tenantID, persistenceID)), x)"

text \<open>The number of rows the insert of a placeholder affects.\<close>

definition pg_claim :: "string \<Rightarrow> string \<Rightarrow> nat tx" where
  "pg_claim tenantID persistenceID x =
     (case pg_revisions x (tenantID, persistenceID) of
        Some _ \<Rightarrow> (Inr 0, x)
      | None \<Rightarrow> (Inr 1, x\<lparr>pg_revisions := (pg_revisions x)((tenantID, persistenceID) \<mapsto> 0)\<rparr>))"

partial_function (option) lockRevision ::
    "'m pg_env \<Rightarrow> string \<Rightarrow> string \<Rightarrow> pg_db \<Rightarrow> ((goerr + u64 \<times> bool) \<times> pg_db) option" where
  "lockRevision env tenantID persistenceID x =
     (case tx_wrap ''lock revision: ''
             (pg_exec env (StSelectRevision tenantID persistenceID) (pg_revision_row tenantID persistenceID)) x of
        (Inl err, x1) \<Rightarrow> Some (Inl err, x1)
      | (Inr (Some revision), x1) \<Rightarrow> Some (Inr (revision, True), x1)
      | (Inr None, x1) \<Rightarrow>
          (case tx_wrap ''claim revision: ''
                  (pg_exec env (StClaimRevision tenantID persistenceID) (pg_claim tenantID persistenceID)) x1 of
             (Inl err, x2) \<Rightarrow> Some (Inl err, x2)
           | (Inr rowsAffected, x2) \<Rightarrow>
               if rowsAffected = 1 then Some (Inr (0, False), x2)
               else lockRevision env tenantID persistenceID x2))"

definition check_precondition ::
    "Scope \<Rightarrow> string \<Rightarrow> WritePrecondition \<Rightarrow> u64 \<Rightarrow> bool \<Rightarrow> goerr option" where
  "check_precondition scope persistenceID precondition revision exists =
     (if wp_IsGenesis precondition then
        (if exists then Some (ErrConflict (NewConflictError scope persistenceID precondition (Some revision))) else None)
      else if \<not> exists then Some (ErrConflict (NewConflictError scope persistenceID precondition None))
      else if revision \<noteq> fst (wp_Revision precondition)
      then Some (ErrConflict (NewConflictError scope persistenceID precondition (Some revision)))
      else None)"

definition update_revision :: "string \<Rightarrow> string \<Rightarrow> u64 \<Rightarrow> unit tx" where
  "update_revision tenantID persistenceID revision x =
     (Inr (), if pg_revisions x (tenantID, persistenceID) = None then x
              else x\<lparr>pg_revisions := (pg_revisions x)((tenantID, persistenceID) \<mapsto> revision)\<rparr>)"

definition pg_writeConditional ::
    "'m pg_env \<Rightarrow> Scope \<Rightarrow> string \<Rightarrow> string \<Rightarrow> Event list \<Rightarrow> WritePrecondition \<Rightarrow> pg_db \<Rightarrow> (goerr option \<times> pg_db) option" where
  "pg_writeConditional env scope tenantID persistenceID events precondition x =
     pg_transaction env (\<lambda>x1.
       case lockRevision env tenantID persistenceID x1 of
         None \<Rightarrow> None
       | Some (Inl err, x2) \<Rightarrow> Some (Inl err, x2)
       | Some (Inr (revision, exists), x2) \<Rightarrow>
           (case check_precondition scope persistenceID precondition revision exists of
              Some err \<Rightarrow> Some (Inl err, x2)
            | None \<Rightarrow>
                (let highest = fold max (map ev_sequence_number events) revision in
                 Some (tx_bind (tx_each (insertEvent env False tenantID) events) (\<lambda>_.
                   tx_wrap ''advance revision: ''
                     (pg_exec env (StUpdateRevision tenantID persistenceID highest)
                        (update_revision tenantID persistenceID highest))) x2)))) x"

definition pg_WriteEvents ::
    "'m pg_env \<Rightarrow> Scope \<Rightarrow> Event list \<Rightarrow> WritePrecondition \<Rightarrow> pg_db \<Rightarrow> (goerr option \<times> pg_db) option" where
  "pg_WriteEvents env scope events precondition x =
     (case scopeKey scope of
        Inl err \<Rightarrow> Some (Some err, x)
      | Inr tenantID \<Rightarrow>
          if \<not> wp_Valid precondition then Some (Some ErrInvalidPrecondition, x)
          else if wp_IsUnconditional precondition then pg_writeUnconditional env tenantID events x
          else
            (case events of
               [] \<Rightarrow> Some (Some ErrPreconditionScope, x)
             | e # es \<Rightarrow>
                 if \<exists>event \<in> set es. ev_persistence_id event \<noteq> ev_persistence_id e
                 then Some (Some ErrPreconditionScope, x)
                 else pg_writeConditional env scope tenantID (ev_persistence_id e) events precondition x))"

section \<open>Deleting events\<close>

definition lockRevisionIfExists :: "'m pg_env \<Rightarrow> string \<Rightarrow> string \<Rightarrow> bool tx" where
  "lockRevisionIfExists env tenantID persistenceID =
     tx_bind
       (tx_wrap ''lock revision: ''
          (pg_exec env (StSelectRevision tenantID persistenceID) (pg_revision_row tenantID persistenceID)))
       (\<lambda>row. Pair (Inr (row \<noteq> None)))"

definition pg_delete :: "string \<Rightarrow> string \<Rightarrow> u64 \<Rightarrow> unit tx" where
  "pg_delete tenantID persistenceID toSequenceNumber x =
     (Inr (), x\<lparr>pg_events := filter (\<lambda>r. \<not> (er_tenant_id r = tenantID \<and> er_persistence_id r = persistenceID
                                             \<and> er_sequence_number r \<le> toSequenceNumber)) (pg_events x)\<rparr>)"

definition pg_DeleteEvents :: "'m pg_env \<Rightarrow> Scope \<Rightarrow> string \<Rightarrow> u64 \<Rightarrow> pg_db \<Rightarrow> (goerr option \<times> pg_db) option" where
  "pg_DeleteEvents env scope persistenceID toSequenceNumber x =
     (case scopeKey scope of
        Inl err \<Rightarrow> Some (Some err, x)
      | Inr tenantID \<Rightarrow>
          pg_transaction env (Some \<circ>
            tx_bind (lockRevisionIfExists env tenantID persistenceID) (\<lambda>_.
              tx_wrap ''delete events: ''
                (pg_exec env (StDeleteEvents tenantID persistenceID toSequenceNumber)
                   (pg_delete tenantID persistenceID toSequenceNumber)))) x)"

section \<open>Reading events\<close>

definition scan_row :: "'m pg_env \<Rightarrow> event_row \<Rightarrow> goerr + Event" where
  "scan_row env r =
     sum_bind (wrap_err ''unmarshal event payload: '' (any_Unmarshal (pe_any env) (er_event_payload r))) (\<lambda>eventAny.
     sum_bind (case er_tenant_metadata r of
                 None \<Rightarrow> Inr Map.empty
               | Some tenantMetadata \<Rightarrow>
                   if tenantMetadata \<noteq> []
                   then wrap_err ''unmarshal tenant metadata: '' (pe_fromJSON env tenantMetadata)
                   else Inr Map.empty) (\<lambda>metadata.
       Inr \<lparr>ev_persistence_id = er_persistence_id r, ev_sequence_number = er_sequence_number r,
            ev_is_deleted = er_is_deleted r, ev_event = Some eventAny, ev_timestamp = er_timestamp r,
            ev_shard = er_shard_number r, ev_encryption_key_id = er_encryption_key_id r,
            ev_is_encrypted = er_is_encrypted r, ev_tenant_metadata = metadata\<rparr>))"

fun scanEvents :: "'m pg_env \<Rightarrow> event_row list \<Rightarrow> goerr + Event list" where
  "scanEvents env [] = Inr []"
| "scanEvents env (r # rs) =
     sum_bind (scan_row env r) (\<lambda>event. sum_bind (scanEvents env rs) (\<lambda>events. Inr (event # events)))"

definition pg_query :: "'m pg_env \<Rightarrow> pg_stmt \<Rightarrow> pg_db \<Rightarrow> 'r \<Rightarrow> goerr + 'r" where
  "pg_query env stmt x rows = (case pe_fault env (pg_clock x) stmt of Some err \<Rightarrow> Inl err | None \<Rightarrow> Inr rows)"

definition record_rows :: "string \<Rightarrow> string \<Rightarrow> pg_db \<Rightarrow> event_row list" where
  "record_rows tenantID persistenceID x =
     filter (\<lambda>r. er_tenant_id r = tenantID \<and> er_persistence_id r = persistenceID) (pg_events x)"

definition pg_ReplayEvents ::
    "'m pg_env \<Rightarrow> Scope \<Rightarrow> string \<Rightarrow> u64 \<Rightarrow> u64 \<Rightarrow> u64 \<Rightarrow> pg_db \<Rightarrow> goerr + Event list" where
  "pg_ReplayEvents env scope persistenceID fromSequenceNumber toSequenceNumber limit x =
     sum_bind (scopeKey scope) (\<lambda>tenantID.
     sum_bind (pg_query env (StReplayEvents tenantID persistenceID fromSequenceNumber toSequenceNumber limit) x
        (take (unat limit) (sort_key er_sequence_number
           (filter (\<lambda>r. fromSequenceNumber \<le> er_sequence_number r \<and> er_sequence_number r \<le> toSequenceNumber)
              (record_rows tenantID persistenceID x))))) (\<lambda>rows.
     scanEvents env rows))"

definition pg_GetLatestEvent :: "'m pg_env \<Rightarrow> Scope \<Rightarrow> string \<Rightarrow> pg_db \<Rightarrow> goerr + Event option" where
  "pg_GetLatestEvent env scope persistenceID x =
     sum_bind (scopeKey scope) (\<lambda>tenantID.
     sum_bind (pg_query env (StLatestEvent tenantID persistenceID) x
        (take 1 (rev (sort_key er_sequence_number (record_rows tenantID persistenceID x))))) (\<lambda>rows.
     sum_bind (scanEvents env rows) (\<lambda>result.
       Inr (case result of [] \<Rightarrow> None | event # _ \<Rightarrow> Some event))))"

definition pg_PersistenceIDs ::
    "'m pg_env \<Rightarrow> Scope \<Rightarrow> u64 \<Rightarrow> string \<Rightarrow> pg_db \<Rightarrow> goerr + string list \<times> string" where
  "pg_PersistenceIDs env scope pageSize pageToken x =
     sum_bind (scopeKey scope) (\<lambda>tenantID.
       if pageSize = 0 then Inr ([], '''')
       else
         (let ids = sort_key (pe_collate env) (remdups (map er_persistence_id
                      (filter (\<lambda>r. er_tenant_id r = tenantID) (pg_events x)))) in
          sum_bind
            (if pageToken = [] then pg_query env (StPersistenceIDs tenantID None pageSize) x (take (unat pageSize) ids)
             else pg_query env (StPersistenceIDs tenantID (Some pageToken) pageSize) x
                    (take (unat pageSize) (filter (\<lambda>i. pe_collate env pageToken < pe_collate env i) ids)))
            (\<lambda>ids. Inr (ids, if int (length ids) = go_int pageSize then last ids else ''''))))"

definition pg_GetShardEvents :: "'m pg_env \<Rightarrow> u64 \<Rightarrow> int \<Rightarrow> u64 \<Rightarrow> pg_db \<Rightarrow> goerr + Event list \<times> int" where
  "pg_GetShardEvents env shardNumber offset limit x =
     sum_bind (pg_query env (StShardEvents shardNumber offset limit) x
        (take (unat limit) (sort_key er_timestamp
           (filter (\<lambda>r. er_shard_number r = shardNumber \<and> offset < er_timestamp r) (pg_events x))))) (\<lambda>rows.
     sum_bind (scanEvents env rows) (\<lambda>events.
       Inr (if events = [] then ([], 0) else (events, ev_timestamp (last events)))))"

text \<open>\<open>GROUP BY shard_number\<close> with \<open>MAX(timestamp)\<close>.\<close>

definition shard_max :: "event_row list \<Rightarrow> u64 \<rightharpoonup> int" where
  "shard_max rows shard =
     (case filter (\<lambda>r. er_shard_number r = shard) rows of
        [] \<Rightarrow> None
      | r # rs \<Rightarrow> Some (fold max (map er_timestamp rs) (er_timestamp r)))"

definition pg_ShardOffsets :: "'m pg_env \<Rightarrow> pg_db \<Rightarrow> goerr + (u64 \<rightharpoonup> int)" where
  "pg_ShardOffsets env x = pg_query env StShardOffsets x (shard_max (pg_events x))"

section \<open>The offset store\<close>

definition pg_WriteOffset :: "'m pg_env \<Rightarrow> OffsetPb \<Rightarrow> pg_db \<Rightarrow> goerr option \<times> pg_db" where
  "pg_WriteOffset env offset x =
     pg_autocommit env (StWriteOffset offset)
       (\<lambda>x. (Inr (), x\<lparr>pg_offsets := (pg_offsets x)((of_projection_name offset, of_shard_number offset) \<mapsto>
                                      (of_value offset, of_timestamp offset))\<rparr>)) x"

definition pg_GetCurrentOffset :: "'m pg_env \<Rightarrow> ProjectionId \<Rightarrow> pg_db \<Rightarrow> goerr + OffsetPb option" where
  "pg_GetCurrentOffset env projectionID x =
     (let name = pj_projection_name projectionID; shard = pj_shard_number projectionID in
      sum_bind (pg_query env (StCurrentOffset name shard) x (pg_offsets x (name, shard))) (\<lambda>row.
        Inr (map_option (\<lambda>(offset, timestamp).
          \<lparr>of_shard_number = shard, of_projection_name = name, of_value = offset, of_timestamp = timestamp\<rparr>) row)))"

definition pg_ResetOffset :: "'m pg_env \<Rightarrow> string \<Rightarrow> int \<Rightarrow> pg_db \<Rightarrow> goerr option \<times> pg_db" where
  "pg_ResetOffset env projectionName val x =
     pg_autocommit env (StResetOffset val projectionName)
       (\<lambda>x. (Inr (), x\<lparr>pg_offsets := (\<lambda>(name, shard).
          if name = projectionName then map_option (\<lambda>(_, timestamp). (val, timestamp)) (pg_offsets x (name, shard))
          else pg_offsets x (name, shard))\<rparr>)) x"

end
