(* ===== verification/Postgres_Correct.thy ===== *)
theory Postgres_Correct
  imports Postgres
begin

text \<open>
  The PostgreSQL event store meets the contract of \<open>src/persistence/events_store.go\<close>: what each call
  does to the tables when it reports success, that a call that reports an error leaves them as they
  were or has done all it was asked to, and the laws of the locale.
\<close>

section \<open>Transactions\<close>

abbreviation tick :: "pg_db \<Rightarrow> pg_db" where
  "tick x \<equiv> x\<lparr>pg_clock := Suc (pg_clock x)\<rparr>"

lemma pg_exec_Inr:
  "pg_exec env stmt run x = (Inr a, x') \<longleftrightarrow> pe_fault env (pg_clock x) stmt = None \<and> run (tick x) = (Inr a, x')"
  by (auto simp: pg_exec_def Let_def split: option.splits)

lemma tx_bind_Inr: "tx_bind m f x = (Inr b, x') \<longleftrightarrow> (\<exists>a x1. m x = (Inr a, x1) \<and> f a x1 = (Inr b, x'))"
  by (auto simp: tx_bind_def split: prod.splits sum.splits)

lemma tx_wrap_Inr: "tx_wrap pre m x = (Inr a, x') \<longleftrightarrow> m x = (Inr a, x')"
  by (auto simp: tx_wrap_def split: prod.splits sum.splits)

lemmas tx_iffs = pg_exec_Inr tx_bind_Inr tx_wrap_Inr

lemma pg_transaction_eq:
  "pg_transaction env body x =
     (case pe_fault env (pg_clock x) StBegin of
        Some err \<Rightarrow> Some (Some (ErrWrap ''begin tx: '' err ''''), tick x)
      | None \<Rightarrow>
          (case body (tick x) of
             None \<Rightarrow> None
           | Some (Inl err, x2) \<Rightarrow> Some (Some err, pg_rollback x x2)
           | Some (Inr _, x2) \<Rightarrow>
               (case pe_fault env (pg_clock x2) StCommit of
                  Some err \<Rightarrow> Some (Some err, if pe_landed env (pg_clock x2) then tick x2 else pg_rollback x (tick x2))
                | None \<Rightarrow> Some (None, tick x2))))"
  unfolding pg_transaction_def tx_wrap_def pg_exec_def Let_def
  by (cases "pe_fault env (pg_clock x) StBegin")
    (simp_all split: option.split prod.split sum.split)

lemma pg_transaction_cases:
  obtains (refused) err n where "pg_transaction env body x = Some (Some err, x\<lparr>pg_clock := n\<rparr>)"
      "body (tick x) \<noteq> None \<or> pe_fault env (pg_clock x) StBegin \<noteq> None"
  | (hangs) "pg_transaction env body x = None" "body (tick x) = None"
  | (commits) x2 where "pg_transaction env body x = Some (None, tick x2)" "body (tick x) = Some (Inr (), x2)"
  | (landed) err x2 where "pg_transaction env body x = Some (Some err, tick x2)" "body (tick x) = Some (Inr (), x2)"
      "pe_fault env (pg_clock x) StBegin = None"
proof (cases "pe_fault env (pg_clock x) StBegin")
  case (Some err)
  then show thesis by (intro refused) (simp_all add: pg_transaction_eq)
next
  case f: None
  show thesis
  proof (cases "body (tick x)")
    case None
    with f show thesis by (intro hangs) (simp_all add: pg_transaction_eq)
  next
    case (Some r)
    then obtain res x2 where r: "body (tick x) = Some (res, x2)" by (cases r) simp
    show thesis
      using f r refused commits landed
      by (cases res; cases "pe_fault env (pg_clock x2) StCommit"; cases "pe_landed env (pg_clock x2)")
        (auto simp: pg_transaction_eq pg_rollback_def)
  qed
qed

lemma pg_transaction_ok:
  assumes "pg_transaction env body x = Some (None, x')"
  obtains x2 where "body (tick x) = Some (Inr (), x2)" "x' = tick x2"
  by (cases rule: pg_transaction_cases [of env body x]) (use assms that in auto)

text \<open>
  The same server, but for the acknowledgement of its commits.  A transaction that reports an error
  has changed nothing, or it is what this server would have made of it.
\<close>

definition acknowledged :: "'m pg_env \<Rightarrow> 'm pg_env" where
  "acknowledged env = env\<lparr>pe_fault := \<lambda>n stmt. if stmt = StCommit then None else pe_fault env n stmt\<rparr>"

lemma acknowledged_fault [simp]:
  "pe_fault (acknowledged env) n StCommit = None"
  "stmt \<noteq> StCommit \<Longrightarrow> pe_fault (acknowledged env) n stmt = pe_fault env n stmt"
  by (simp_all add: acknowledged_def)

lemma pg_transaction_err:
  assumes "pg_transaction env body x = Some (Some err, x')"
  shows "(\<exists>n. x' = x\<lparr>pg_clock := n\<rparr>) \<or> pg_transaction (acknowledged env) body x = Some (None, x')"
proof (cases rule: pg_transaction_cases [of env body x])
  case (landed err' x2)
  with assms show ?thesis by (simp add: pg_transaction_eq [of "acknowledged env"])
qed (use assms in auto)

lemma acknowledged_codecs [simp]:
  "pe_any (acknowledged env) = pe_any env" "pe_toJSON (acknowledged env) = pe_toJSON env"
  "pe_fromJSON (acknowledged env) = pe_fromJSON env"
  by (simp_all add: acknowledged_def)

lemma acknowledged_exec: "stmt \<noteq> StCommit \<Longrightarrow> pg_exec (acknowledged env) stmt run = pg_exec env stmt run"
  by (intro ext) (simp add: pg_exec_def)

lemma acknowledged_update:
  "pg_exec (acknowledged env) (StUpdateRevision t p h) run = pg_exec env (StUpdateRevision t p h) run"
  by (simp add: acknowledged_exec)

lemma acknowledged_insert: "insertEvent (acknowledged env) b t = insertEvent env b t"
proof -
  have "event_columns (acknowledged env) = event_columns env" by (intro ext) (simp add: event_columns_def)
  then show ?thesis by (intro ext) (simp add: insertEvent_def acknowledged_exec split: sum.split)
qed

lemma pg_transaction_returns:
  assumes "\<And>x1. body x1 \<noteq> None"
  shows "\<exists>err x'. pg_transaction env body x = Some (err, x')"
  by (cases rule: pg_transaction_cases [of env body x]) (use assms in auto)

text \<open>The loop that locks a revision row ends: the placeholder it inserts is its own.\<close>

lemma lockRevision_eq:
  "lockRevision env t p x =
     (case pe_fault env (pg_clock x) (StSelectRevision t p) of
        Some err \<Rightarrow> Some (Inl (ErrWrap ''lock revision: '' err ''''), tick x)
      | None \<Rightarrow>
          (case pg_revisions x (t, p) of
             Some r \<Rightarrow> Some (Inr (r, True), tick x)
           | None \<Rightarrow>
               (case pe_fault env (Suc (pg_clock x)) (StClaimRevision t p) of
                  Some err \<Rightarrow> Some (Inl (ErrWrap ''claim revision: '' err ''''), tick (tick x))
                | None \<Rightarrow> Some (Inr (0, False),
                    x\<lparr>pg_revisions := (pg_revisions x)((t, p) \<mapsto> 0), pg_clock := Suc (Suc (pg_clock x))\<rparr>))))"
  by (subst lockRevision.simps)
    (simp add: tx_wrap_def pg_exec_def Let_def pg_revision_row_def pg_claim_def split: option.splits)

lemma acknowledged_lock: "lockRevision (acknowledged env) = lockRevision env"
  by (intro ext) (simp add: lockRevision_eq split: option.split)

lemma lockRevision_cases:
  obtains (refused) pre err x1 where "lockRevision env t p x = Some (Inl (ErrWrap pre err ''''), x1)"
  | (locked) x1 where "lockRevision env t p x =
      Some (Inr (case pg_revisions x (t, p) of Some v \<Rightarrow> v | None \<Rightarrow> 0, pg_revisions x (t, p) \<noteq> None), x1)"
proof (cases "pe_fault env (pg_clock x) (StSelectRevision t p)")
  case (Some err)
  then show thesis by (intro refused) (simp add: lockRevision_eq)
next
  case f: None
  show thesis
  proof (cases "pg_revisions x (t, p)")
    case None
    with f show thesis
      by (cases "pe_fault env (Suc (pg_clock x)) (StClaimRevision t p)")
        ((intro locked, simp add: lockRevision_eq), (intro refused, simp add: lockRevision_eq))
  qed (use f in \<open>intro locked, simp add: lockRevision_eq\<close>)
qed

lemma lockRevision_ok:
  assumes "lockRevision env t p x = Some (Inr (r, exists), x')"
  shows "exists = (pg_revisions x (t, p) \<noteq> None) \<and> r = (case pg_revisions x (t, p) of Some v \<Rightarrow> v | None \<Rightarrow> 0)
    \<and> pg_events x' = pg_events x \<and> pg_offsets x' = pg_offsets x \<and> pg_revisions x' = (pg_revisions x)((t, p) \<mapsto> r)"
  using assms by (auto simp: lockRevision_eq split: option.splits)

lemma pg_WriteEvents_returns: "\<exists>err x'. pg_WriteEvents env sc evs pre x = Some (err, x')"
proof -
  have "\<exists>err x'. pg_writeConditional env sc t pid evs pre x = Some (err, x')" for t pid
    unfolding pg_writeConditional_def
    by (rule pg_transaction_returns) (auto simp: lockRevision_eq Let_def split: option.splits prod.splits sum.splits)
  moreover have "\<exists>err x'. pg_writeUnconditional env t evs x = Some (err, x')" for t
    unfolding pg_writeUnconditional_def Let_def
    by (cases "evs = []") (simp_all add: pg_transaction_returns)
  ultimately show ?thesis
    unfolding pg_WriteEvents_def by (auto split: sum.splits list.splits)
qed

lemma pg_WriteEvents_err:
  assumes "pg_WriteEvents env sc evs pre x = Some (Some err, x')"
  shows "(\<exists>n. x' = x\<lparr>pg_clock := n\<rparr>) \<or> pg_WriteEvents (acknowledged env) sc evs pre x = Some (None, x')"
proof -
  have same: "\<exists>n. x = x\<lparr>pg_clock := n\<rparr>" by (rule exI [of _ "pg_clock x"]) simp
  have u: "(\<exists>n. x' = x\<lparr>pg_clock := n\<rparr>) \<or> pg_writeUnconditional (acknowledged env) t evs x = Some (None, x')"
    if "pg_writeUnconditional env t evs x = Some (Some err, x')" for t
    using that
    by (auto simp: pg_writeUnconditional_def Let_def acknowledged_exec acknowledged_insert dest!: pg_transaction_err split: if_splits)
  have c: "(\<exists>n. x' = x\<lparr>pg_clock := n\<rparr>) \<or> pg_writeConditional (acknowledged env) sc t p evs pre x = Some (None, x')"
    if "pg_writeConditional env sc t p evs pre x = Some (Some err, x')" for t p
    using pg_transaction_err [OF that [unfolded pg_writeConditional_def]]
    unfolding pg_writeConditional_def acknowledged_insert acknowledged_lock acknowledged_update .
  show ?thesis
    using assms same u c by (auto simp: pg_WriteEvents_def split: sum.splits list.splits if_splits)
qed

section \<open>Rows\<close>

text \<open>The codecs give back what they were given.\<close>

definition pg_env_ok :: "'m pg_env \<Rightarrow> bool" where
  "pg_env_ok env \<longleftrightarrow>
     (\<forall>a b. any_Marshal (pe_any env) (Some a) = Inr b \<longrightarrow> any_Unmarshal (pe_any env) b = Inr a)
     \<and> (\<forall>m b. text_metadata m \<longrightarrow> pe_toJSON env m = Inr b \<longrightarrow> b \<noteq> [] \<and> pe_fromJSON env b = Inr m)"

lemma event_columns_key:
  "event_columns env t e = Inr r \<Longrightarrow> er_key r = (t, ev_persistence_id e, ev_sequence_number e)"
  by (auto simp: event_columns_def return_iffs er_key_def)

lemma scan_row_fields:
  "scan_row env r = Inr e \<Longrightarrow>
     ev_persistence_id e = er_persistence_id r \<and> ev_sequence_number e = er_sequence_number r
     \<and> ev_timestamp e = er_timestamp r \<and> ev_shard e = er_shard_number r"
  by (auto simp: scan_row_def return_iffs)

text \<open>What was written is what is read.\<close>

lemma scan_columns:
  assumes "pg_env_ok env" and "plain_event e" and "event_columns env t e = Inr r"
  shows "scan_row env r = Inr e"
proof -
  from assms(2) obtain a where a: "ev_event e = Some a" "text_metadata (ev_tenant_metadata e)"
    by (auto simp: plain_event_def)
  from assms(3) a(1) obtain b where b: "any_Marshal (pe_any env) (Some a) = Inr b" "er_event_payload r = b"
    by (auto simp: event_columns_def return_iffs wrap_err_Inr_iff)
  with assms(1) have u: "any_Unmarshal (pe_any env) b = Inr a" by (auto simp: pg_env_ok_def)
  show ?thesis
  proof (cases "ev_tenant_metadata e = Map.empty")
    case True
    with assms(3) a b u show ?thesis
      by (cases e) (auto simp: event_columns_def scan_row_def return_iffs wrap_err_Inr_iff)
  next
    case False
    with assms(3) a obtain j where j: "pe_toJSON env (ev_tenant_metadata e) = Inr j" "er_tenant_metadata r = Some j"
      by (auto simp: event_columns_def return_iffs wrap_err_Inr_iff)
    with assms(1) a(2) have "j \<noteq> [] \<and> pe_fromJSON env j = Inr (ev_tenant_metadata e)" by (auto simp: pg_env_ok_def)
    with assms(3) False a b u j show ?thesis
      by (auto simp: event_columns_def scan_row_def return_iffs wrap_err_Inr_iff)
  qed
qed

text \<open>Inserting rows: a row whose key is taken is left out, or fails the insert.\<close>

definition add_row :: "event_row list \<Rightarrow> event_row \<Rightarrow> event_row list" where
  "add_row rows r = (if er_key r \<in> er_key ` set rows then rows else rows @ [r])"

lemma add_rows_fresh:
  "distinct (map er_key new) \<Longrightarrow> er_key ` set new \<inter> er_key ` set rows = {} \<Longrightarrow> foldl add_row rows new = rows @ new"
proof (induction new arbitrary: rows)
  case (Cons r new)
  then have "er_key r \<notin> er_key ` set rows" and "er_key ` set new \<inter> er_key ` set (rows @ [r]) = {}" by auto
  with Cons show ?case by (simp add: add_row_def)
qed simp

lemma add_rows_sets:
  "set rows \<subseteq> set (foldl add_row rows new) \<and> set (foldl add_row rows new) \<subseteq> set rows \<union> set new"
proof (induction new arbitrary: rows)
  case (Cons r new)
  have "set rows \<subseteq> set (add_row rows r)" "set (add_row rows r) \<subseteq> insert r (set rows)" by (auto simp: add_row_def)
  with Cons [of "add_row rows r"] show ?case by fastforce
qed simp

lemma add_rows_distinct: "distinct (map er_key rows) \<Longrightarrow> distinct (map er_key (foldl add_row rows new))"
  by (induction new arbitrary: rows) (simp_all add: add_row_def)

lemma insertEvents_ok:
  assumes "tx_each (insertEvent env ign t) evs x = (Inr (), x')"
  shows "\<exists>new. list_all2 (\<lambda>e r. event_columns env t e = Inr r) evs new \<and> pg_events x' = foldl add_row (pg_events x) new
    \<and> pg_revisions x' = pg_revisions x \<and> pg_offsets x' = pg_offsets x"
  using assms
proof (induction evs arbitrary: x)
  case (Cons e evs)
  from Cons.prems obtain x1 where i: "insertEvent env ign t e x = (Inr (), x1)"
    and rest: "tx_each (insertEvent env ign t) evs x1 = (Inr (), x')" by (auto simp: tx_iffs)
  from i obtain r where r: "event_columns env t e = Inr r" "pg_events x1 = add_row (pg_events x) r"
    "pg_revisions x1 = pg_revisions x" "pg_offsets x1 = pg_offsets x"
    by (force simp: insertEvent_def tx_iffs pg_insert_def pg_insert_ignore_def add_row_def image_iff split: sum.splits if_splits)
  from Cons.IH [OF rest] obtain new where
    "list_all2 (\<lambda>e r. event_columns env t e = Inr r) evs new" "pg_events x' = foldl add_row (pg_events x1) new"
    "pg_revisions x' = pg_revisions x1" "pg_offsets x' = pg_offsets x1" by blast
  with r show ?case by (intro exI [of _ "r # new"]) simp
qed simp

section \<open>Records\<close>

definition tenant_key :: "Scope \<Rightarrow> string" where
  "tenant_key sc = (if scope_IsUnscoped sc then '''' else scope_TenantID sc)"

lemma scopeKey_wf: "wf_scope sc \<Longrightarrow> scopeKey sc = Inr (tenant_key sc)"
  by (simp add: scopeKey_def tenant_key_def wf_scope_Valid)

lemma tenant_key_inj: "wf_scope sc \<Longrightarrow> wf_scope sc' \<Longrightarrow> tenant_key sc = tenant_key sc' \<longleftrightarrow> sc = sc'"
  by (cases sc; cases sc')
    (auto simp: tenant_key_def wf_scope_def Unscoped_def scope_IsUnscoped_def scope_TenantID_def NewTenantID_def
      split: if_splits)

definition row_event :: "'m pg_env \<Rightarrow> event_row \<Rightarrow> Event" where
  "row_event env r = projr (scan_row env r)"

definition pg_journal :: "'m pg_env \<Rightarrow> pg_db \<Rightarrow> Scope \<Rightarrow> string \<Rightarrow> u64 \<rightharpoonup> Event" where
  "pg_journal env x sc pid =
     (if wf_scope sc then ev_map (map (row_event env) (record_rows (tenant_key sc) pid x)) else Map.empty)"

definition pg_revision :: "pg_db \<Rightarrow> Scope \<Rightarrow> string \<Rightarrow> u64 option" where
  "pg_revision x sc pid = (if wf_scope sc then pg_revisions x (tenant_key sc, pid) else None)"

text \<open>The primary key, readable rows, and a revision at least every sequence number of its record.\<close>

definition pg_ok :: "'m pg_env \<Rightarrow> pg_db \<Rightarrow> bool" where
  "pg_ok env x \<longleftrightarrow>
     distinct (map er_key (pg_events x))
     \<and> (\<forall>r \<in> set (pg_events x). (\<exists>e. scan_row env r = Inr e)
          \<and> (\<exists>v. pg_revisions x (er_tenant_id r, er_persistence_id r) = Some v \<and> er_sequence_number r \<le> v))"

lemma pg_clock_simps [simp]:
  "record_rows t p (x\<lparr>pg_clock := n\<rparr>) = record_rows t p x"
  "pg_journal env (x\<lparr>pg_clock := n\<rparr>) = pg_journal env x" "pg_revision (x\<lparr>pg_clock := n\<rparr>) = pg_revision x"
  "pg_ok env (x\<lparr>pg_clock := n\<rparr>) = pg_ok env x"
  by (simp_all add: record_rows_def pg_journal_def pg_revision_def pg_ok_def fun_eq_iff)

lemma row_event_seq:
  assumes "pg_ok env x" and "r \<in> set (pg_events x)"
  shows "scan_row env r = Inr (row_event env r)" "ev_sequence_number (row_event env r) = er_sequence_number r"
    "ev_persistence_id (row_event env r) = er_persistence_id r" "ev_timestamp (row_event env r) = er_timestamp r"
    "ev_shard (row_event env r) = er_shard_number r"
proof -
  from assms obtain e where e: "scan_row env r = Inr e" by (auto simp: pg_ok_def)
  with scan_row_fields [OF e] show "scan_row env r = Inr (row_event env r)"
    "ev_sequence_number (row_event env r) = er_sequence_number r"
    "ev_persistence_id (row_event env r) = er_persistence_id r" "ev_timestamp (row_event env r) = er_timestamp r"
    "ev_shard (row_event env r) = er_shard_number r"
    by (simp_all add: row_event_def)
qed

lemma record_rows_mem: "r \<in> set (record_rows t p x) \<longleftrightarrow> r \<in> set (pg_events x) \<and> er_tenant_id r = t \<and> er_persistence_id r = p"
  by (auto simp: record_rows_def)

lemma record_seqs:
  assumes "pg_ok env x"
  shows "map ev_sequence_number (map (row_event env) (record_rows t p x)) = map er_sequence_number (record_rows t p x)"
  using row_event_seq(2) [OF assms] by (simp add: record_rows_mem)

lemma record_distinct:
  assumes "pg_ok env x"
  shows "distinct (map er_sequence_number (record_rows t p x))"
proof -
  have "distinct (map er_key (record_rows t p x))"
    using assms unfolding pg_ok_def record_rows_def by (simp add: distinct_map_filter)
  then show ?thesis by (auto simp: distinct_map inj_on_def er_key_def record_rows_mem)
qed

lemma record_ev_distinct: "pg_ok env x \<Longrightarrow> distinct (map ev_sequence_number (map (row_event env) (record_rows t p x)))"
  unfolding record_seqs by (rule record_distinct)

lemma scanEvents_rows: "\<forall>r \<in> set rs. scan_row env r = Inr (row_event env r) \<Longrightarrow> scanEvents env rs = Inr (map (row_event env) rs)"
  by (induction rs) simp_all

lemma pg_journal_key:
  assumes ok: "pg_ok env x" and "pg_journal env x sc pid n = Some e"
  shows "ev_sequence_number e = n \<and> ev_persistence_id e = pid"
proof -
  from assms(2) have "wf_scope sc" and e: "ev_map (map (row_event env) (record_rows (tenant_key sc) pid x)) n = Some e"
    by (auto simp: pg_journal_def split: if_splits)
  from e [unfolded ev_map_eq_Some [OF record_ev_distinct [OF ok]]]
  show ?thesis using row_event_seq(3) [OF ok] by (auto simp: record_rows_mem)
qed

lemma pg_revision_bound:
  assumes ok: "pg_ok env x" and "n \<in> dom (pg_journal env x sc pid)"
  shows "\<exists>r. pg_revision x sc pid = Some r \<and> n \<le> r"
proof -
  from assms(2) have wf: "wf_scope sc" by (auto simp: pg_journal_def split: if_splits)
  with assms(2) obtain r where r: "r \<in> set (record_rows (tenant_key sc) pid x)" "n = ev_sequence_number (row_event env r)"
    by (auto simp: pg_journal_def dom_ev_map)
  then have "r \<in> set (pg_events x)" by (simp add: record_rows_mem)
  with ok r wf row_event_seq(2) [OF ok this] show ?thesis
    by (auto simp: pg_ok_def pg_revision_def record_rows_mem)
qed

section \<open>The laws of the contract\<close>

lemma ev_map_append_fresh:
  "fresh_events (ev_map evs) new \<Longrightarrow> ev_map (evs @ new) = ev_override (ev_map evs) new"
proof (induction new arbitrary: evs)
  case (Cons e new)
  then have n: "ev_sequence_number e \<notin> ev_sequence_number ` set evs" by (auto simp: fresh_events_def dom_ev_map)
  moreover have "\<forall>a \<in> set new. ev_sequence_number a \<noteq> ev_sequence_number e"
    using Cons.prems by (simp add: fresh_events_def image_iff) metis
  ultimately have "fresh_events (ev_map (evs @ [e])) new"
    using Cons.prems by (simp add: fresh_events_def ev_map_snoc dom_ev_map)
  from Cons.IH [OF this] show ?case by (simp add: ev_map_snoc [OF n] ev_override_def fun_upd_def)
qed (simp add: ev_override_def)

text \<open>Rows of one record are appended, and its revision is raised.\<close>

definition pg_appends ::
    "'m pg_env \<Rightarrow> Scope \<Rightarrow> string \<Rightarrow> Event list \<Rightarrow> event_row list \<Rightarrow> pg_db \<Rightarrow> pg_db \<Rightarrow> bool" where
  "pg_appends env sc pid evs new x x' \<longleftrightarrow>
     pg_env_ok env \<and> pg_ok env x \<and> wf_scope sc
     \<and> (\<forall>e \<in> set evs. ev_persistence_id e = pid) \<and> list_all plain_event evs
     \<and> list_all2 (\<lambda>e r. event_columns env (tenant_key sc) e = Inr r) evs new
     \<and> pg_events x' = foldl add_row (pg_events x) new
     \<and> pg_revisions x' = (pg_revisions x)((tenant_key sc, pid) \<mapsto> rev_advance (pg_revision x sc pid) evs)"

lemma appended_rows:
  assumes a: "pg_appends env sc pid evs new x x'"
  shows "map er_key new = map (\<lambda>e. (tenant_key sc, pid, ev_sequence_number e)) evs" (is ?keys)
    "map (row_event env) new = evs" (is ?events)
    "\<forall>r \<in> set new. \<exists>e \<in> set evs. er_key r = (tenant_key sc, pid, ev_sequence_number e) \<and> scan_row env r = Inr e" (is ?rows)
proof -
  from a have env: "pg_env_ok env" and "list_all2 (\<lambda>e r. event_columns env (tenant_key sc) e = Inr r) evs new"
    and "\<forall>e \<in> set evs. ev_persistence_id e = pid" "list_all plain_event evs"
    by (simp_all add: pg_appends_def)
  from this(2-) have "?keys \<and> ?events \<and> ?rows"
  proof (induction rule: list_all2_induct)
    case (Cons e evs r new)
    with event_columns_key [OF Cons.hyps(1)] scan_columns [OF env _ Cons.hyps(1)] show ?case
      by (auto simp: row_event_def)
  qed simp
  then show ?keys ?events ?rows by blast+
qed

lemma pg_append_ok:
  assumes a: "pg_appends env sc pid evs new x x'"
  shows "pg_ok env x'"
  unfolding pg_ok_def
proof (intro conjI ballI)
  from a have ok: "pg_ok env x" and wf: "wf_scope sc" and rows: "pg_events x' = foldl add_row (pg_events x) new"
    and rev: "pg_revisions x' = (pg_revisions x)((tenant_key sc, pid) \<mapsto> rev_advance (pg_revision x sc pid) evs)"
    by (simp_all add: pg_appends_def)
  show "distinct (map er_key (pg_events x'))"
    unfolding rows using ok by (intro add_rows_distinct) (simp add: pg_ok_def)
  have adv: "ev_sequence_number e \<le> rev_advance (pg_revision x sc pid) evs" if "e \<in> set evs" for e
    using that by (auto simp: rev_advance_def intro: fold_max_ge_mem)
  have up: "v \<le> rev_advance (Some v) evs" for v by (simp add: rev_advance_def fold_max_ge)
  fix r assume "r \<in> set (pg_events x')"
  then consider "r \<in> set (pg_events x)" | "r \<in> set new" using add_rows_sets [of "pg_events x" new] rows by auto
  then have "(\<exists>e. scan_row env r = Inr e)
    \<and> (\<exists>v. pg_revisions x' (er_tenant_id r, er_persistence_id r) = Some v \<and> er_sequence_number r \<le> v)"
  proof cases
    case 1
    with ok obtain e v where "scan_row env r = Inr e"
      and v: "pg_revisions x (er_tenant_id r, er_persistence_id r) = Some v" "er_sequence_number r \<le> v"
      by (auto simp: pg_ok_def)
    with up [of v] wf show ?thesis by (auto simp: rev pg_revision_def intro: order_trans)
  next
    case 2
    with appended_rows(3) [OF a] adv show ?thesis by (fastforce simp: rev er_key_def)
  qed
  then show "\<exists>e. scan_row env r = Inr e"
    "\<exists>v. pg_revisions x' (er_tenant_id r, er_persistence_id r) = Some v \<and> er_sequence_number r \<le> v" by blast+
qed

lemma pg_append_revision:
  assumes "pg_appends env sc pid evs new x x'"
  shows "pg_revision x' = (pg_revision x)(sc := (pg_revision x sc)(pid \<mapsto> rev_advance (pg_revision x sc pid) evs))"
proof -
  from assms have wf: "wf_scope sc" by (simp add: pg_appends_def)
  with assms tenant_key_inj [OF _ wf] show ?thesis by (auto simp: fun_eq_iff pg_revision_def pg_appends_def)
qed

text \<open>New sequence numbers are new keys.\<close>

lemma pg_append_fresh:
  assumes a: "pg_appends env sc pid evs new x x'" and fresh: "fresh_events (pg_journal env x sc pid) evs"
  shows "pg_events x' = pg_events x @ new"
proof -
  from a have ok: "pg_ok env x" and wf: "wf_scope sc" and rows: "pg_events x' = foldl add_row (pg_events x) new"
    by (simp_all add: pg_appends_def)
  have "distinct (map er_key new)"
    using fresh unfolding appended_rows(1) [OF a] fresh_events_def by (auto simp: distinct_map inj_on_def)
  moreover have "er_key ` set new \<inter> er_key ` set (pg_events x) = {}"
  proof (intro equals0I, elim IntE imageE)
    fix k q r assume r: "r \<in> set new" "k = er_key r" and q: "q \<in> set (pg_events x)" "k = er_key q"
    with appended_rows(3) [OF a] obtain e where e: "e \<in> set evs" "er_key q = (tenant_key sc, pid, ev_sequence_number e)"
      by fastforce
    then have "q \<in> set (record_rows (tenant_key sc) pid x)" "er_sequence_number q = ev_sequence_number e"
      using q by (auto simp: record_rows_mem er_key_def)
    with row_event_seq(2) [OF ok q(1)] have "ev_sequence_number e \<in> dom (pg_journal env x sc pid)"
      using wf by (simp add: pg_journal_def dom_ev_map image_iff) metis
    with fresh e(1) show False by (auto simp: fresh_events_def)
  qed
  ultimately show ?thesis unfolding rows by (rule add_rows_fresh)
qed

lemma pg_append_journal:
  assumes a: "pg_appends env sc pid evs new x x'" and fresh: "fresh_events (pg_journal env x sc pid) evs"
  shows "pg_journal env x' = (pg_journal env x)(sc := (pg_journal env x sc)(pid := ev_override (pg_journal env x sc pid) evs))"
proof -
  let ?t = "tenant_key sc"
  have wf: "wf_scope sc" using a by (simp add: pg_appends_def)
  note app = pg_append_fresh [OF assms]
  have tp: "er_tenant_id r = ?t \<and> er_persistence_id r = pid" if "r \<in> set new" for r
    using appended_rows(3) [OF a] that by (fastforce simp: er_key_def)
  have same: "record_rows ?t pid x' = record_rows ?t pid x @ new"
    unfolding record_rows_def app filter_append by (simp add: tp)
  have other: "(t, p) \<noteq> (?t, pid) \<Longrightarrow> record_rows t p x' = record_rows t p x" for t p
    unfolding record_rows_def app filter_append using tp by (auto simp: filter_empty_conv)
  have "pg_journal env x' sc pid = ev_override (pg_journal env x sc pid) evs"
    using wf fresh ev_map_append_fresh by (simp add: pg_journal_def same appended_rows(2) [OF a])
  moreover have "pg_journal env x' sc' p = pg_journal env x sc' p" if "(sc', p) \<noteq> (sc, pid)" for sc' p
    using that other [of "tenant_key sc'" p] tenant_key_inj [OF _ wf, of sc'] by (auto simp: pg_journal_def)
  ultimately show ?thesis by (auto simp: fun_eq_iff)
qed

text \<open>A write that succeeds has appended its rows and raised the revision.\<close>

lemma highest_same:
  assumes "\<forall>e \<in> set evs. ev_persistence_id e = pid"
  shows "foldl highest_step (m(pid \<mapsto> h)) evs = m(pid \<mapsto> fold max (map ev_sequence_number evs) h)"
  using assms
proof (induction evs arbitrary: h)
  case (Cons e evs)
  from Cons.prems have p: "ev_persistence_id e = pid" by simp
  have "highest_step (m(pid \<mapsto> h)) e = m(pid \<mapsto> max (ev_sequence_number e) h)"
  proof (cases "h < ev_sequence_number e")
    case True
    then show ?thesis by (simp add: p max.absorb1)
  next
    case False
    then show ?thesis by (simp add: p max.absorb2 leI)
  qed
  with Cons show ?case by (simp del: highest_step.simps fun_upd_apply)
qed simp

lemma remdups_same: "\<forall>x \<in> set xs. f x = p \<Longrightarrow> xs \<noteq> [] \<Longrightarrow> remdups (map f xs) = [p]"
proof (induction xs)
  case (Cons x xs)
  then show ?case by (cases xs) auto
qed simp

lemma writeUnconditional_appends:
  assumes env: "pg_env_ok env" "pg_ok env x" "wf_scope sc" "list_all plain_event evs"
    and pid: "\<forall>e \<in> set evs. ev_persistence_id e = pid" and ne: "evs \<noteq> []"
    and w: "pg_writeUnconditional env (tenant_key sc) evs x = Some (None, x')"
  shows "\<exists>new. pg_appends env sc pid evs new x x'"
proof -
  from ne obtain e es where evs: "evs = e # es" by (cases evs) auto
  define h where "h = fold max (map ev_sequence_number es) (ev_sequence_number e)"
  have ids: "remdups (map ev_persistence_id evs) = [pid]" using pid ne by (rule remdups_same)
  have "foldl highest_step Map.empty evs = [pid \<mapsto> h]"
    using highest_same [of es pid Map.empty "ev_sequence_number e"] pid by (simp add: evs h_def)
  with w ne obtain x2 where
    "tx_bind (tx_each (\<lambda>p. tx_wrap ''advance revision: '' (pg_exec env (StUpsertRevision (tenant_key sc) p (the ([pid \<mapsto> h] p)))
        (upsert_revision (tenant_key sc) p (the ([pid \<mapsto> h] p))))) [pid])
      (\<lambda>_. tx_each (insertEvent env True (tenant_key sc)) evs) (tick x) = (Inr (), x2)" and x': "x' = tick x2"
    by (auto simp: pg_writeUnconditional_def Let_def ids elim: pg_transaction_ok)
  moreover define x1 where "x1 = x\<lparr>pg_clock := Suc (Suc (pg_clock x)), pg_revisions := (pg_revisions x)((tenant_key sc, pid) \<mapsto>
    (case pg_revisions x (tenant_key sc, pid) of None \<Rightarrow> h | Some r \<Rightarrow> max r h))\<rparr>"
  ultimately have b: "tx_each (insertEvent env True (tenant_key sc)) evs x1 = (Inr (), x2)"
    by (simp add: tx_iffs upsert_revision_def)
  have "max (w::u64) 0 = w" for w by (simp add: max_def)
  then have "(case pg_revisions x (tenant_key sc, pid) of None \<Rightarrow> h | Some r \<Rightarrow> max r h) = rev_advance (pg_revision x sc pid) evs"
    using env(3) fold_max_shift [of "map ev_sequence_number es" _ "ev_sequence_number e"]
    by (simp add: pg_revision_def rev_advance_def h_def evs max.commute split: option.split)
  with insertEvents_ok [OF b] x' env pid show ?thesis by (auto simp: pg_appends_def x1_def)
qed

lemma writeConditional_appends:
  assumes env: "pg_env_ok env" "pg_ok env x" "wf_scope sc" "list_all plain_event evs"
    and pid: "\<forall>e \<in> set evs. ev_persistence_id e = pid" and pre: "wp_Valid pre" "\<not> wp_IsUnconditional pre"
    and w: "pg_writeConditional env sc (tenant_key sc) pid evs pre x = Some (None, x')"
  shows "precondition_holds pre (pg_revision x sc pid) \<and> (\<exists>new. pg_appends env sc pid evs new x x')"
proof -
  let ?k = "(tenant_key sc, pid)"
  from w obtain r exists x2 x3 x4 where l: "lockRevision env (tenant_key sc) pid (tick x) = Some (Inr (r, exists), x2)"
    and c: "check_precondition sc pid pre r exists = None"
    and i: "tx_each (insertEvent env False (tenant_key sc)) evs x2 = (Inr (), x3)"
    and u: "update_revision (tenant_key sc) pid (fold max (map ev_sequence_number evs) r) (tick x3) = (Inr (), x4)" "x' = tick x4"
    unfolding pg_writeConditional_def
    by (elim pg_transaction_ok) (auto simp: tx_iffs Let_def split: option.splits prod.splits sum.splits)
  from lockRevision_ok [OF l] have k: "exists = (pg_revisions x ?k \<noteq> None)" "r = (case pg_revisions x ?k of Some v \<Rightarrow> v | None \<Rightarrow> 0)"
    "pg_events x2 = pg_events x" "pg_revisions x2 = (pg_revisions x)(?k \<mapsto> r)" by simp_all
  from insertEvents_ok [OF i] obtain new where n: "list_all2 (\<lambda>e r. event_columns env (tenant_key sc) e = Inr r) evs new"
    "pg_events x3 = foldl add_row (pg_events x) new" "pg_revisions x3 = (pg_revisions x)(?k \<mapsto> r)"
    using k by auto
  have "pg_events x' = pg_events x3 \<and> pg_revisions x' = (pg_revisions x)(?k \<mapsto> rev_advance (pg_revision x sc pid) evs)"
    using u n(3) k(2) env(3) by (auto simp: update_revision_def rev_advance_def pg_revision_def)
  with n env pid have "pg_appends env sc pid evs new x x'" by (simp add: pg_appends_def)
  moreover have "precondition_holds pre (pg_revision x sc pid)"
    using c k(1,2) pre env(3)
    by (cases "wp_mode pre") (auto simp: check_precondition_def precondition_holds_def wp_defs pg_revision_def split: if_splits option.splits)
  ultimately show ?thesis by blast
qed

lemma pg_delete_journal:
  assumes ok: "pg_ok env x" and wf: "wf_scope sc"
    and x': "pg_events x' = pg_events (snd (pg_delete (tenant_key sc) pid n x))" "pg_revisions x' = pg_revisions x"
  shows "pg_ok env x' \<and> pg_revision x' = pg_revision x
    \<and> pg_journal env x' = (pg_journal env x)(sc := (pg_journal env x sc)(pid := pg_journal env x sc pid |` {k. n < k}))"
proof -
  let ?keep = "\<lambda>r. \<not> (er_tenant_id r = tenant_key sc \<and> er_persistence_id r = pid \<and> er_sequence_number r \<le> n)"
  have ev: "pg_events x' = filter ?keep (pg_events x)" using x' by (simp add: pg_delete_def)
  have "pg_ok env x'" using ok x'(2) by (auto simp: pg_ok_def ev distinct_map_filter)
  moreover have "pg_revision x' = pg_revision x" using x'(2) by (simp add: fun_eq_iff pg_revision_def)
  moreover have at: "pg_journal env x' sc pid = pg_journal env x sc pid |` {k. n < k}"
  proof -
    have "record_rows (tenant_key sc) pid x' = filter (\<lambda>r. n < er_sequence_number r) (record_rows (tenant_key sc) pid x)"
      by (auto simp: record_rows_def ev not_le intro: filter_cong)
    moreover have "n < er_sequence_number r \<longleftrightarrow> n < ev_sequence_number (row_event env r)"
      if "r \<in> set (record_rows (tenant_key sc) pid x)" for r
      using row_event_seq(2) [OF ok] that by (simp add: record_rows_mem)
    ultimately have "map (row_event env) (record_rows (tenant_key sc) pid x')
      = filter (\<lambda>e. n < ev_sequence_number e) (map (row_event env) (record_rows (tenant_key sc) pid x))"
      by (simp add: filter_map o_def cong: filter_cong)
    with wf filter_ev_map [OF record_ev_distinct [OF ok]] show ?thesis by (simp add: pg_journal_def)
  qed
  moreover have "pg_journal env x' sc' p = pg_journal env x sc' p" if "(sc', p) \<noteq> (sc, pid)" for sc' p
  proof -
    have "record_rows (tenant_key sc') p x' = record_rows (tenant_key sc') p x" if "wf_scope sc'"
      using tenant_key_inj [OF that wf] \<open>(sc', p) \<noteq> (sc, pid)\<close> by (auto simp: record_rows_def ev intro: filter_cong)
    then show ?thesis by (simp add: pg_journal_def)
  qed
  ultimately show ?thesis by (auto simp: fun_eq_iff)
qed

lemma pg_DeleteEvents_ok:
  assumes "pg_ok env x" and "wf_scope sc" and "pg_DeleteEvents env sc pid n x = Some (None, x')"
  shows "pg_ok env x' \<and> pg_revision x' = pg_revision x
    \<and> pg_journal env x' = (pg_journal env x)(sc := (pg_journal env x sc)(pid := pg_journal env x sc pid |` {k. n < k}))"
proof (rule pg_delete_journal [OF assms(1,2)])
  from assms(2,3) obtain x2 where x': "x' = tick x2"
    and d: "tx_bind (lockRevisionIfExists env (tenant_key sc) pid) (\<lambda>_. tx_wrap ''delete events: ''
        (pg_exec env (StDeleteEvents (tenant_key sc) pid n) (pg_delete (tenant_key sc) pid n))) (tick x) = (Inr (), x2)"
    by (auto simp: pg_DeleteEvents_def scopeKey_wf elim: pg_transaction_ok)
  then show "pg_events x' = pg_events (snd (pg_delete (tenant_key sc) pid n x))" "pg_revisions x' = pg_revisions x"
    by (auto simp: lockRevisionIfExists_def tx_iffs pg_revision_row_def pg_delete_def)
qed

lemma pg_DeleteEvents_returns: "\<exists>err x'. pg_DeleteEvents env sc pid n x = Some (err, x')"
  by (auto simp: pg_DeleteEvents_def pg_transaction_returns split: sum.splits)

lemma pg_DeleteEvents_err:
  assumes "pg_DeleteEvents env sc pid n x = Some (Some err, x')"
  shows "(\<exists>m. x' = x\<lparr>pg_clock := m\<rparr>) \<or> pg_DeleteEvents (acknowledged env) sc pid n x = Some (None, x')"
proof (cases "scopeKey sc")
  case (Inl e)
  with assms have "x' = x\<lparr>pg_clock := pg_clock x\<rparr>" by (simp add: pg_DeleteEvents_def)
  then show ?thesis by blast
next
  case (Inr t)
  from pg_transaction_err [OF assms [unfolded pg_DeleteEvents_def Inr sum.case]] show ?thesis
    by (simp add: pg_DeleteEvents_def Inr lockRevisionIfExists_def acknowledged_exec)
qed

text \<open>Reads.\<close>

lemma record_events_sorted:
  assumes ok: "pg_ok env x"
  shows "map (row_event env) (sort_key er_sequence_number (filter (\<lambda>r. P (er_sequence_number r)) (record_rows t p x)))
    = sort_key ev_sequence_number (filter (\<lambda>e. P (ev_sequence_number e)) (map (row_event env) (record_rows t p x)))"
proof -
  have seq: "ev_sequence_number (row_event env r) = er_sequence_number r" if "r \<in> set (record_rows t p x)" for r
    using row_event_seq(2) [OF ok] that by (simp add: record_rows_mem)
  have "filter (\<lambda>e. P (ev_sequence_number e)) (map (row_event env) (record_rows t p x))
    = map (row_event env) (filter (\<lambda>r. P (er_sequence_number r)) (record_rows t p x))"
    by (simp add: filter_map o_def seq cong: filter_cong)
  then show ?thesis
    using map_sort_key [of "filter (\<lambda>r. P (er_sequence_number r)) (record_rows t p x)" ev_sequence_number "row_event env" er_sequence_number]
    by (simp add: seq)
qed

lemma scan_record_rows:
  assumes "pg_ok env x" and "set rs \<subseteq> set (pg_events x)"
  shows "scanEvents env rs = Inr (map (row_event env) rs)"
  using assms row_event_seq(1) [OF assms(1)] by (intro scanEvents_rows) auto

lemma pg_ReplayEvents_ok:
  assumes ok: "pg_ok env x" and wf: "wf_scope sc" and r: "pg_ReplayEvents env sc pid a b lim x = Inr evs"
  shows "evs = take (unat lim) (journal_range (pg_journal env x sc pid) a b)"
proof -
  let ?rows = "sort_key er_sequence_number
    (filter (\<lambda>r. a \<le> er_sequence_number r \<and> er_sequence_number r \<le> b) (record_rows (tenant_key sc) pid x))"
  have "scanEvents env (take (unat lim) ?rows) = Inr (map (row_event env) (take (unat lim) ?rows))"
    by (rule scan_record_rows [OF ok]) (auto dest!: in_set_takeD simp: record_rows_mem)
  with r wf have "evs = take (unat lim) (map (row_event env) ?rows)"
    by (auto simp: pg_ReplayEvents_def return_iffs scopeKey_wf pg_query_def take_map split: option.splits)
  then show ?thesis
    unfolding record_events_sorted [OF ok, of "\<lambda>n. a \<le> n \<and> n \<le> b"]
    using wf replay_journal_range [OF record_ev_distinct [OF ok]] by (simp add: pg_journal_def)
qed

lemma journal_latest_sorted:
  assumes d: "distinct (map ev_sequence_number evs)" and "evs \<noteq> []"
  shows "journal_latest (ev_map evs) = Some (last (sort_key ev_sequence_number evs))"
proof -
  define m where "m = last (sort_key ev_sequence_number evs)"
  have "sort_key ev_sequence_number evs \<noteq> []" using assms(2) by (metis set_empty set_sort)
  then have ne: "sort_key ev_sequence_number evs \<noteq> []" and m: "m \<in> set evs"
    using last_in_set unfolding m_def by (fastforce simp del: last_in_set)+
  have "ev_sequence_number e \<le> ev_sequence_number m" if "e \<in> set evs" for e
    using that ne sorted_le_last [of "map ev_sequence_number (sort_key ev_sequence_number evs)" "ev_sequence_number e"]
    by (simp add: m_def last_map)
  with m have "Max (dom (ev_map evs)) = ev_sequence_number m" unfolding dom_ev_map by (intro Max_eqI) auto
  moreover have "ev_map evs (ev_sequence_number m) = Some m" using m by (simp only: ev_map_eq_Some [OF d] simp_thms)
  moreover from this have "ev_map evs \<noteq> Map.empty" by (metis option.distinct(1))
  ultimately show ?thesis by (simp add: journal_latest_def m_def)
qed

lemma pg_GetLatestEvent_ok:
  assumes ok: "pg_ok env x" and wf: "wf_scope sc" and r: "pg_GetLatestEvent env sc pid x = Inr e"
  shows "e = journal_latest (pg_journal env x sc pid)"
proof -
  let ?rows = "record_rows (tenant_key sc) pid x"
  let ?s = "sort_key er_sequence_number ?rows"
  have "scanEvents env (take 1 (rev ?s)) = Inr (map (row_event env) (take 1 (rev ?s)))"
    by (rule scan_record_rows [OF ok]) (auto dest!: in_set_takeD simp: record_rows_mem)
  with r wf have e: "e = (case map (row_event env) (take 1 (rev ?s)) of [] \<Rightarrow> None | event # _ \<Rightarrow> Some event)"
    by (auto simp: pg_GetLatestEvent_def return_iffs scopeKey_wf pg_query_def split: option.splits)
  have s: "map (row_event env) ?s = sort_key ev_sequence_number (map (row_event env) ?rows)"
    using record_events_sorted [OF ok, of "\<lambda>_. True"] by simp
  show ?thesis
  proof (cases "?rows = []")
    case True
    with e wf show ?thesis by (simp add: pg_journal_def journal_latest_def)
  next
    case False
    then have "?s \<noteq> []" by (metis set_empty set_sort)
    then have "e = Some (last (map (row_event env) ?s))"
      using e by (cases ?s rule: rev_cases) simp_all
    with wf False journal_latest_sorted [OF record_ev_distinct [OF ok]] show ?thesis
      unfolding s by (simp add: pg_journal_def)
  qed
qed

text \<open>A precondition that does not hold is refused, with the stored revision when it was read.\<close>

lemma pg_write_conflict:
  assumes wf: "wf_scope sc" and ne: "evs \<noteq> []" and pid: "\<forall>e \<in> set evs. ev_persistence_id e = pid"
    and pre: "wp_Valid pre" "\<not> precondition_holds pre (pg_revision x sc pid)"
  shows "\<exists>err x'. pg_WriteEvents env sc evs pre x = Some (Some err, x')
    \<and> (\<forall>c. err = ErrConflict c \<longrightarrow>
         (\<exists>act. c = NewConflictError sc pid pre act \<and> (act = None \<or> act = pg_revision x sc pid)))
    \<and> (\<exists>n. x' = x\<lparr>pg_clock := n\<rparr>)"
proof -
  let ?k = "(tenant_key sc, pid)"
  from pre have nu: "\<not> wp_IsUnconditional pre" by (auto simp: precondition_holds_def wp_defs)
  have w: "pg_WriteEvents env sc evs pre x = pg_writeConditional env sc (tenant_key sc) pid evs pre x"
    using wf pre(1) nu ne pid by (cases evs) (auto simp: pg_WriteEvents_def scopeKey_wf)
  define r where "r = (case pg_revisions x ?k of Some v \<Rightarrow> v | None \<Rightarrow> 0)"
  have c: "\<exists>act. check_precondition sc pid pre r (pg_revisions x ?k \<noteq> None) = Some (ErrConflict (NewConflictError sc pid pre act))
      \<and> (act = None \<or> act = pg_revision x sc pid)"
    using pre nu wf by (cases "wp_mode pre")
      (auto simp: r_def check_precondition_def precondition_holds_def wp_defs pg_revision_def split: option.splits)
  consider (opens) err where "pe_fault env (pg_clock x) StBegin = Some err"
    | (lock) pre' err x1 where "pe_fault env (pg_clock x) StBegin = None" "lockRevision env (tenant_key sc) pid (tick x) = Some (Inl (ErrWrap pre' err ''''), x1)"
    | (locked) x1 where "pe_fault env (pg_clock x) StBegin = None" "lockRevision env (tenant_key sc) pid (tick x) = Some (Inr (r, pg_revisions x ?k \<noteq> None), x1)"
    by (cases "pe_fault env (pg_clock x) StBegin"; cases rule: lockRevision_cases [of env "tenant_key sc" pid "tick x"])
      (simp_all add: r_def)
  then show ?thesis
    using c by cases (auto simp: w pg_writeConditional_def pg_transaction_eq pg_rollback_def)
qed

section \<open>The contract\<close>

definition postgres_EventsStore :: "'m pg_env \<Rightarrow> pg_db EventsStore" where
  "postgres_EventsStore env =
     \<lparr>WriteEvents = (\<lambda>sc evs pre x. the (pg_WriteEvents env sc evs pre x)),
      DeleteEvents = (\<lambda>sc pid n x. the (pg_DeleteEvents env sc pid n x)),
      ReplayEvents = pg_ReplayEvents env,
      GetLatestEvent = pg_GetLatestEvent env\<rparr>"

lemma pg_WriteEvents_ok:
  assumes "pg_env_ok env" and "pg_ok env x" and "wf_scope sc" and "list_all plain_event evs"
    and pid: "\<forall>e \<in> set evs. ev_persistence_id e = pid" and ne: "evs \<noteq> []"
    and w: "pg_WriteEvents env sc evs pre x = Some (None, x')"
  shows "precondition_holds pre (pg_revision x sc pid) \<and> (\<exists>new. pg_appends env sc pid evs new x x')"
proof -
  from w assms(3) have pre: "wp_Valid pre" by (auto simp: pg_WriteEvents_def scopeKey_wf split: if_splits)
  show ?thesis
  proof (cases "wp_IsUnconditional pre")
    case True
    then have "precondition_holds pre r" for r by (simp add: precondition_holds_def wp_defs)
    with writeUnconditional_appends [OF assms(1-6)] w True pre assms(3) show ?thesis
      by (simp add: pg_WriteEvents_def scopeKey_wf)
  next
    case False
    with writeConditional_appends [OF assms(1-5) pre] w pre assms(3) pid ne show ?thesis
      by (cases evs) (auto simp: pg_WriteEvents_def scopeKey_wf split: if_splits)
  qed
qed

end
