(* ===== verification/Projection_Correct.thy ===== *)
theory Projection_Correct
  imports Projection_Runner Postgres_Correct
begin

text \<open>
  What the stores owe a projection, as a locale interpreted on the PostgreSQL stores, and what the
  runner does with it: which events a batch hands to the handler, when an offset is committed, and
  the invariant that no event at or below a committed offset is without a handling.
\<close>

section \<open>What the stores owe a projection\<close>

text \<open>
  A shard is a log of events in the order of their timestamps; a page of it is the next events
  after an offset, and the offset after a page is the timestamp of its last event.  An offset whose
  write reports an error may have been written.
\<close>

locale projection_stores =
  fixes ss :: "'s ShardSource" and os :: "'o OffsetsApi" and einv :: "'s \<Rightarrow> bool"
    and shard_log :: "'s \<Rightarrow> u64 \<Rightarrow> Event list" and offset_at :: "'o \<Rightarrow> string \<Rightarrow> u64 \<Rightarrow> int option"
  assumes shard_page:
    "\<lbrakk>einv s; GetShardEvents ss sh off lim s = Inr (evs, nxt)\<rbrakk> \<Longrightarrow>
       evs = take (unat lim) (filter (\<lambda>e. off < ev_timestamp e) (shard_log s sh))
       \<and> (evs \<noteq> [] \<longrightarrow> nxt = ev_timestamp (last evs))"
    and shard_sorted: "einv s \<Longrightarrow> sorted (map ev_timestamp (shard_log s sh))"
    and shard_heads:
    "\<lbrakk>einv s; ShardOffsets ss s = Inr m\<rbrakk> \<Longrightarrow>
       m sh = (if shard_log s sh = [] then None else Some (ev_timestamp (last (shard_log s sh))))"
    and offset_written:
    "WriteOffset os ofs db = (None, db') \<Longrightarrow>
       offset_at db' = (offset_at db)(of_projection_name ofs :=
         (offset_at db (of_projection_name ofs))(of_shard_number ofs \<mapsto> of_value ofs))"
    and offset_refused:
    "WriteOffset os ofs db = (Some err, db') \<Longrightarrow>
       offset_at db' = offset_at db
       \<or> offset_at db' = (offset_at db)(of_projection_name ofs :=
           (offset_at db (of_projection_name ofs))(of_shard_number ofs \<mapsto> of_value ofs))"
    and offset_read:
    "GetCurrentOffset os p db = Inr r \<Longrightarrow>
       map_option of_value r = offset_at db (pj_projection_name p) (pj_shard_number p)"

text \<open>The PostgreSQL stores.\<close>

definition postgres_ShardSource :: "'m pg_env \<Rightarrow> pg_db ShardSource" where
  "postgres_ShardSource env = \<lparr>GetShardEvents = pg_GetShardEvents env, ShardOffsets = pg_ShardOffsets env\<rparr>"

definition postgres_OffsetsApi :: "'m pg_env \<Rightarrow> pg_db OffsetsApi" where
  "postgres_OffsetsApi env =
     \<lparr>WriteOffset = pg_WriteOffset env, GetCurrentOffset = pg_GetCurrentOffset env, ResetOffset = pg_ResetOffset env\<rparr>"

definition pg_shard_log :: "'m pg_env \<Rightarrow> pg_db \<Rightarrow> u64 \<Rightarrow> Event list" where
  "pg_shard_log env x sh =
     map (row_event env) (sort_key er_timestamp (filter (\<lambda>r. er_shard_number r = sh) (pg_events x)))"

definition pg_offset_at :: "pg_db \<Rightarrow> string \<Rightarrow> u64 \<Rightarrow> int option" where
  "pg_offset_at x name sh = map_option fst (pg_offsets x (name, sh))"


lemma pg_shard_page:
  assumes ok: "pg_ok env x" and r: "pg_GetShardEvents env sh off lim x = Inr (evs, nxt)"
  shows "evs = take (unat lim) (filter (\<lambda>e. off < ev_timestamp e) (pg_shard_log env x sh))
    \<and> (evs \<noteq> [] \<longrightarrow> nxt = ev_timestamp (last evs))"
proof -
  let ?rows = "sort_key er_timestamp (filter (\<lambda>r. er_shard_number r = sh \<and> off < er_timestamp r) (pg_events x))"
  let ?log = "sort_key er_timestamp (filter (\<lambda>r. er_shard_number r = sh) (pg_events x))"
  have "scanEvents env (take (unat lim) ?rows) = Inr (map (row_event env) (take (unat lim) ?rows))"
    by (rule scan_record_rows [OF ok]) (auto dest!: in_set_takeD)
  with r have e: "evs = take (unat lim) (map (row_event env) ?rows)" "evs \<noteq> [] \<longrightarrow> nxt = ev_timestamp (last evs)"
    by (auto simp: pg_GetShardEvents_def return_iffs pg_query_def take_map split: option.splits if_splits)
  have "?rows = filter (\<lambda>r. off < er_timestamp r) ?log"
    by (simp add: filter_sort conj_commute)
  moreover have "filter (\<lambda>r. off < er_timestamp r) ?log = filter (\<lambda>r. off < ev_timestamp (row_event env r)) ?log"
    using row_event_seq(4) [OF ok] by (intro filter_cong) simp_all
  ultimately have "map (row_event env) ?rows = filter (\<lambda>e. off < ev_timestamp e) (pg_shard_log env x sh)"
    by (simp add: pg_shard_log_def filter_map o_def)
  with e show ?thesis by simp
qed

lemma pg_shard_log_timestamps:
  assumes "pg_ok env x"
  shows "map ev_timestamp (pg_shard_log env x sh) =
    map er_timestamp (sort_key er_timestamp (filter (\<lambda>r. er_shard_number r = sh) (pg_events x)))"
  using row_event_seq(4) [OF assms] by (simp add: pg_shard_log_def)

lemma shard_max_last:
  "shard_max rows sh =
     (let s = sort_key er_timestamp (filter (\<lambda>r. er_shard_number r = sh) rows) in
      if s = [] then None else Some (last (map er_timestamp s)))"
proof (cases "filter (\<lambda>r. er_shard_number r = sh) rows")
  case Nil
  then show ?thesis by (simp add: shard_max_def)
next
  case (Cons r rs)
  let ?s = "map er_timestamp (sort_key er_timestamp (r # rs))"
  let ?m = "fold max (map er_timestamp rs) (er_timestamp r)"
  have set: "set ?s = insert (er_timestamp r) (er_timestamp ` set rs)" by (simp add: set_insort_key)
  have ne: "?s \<noteq> []" using set by auto
  have "?m \<in> set ?s" using fold_max_in [of "map er_timestamp rs" "er_timestamp r"] set by simp
  then have "?m \<le> last ?s" by (rule sorted_le_last [OF sorted_sort_key])
  moreover have "last ?s \<le> ?m"
    using last_in_set [OF ne] set fold_max_ge [of "er_timestamp r"] fold_max_ge_mem [of _ "map er_timestamp rs"] by auto
  ultimately have "last ?s = ?m" by simp
  moreover have "sort_key er_timestamp (r # rs) \<noteq> []" using ne by auto
  ultimately show ?thesis unfolding shard_max_def Cons by (simp add: Let_def)
qed

interpretation pgp: projection_stores "postgres_ShardSource env" "postgres_OffsetsApi env" "pg_ok env"
    "pg_shard_log env" pg_offset_at for env :: "'m pg_env"
proof
  fix s :: pg_db and sh off lim evs nxt
  assume "pg_ok env s" "GetShardEvents (postgres_ShardSource env) sh off lim s = Inr (evs, nxt)"
  then show "evs = take (unat lim) (filter (\<lambda>e. off < ev_timestamp e) (pg_shard_log env s sh))
    \<and> (evs \<noteq> [] \<longrightarrow> nxt = ev_timestamp (last evs))"
    by (intro pg_shard_page) (simp_all add: postgres_ShardSource_def)
next
  fix s :: pg_db and sh
  assume "pg_ok env s"
  then show "sorted (map ev_timestamp (pg_shard_log env s sh))" by (simp add: pg_shard_log_timestamps)
next
  fix s :: pg_db and sh m
  assume h: "pg_ok env s" "ShardOffsets (postgres_ShardSource env) s = Inr m"
  then have "m sh = shard_max (pg_events s) sh"
    by (auto simp: postgres_ShardSource_def pg_ShardOffsets_def pg_query_def split: option.splits)
  moreover have "pg_shard_log env s sh \<noteq> [] \<Longrightarrow>
      ev_timestamp (last (pg_shard_log env s sh)) = last (map ev_timestamp (pg_shard_log env s sh))"
    by (simp add: last_map)
  ultimately show "m sh = (if pg_shard_log env s sh = [] then None else Some (ev_timestamp (last (pg_shard_log env s sh))))"
    unfolding pg_shard_log_timestamps [OF h(1)] shard_max_last by (simp add: Let_def pg_shard_log_def)
qed (auto simp: postgres_OffsetsApi_def pg_WriteOffset_def pg_GetCurrentOffset_def pg_autocommit_def pg_exec_def pg_query_def Let_def
    pg_offset_at_def fun_eq_iff return_iffs option.map_comp o_def case_prod_unfold split: option.splits)

section \<open>One event\<close>

text \<open>The application moves and the trace grows; the stores stay.\<close>

definition app_step :: "('s, 'o, 'h) proj_world \<Rightarrow> ('s, 'o, 'h) proj_world \<Rightarrow> bool" where
  "app_step w w' \<longleftrightarrow> pw_events w' = pw_events w \<and> pw_offsets w' = pw_offsets w \<and> (\<exists>tr. pw_trace w' = pw_trace w @ tr)"

lemma app_step_refl [simp]: "app_step w w"
  by (simp add: app_step_def)

lemma app_step_trans [trans]: "app_step u v \<Longrightarrow> app_step v w \<Longrightarrow> app_step u w"
  by (auto simp: app_step_def)

lemma app_step_emit: "app_step w (pw_emit eff (w\<lparr>pw_app := h\<rparr>))"
  by (simp add: app_step_def pw_emit_def)

lemma pw_emit_trace [simp]: "pw_trace (pw_emit eff w) = pw_trace w @ [eff]"
  by (simp add: pw_emit_def)

lemma app_step_trace: "app_step w w' \<Longrightarrow> eff \<in> set (pw_trace w) \<Longrightarrow> eff \<in> set (pw_trace w')"
  by (auto simp: app_step_def)

text \<open>What every attempt keeps, and what the last attempt leaves, a retried call has at its end.\<close>

lemma retry_from_keeps:
  assumes "retry_from m ended fn n w = (err, w')" and "I w"
    and "\<And>w err w'. I w \<Longrightarrow> fn w = (err, w') \<Longrightarrow> I w' \<and> Q err w'"
  shows "I w' \<and> Q err w'"
  using assms
proof (induction m ended fn n w rule: retry_from.induct)
  case (1 m ended fn n w)
  obtain e w1 where f: "fn w = (e, w1)" by (cases "fn w")
  note q = "1.prems"(3) [OF "1.prems"(2) f]
  show ?case
  proof (cases "e = None \<or> m \<le> int n \<or> ended n")
    case True
    with "1.prems"(1) f q show ?thesis by (subst (asm) retry_from.simps) (auto split: option.splits if_splits)
  next
    case False
    then obtain e' where e: "e = Some e'" "\<not> m \<le> int n" "\<not> ended n" by auto
    with "1.prems"(1) f have "retry_from m ended fn (Suc n) w1 = (err, w')" by (subst (asm) retry_from.simps) simp
    from "1.IH" [OF f [symmetric] e this conjunct1 [OF q] "1.prems"(3)] show ?thesis .
  qed
qed

lemma handleSafely_spec:
  assumes "handleSafely ctx pid ev n x w = (err, w')"
  shows "app_step w w' \<and> Handled pid ev n err \<in> set (pw_trace w')"
  using assms
  by (auto simp: handleSafely_def Let_def app_step_emit split: prod.splits handle_outcome.splits)

lemma retryHandle_spec:
  assumes "retryHandle ctx pid ev n x w = (err, w')"
  shows "app_step w w' \<and> Handled pid ev n err \<in> set (pw_trace w')"
proof -
  have "app_step w v \<Longrightarrow> handleSafely ctx pid ev n x v = (e, v') \<Longrightarrow> app_step w v' \<and> Handled pid ev n e \<in> set (pw_trace v')" for v e v'
    using handleSafely_spec app_step_trans by blast
  from retry_from_keeps [OF assms [unfolded retryHandle_def retryOn_def], of "app_step w", OF app_step_refl this]
  show ?thesis .
qed

definition skips :: "('s, 'o, 'h) ProjRunner \<Rightarrow> bool" where
  "skips x \<longleftrightarrow> rc_policy (pr_recovery x) = PolicySkip \<or> rc_policy (pr_recovery x) = PolicyRetryAndSkip"

text \<open>
  An event is settled in a trace: the handler accepted it or, under a policy that skips, refused it
  and the event went to the dead-letter handler, if there is one.
\<close>

definition settled_payload ::
    "('s, 'o, 'h) ProjRunner \<Rightarrow> string \<Rightarrow> any_pb option \<Rightarrow> u64 \<Rightarrow> proj_effect list \<Rightarrow> bool" where
  "settled_payload x pid ev n tr \<longleftrightarrow>
     Handled pid ev n None \<in> set tr
     \<or> skips x \<and> (\<exists>err. Handled pid ev n (Some err) \<in> set tr
          \<and> (pr_deadLetterHandler x \<noteq> None \<longrightarrow> DeadLettered pid ev n err \<in> set tr))"

definition settled_event :: "'m AnyCodec \<Rightarrow> ('s, 'o, 'h) ProjRunner \<Rightarrow> Event \<Rightarrow> proj_effect list \<Rightarrow> bool" where
  "settled_event cod x e tr \<longleftrightarrow>
     (\<exists>ctx ev. event_payload cod ctx e x = Inr ev \<and> settled_payload x (ev_persistence_id e) ev (ev_sequence_number e) tr)"

lemma settled_event_mono: "settled_event cod x e tr \<Longrightarrow> set tr \<subseteq> set tr' \<Longrightarrow> settled_event cod x e tr'"
  unfolding settled_event_def settled_payload_def by (meson subsetD)

lemma settled_event_step: "settled_event cod x e (pw_trace w) \<Longrightarrow> app_step w w' \<Longrightarrow> settled_event cod x e (pw_trace w')"
  by (erule settled_event_mono) (auto simp: app_step_def)

lemma sendToDeadLetter_spec:
  "app_step w (sendToDeadLetter ctx pid ev n err x w)
   \<and> (pr_deadLetterHandler x \<noteq> None \<longrightarrow> DeadLettered pid ev n err \<in> set (pw_trace (sendToDeadLetter ctx pid ev n err x w)))"
  by (auto simp: sendToDeadLetter_def app_step_emit split: option.split prod.split)

lemma handleWithPolicy_spec:
  assumes "handleWithPolicy ctx pid ev n x w = (err, w')"
  shows "app_step w w' \<and> (err = None \<longrightarrow> settled_payload x pid ev n (pw_trace w'))"
proof -
  have skip: "app_step w w' \<and> (err = None \<longrightarrow> settled_payload x pid ev n (pw_trace w'))"
    if "skips x" and call: "call = (e, w1)" "app_step w w1 \<and> Handled pid ev n e \<in> set (pw_trace w1)"
      and "(case call of (None, w') \<Rightarrow> (None, w') | (Some err, w') \<Rightarrow> (None, sendToDeadLetter ctx pid ev n err x w')) = (err, w')"
    for call e w1
  proof (cases e)
    case None
    with that show ?thesis by (auto simp: settled_payload_def)
  next
    case (Some c)
    with that have w': "w' = sendToDeadLetter ctx pid ev n c x w1" by simp
    note d = sendToDeadLetter_spec [of w1 ctx pid ev n c x, folded w']
    from d call Some have "app_step w w'" "Handled pid ev n (Some c) \<in> set (pw_trace w')"
      using app_step_trans app_step_trace by blast+
    with d \<open>skips x\<close> show ?thesis by (auto simp: settled_payload_def)
  qed
  obtain e1 w1 where h: "handleSafely ctx pid ev n x w = (e1, w1)" by (cases "handleSafely ctx pid ev n x w")
  obtain e2 w2 where r: "retryHandle ctx pid ev n x w = (e2, w2)" by (cases "retryHandle ctx pid ev n x w")
  from assms handleSafely_spec [OF h] retryHandle_spec [OF r] skip [OF _ h] skip [OF _ r] show ?thesis
    by (cases "rc_policy (pr_recovery x)") (auto simp: handleWithPolicy_def h r settled_payload_def skips_def)
qed

lemma processEnvelope_spec:
  assumes "processEnvelope cod ctx e x w = (err, w')"
  shows "app_step w w' \<and> (err = None \<longrightarrow> settled_event cod x e (pw_trace w'))"
  using assms handleWithPolicy_spec by (fastforce simp: processEnvelope_def settled_event_def split: sum.splits)

lemma processEach_spec:
  assumes "processEach cod ctx evs x w = (err, w')"
  shows "app_step w w' \<and> (case err of
      None \<Rightarrow> \<forall>e \<in> set evs. settled_event cod x e (pw_trace w')
    | Some r \<Rightarrow> \<exists>c. r = EventError c)"
  using assms
proof (induction evs arbitrary: w)
  case (Cons e evs)
  obtain r w1 where p: "processEnvelope cod ctx e x w = (r, w1)" by (cases "processEnvelope cod ctx e x w")
  note s = processEnvelope_spec [OF p]
  show ?case
  proof (cases r)
    case (Some c)
    with Cons.prems p s show ?thesis by auto
  next
    case None
    with Cons.prems p have "processEach cod ctx evs x w1 = (err, w')" by simp
    from Cons.IH [OF this] s None show ?thesis
      by (auto intro: app_step_trans settled_event_step split: option.splits)
  qed
qed simp

section \<open>One shard\<close>

text \<open>What the options configure; the rest of a runner is its state.\<close>

definition same_projection :: "('s, 'o, 'h) ProjRunner \<Rightarrow> ('s, 'o, 'h) ProjRunner \<Rightarrow> bool" where
  "same_projection x0 x \<longleftrightarrow>
     pr_name x = pr_name x0 \<and> pr_handler x = pr_handler x0 \<and> pr_eventsStore x = pr_eventsStore x0
     \<and> pr_offsetsStore x = pr_offsetsStore x0 \<and> pr_recovery x = pr_recovery x0
     \<and> pr_maxBufferSize x = pr_maxBufferSize x0 \<and> pr_startingOffset x = pr_startingOffset x0
     \<and> pr_resetOffsetTo x = pr_resetOffsetTo x0 \<and> pr_deadLetterHandler x = pr_deadLetterHandler x0
     \<and> pr_eventAdapters x = pr_eventAdapters x0 \<and> pr_encryptor x = pr_encryptor x0"

lemma same_projection_refl [simp]: "same_projection x x"
  by (simp add: same_projection_def)

lemma same_projection_trans [trans]: "same_projection x y \<Longrightarrow> same_projection y z \<Longrightarrow> same_projection x z"
  by (simp add: same_projection_def)

lemma same_projection_updates [simp]:
  "same_projection x0 (x\<lparr>pr_committedOffsets := m\<rparr>) = same_projection x0 x"
  "same_projection x0 (x\<lparr>pr_sawFullBatch := b\<rparr>) = same_projection x0 x"
  "same_projection x0 (x\<lparr>pr_storeFailures := n\<rparr>) = same_projection x0 x"
  "same_projection x0 (x\<lparr>pr_nudge := b\<rparr>) = same_projection x0 x"
  "same_projection x0 (x\<lparr>pr_running := b\<rparr>) = same_projection x0 x"
  "same_projection x0 (x\<lparr>pr_stopSignal := b\<rparr>) = same_projection x0 x"
  "same_projection x0 (x\<lparr>pr_subscribed := b\<rparr>) = same_projection x0 x"
  "same_projection x0 (x\<lparr>pr_onFailure := b\<rparr>) = same_projection x0 x"
  by (simp_all add: same_projection_def)

lemma event_payload_config: "same_projection x0 x \<Longrightarrow> event_payload cod ctx e x = event_payload cod ctx e x0"
  unfolding event_payload_def by (simp add: same_projection_def cong: if_cong)

lemma settled_event_config: "same_projection x0 x \<Longrightarrow> settled_event cod x = settled_event cod x0"
  by (intro ext) (simp add: settled_event_def event_payload_config settled_payload_def skips_def, simp add: same_projection_def)

text \<open>
  The offset after a page covers the page, what came before it, and the events that share the
  timestamp at which it ends.
\<close>

lemma page_complete:
  assumes "sorted (map ts xs)" and "evs = take n (filter (\<lambda>e. off < ts e) xs)" and "evs \<noteq> []"
    and "e \<in> set xs" and "ts e \<le> (ts (last evs) :: int)"
  shows "ts e \<le> off \<or> e \<in> set evs \<or> ts e = ts (last evs)"
proof (rule ccontr)
  assume c: "\<not> (ts e \<le> off \<or> e \<in> set evs \<or> ts e = ts (last evs))"
  define rest where "rest = drop n (filter (\<lambda>e. off < ts e) xs)"
  have f: "filter (\<lambda>e. off < ts e) xs = evs @ rest" unfolding rest_def assms(2) by (rule append_take_drop_id [symmetric])
  have "e \<in> set (filter (\<lambda>e. off < ts e) xs)" using c assms(4) by simp
  then have "e \<in> set rest" using c unfolding f by simp
  moreover have "sorted_wrt (\<lambda>a b. ts a \<le> ts b) (filter (\<lambda>e. off < ts e) xs)"
    using assms(1) by (intro sorted_wrt_filter) (simp add: sorted_wrt_map)
  ultimately have "ts (last evs) \<le> ts e" unfolding f using assms(3) by (simp add: sorted_wrt_append)
  with assms(5) c show False by simp
qed

text \<open>An event is settled, or another event of its shard with the same timestamp is.\<close>

definition settled_or_tied :: "'m AnyCodec \<Rightarrow> ('s, 'o, 'h) ProjRunner \<Rightarrow> Event list \<Rightarrow> Event \<Rightarrow> proj_effect list \<Rightarrow> bool" where
  "settled_or_tied cod x log e tr \<longleftrightarrow>
     settled_event cod x e tr \<or> (\<exists>e' \<in> set log. e' \<noteq> e \<and> ev_timestamp e' = ev_timestamp e \<and> settled_event cod x e' tr)"

lemma settled_or_tiedI:
  "e' \<in> set log \<Longrightarrow> ev_timestamp e' = ev_timestamp e \<Longrightarrow> settled_event cod x e' tr \<Longrightarrow> settled_or_tied cod x log e tr"
  by (auto simp: settled_or_tied_def)

lemma settled_or_tied_mono:
  "settled_or_tied cod x log e tr \<Longrightarrow> set log \<subseteq> set log' \<Longrightarrow> set tr \<subseteq> set tr' \<Longrightarrow> settled_or_tied cod x log' e tr'"
  unfolding settled_or_tied_def using settled_event_mono by blast

lemma settled_or_tied_via:
  assumes "settled_or_tied cod x log a tr" and "a \<in> set log" and "ev_timestamp a = ev_timestamp e"
  shows "settled_or_tied cod x log e tr"
  using assms unfolding settled_or_tied_def [of _ _ _ a] by (auto intro: settled_or_tiedI)

context projection_stores
begin

definition offset_value :: "'o \<Rightarrow> string \<Rightarrow> u64 \<Rightarrow> int" where
  "offset_value db name sh = (case offset_at db name sh of Some v \<Rightarrow> v | None \<Rightarrow> 0)"

definition configured :: "('s, 'o, 'h) ProjRunner \<Rightarrow> bool" where
  "configured x0 \<longleftrightarrow> pr_eventsStore x0 = Some ss \<and> pr_offsetsStore x0 = Some os \<and> pr_startingOffset x0 = zeroTime"

definition cached_ok :: "('s, 'o, 'h) ProjRunner \<Rightarrow> ('s, 'o, 'h) proj_world \<Rightarrow> bool" where
  "cached_ok x w \<longleftrightarrow>
     (\<forall>sh v. pr_committedOffsets x sh = Some v \<longrightarrow> v \<le> offset_value (pw_offsets w) (pr_name x) sh)"

definition timed_logs :: "'s \<Rightarrow> bool" where
  "timed_logs s \<longleftrightarrow> (\<forall>sh. \<forall>e \<in> set (shard_log s sh). 0 < ev_timestamp e)"

definition nothing_lost :: "'m AnyCodec \<Rightarrow> ('s, 'o, 'h) ProjRunner \<Rightarrow> ('s, 'o, 'h) proj_world \<Rightarrow> bool" where
  "nothing_lost cod x w \<longleftrightarrow>
     (\<forall>sh. \<forall>e \<in> set (shard_log (pw_events w) sh).
        ev_timestamp e \<le> offset_value (pw_offsets w) (pr_name x) sh \<longrightarrow>
        settled_or_tied cod x (shard_log (pw_events w) sh) e (pw_trace w))"

definition proj_inv ::
    "'m AnyCodec \<Rightarrow> ('s, 'o, 'h) ProjRunner \<Rightarrow> ('s, 'o, 'h) ProjRunner \<Rightarrow> ('s, 'o, 'h) proj_world \<Rightarrow> bool" where
  "proj_inv cod x0 x w \<longleftrightarrow>
     same_projection x0 x \<and> einv (pw_events w) \<and> timed_logs (pw_events w) \<and> cached_ok x w \<and> nothing_lost cod x0 w
     \<and> (\<forall>sh. offset_value (pw_offsets w) (pr_name x0) sh = 0
          \<or> (\<exists>e \<in> set (shard_log (pw_events w) sh). ev_timestamp e = offset_value (pw_offsets w) (pr_name x0) sh))"

text \<open>Where the runner reads on: after the offset it remembers, or the stored one.\<close>

definition current :: "('s, 'o, 'h) ProjRunner \<Rightarrow> ('s, 'o, 'h) proj_world \<Rightarrow> u64 \<Rightarrow> int" where
  "current x w sh =
     (case pr_committedOffsets x sh of Some v \<Rightarrow> v | None \<Rightarrow> offset_value (pw_offsets w) (pr_name x) sh)"

lemma currentOffset_spec:
  assumes "configured x" and "cached_ok x w" and "currentOffset sh x w = Inr (off, x1)"
  shows "off \<le> offset_value (pw_offsets w) (pr_name x) sh \<and> pr_committedOffsets x1 = (pr_committedOffsets x)(sh \<mapsto> off)
    \<and> off = current x w sh \<and> same_projection x x1 \<and> cached_ok x1 w \<and> pr_running x1 = pr_running x"
proof (cases "pr_committedOffsets x sh")
  case (Some v)
  with assms show ?thesis by (auto simp: currentOffset_def configured_def cached_ok_def current_def)
next
  case None
  with assms obtain r where r: "GetCurrentOffset os \<lparr>pj_projection_name = pr_name x, pj_shard_number = sh\<rparr> (pw_offsets w) = Inr r"
    and o: "off = (case r of Some v \<Rightarrow> of_value v | None \<Rightarrow> 0)"
    and x1: "x1 = x\<lparr>pr_committedOffsets := (pr_committedOffsets x)(sh \<mapsto> off)\<rparr>"
    by (auto simp: currentOffset_def configured_def return_iffs Let_def)
  from offset_read [OF r] o have "off = offset_value (pw_offsets w) (pr_name x) sh"
    by (auto simp: offset_value_def split: option.splits)
  with x1 None assms(2) show ?thesis by (auto simp: cached_ok_def current_def)
qed

lemma proj_inv_app_step:
  assumes "proj_inv cod x0 x w" and "app_step w w'"
  shows "proj_inv cod x0 x w'"
proof -
  have eq: "pw_events w' = pw_events w" "pw_offsets w' = pw_offsets w" using assms(2) by (simp_all add: app_step_def)
  have "set (pw_trace w) \<subseteq> set (pw_trace w')" using assms(2) by (auto simp: app_step_def)
  note mono = settled_or_tied_mono [OF _ subset_refl this]
  have "nothing_lost cod x0 w'" using assms(1) by (auto simp: proj_inv_def nothing_lost_def eq intro: mono)
  with assms(1) show ?thesis by (simp add: proj_inv_def cached_ok_def eq)
qed

lemma proj_inv_state:
  "proj_inv cod x0 x w \<Longrightarrow> same_projection x x' \<Longrightarrow> cached_ok x' w \<Longrightarrow> proj_inv cod x0 x' w"
  unfolding proj_inv_def using same_projection_trans by blast

lemma configured_same: "configured x0 \<Longrightarrow> same_projection x0 x \<Longrightarrow> configured x"
  by (simp add: configured_def same_projection_def)

text \<open>The batch was settled: the offset moves to its end, and nothing at or below it is lost.\<close>

lemma proj_inv_written:
  assumes i: "proj_inv cod x0 x w" and page: "evs = take n (filter (\<lambda>e. off < ev_timestamp e) (shard_log (pw_events w) sh))" "evs \<noteq> []"
    and off: "off \<le> offset_value (pw_offsets w) (pr_name x0) sh"
    and settled: "\<forall>e \<in> set evs. settled_event cod x0 e (pw_trace w)"
    and db: "\<And>s. offset_value db (pr_name x0) s = (if s = sh then ev_timestamp (last evs) else offset_value (pw_offsets w) (pr_name x0) s)"
    and x': "same_projection x0 x'" "cached_ok x' (w\<lparr>pw_offsets := db\<rparr>)"
  shows "proj_inv cod x0 x' (w\<lparr>pw_offsets := db\<rparr>)"
proof -
  from i have e: "einv (pw_events w)" and lost: "nothing_lost cod x0 w" by (simp_all add: proj_inv_def)
  have l: "last evs \<in> set evs" "last evs \<in> set (shard_log (pw_events w) sh)"
    using last_in_set [OF page(2)] page(1) by (simp, metis filter_is_subset in_set_takeD subsetD)
  have "settled_or_tied cod x0 (shard_log (pw_events w) s) e (pw_trace w)"
    if m: "e \<in> set (shard_log (pw_events w) s)" "ev_timestamp e \<le> offset_value db (pr_name x0) s" for s e
  proof (cases "s = sh")
    case True
    with m db have "ev_timestamp e \<le> ev_timestamp (last evs)" by simp
    from page_complete [OF shard_sorted [OF e, of sh] page m(1) [unfolded True] this] consider "ev_timestamp e \<le> off" | "e \<in> set evs"
      | "ev_timestamp (last evs) = ev_timestamp e" by linarith
    then show ?thesis
    proof cases
      case 1
      with off lost m True show ?thesis by (simp add: nothing_lost_def)
    next
      case 2
      with settled show ?thesis by (simp add: settled_or_tied_def)
    next
      case 3
      with settled l True show ?thesis by (auto intro: settled_or_tiedI)
    qed
  next
    case False
    with m db lost show ?thesis by (simp add: nothing_lost_def)
  qed
  then have "nothing_lost cod x0 (w\<lparr>pw_offsets := db\<rparr>)" by (simp add: nothing_lost_def)
  with i x' l(2) show ?thesis by (auto simp: proj_inv_def db)
qed

lemma proj_inv_commit:
  assumes c: "configured x0" and i: "proj_inv cod x0 x w"
    and page: "evs = take n (filter (\<lambda>e. off < ev_timestamp e) (shard_log (pw_events w) sh))" "evs \<noteq> []" "nxt = ev_timestamp (last evs)"
    and off: "off \<le> offset_value (pw_offsets w) (pr_name x0) sh" "pr_committedOffsets x sh = Some off"
    and settled: "\<forall>e \<in> set evs. settled_event cod x0 e (pw_trace w)"
    and r: "commitOffset now sh nxt pid x w = (err, x', w')"
  shows "proj_inv cod x0 x' w' \<and> pw_events w' = pw_events w \<and> pr_running x' = pr_running x"
proof -
  from i have same: "same_projection x0 x" and cok: "cached_ok x w" by (simp_all add: proj_inv_def)
  then have name: "pr_name x = pr_name x0" and os: "pr_offsetsStore x = Some os"
    using configured_same [OF c same] by (simp_all add: same_projection_def configured_def)
  define ofs where "ofs = \<lparr>of_shard_number = sh, of_projection_name = pr_name x0, of_value = nxt, of_timestamp = time_UnixMilli now\<rparr>"
  obtain e db where w: "WriteOffset os ofs (pw_offsets w) = (e, db)" by (cases "WriteOffset os ofs (pw_offsets w)")
  have "last evs \<in> set (filter (\<lambda>e. off < ev_timestamp e) (shard_log (pw_events w) sh))"
    using last_in_set [OF page(2)] page(1) by (metis in_set_takeD)
  with page(3) have later: "off < nxt" by simp
  note wr = proj_inv_written [OF i page(1,2) off(1) settled]
  show ?thesis
  proof (cases e)
    case (Some err')
    with r w name os have x': "x' = x" "w' = w\<lparr>pw_offsets := db\<rparr>" by (auto simp: commitOffset_def Let_def ofs_def)
    from offset_refused [OF w [unfolded Some]] show ?thesis
    proof
      assume "offset_at db = offset_at (pw_offsets w)"
      with i x' show ?thesis by (simp add: proj_inv_def cached_ok_def nothing_lost_def offset_value_def)
    next
      assume "offset_at db = (offset_at (pw_offsets w))(of_projection_name ofs :=
        (offset_at (pw_offsets w) (of_projection_name ofs))(of_shard_number ofs \<mapsto> of_value ofs))"
      then have db: "offset_value db (pr_name x0) s = (if s = sh then ev_timestamp (last evs) else offset_value (pw_offsets w) (pr_name x0) s)" for s
        using page(3) by (simp add: offset_value_def ofs_def)
      have "cached_ok x (w\<lparr>pw_offsets := db\<rparr>)"
        using cok off(2) later page(3) name by (auto simp: cached_ok_def db)
      from wr [OF db same this] x' show ?thesis by simp
    qed
  next
    case None
    have x': "x' = x\<lparr>pr_committedOffsets := (pr_committedOffsets x)(sh \<mapsto> nxt)\<rparr>"
      and w': "w' = pw_emit (OffsetWritten sh nxt) (w\<lparr>pw_offsets := db\<rparr>)"
      using r w None name os by (auto simp: commitOffset_def Let_def ofs_def)
    have db: "offset_value db (pr_name x0) s = (if s = sh then ev_timestamp (last evs) else offset_value (pw_offsets w) (pr_name x0) s)" for s
      using offset_written [OF w [unfolded None]] page(3) by (simp add: offset_value_def ofs_def)
    have "same_projection x0 x'" "cached_ok x' (w\<lparr>pw_offsets := db\<rparr>)"
      using cok same page(3) name by (auto simp: cached_ok_def db x')
    from wr [OF db this] have "proj_inv cod x0 x' (w\<lparr>pw_offsets := db\<rparr>)" .
    from proj_inv_app_step [OF this, of w'] show ?thesis by (simp add: w' x' app_step_def pw_emit_def)
  qed
qed

lemma proj_inv_shard:
  assumes c: "configured x0" and i: "proj_inv cod x0 x w" and d: "doProcess cod ctx now sh x w = (err, x', w')"
  shows "proj_inv cod x0 x' w' \<and> pw_events w' = pw_events w \<and> pr_running x' = pr_running x"
proof (cases "currentOffset sh x w")
  case (Inl e)
  with d i show ?thesis by (auto simp: doProcess_def split: if_splits)
next
  case (Inr r)
  obtain off x1 where r: "currentOffset sh x w = Inr (off, x1)" using Inr by (cases r) simp
  from i have same: "same_projection x0 x" and ok: "cached_ok x w" by (simp_all add: proj_inv_def)
  from currentOffset_spec [OF configured_same [OF c same] ok r] same
  have off: "off \<le> offset_value (pw_offsets w) (pr_name x0) sh" "pr_committedOffsets x1 sh = Some off"
    and x1: "same_projection x x1" "cached_ok x1 w" "pr_running x1 = pr_running x"
    by (auto simp: same_projection_def)
  have es: "pr_eventsStore x1 = Some ss"
    using configured_same [OF c same_projection_trans [OF same x1(1)]] by (simp add: configured_def)
  note i1 = proj_inv_state [OF i x1(1,2)]
  show ?thesis
  proof (cases "GetShardEvents ss sh off (of_int (pr_maxBufferSize x1)) (pw_events w)")
    case (Inl e)
    with d r es i i1 x1 show ?thesis by (auto simp: doProcess_def split: if_splits)
  next
    case (Inr g)
    then obtain evs nxt where g: "GetShardEvents ss sh off (of_int (pr_maxBufferSize x1)) (pw_events w) = Inr (evs, nxt)"
      by (cases g) simp
    from i have "einv (pw_events w)" by (simp add: proj_inv_def)
    note p = shard_page [OF this g]
    define x2 where "x2 = (if pr_maxBufferSize x1 \<le> int (length evs) then x1\<lparr>pr_sawFullBatch := True\<rparr> else x1)"
    have i2: "proj_inv cod x0 x2 w" and run: "pr_running x2 = pr_running x" and at: "pr_committedOffsets x2 sh = Some off"
      using i1 x1(3) off(2) by (auto simp: x2_def proj_inv_def cached_ok_def)
    from d r es g have "(err, x', w') = (None, x, w) \<or> evs = [] \<and> (err, x', w') = (None, x2, w)
        \<or> evs \<noteq> [] \<and> processEvents cod ctx now sh evs nxt x2 w = (err, x', w')"
      by (auto simp: doProcess_def x2_def Let_def split: if_splits)
    then consider "x' = x \<and> w' = w" | "x' = x2 \<and> w' = w" | "evs \<noteq> []" "processEvents cod ctx now sh evs nxt x2 w = (err, x', w')" by auto
    then show ?thesis
    proof cases
      case 3
      obtain e w1 where pe: "processEach cod ctx evs x2 w = (e, w1)" by (cases "processEach cod ctx evs x2 w")
      note s = processEach_spec [OF pe]
      have i3: "proj_inv cod x0 x2 w1" using proj_inv_app_step [OF i2] s by blast
      show ?thesis
      proof (cases e)
        case (Some c)
        with 3 pe s i3 run show ?thesis by (auto simp: processEvents_def app_step_def)
      next
        case None
        with 3 pe have co: "commitOffset now sh nxt (ev_persistence_id (last evs)) x2 w1 = (err, x', w')"
          by (simp add: processEvents_def)
        have eq: "pw_events w1 = pw_events w" "pw_offsets w1 = pw_offsets w" using s by (simp_all add: app_step_def)
        have "\<forall>e \<in> set evs. settled_event cod x0 e (pw_trace w1)"
          using s None i2 settled_event_config [of x0 x2 cod] by (simp add: proj_inv_def)
        with proj_inv_commit [OF c i3 _ 3(1) _ _ at _ co, of "unat (of_int (pr_maxBufferSize x1) :: u64)"] p 3(1) off(1) eq run
        show ?thesis by simp
      qed
    qed (use i i2 run in auto)
  qed
qed

end

section \<open>Passes and runs\<close>

text \<open>
  A run of a projection: the host starts the configured runner, again after every end; the loop makes
  a pass; the runner is stopped; other writers append to the journal.  The flag says that the loop
  is there.
\<close>

inductive proj_step ::
    "'m AnyCodec \<Rightarrow> ('s \<Rightarrow> 's \<Rightarrow> bool) \<Rightarrow> ('s, 'o, 'h) ProjRunner
       \<Rightarrow> bool \<times> ('s, 'o, 'h) ProjRunner \<times> ('s, 'o, 'h) proj_world
       \<Rightarrow> bool \<times> ('s, 'o, 'h) ProjRunner \<times> ('s, 'o, 'h) proj_world \<Rightarrow> bool"
  for cod grows x0 where
  start: "pr_Start t x0 w = (None, x, w') \<Longrightarrow> proj_step cod grows x0 (l, y, w) (True, pr_Run f x, w')"
| pass: "pr_running x \<Longrightarrow> runPass cod ctx t x w = (go, x', w') \<Longrightarrow> proj_step cod grows x0 (True, x, w) (go, x', w')"
| halt: "proj_step cod grows x0 (l, x, w) (l, pr_Stop x, w)"
| journal: "grows (pw_events w) s \<Longrightarrow> proj_step cod grows x0 (l, x, w) (l, x, w\<lparr>pw_events := s\<rparr>)"

text \<open>A runner as the options leave it: it starts where the last one committed.\<close>

definition resumes :: "('s, 'o, 'h) ProjRunner \<Rightarrow> bool" where
  "resumes x0 \<longleftrightarrow>
     pr_startingOffset x0 = zeroTime \<and> pr_resetOffsetTo x0 = zeroTime \<and> pr_committedOffsets x0 = Map.empty
     \<and> \<not> pr_running x0"

lemma pr_Start_resumes:
  assumes "resumes x0" and "pr_Start t x0 w = (None, x, w')"
  shows "w' = w \<and> x = x0\<lparr>pr_running := True, pr_subscribed := (pr_eventsStream x0 \<noteq> None)\<rparr>"
  using assms by (auto simp: resumes_def pr_Start_def preStart_def split: if_splits option.splits)

text \<open>
  Events are only appended to a shard, none before another that is there, and none is removed; events
  may share a timestamp.
\<close>

definition timed :: "Event list \<Rightarrow> bool" where
  "timed evs \<longleftrightarrow> (\<forall>e \<in> set evs. 0 < ev_timestamp e)"

definition appends_only :: "('s \<Rightarrow> bool) \<Rightarrow> ('s \<Rightarrow> u64 \<Rightarrow> Event list) \<Rightarrow> ('s \<Rightarrow> 's \<Rightarrow> bool) \<Rightarrow> bool" where
  "appends_only einv shard_log grows \<longleftrightarrow>
     (\<forall>s s'. einv s \<longrightarrow> grows s s' \<longrightarrow>
        einv s' \<and> (\<forall>sh. timed (shard_log s' sh) \<and> (\<exists>new. shard_log s' sh = shard_log s sh @ new)))"

context projection_stores
begin

lemma timed_logs_timed: "timed_logs s \<longleftrightarrow> (\<forall>sh. timed (shard_log s sh))"
  by (simp add: timed_logs_def timed_def)

lemma proj_inv_shards:
  assumes "configured x0" and "proj_inv cod x0 x w" and "runShards cod ctx now shs x w = (errs, x', w')"
  shows "proj_inv cod x0 x' w' \<and> pw_events w' = pw_events w \<and> pr_running x' = pr_running x"
  using assms(2,3)
proof (induction shs arbitrary: x w errs)
  case (Cons sh shs)
  obtain err x1 w1 where d: "doProcess cod ctx now sh x w = (err, x1, w1)" by (cases "doProcess cod ctx now sh x w")
  obtain errs1 x2 w2 where s: "runShards cod ctx now shs x1 w1 = (errs1, x2, w2)" by (cases "runShards cod ctx now shs x1 w1")
  note p = proj_inv_shard [OF assms(1) Cons.prems(1) d]
  from Cons.prems(2) d s have "x2 = x'" "w2 = w'" by simp_all
  with Cons.IH [OF conjunct1 [OF p]] s p show ?case by simp
qed simp

lemma proj_inv_emit: "proj_inv cod x0 x w \<Longrightarrow> proj_inv cod x0 x (pw_emit eff w)"
  by (rule proj_inv_app_step) (auto simp: app_step_def pw_emit_def)

lemma proj_inv_updates [simp]:
  "proj_inv cod x0 (x\<lparr>pr_storeFailures := n\<rparr>) w = proj_inv cod x0 x w"
  "proj_inv cod x0 (x\<lparr>pr_sawFullBatch := b\<rparr>) w = proj_inv cod x0 x w"
  "proj_inv cod x0 (x\<lparr>pr_nudge := b\<rparr>) w = proj_inv cod x0 x w"
  "proj_inv cod x0 (x\<lparr>pr_onFailure := b\<rparr>) w = proj_inv cod x0 x w"
  "proj_inv cod x0 (pr_Stop x) w = proj_inv cod x0 x w"
  by (simp_all add: proj_inv_def cached_ok_def pr_Stop_def)

lemma proj_inv_finish:
  assumes "proj_inv cod x0 x w" and "finishPass t errs x w = (go, x', w')"
  shows "proj_inv cod x0 x' w'"
proof -
  have "proj_inv cod x0 (fst (snd (finishPass t errs x w))) (snd (snd (finishPass t errs x w)))"
    using assms(1)
    by (simp add: finishPass_def retryAfterStoreFailure_def requestPull_def Let_def proj_inv_emit split: option.split)
  with assms(2) show ?thesis by simp
qed

lemma proj_inv_pass:
  assumes c: "configured x0" and i: "proj_inv cod x0 x w" and r: "runPass cod ctx t x w = (go, x', w')"
  shows "proj_inv cod x0 x' w'"
proof (cases "pendingShards (pt_order t) x w")
  case (Inl err)
  with r i show ?thesis by (auto simp: runPass_def retryAfterStoreFailure_def Let_def proj_inv_emit)
next
  case (Inr shs)
  obtain e1 x1 w1 where a: "runShards cod ctx (pt_now t) (taken_shards t shs) x w = (e1, x1, w1)"
    by (cases "runShards cod ctx (pt_now t) (taken_shards t shs) x w")
  obtain e2 x2 w2 where b: "runShards cod ctx (pt_now t) shs x w = (e2, x2, w2)" by (cases "runShards cod ctx (pt_now t) shs x w")
  have ia: "proj_inv cod x0 x1 w1" and ib: "proj_inv cod x0 x2 w2"
    using proj_inv_shards [OF c i a] proj_inv_shards [OF c i b] by simp_all
  consider "shs = []" | "shs \<noteq> []" "cut_short t shs" | "shs \<noteq> []" "\<not> cut_short t shs" by blast
  then show ?thesis
  proof cases
    case 3
    with r Inr b have "finishPass t (reported_errors t e2) x2 w2 = (go, x', w')"
      by (simp add: runPass_def)
    from proj_inv_finish [OF ib this] show ?thesis .
  next
    case 1
    with r Inr have "x' = x\<lparr>pr_storeFailures := 0\<rparr>" "w' = w" by (auto simp: runPass_def)
    with i show ?thesis by simp
  next
    case 2
    with r Inr a have "x' = x1" "w' = w1" by (auto simp: runPass_def)
    with ia show ?thesis by simp
  qed
qed

text \<open>An event appended at the committed offset shares its timestamp with the one the offset is of.\<close>

lemma proj_inv_journal:
  assumes i: "proj_inv cod x0 x w" and g: "appends_only einv shard_log grows" "grows (pw_events w) s"
  shows "proj_inv cod x0 x (w\<lparr>pw_events := s\<rparr>)"
proof -
  let ?off = "offset_value (pw_offsets w) (pr_name x0)"
  from i have e: "einv (pw_events w)" and lost: "nothing_lost cod x0 w"
    and at: "\<And>sh. ?off sh = 0 \<or> (\<exists>a \<in> set (shard_log (pw_events w) sh). ev_timestamp a = ?off sh)"
    by (simp_all add: proj_inv_def)
  from e g have s: "einv s" "\<And>sh. timed (shard_log s sh)" "\<And>sh. \<exists>new. shard_log s sh = shard_log (pw_events w) sh @ new"
    by (auto simp: appends_only_def)
  have "settled_or_tied cod x0 (shard_log s sh) e (pw_trace w)"
    if m: "e \<in> set (shard_log s sh)" "ev_timestamp e \<le> ?off sh" for e sh
  proof -
    obtain new where new: "shard_log s sh = shard_log (pw_events w) sh @ new" using s(3) by blast
    have old: "settled_or_tied cod x0 (shard_log s sh) a (pw_trace w)"
      if "a \<in> set (shard_log (pw_events w) sh)" "ev_timestamp a \<le> ?off sh" for a
    proof (rule settled_or_tied_mono)
      show "settled_or_tied cod x0 (shard_log (pw_events w) sh) a (pw_trace w)" using that lost by (simp add: nothing_lost_def)
    qed (simp_all add: new)
    show ?thesis
    proof (cases "e \<in> set (shard_log (pw_events w) sh)")
      case True
      with old m(2) show ?thesis by blast
    next
      case False
      with m(1) new have "e \<in> set new" by simp
      have "0 < ev_timestamp e" using s(2) [of sh] m(1) by (simp add: timed_def)
      with at [of sh] m(2) obtain a where a: "a \<in> set (shard_log (pw_events w) sh)" "ev_timestamp a = ?off sh" by auto
      have "ev_timestamp a \<le> ev_timestamp e"
        using shard_sorted [OF s(1), of sh] a(1) \<open>e \<in> set new\<close> by (auto simp: new sorted_append)
      with m(2) a have "ev_timestamp a = ev_timestamp e" by simp
      with settled_or_tied_via [OF old] a new show ?thesis by simp
    qed
  qed
  then have "nothing_lost cod x0 (w\<lparr>pw_events := s\<rparr>)" by (simp add: nothing_lost_def)
  moreover have "?off sh = 0 \<or> (\<exists>a \<in> set (shard_log s sh). ev_timestamp a = ?off sh)" for sh
    using at [of sh] s(3) [of sh] by auto
  ultimately show ?thesis using i s(1,2) by (simp add: proj_inv_def cached_ok_def timed_logs_timed)
qed

lemma proj_inv_start:
  assumes "resumes x0" and "proj_inv cod x0 y w" and "pr_Start t x0 w = (None, x, w')"
  shows "proj_inv cod x0 (pr_Run f x) w'"
proof -
  note p = pr_Start_resumes [OF assms(1,3)]
  with assms(1) have "cached_ok (pr_Run f x) w" by (simp add: cached_ok_def pr_Run_def resumes_def)
  with p assms(2) show ?thesis by (simp add: proj_inv_def pr_Run_def)
qed

lemma proj_inv_run:
  assumes "configured x0" and "resumes x0" and "appends_only einv shard_log grows"
    and init: "einv (pw_events w0)" "\<forall>sh. timed (shard_log (pw_events w0) sh)"
      "\<forall>sh. offset_at (pw_offsets w0) (pr_name x0) sh = None"
    and run: "(proj_step cod grows x0)\<^sup>*\<^sup>* (False, x0, w0) (l, x, w)"
  shows "proj_inv cod x0 x w"
  using run
proof (induction "(False, x0, w0)" "(l, x, w)" arbitrary: l x w rule: rtranclp.induct)
  case rtrancl_refl
  have "0 < ev_timestamp e" if "e \<in> set (shard_log (pw_events w0) sh)" for e sh
    using init(2) that unfolding timed_def by blast
  then have "nothing_lost cod x0 w0" using init(3) by (force simp: nothing_lost_def offset_value_def)
  with init assms(2) show ?case
    by (simp add: proj_inv_def cached_ok_def resumes_def timed_logs_timed offset_value_def)
next
  case (rtrancl_into_rtrancl b)
  obtain l1 x1 w1 where b: "b = (l1, x1, w1)" by (cases b)
  have ih: "proj_inv cod x0 x1 w1" by (rule rtrancl_into_rtrancl(2) [OF b])
  from rtrancl_into_rtrancl(3) [unfolded b] show ?case
  proof cases
    case (start t y f)
    with proj_inv_start [OF assms(2) ih] show ?thesis by blast
  next
    case (pass ctx t)
    with proj_inv_pass [OF assms(1) ih] show ?thesis by blast
  next
    case halt
    with ih show ?thesis by simp
  next
    case (journal s)
    with proj_inv_journal [OF ih assms(3)] show ?thesis by simp
  qed
qed

end

section \<open>Clean passes\<close>

lemma page_rest:
  assumes "sorted (map ts xs)" and "evs = take n (filter (\<lambda>e. off < ts e) xs)" and "evs \<noteq> []"
  shows "length (filter (\<lambda>e. (ts (last evs) :: int) < ts e) xs) \<le> length (filter (\<lambda>e. off < ts e) xs) - n"
proof -
  let ?F = "filter (\<lambda>e. off < ts e) xs" and ?p = "\<lambda>e. ts (last evs) < ts e"
  have f: "?F = evs @ drop n ?F" by (simp add: assms(2))
  have "last evs \<in> set ?F" using last_in_set [OF assms(3)] assms(2) by (metis in_set_takeD)
  then have off: "off < ts (last evs)" by simp
  have "sorted (map ts evs)" using sorted_wrt_take [OF sorted_filter [OF assms(1)], of n "\<lambda>e. off < ts e"] by (simp add: assms(2) take_map)
  then have "ts e \<le> ts (last evs)" if "e \<in> set evs" for e
    using sorted_le_last [of "map ts evs" "ts e"] that assms(3) by (simp add: last_map)
  then have "filter ?p evs = []" by (force simp: filter_empty_conv)
  moreover have "filter ?p xs = filter ?p ?F" using off by (auto simp: conj_commute intro!: filter_cong)
  moreover have "filter ?p ?F = filter ?p evs @ filter ?p (drop n ?F)" by (subst f) simp
  ultimately have "length (filter ?p xs) \<le> length (drop n ?F)" by (simp del: length_drop)
  then show ?thesis by simp
qed

lemma handleWithPolicy_config: "same_projection x0 x \<Longrightarrow> handleWithPolicy ctx pid ev n x w = handleWithPolicy ctx pid ev n x0 w"
proof -
  assume c: "same_projection x0 x"
  then have h: "handleSafely ctx pid ev n x = handleSafely ctx pid ev n x0"
    by (intro ext) (simp add: handleSafely_def same_projection_def)
  from c have r: "retryHandle ctx pid ev n x w = retryHandle ctx pid ev n x0 w"
    by (simp add: retryHandle_def h) (simp add: same_projection_def)
  from c have d: "sendToDeadLetter ctx pid ev n err x = sendToDeadLetter ctx pid ev n err x0" for err
    by (intro ext) (simp add: sendToDeadLetter_def same_projection_def cong: option.case_cong)
  from c have p: "pr_recovery x = pr_recovery x0" by (simp add: same_projection_def)
  show ?thesis unfolding handleWithPolicy_def h r d p ..
qed

lemma processEnvelope_config: "same_projection x0 x \<Longrightarrow> processEnvelope cod ctx e x w = processEnvelope cod ctx e x0 w"
  by (simp add: processEnvelope_def event_payload_config handleWithPolicy_config cong: sum.case_cong)

definition processable :: "'m AnyCodec \<Rightarrow> ('s, 'o, 'h) ProjRunner \<Rightarrow> Event \<Rightarrow> bool" where
  "processable cod x e \<longleftrightarrow> (\<forall>ctx w. fst (processEnvelope cod ctx e x w) = None)"

text \<open>Stores that answer every call on this journal.\<close>

definition stores_answer :: "'s ShardSource \<Rightarrow> 'o OffsetsApi \<Rightarrow> 's \<Rightarrow> bool" where
  "stores_answer ss os s \<longleftrightarrow>
     (\<forall>sh off lim. \<exists>r. GetShardEvents ss sh off lim s = Inr r) \<and> (\<exists>m. ShardOffsets ss s = Inr m)
     \<and> (\<forall>ofs db. fst (WriteOffset os ofs db) = None) \<and> (\<forall>p db. \<exists>r. GetCurrentOffset os p db = Inr r)"

lemma processEach_clean:
  assumes "same_projection x0 x" and "\<forall>e \<in> set evs. processable cod x0 e"
  shows "fst (processEach cod ctx evs x w) = None"
  using assms(2)
proof (induction evs arbitrary: w)
  case (Cons e evs)
  obtain r w1 where p: "processEnvelope cod ctx e x w = (r, w1)" by (cases "processEnvelope cod ctx e x w")
  with Cons.prems processEnvelope_config [OF assms(1), of cod ctx e w] have "r = None"
    by (auto simp: processable_def) (metis fst_conv)
  with p Cons show ?case by simp
qed simp

context projection_stores
begin

definition pending :: "('s, 'o, 'h) ProjRunner \<Rightarrow> ('s, 'o, 'h) proj_world \<Rightarrow> u64 \<Rightarrow> Event list" where
  "pending x w sh = filter (\<lambda>e. current x w sh < ev_timestamp e) (shard_log (pw_events w) sh)"

lemma pending_updates [simp]:
  "pending (x\<lparr>pr_storeFailures := k\<rparr>) w sh = pending x w sh"
  "pending (x\<lparr>pr_storeFailures := k, pr_sawFullBatch := b\<rparr>) w sh = pending x w sh"
  "pending (requestPull x) w sh = pending x w sh"
  by (simp_all add: pending_def current_def requestPull_def cong: option.case_cong)

lemma current_stored:
  assumes "proj_inv cod x0 x w"
  shows "current x w sh \<le> offset_value (pw_offsets w) (pr_name x0) sh"
proof -
  from assms have "pr_name x = pr_name x0" "cached_ok x w" by (simp_all add: proj_inv_def same_projection_def)
  then show ?thesis by (auto simp: current_def cached_ok_def split: option.split)
qed

lemma currentOffset_answers:
  assumes "configured x" and "stores_answer ss os s"
  shows "\<exists>off x1. currentOffset sh x w = Inr (off, x1)"
proof (cases "pr_committedOffsets x sh")
  case None
  obtain r where "GetCurrentOffset os \<lparr>pj_projection_name = pr_name x, pj_shard_number = sh\<rparr> (pw_offsets w) = Inr r"
    using assms(2) unfolding stores_answer_def by blast
  with None assms(1) show ?thesis by (simp add: currentOffset_def configured_def Let_def)
qed (use assms in \<open>simp add: currentOffset_def\<close>)

lemma commitOffset_clean:
  assumes "pr_offsetsStore x = Some os" and "stores_answer ss os s"
    and "commitOffset now sh nxt pid x w = (err, x', w')"
  shows "err = None \<and> pw_events w' = pw_events w \<and> (\<forall>s'. current x' w' s' = (if s' = sh then nxt else current x w s'))"
proof -
  define ofs where "ofs = \<lparr>of_shard_number = sh, of_projection_name = pr_name x, of_value = nxt, of_timestamp = time_UnixMilli now\<rparr>"
  obtain e db where w: "WriteOffset os ofs (pw_offsets w) = (e, db)" by (cases "WriteOffset os ofs (pw_offsets w)")
  have e: "e = None" using assms(2) w unfolding stores_answer_def by (metis fst_conv)
  from assms(1,3) w e have "err = None" "w' = pw_emit (OffsetWritten sh nxt) (w\<lparr>pw_offsets := db\<rparr>)"
    "x' = x\<lparr>pr_committedOffsets := (pr_committedOffsets x)(sh \<mapsto> nxt)\<rparr>"
    by (auto simp: commitOffset_def Let_def ofs_def)
  with offset_written [OF w [unfolded e]] show ?thesis
    by (auto simp: pw_emit_def current_def offset_value_def ofs_def split: option.split)
qed

lemma shard_clean:
  assumes c: "configured x0" and i: "proj_inv cod x0 x w" and run: "pr_running x"
    and n: "pr_maxBufferSize x0 = int n" "0 < n" "n < 2 ^ 63"
    and answer: "stores_answer ss os (pw_events w)" and ok: "\<forall>e \<in> set (shard_log (pw_events w) sh). processable cod x0 e"
    and d: "doProcess cod ctx now sh x w = (err, x', w')"
  shows "err = None \<and> (\<forall>s. length (pending x' w' s) \<le> (if s = sh then length (pending x w s) - n else length (pending x w s)))"
proof -
  from i have same: "same_projection x0 x" and cok: "cached_ok x w" and ein: "einv (pw_events w)" by (simp_all add: proj_inv_def)
  note cx = configured_same [OF c same]
  obtain off x1 where cur: "currentOffset sh x w = Inr (off, x1)" using currentOffset_answers [OF cx answer] by blast
  note cu = currentOffset_spec [OF cx cok cur]
  have s1: "same_projection x0 x1" using same cu same_projection_trans by blast
  have x1: "pr_eventsStore x1 = Some ss" "pr_maxBufferSize x1 = int n"
    using configured_same [OF c s1] s1 n(1) by (auto simp: same_projection_def configured_def)
  obtain evs nxt where g: "GetShardEvents ss sh off (of_int (int n)) (pw_events w) = Inr (evs, nxt)"
    using answer unfolding stores_answer_def by (metis prod.exhaust)
  have lim: "unat (of_int (int n) :: u64) = n" using n(3) by (simp add: unat_of_nat)
  note p = shard_page [OF ein g, unfolded lim]
  have pend: "pending x w sh = filter (\<lambda>e. off < ev_timestamp e) (shard_log (pw_events w) sh)"
    using cu by (simp add: pending_def)
  define x2 where "x2 = (if int n \<le> int (length evs) then x1\<lparr>pr_sawFullBatch := True\<rparr> else x1)"
  have s2: "same_projection x0 x2" using s1 by (simp add: x2_def)
  have at: "current x2 w s = current x w s" for s
    using cu by (cases "s = sh") (simp_all add: x2_def current_def same_projection_def cong: option.case_cong)
  have "doProcess cod ctx now sh x w = (if evs = [] then (None, x2, w) else processEvents cod ctx now sh evs nxt x2 w)"
    using run cur g x1 by (simp add: doProcess_def x2_def Let_def)
  with d have d': "(if evs = [] then (None, x2, w) else processEvents cod ctx now sh evs nxt x2 w) = (err, x', w')" by simp
  show ?thesis
  proof (cases "evs = []")
    case True
    with p n(2) have "pending x w sh = []" unfolding pend by simp
    with True d' at show ?thesis by (auto simp: pending_def)
  next
    case False
    obtain e w1 where pe: "processEach cod ctx evs x2 w = (e, w1)" by (cases "processEach cod ctx evs x2 w")
    have "\<forall>e \<in> set evs. processable cod x0 e"
      using ok p by (metis filter_is_subset in_set_takeD subsetD)
    from processEach_clean [OF s2 this, of ctx w] pe have e: "e = None" by simp
    have w1: "pw_events w1 = pw_events w" "\<And>s. current x2 w1 s = current x2 w s"
      using processEach_spec [OF pe] by (simp_all add: app_step_def current_def cong: option.case_cong)
    have co: "commitOffset now sh nxt (ev_persistence_id (last evs)) x2 w1 = (err, x', w')"
      using d' False pe e by (simp add: processEvents_def)
    have "pr_offsetsStore x2 = Some os" using configured_same [OF c s2] by (simp add: configured_def)
    note k = commitOffset_clean [OF this answer co]
    have "length (filter (\<lambda>e. nxt < ev_timestamp e) (shard_log (pw_events w) sh)) \<le> length (pending x w sh) - n"
      using page_rest [OF shard_sorted [OF ein] conjunct1 [OF p] False] p False unfolding pend by simp
    with k w1 at show ?thesis by (simp add: pending_def)
  qed
qed

end

text \<open>A pass that visits every shard, undisturbed.\<close>

definition full_pass :: "('s \<Rightarrow> u64 \<Rightarrow> Event list) \<Rightarrow> 's \<Rightarrow> pass_turn \<Rightarrow> bool" where
  "full_pass shard_log s t \<longleftrightarrow>
     pt_cancelled t = None \<and> distinct (pt_order t) \<and> (\<forall>sh. shard_log s sh \<noteq> [] \<longrightarrow> sh \<in> set (pt_order t))"

fun passes ::
    "'m AnyCodec \<Rightarrow> cmdctx \<Rightarrow> pass_turn list \<Rightarrow> ('s, 'o, 'h) ProjRunner \<times> ('s, 'o, 'h) proj_world
       \<Rightarrow> ('s, 'o, 'h) ProjRunner \<times> ('s, 'o, 'h) proj_world" where
  "passes cod ctx [] xw = xw"
| "passes cod ctx (t # ts) xw = passes cod ctx ts (snd (runPass cod ctx t (fst xw) (snd xw)))"

context projection_stores
begin

definition clean :: "'m AnyCodec \<Rightarrow> nat \<Rightarrow> ('s, 'o, 'h) ProjRunner \<Rightarrow> ('s, 'o, 'h) ProjRunner \<Rightarrow> ('s, 'o, 'h) proj_world \<Rightarrow> bool" where
  "clean cod n x0 x w \<longleftrightarrow>
     configured x0 \<and> proj_inv cod x0 x w \<and> pr_running x \<and> pr_maxBufferSize x0 = int n \<and> 0 < n \<and> n < 2 ^ 63
     \<and> stores_answer ss os (pw_events w) \<and> (\<forall>sh. \<forall>e \<in> set (shard_log (pw_events w) sh). processable cod x0 e)"

lemma clean_shard:
  assumes "clean cod n x0 x w" and "doProcess cod ctx now sh x w = (err, x', w')"
  shows "err = None \<and> clean cod n x0 x' w' \<and> pw_events w' = pw_events w
    \<and> (\<forall>s. length (pending x' w' s) \<le> (if s = sh then length (pending x w s) - n else length (pending x w s)))"
  using assms proj_inv_shard [OF _ _ assms(2), of x0] shard_clean [OF _ _ _ _ _ _ _ _ assms(2), of x0 n]
  unfolding clean_def by auto

lemma clean_shards:
  assumes "clean cod n x0 x w" and "distinct shs" and "runShards cod ctx now shs x w = (errs, x', w')"
  shows "errs = [] \<and> clean cod n x0 x' w' \<and> pw_events w' = pw_events w
    \<and> (\<forall>s. length (pending x' w' s) \<le> (if s \<in> set shs then length (pending x w s) - n else length (pending x w s)))"
  using assms
proof (induction shs arbitrary: x w errs)
  case (Cons sh shs)
  obtain err x1 w1 where d: "doProcess cod ctx now sh x w = (err, x1, w1)" by (cases "doProcess cod ctx now sh x w")
  obtain errs1 x2 w2 where s: "runShards cod ctx now shs x1 w1 = (errs1, x2, w2)" by (cases "runShards cod ctx now shs x1 w1")
  note c = clean_shard [OF Cons.prems(1) d]
  from Cons.prems(3) d s c have eq: "x2 = x'" "w2 = w'" "errs = errs1" by auto
  from Cons.prems(2) have ds: "sh \<notin> set shs" "distinct shs" by simp_all
  note ih = Cons.IH [OF conjunct1 [OF conjunct2 [OF c]] ds(2) s [unfolded eq]]
  have "length (pending x' w' s) \<le> (if s \<in> set (sh # shs) then length (pending x w s) - n else length (pending x w s))" for s
  proof -
    from ih have "length (pending x' w' s) \<le> (if s \<in> set shs then length (pending x1 w1 s) - n else length (pending x1 w1 s))" by blast
    moreover from c have "length (pending x1 w1 s) \<le> (if s = sh then length (pending x w s) - n else length (pending x w s))" by blast
    ultimately show ?thesis using ds(1) by (auto split: if_splits)
  qed
  with ih c eq show ?case by auto
qed simp

text \<open>A shard that is not pulled has nothing pending.\<close>

lemma pending_pulled:
  assumes "clean cod n x0 x w" and "full_pass shard_log (pw_events w) t" and "pending x w sh \<noteq> []"
    and "pendingShards (pt_order t) x w = Inr shs"
  shows "sh \<in> set shs"
proof -
  let ?log = "shard_log (pw_events w) sh"
  from assms(1) have i: "proj_inv cod x0 x w" "configured x0" by (simp_all add: clean_def)
  then have same: "same_projection x0 x" and cok: "cached_ok x w" and ein: "einv (pw_events w)" by (simp_all add: proj_inv_def)
  note cx = configured_same [OF i(2) same]
  from assms(3) have ne: "?log \<noteq> []" by (auto simp: pending_def)
  with assms(2) have ord: "sh \<in> set (pt_order t)" by (simp add: full_pass_def)
  from assms(4) cx obtain m where m: "ShardOffsets ss (pw_events w) = Inr m"
    and shs: "shs = filter (\<lambda>shard. case m shard of Some latest \<Rightarrow> (case pr_committedOffsets x shard of
        Some committed \<Rightarrow> committed < latest | None \<Rightarrow> True) | None \<Rightarrow> False) (pt_order t)"
    by (auto simp: pendingShards_def configured_def return_iffs)
  have head: "m sh = Some (ev_timestamp (last ?log))" using shard_heads [OF ein m] ne by simp
  from assms(3) obtain e where e: "e \<in> set ?log" "current x w sh < ev_timestamp e"
    by (auto simp: pending_def filter_empty_conv)
  have "ev_timestamp e \<le> ev_timestamp (last ?log)"
    using sorted_le_last [OF shard_sorted [OF ein, of sh], of "ev_timestamp e"] e(1) ne by (simp add: last_map)
  with e(2) have "pr_committedOffsets x sh = Some v \<Longrightarrow> v < ev_timestamp (last ?log)" for v
    by (auto simp: current_def)
  with head ord show ?thesis by (simp add: shs split: option.split)
qed

lemma clean_pass:
  assumes c: "clean cod n x0 x w" and t: "full_pass shard_log (pw_events w) t" and r: "runPass cod ctx t x w = (go, x', w')"
  shows "go \<and> clean cod n x0 x' w' \<and> pw_events w' = pw_events w
    \<and> (\<forall>sh. length (pending x' w' sh) \<le> length (pending x w sh) - n)"
proof -
  from c have cx: "pr_eventsStore x = Some ss" "pr_startingOffset x = zeroTime"
    using configured_same [of x0 x] by (auto simp: clean_def proj_inv_def configured_def)
  from c obtain m where "ShardOffsets ss (pw_events w) = Inr m" by (auto simp: clean_def stores_answer_def)
  with cx obtain shs where p: "pendingShards (pt_order t) x w = Inr shs" by (simp add: pendingShards_def)
  have d: "distinct shs" using p t by (auto simp: pendingShards_def full_pass_def return_iffs split: if_splits)
  note pull = pending_pulled [OF c t _ p]
  show ?thesis
  proof (cases "shs = []")
    case True
    then have "x' = x\<lparr>pr_storeFailures := 0\<rparr>" "w' = w" "go" using r p by (auto simp: runPass_def)
    moreover have "pending x w sh = []" for sh using pull [of sh] True by auto
    ultimately show ?thesis using c by (simp add: clean_def)
  next
    case False
    obtain errs x1 w1 where s: "runShards cod ctx (pt_now t) shs x w = (errs, x1, w1)" by (cases "runShards cod ctx (pt_now t) shs x w")
    note cs = clean_shards [OF c d s]
    have "runPass cod ctx t x w = finishPass t [] x1 w1"
      using p False s cs t by (simp add: runPass_def cut_short_def reported_errors_def full_pass_def)
    with r have f: "go" "w' = w1" "x' = (if pr_sawFullBatch x1 then requestPull (x1\<lparr>pr_storeFailures := 0, pr_sawFullBatch := False\<rparr>)
        else x1\<lparr>pr_storeFailures := 0, pr_sawFullBatch := False\<rparr>)"
      by (auto simp: finishPass_def Let_def)
    from cs have "clean cod n x0 x1 w1" by simp
    then have "clean cod n x0 x' w1" unfolding f(3) by (simp add: clean_def requestPull_def)
    moreover have "length (pending x1 w1 sh) \<le> length (pending x w sh) - n" for sh
    proof -
      from cs have "length (pending x1 w1 sh) \<le> (if sh \<in> set shs then length (pending x w sh) - n else length (pending x w sh))" by blast
      with pull [of sh] show ?thesis by (cases "pending x w sh = []") (simp_all split: if_splits)
    qed
    moreover have "pending x' w1 sh = pending x1 w1 sh" for sh
      unfolding f(3) by simp
    ultimately show ?thesis using f cs by simp
  qed
qed

lemma clean_passes:
  assumes "clean cod n x0 x w" and "\<forall>t \<in> set ts. full_pass shard_log (pw_events w) t" and "passes cod ctx ts (x, w) = (x', w')"
  shows "clean cod n x0 x' w' \<and> pw_events w' = pw_events w
    \<and> (\<forall>sh. length (pending x' w' sh) \<le> length (pending x w sh) - n * length ts)"
  using assms
proof (induction ts arbitrary: x w)
  case (Cons t ts)
  obtain go x1 w1 where r: "runPass cod ctx t x w = (go, x1, w1)" by (cases "runPass cod ctx t x w")
  from Cons.prems(2) have "full_pass shard_log (pw_events w) t" by simp
  note p = clean_pass [OF Cons.prems(1) this r]
  with Cons.prems r have "\<forall>t \<in> set ts. full_pass shard_log (pw_events w1) t" "passes cod ctx ts (x1, w1) = (x', w')" by simp_all
  from Cons.IH [OF _ this] p have ih: "clean cod n x0 x' w'" "pw_events w' = pw_events w"
    "\<And>sh. length (pending x' w' sh) \<le> length (pending x1 w1 sh) - n * length ts" by simp_all
  have "length (pending x' w' sh) \<le> length (pending x w sh) - n * length (t # ts)" for sh
  proof -
    from p have "length (pending x1 w1 sh) \<le> length (pending x w sh) - n" by blast
    with ih(3) [of sh] show ?thesis by simp
  qed
  with ih show ?case by simp
qed simp

end

text \<open>A page that ends between two events of the same timestamp.\<close>

context projection_stores
begin

lemma first_page:
  assumes inv: "einv (pw_events w)"
    and cfg: "configured x" "pr_committedOffsets x sh = None" "pr_maxBufferSize x = int (length evs)" "length evs < 2 ^ 63"
    and fresh: "offset_at (pw_offsets w) (pr_name x) sh = None"
    and log: "shard_log (pw_events w) sh = evs @ [e]" "evs \<noteq> []" "ev_timestamp (last evs) = ev_timestamp e"
      "\<forall>a \<in> set evs. 0 < ev_timestamp a"
    and run: "pr_running x" and first: "doProcess cod ctx now sh x w = (None, x1, w1)"
  obtains y w0 where "same_projection x y" "pr_running y" "processEach cod ctx evs y w = (None, w0)"
    "commitOffset now sh (ev_timestamp e) (ev_persistence_id (last evs)) y w0 = (None, x1, w1)"
proof -
  from first run obtain off z where cur: "currentOffset sh x w = Inr (off, z)"
    by (cases "currentOffset sh x w") (auto simp: doProcess_def)
  from cur cfg(1,2) obtain r where r: "GetCurrentOffset os \<lparr>pj_projection_name = pr_name x, pj_shard_number = sh\<rparr> (pw_offsets w) = Inr r"
    and o: "off = (case r of Some v \<Rightarrow> of_value v | None \<Rightarrow> 0)" and z: "z = x\<lparr>pr_committedOffsets := (pr_committedOffsets x)(sh \<mapsto> off)\<rparr>"
    by (auto simp: currentOffset_def configured_def return_iffs Let_def)
  from offset_read [OF r] o fresh have off: "off = 0" by (auto split: option.splits)
  from z cfg have zc: "pr_eventsStore z = Some ss" "pr_maxBufferSize z = int (length evs)" "same_projection x z" "pr_running z = pr_running x"
    by (simp_all add: configured_def same_projection_def)
  obtain evs' nxt where g: "GetShardEvents ss sh 0 (of_int (int (length evs))) (pw_events w) = Inr (evs', nxt)"
    using first run cur zc off by (cases "GetShardEvents ss sh 0 (of_int (int (length evs))) (pw_events w)") (auto simp: doProcess_def)
  have lim: "unat (of_int (int (length evs)) :: u64) = length evs" using cfg(4) by (simp add: unat_of_nat)
  have "0 < ev_timestamp e" using log(2,4) last_in_set [OF log(2)] by (metis log(3))
  with log(4) have "take (length evs) (filter (\<lambda>a. 0 < ev_timestamp a) (evs @ [e])) = evs" by simp
  with shard_page [OF inv g, unfolded lim log(1)] log(2,3) have p: "evs' = evs" "nxt = ev_timestamp e" by auto
  let ?y = "z\<lparr>pr_sawFullBatch := True\<rparr>"
  have "doProcess cod ctx now sh x w = processEvents cod ctx now sh evs (ev_timestamp e) ?y w"
    using run cur g zc off p log(2) by (simp add: doProcess_def Let_def)
  with first obtain w0 where "processEach cod ctx evs ?y w = (None, w0)"
    "commitOffset now sh (ev_timestamp e) (ev_persistence_id (last evs)) ?y w0 = (None, x1, w1)"
    by (auto simp: processEvents_def split: prod.splits option.splits)
  with that [of ?y w0] zc run show thesis by simp
qed

lemma nothing_past:
  assumes "einv (pw_events w)" and "configured x" and "pr_committedOffsets x sh = Some off"
    and "\<forall>a \<in> set (shard_log (pw_events w) sh). ev_timestamp a \<le> off" and "doProcess cod ctx now sh x w = (err, x', w')"
  shows "w' = w"
proof (cases "pr_running x")
  case True
  have cur: "currentOffset sh x w = Inr (off, x)" using assms(2,3) by (simp add: currentOffset_def configured_def)
  show ?thesis
  proof (cases "GetShardEvents ss sh off (of_int (pr_maxBufferSize x)) (pw_events w)")
    case (Inl e)
    with True cur assms(2,5) show ?thesis by (auto simp: doProcess_def configured_def)
  next
    case (Inr page)
    obtain evs nxt where page: "page = (evs, nxt)" by (cases page)
    have "filter (\<lambda>e. off < ev_timestamp e) (shard_log (pw_events w) sh) = []" using assms(4) by (auto simp: filter_empty_conv)
    with shard_page [OF assms(1) Inr [unfolded page]] have "evs = []" by simp
    with True cur Inr page assms(2,5) show ?thesis by (auto simp: doProcess_def configured_def Let_def)
  qed
next
  case False
  with assms(5) show ?thesis by (simp add: doProcess_def)
qed

end

end
