(* ===== verification/Postgres_Properties.thy ===== *)
theory Postgres_Properties
  imports Postgres_Correct
begin

text \<open>
  What the PostgreSQL event store promises its clients, and a server to read the statements on.
\<close>

section \<open>The contract\<close>

text \<open>Only the codecs of a server say what its rows hold.\<close>

lemma acknowledged_rows [simp]:
  "pg_env_ok (acknowledged env) = pg_env_ok env" "row_event (acknowledged env) = row_event env"
  "pg_ok (acknowledged env) = pg_ok env" "pg_journal (acknowledged env) = pg_journal env"
proof -
  have scan: "scan_row (acknowledged env) = scan_row env" by (intro ext) (unfold scan_row_def acknowledged_codecs, rule refl)
  show "pg_env_ok (acknowledged env) = pg_env_ok env" by (simp add: pg_env_ok_def)
  show r: "row_event (acknowledged env) = row_event env" by (intro ext) (unfold row_event_def scan, rule refl)
  show "pg_ok (acknowledged env) = pg_ok env" by (intro ext) (unfold pg_ok_def scan, rule refl)
  show "pg_journal (acknowledged env) = pg_journal env" by (intro ext) (unfold pg_journal_def r, rule refl)
qed

lemma postgres_write_done:
  assumes env: "pg_env_ok env" and h: "pg_ok env s" "wf_scope sc" "evs \<noteq> []" "\<forall>e \<in> set evs. ev_persistence_id e = pid"
      "list_all plain_event evs"
    and w: "pg_WriteEvents env sc evs pre s = Some (res, s')"
  shows "pg_ok env s' \<and> (res \<noteq> None \<and> pg_journal env s' = pg_journal env s \<and> pg_revision s' = pg_revision s
    \<or> precondition_holds pre (pg_revision s sc pid)
      \<and> (fresh_events (pg_journal env s sc pid) evs \<longrightarrow>
           pg_journal env s' = (pg_journal env s)(sc := (pg_journal env s sc)(pid := ev_override (pg_journal env s sc pid) evs)))
      \<and> pg_revision s' = (pg_revision s)(sc := (pg_revision s sc)(pid \<mapsto> rev_advance (pg_revision s sc pid) evs)))"
proof -
  have ok: "pg_ok env' s' \<and> precondition_holds pre (pg_revision s sc pid)
      \<and> (fresh_events (pg_journal env' s sc pid) evs \<longrightarrow>
           pg_journal env' s' = (pg_journal env' s)(sc := (pg_journal env' s sc)(pid := ev_override (pg_journal env' s sc pid) evs)))
      \<and> pg_revision s' = (pg_revision s)(sc := (pg_revision s sc)(pid \<mapsto> rev_advance (pg_revision s sc pid) evs))"
    if e: "pg_env_ok env'" "pg_ok env' s" and w': "pg_WriteEvents env' sc evs pre s = Some (None, s')" for env' :: "'a pg_env"
  proof -
    from pg_WriteEvents_ok [OF e h(2,5,4,3) w'] obtain new where
      p: "precondition_holds pre (pg_revision s sc pid)" and a: "pg_appends env' sc pid evs new s s'" by blast
    from p pg_append_ok [OF a] pg_append_journal [OF a] pg_append_revision [OF a] show ?thesis by (intro conjI impI)
  qed
  show ?thesis
  proof (cases res)
    case None
    with ok [OF env h(1)] w show ?thesis by blast
  next
    case (Some err)
    from pg_WriteEvents_err [OF w [unfolded Some]] show ?thesis
    proof
      assume "\<exists>n. s' = s\<lparr>pg_clock := n\<rparr>"
      then obtain n where "s' = s\<lparr>pg_clock := n\<rparr>" ..
      with h(1) Some show ?thesis by simp
    next
      assume "pg_WriteEvents (acknowledged env) sc evs pre s = Some (None, s')"
      from ok [OF _ _ this] env h(1) show ?thesis by simp
    qed
  qed
qed

lemma postgres_delete_done:
  assumes h: "pg_ok env s" "wf_scope sc" and d: "pg_DeleteEvents env sc pid n s = Some (res, s')"
  shows "pg_ok env s' \<and> pg_revision s' = pg_revision s
    \<and> (res \<noteq> None \<and> pg_journal env s' = pg_journal env s
       \<or> pg_journal env s' = (pg_journal env s)(sc := (pg_journal env s sc)(pid := pg_journal env s sc pid |` {k. n < k})))"
proof (cases res)
  case None
  with pg_DeleteEvents_ok [OF h] d show ?thesis by blast
next
  case (Some err)
  from pg_DeleteEvents_err [OF d [unfolded Some]] show ?thesis
  proof
    assume "\<exists>m. s' = s\<lparr>pg_clock := m\<rparr>"
    then obtain m where "s' = s\<lparr>pg_clock := m\<rparr>" ..
    with h(1) Some show ?thesis by simp
  next
    assume "pg_DeleteEvents (acknowledged env) sc pid n s = Some (None, s')"
    from pg_DeleteEvents_ok [OF _ h(2) this] h(1) show ?thesis by simp
  qed
qed

lemma postgres_remote_store:
  assumes env: "pg_env_ok env"
  shows "remote_events_store (postgres_EventsStore env) (pg_ok env) (pg_journal env) pg_revision"
proof
  fix s s' :: pg_db and sc pid pre res and evs :: "Event list"
  assume h: "pg_ok env s" "wf_scope sc" "evs \<noteq> []" "\<forall>e \<in> set evs. ev_persistence_id e = pid" "list_all plain_event evs"
    "WriteEvents (postgres_EventsStore env) sc evs pre s = (res, s')"
  have "pg_WriteEvents env sc evs pre s = Some (res, s')"
    using h(6) pg_WriteEvents_returns [of env sc evs pre s] by (auto simp: postgres_EventsStore_def)
  from postgres_write_done [OF env h(1-5) this]
  show "pg_ok env s' \<and> (res \<noteq> None \<and> pg_journal env s' = pg_journal env s \<and> pg_revision s' = pg_revision s
    \<or> precondition_holds pre (pg_revision s sc pid)
      \<and> (fresh_events (pg_journal env s sc pid) evs \<longrightarrow>
           pg_journal env s' = (pg_journal env s)(sc := (pg_journal env s sc)(pid := ev_override (pg_journal env s sc pid) evs)))
      \<and> pg_revision s' = (pg_revision s)(sc := (pg_revision s sc)(pid \<mapsto> rev_advance (pg_revision s sc pid) evs)))" .
next
  fix s :: pg_db and sc pid pre and evs :: "Event list"
  assume h: "pg_ok env s" "wf_scope sc" "evs \<noteq> []" "\<forall>e \<in> set evs. ev_persistence_id e = pid" "wp_Valid pre"
    "\<not> precondition_holds pre (pg_revision s sc pid)"
  from pg_write_conflict [OF h(2-6), of env]
  show "\<exists>err s'. WriteEvents (postgres_EventsStore env) sc evs pre s = (Some err, s')
      \<and> pg_journal env s' = pg_journal env s \<and> pg_revision s' = pg_revision s
      \<and> (\<forall>c. err = ErrConflict c \<longrightarrow>
           (\<exists>act. c = NewConflictError sc pid pre act \<and> (act = None \<or> act = pg_revision s sc pid)))"
    by (auto simp: postgres_EventsStore_def)
next
  fix s s' :: pg_db and sc pid n res
  assume h: "pg_ok env s" "wf_scope sc" "DeleteEvents (postgres_EventsStore env) sc pid n s = (res, s')"
  have "pg_DeleteEvents env sc pid n s = Some (res, s')"
    using h(3) pg_DeleteEvents_returns [of env sc pid n s] by (auto simp: postgres_EventsStore_def)
  from postgres_delete_done [OF h(1,2) this]
  show "pg_ok env s' \<and> pg_revision s' = pg_revision s
    \<and> (res \<noteq> None \<and> pg_journal env s' = pg_journal env s
       \<or> pg_journal env s' = (pg_journal env s)(sc := (pg_journal env s sc)(pid := pg_journal env s sc pid |` {k. n < k})))" .
qed (auto simp: postgres_EventsStore_def dest: pg_ReplayEvents_ok pg_GetLatestEvent_ok)

text \<open>A server that refuses nothing, with codecs for packed messages and for the metadata of a tenant.\<close>

definition sample_server :: "string pg_env" where
  "sample_server =
     \<lparr>pe_any = frame_codec,
      pe_toJSON = (\<lambda>md. case md metaKeyID of
          Some t \<Rightarrow> if md = [metaKeyScope \<mapsto> ''tenant'', metaKeyID \<mapsto> t] then Inr (CHR ''t'' # t)
                     else Inl (ErrNew ''json: unsupported value'')
        | None \<Rightarrow> Inl (ErrNew ''json: unsupported value'')),
      pe_fromJSON = (\<lambda>b. Inr [metaKeyScope \<mapsto> ''tenant'', metaKeyID \<mapsto> tl b]),
      pe_collate = (\<lambda>s. s),
      pe_fault = (\<lambda>_ _. None), pe_landed = (\<lambda>_. False)\<rparr>"

lemma sample_server_ok: "pg_env_ok sample_server"
  unfolding pg_env_ok_def
  by (auto simp: sample_server_def frame_codec_roundtrip split: option.splits if_splits)

text \<open>The same server, which carries out every commit and loses the answer to each.\<close>

definition silent_server :: "string pg_env" where
  "silent_server = sample_server\<lparr>pe_fault := \<lambda>_ stmt. if stmt = StCommit then Some (ErrNew ''unexpected EOF'') else None,
     pe_landed := \<lambda>_. True\<rparr>"

lemma silent_server_ok: "pg_env_ok silent_server"
  using sample_server_ok by (simp add: pg_env_ok_def silent_server_def)

interpretation pgs: remote_events_store "postgres_EventsStore silent_server" "pg_ok silent_server" "pg_journal silent_server" pg_revision
  by (rule postgres_remote_store [OF silent_server_ok])



end
