(* ===== verification/Projection_Properties.thy ===== *)
theory Projection_Properties
  imports Projection_Correct Postgres_Properties
begin

text \<open>
  What the projection runner promises, over any stores that meet \<open>projection_stores\<close> and so over
  PostgreSQL, and the runs in which an event is not delivered.
\<close>

section \<open>Nothing is lost\<close>

definition committed :: "('o \<Rightarrow> string \<Rightarrow> u64 \<Rightarrow> int option) \<Rightarrow> ('s, 'o, 'h) ProjRunner \<Rightarrow> ('s, 'o, 'h) proj_world \<Rightarrow> u64 \<Rightarrow> int" where
  "committed offset_at x w sh = (case offset_at (pw_offsets w) (pr_name x) sh of Some v \<Rightarrow> v | None \<Rightarrow> 0)"



section \<open>A projection over PostgreSQL\<close>

definition sample_row :: "u64 \<Rightarrow> int \<Rightarrow> event_row" where
  "sample_row n ts =
     \<lparr>er_tenant_id = ''acme'', er_persistence_id = ''account'', er_sequence_number = n, er_is_deleted = False,
      er_event_payload = ''0'', er_event_manifest = ''Credited'', er_timestamp = ts, er_shard_number = 7,
      er_encryption_key_id = '''', er_is_encrypted = False, er_tenant_metadata = Some ''tacme''\<rparr>"

definition sample_world :: "event_row list \<Rightarrow> u64 \<Rightarrow> (pg_db, pg_db, unit) proj_world" where
  "sample_world rows v =
     \<lparr>pw_events = pg_empty\<lparr>pg_events := rows, pg_revisions := [(''acme'', ''account'') \<mapsto> v]\<rparr>,
      pw_offsets = pg_empty, pw_app = (), pw_trace = []\<rparr>"

definition sample_projection :: "(pg_db, pg_db, unit) ProjRunner" where
  "sample_projection =
     pr_New ''balances'' DiscardHandler (Some (postgres_ShardSource sample_server)) (Some (postgres_OffsetsApi sample_server))
       [pr_WithMaxBufferSize 1]"




lemma sample_scan:
  "scan_row sample_server (sample_row n ts) =
     Inr \<lparr>ev_persistence_id = ''account'', ev_sequence_number = n, ev_is_deleted = False,
          ev_event = Some \<lparr>any_type_url = '''', any_value = ''''\<rparr>, ev_timestamp = ts, ev_shard = 7,
          ev_encryption_key_id = '''', ev_is_encrypted = False,
          ev_tenant_metadata = [metaKeyScope \<mapsto> ''tenant'', metaKeyID \<mapsto> ''acme'']\<rparr>"
  by (simp add: scan_row_def sample_row_def sample_server_def frame_codec_def text_codec_def)

lemma sample_row_simps [simp]:
  "er_key (sample_row n ts) = (''acme'', ''account'', n)" "er_timestamp (sample_row n ts) = ts"
  "er_shard_number (sample_row n ts) = 7" "er_sequence_number (sample_row n ts) = n"
  "er_tenant_id (sample_row n ts) = ''acme''" "er_persistence_id (sample_row n ts) = ''account''"
  by (simp_all add: er_key_def sample_row_def)

lemma sample_row_time [simp]: "ev_timestamp (row_event sample_server (sample_row n ts)) = ts"
  by (simp add: row_event_def sample_scan)







definition sample_running :: "(pg_db, pg_db, unit) ProjRunner" where
  "sample_running = pr_Run True (sample_projection\<lparr>pr_running := True\<rparr>)"



lemmas sample_stores = pgp.projection_stores_axioms [of sample_server]






section \<open>Events that share a timestamp\<close>

text \<open>
  C36. A tie of timestamps loses events: an offset is a timestamp, and events that share one are lost
  when a page ends between them.  After a page that ends at \<open>last evs\<close> the committed offset is that
  timestamp, the application has seen \<open>evs\<close> alone, and no later pull of the shard shows it \<open>e\<close>, which
  has the same timestamp.
\<close>

theorem equal_timestamps_lost:
  assumes st: "projection_stores ss os einv shard_log offset_at" and inv: "einv (pw_events w)"
    and cfg: "pr_eventsStore x = Some ss" "pr_offsetsStore x = Some os" "pr_startingOffset x = zeroTime"
      "pr_running x" "pr_committedOffsets x sh = None" "pr_maxBufferSize x = int (length evs)" "length evs < 2 ^ 63"
    and fresh: "offset_at (pw_offsets w) (pr_name x) sh = None"
    and log: "shard_log (pw_events w) sh = evs @ [e]" "evs \<noteq> []" "ev_timestamp (last evs) = ev_timestamp e"
      "\<forall>a \<in> set evs. 0 < ev_timestamp a"
    and first: "doProcess cod ctx now sh x w = (None, x1, w1)"
    and later: "doProcess cod ctx' now' sh x1 w1 = (err, x2, w2)"
  shows "committed offset_at x w1 sh = ev_timestamp e
    \<and> (\<exists>y. same_projection x y \<and> pw_app w1 = pw_app (snd (processEach cod ctx evs y w))) \<and> w2 = w1"
proof -
  have conf: "projection_stores.configured ss os x" using cfg by (simp add: projection_stores.configured_def [OF st])
  obtain y w0 where y: "same_projection x y" "pr_running y" and pe: "processEach cod ctx evs y w = (None, w0)"
    and co: "commitOffset now sh (ev_timestamp e) (ev_persistence_id (last evs)) y w0 = (None, x1, w1)"
    by (rule projection_stores.first_page [OF st inv conf cfg(5-7) fresh log cfg(4) first])
  from y(1) cfg have yc: "pr_offsetsStore y = Some os" "pr_name y = pr_name x" by (simp_all add: same_projection_def)
  let ?ofs = "\<lparr>of_shard_number = sh, of_projection_name = pr_name x, of_value = ev_timestamp e, of_timestamp = time_UnixMilli now\<rparr>"
  from co yc obtain db where wr: "WriteOffset os ?ofs (pw_offsets w0) = (None, db)"
    and x1: "x1 = y\<lparr>pr_committedOffsets := (pr_committedOffsets y)(sh \<mapsto> ev_timestamp e)\<rparr>"
    and w1: "w1 = pw_emit (OffsetWritten sh (ev_timestamp e)) (w0\<lparr>pw_offsets := db\<rparr>)"
    by (auto simp: commitOffset_def Let_def split: prod.splits option.splits)
  have ev: "pw_events w1 = pw_events w" using processEach_spec [OF pe] by (simp add: w1 app_step_def pw_emit_def)
  have "committed offset_at x w1 sh = ev_timestamp e"
    using projection_stores.offset_written [OF st wr] by (simp add: committed_def w1 pw_emit_def)
  moreover have "pw_app w1 = pw_app (snd (processEach cod ctx evs y w))" by (simp add: pe w1 pw_emit_def)
  moreover have "w2 = w1"
  proof (rule projection_stores.nothing_past [OF st _ _ _ _ later])
    show "projection_stores.configured ss os x1"
      using projection_stores.configured_same [OF st conf y(1)] by (simp add: x1 projection_stores.configured_def [OF st])
    show "\<forall>a \<in> set (shard_log (pw_events w1) sh). ev_timestamp a \<le> ev_timestamp e"
      using projection_stores.shard_sorted [OF st inv, of sh] by (simp add: ev log(1) sorted_append)
  qed (simp_all add: ev inv x1)
  ultimately show ?thesis using y(1) by blast
qed

definition sample_tied :: "(pg_db, pg_db, unit) proj_world" where
  "sample_tied = sample_world [sample_row 1 1000, sample_row 2 1000] 2"

theorem equal_timestamps_lost_witness:
  "committed pg_offset_at sample_running (snd (snd (doProcess frame_codec context_Background 0 7 sample_running sample_tied))) 7 = 1000"
proof -
  obtain err x1 w1 where d: "doProcess frame_codec context_Background 0 7 sample_running sample_tied = (err, x1, w1)"
    by (cases "doProcess frame_codec context_Background 0 7 sample_running sample_tied")
  obtain err' x2 w2 where l: "doProcess frame_codec context_Background 0 7 x1 w1 = (err', x2, w2)"
    by (cases "doProcess frame_codec context_Background 0 7 x1 w1")
  have f: "pe_fault sample_server n stmt = None" for n stmt by (simp add: sample_server_def)
  note run = sample_running_def sample_projection_def pr_New_def pr_Run_def pr_WithMaxBufferSize_def NewRecovery_def
  have "currentOffset 7 sample_running sample_tied = Inr (0, sample_running\<lparr>pr_committedOffsets := [7 \<mapsto> 0]\<rparr>)"
    by (simp add: run currentOffset_def postgres_OffsetsApi_def pg_GetCurrentOffset_def pg_query_def f sample_tied_def
        sample_world_def pg_empty_def Let_def)
  moreover have "pg_GetShardEvents sample_server 7 0 1 (pw_events sample_tied) = Inr ([row_event sample_server (sample_row 1 1000)], 1000)"
    by (simp add: pg_GetShardEvents_def pg_query_def f sample_tied_def sample_world_def sample_scan row_event_def)
  ultimately have e: "err = None" using d
    by (auto simp: run doProcess_def postgres_ShardSource_def processEvents_def processEnvelope_def event_payload_def handleWithPolicy_def
        handleSafely_def DiscardHandler_def commitOffset_def postgres_OffsetsApi_def pg_WriteOffset_def pg_autocommit_def pg_exec_def f Let_def)
  have log: "pg_shard_log sample_server (pw_events sample_tied) 7 =
      [row_event sample_server (sample_row 1 1000)] @ [row_event sample_server (sample_row 2 1000)]"
    by (simp add: pg_shard_log_def sample_tied_def sample_world_def)
  have "pg_ok sample_server (pw_events sample_tied)"
    by (simp add: pg_ok_def sample_tied_def sample_world_def sample_scan)
  from equal_timestamps_lost [OF sample_stores this _ _ _ _ _ _ _ _ log _ _ _ d [unfolded e] l] d show ?thesis
    by (simp add: sample_running_def sample_projection_def pr_New_def pr_Run_def pr_WithMaxBufferSize_def sample_tied_def
        sample_world_def pg_offset_at_def pg_empty_def)
qed

section \<open>Waiting for a store\<close>

text \<open>
  C37. The wait after the \<open>n\<close>-th failed round trip in a row is exactly a second doubled \<open>n - 1\<close> times,
  and half a minute at most: the shift of the duration, which wraps at 64 bits, never shows.
\<close>

theorem store_retry_delay_exact:
  assumes "1 \<le> n"
  shows "storeRetryDelay n = min (1000000000 * 2 ^ nat (n - 1)) 30000000000"
proof -
  define k where "k = nat (n - 1)"
  have d: "storeRetryDelay n = (let delay = sint (push_bit k storeRetryInitialDelay) in
      if delay \<le> 0 \<or> storeRetryMaxDelay < delay then storeRetryMaxDelay else delay)"
    by (simp add: storeRetryDelay_def k_def)
  have small: "list_all (\<lambda>k. 0 < sint (push_bit k storeRetryInitialDelay)
      \<and> sint (push_bit k storeRetryInitialDelay) = 1000000000 * 2 ^ k) [0..<5]" by code_simp
  have large: "list_all (\<lambda>k. sint (push_bit k storeRetryInitialDelay) \<le> 0
      \<or> storeRetryMaxDelay < sint (push_bit k storeRetryInitialDelay)) [5..<64]" by code_simp
  show ?thesis
  proof (cases "k < 5")
    case True
    with small have "sint (push_bit k storeRetryInitialDelay) = 1000000000 * 2 ^ k" by (simp add: list_all_iff)
    moreover have "(2 :: int) ^ k \<le> 2 ^ 4" using True by (intro power_increasing) simp_all
    ultimately show ?thesis unfolding d by (simp add: storeRetryMaxDelay_def Let_def k_def)
  next
    case False
    then have "(2 :: int) ^ 5 \<le> 2 ^ k" by (intro power_increasing) simp_all
    moreover have "sint (push_bit k storeRetryInitialDelay) \<le> 0 \<or> storeRetryMaxDelay < sint (push_bit k storeRetryInitialDelay)"
    proof (cases "k < 64")
      case True
      with bspec [OF large [unfolded list_all_iff], of k] False show ?thesis by (simp only: set_upt) simp
    next
      case False
      then have z: "(2 :: 64 word) ^ k = 0" by (simp add: exp_eq_zero_iff)
      have "push_bit k storeRetryInitialDelay = 0" by (simp only: push_bit_eq_mult z mult_zero_right)
      then show ?thesis by simp
    qed
    ultimately show ?thesis unfolding d by (auto simp: storeRetryMaxDelay_def Let_def k_def)
  qed
qed

theorem store_retry_delay_exact_witness: "storeRetryDelay 40 = 30000000000"
  using store_retry_delay_exact [of 40] by simp

end
