(* ===== verification/Adoption.thy ===== *)
theory Adoption
  imports Sha256 Actor_Base State_Store Snapshot_Store
begin

text \<open>
  The tenant adoption of \<open>src/migration/tenant_adoption.go\<close>: copying aggregates from a source scope
  into the scopes of the tenants an operator assigns, verifying the copies, and deleting the
  verified sources.  The stores, the assignment, the fence and the deterministic protobuf encoding
  are parameters.  The calls of one run are made one after the other; log entries are left out.
\<close>

section \<open>Constants\<close>

definition maxReplaySequence :: u64 where
  "maxReplaySequence = - 1"

definition maxReplayLimit :: u64 where
  "maxReplayLimit = 2 ^ 63 - 1"

definition ErrAssignmentRequired :: goerr where
  "ErrAssignmentRequired = ErrNew ''migration: a TenantAssignment is required''"

definition ErrNoStoresConfigured :: goerr where
  "ErrNoStoresConfigured =
     ErrNew ''migration: at least one of WithEventsStore, WithSnapshotStore, or WithStateStore is required''"

definition ErrInvalidScanPageSize :: goerr where
  "ErrInvalidScanPageSize = ErrNew ''migration: WithScanPageSize must be greater than zero''"

definition ErrAdoptionFenceRequired :: goerr where
  "ErrAdoptionFenceRequired = ErrNew ''migration: WithWriteEnabled requires WithAdoptionFence''"

definition errTargetIsSource :: goerr where
  "errTargetIsSource = ErrNew ''migration: the assigned target scope is the source scope''"

definition errSourceChangedDuringAdoption :: goerr where
  "errSourceChangedDuringAdoption =
     ErrNew ''migration: the source changed while it was being adopted; the source must not receive writes during a WithSourceDeletion run''"

definition errNoSourceRecords :: goerr where
  "errNoSourceRecords =
     ErrNew ''migration: no source record found in any configured store for this persistence id''"

definition errTargetNotEquivalent :: goerr where
  "errTargetNotEquivalent =
     ErrNew ''migration: target tenant scope holds a record for this persistence id that is not equivalent to this adoption''"

definition adoptionReceiptKey :: string where
  "adoptionReceiptKey = ''ego.adoption.receipt''"

definition adoptionReceiptVersion :: string where
  "adoptionReceiptVersion = ''v1:''"

section \<open>Outcomes and reports\<close>

datatype RecordKind = KindEvents | KindSnapshot | KindDurableState

definition kind_text :: "RecordKind \<Rightarrow> string" where
  "kind_text k =
     (case k of KindEvents \<Rightarrow> ''events'' | KindSnapshot \<Rightarrow> ''snapshot'' | KindDurableState \<Rightarrow> ''durable_state'')"

text \<open>\<open>StatusUnset\<close> is the empty string an outcome starts with.\<close>

datatype RecordStatus =
  StatusUnset | StatusNone | StatusCopied | StatusAlreadyPresent | StatusSourceDeleted | StatusFailed

record RecordOutcome =
  ro_Status :: RecordStatus
  ro_Err :: "goerr option"
  ro_wroteTarget :: bool

definition ro_unset :: RecordOutcome where
  "ro_unset = \<lparr>ro_Status = StatusUnset, ro_Err = None, ro_wroteTarget = False\<rparr>"

definition ro_failed :: "goerr \<Rightarrow> RecordOutcome" where
  "ro_failed err = \<lparr>ro_Status = StatusFailed, ro_Err = Some err, ro_wroteTarget = False\<rparr>"

definition ro_reached :: "RecordStatus \<Rightarrow> bool \<Rightarrow> RecordOutcome" where
  "ro_reached status wrote = \<lparr>ro_Status = status, ro_Err = None, ro_wroteTarget = wrote\<rparr>"

record AggregateOutcome =
  ao_PersistenceID :: string
  ao_Tenant :: string
  ao_Events :: RecordOutcome
  ao_Snapshot :: RecordOutcome
  ao_DurableState :: RecordOutcome

record AdoptionFailure =
  af_PersistenceID :: string
  af_Kind :: "RecordKind option"
  af_Err :: goerr

record AdoptionReport =
  ar_DryRun :: bool
  ar_Scanned :: nat
  ar_Assigned :: nat
  ar_SkippedByAssignment :: nat
  ar_Copied :: nat
  ar_AlreadyPresent :: nat
  ar_Verified :: nat
  ar_SourceDeleted :: nat
  ar_Failed :: nat
  ar_Aggregates :: "AggregateOutcome list"
  ar_Failures :: "AdoptionFailure list"

definition new_report :: "bool \<Rightarrow> AdoptionReport" where
  "new_report dry =
     \<lparr>ar_DryRun = dry, ar_Scanned = 0, ar_Assigned = 0, ar_SkippedByAssignment = 0, ar_Copied = 0,
      ar_AlreadyPresent = 0, ar_Verified = 0, ar_SourceDeleted = 0, ar_Failed = 0, ar_Aggregates = [],
      ar_Failures = []\<rparr>"

section \<open>The adopter\<close>

text \<open>
  What the adopter uses from outside: the deterministic encoding of a record and the characters
  \<open>strconv.Quote\<close> prints beyond Latin-1; the methods of an events store to list and to ping it; the
  fence, which answers from what was acquired and released so far, with an error or whether it gave a
  function to release.
\<close>

datatype adopt_record =
    RecEvent (rec_event: Event) | RecSnapshot (rec_snapshot: Snapshot) | RecState (rec_state: DurableState)

record adopt_env =
  ad_marshal :: "adopt_record \<Rightarrow> goerr + bytes"
  ad_isPrint :: "nat \<Rightarrow> bool"

record 's EventsListing =
  PersistenceIDs :: "Scope \<Rightarrow> u64 \<Rightarrow> string \<Rightarrow> 's \<Rightarrow> goerr + string list \<times> string"
  PingEvents :: "'s \<Rightarrow> goerr option"

datatype fence_event = FenceAcquired Scope string | FenceReleased Scope string

type_synonym AdoptionFence = "fence_event list \<Rightarrow> Scope \<Rightarrow> string \<Rightarrow> goerr + bool"
type_synonym TenantAssignment = "string \<Rightarrow> goerr + string option"

record ('s, 'n, 'd) TenantAdopter =
  ta_eventsStore :: "('s EventsStore \<times> 's EventsListing) option"
  ta_snapshotStore :: "('n SnapshotStoreApi \<times> ('n \<Rightarrow> goerr option)) option"
  ta_stateStore :: "('d StateStore \<times> ('d \<Rightarrow> goerr option)) option"
  ta_assign :: TenantAssignment
  ta_sourceScope :: Scope
  ta_explicitIDs :: "string list"
  ta_pageSize :: u64
  ta_write :: bool
  ta_deleteSource :: bool
  ta_failFast :: bool
  ta_fence :: "AdoptionFence option"

record ('s, 'n, 'd) adopt_world =
  aw_events :: 's
  aw_snaps :: 'n
  aw_states :: 'd
  aw_fences :: "fence_event list"

type_synonym ('s, 'n, 'd) AdoptionOption = "('s, 'n, 'd) TenantAdopter \<Rightarrow> ('s, 'n, 'd) TenantAdopter"

definition WithEventsStore :: "('s EventsStore \<times> 's EventsListing) option \<Rightarrow> ('s, 'n, 'd) AdoptionOption" where
  "WithEventsStore store a = a\<lparr>ta_eventsStore := store\<rparr>"

definition WithSnapshotStore ::
    "('n SnapshotStoreApi \<times> ('n \<Rightarrow> goerr option)) option \<Rightarrow> ('s, 'n, 'd) AdoptionOption" where
  "WithSnapshotStore store a = a\<lparr>ta_snapshotStore := store\<rparr>"

definition WithStateStore :: "('d StateStore \<times> ('d \<Rightarrow> goerr option)) option \<Rightarrow> ('s, 'n, 'd) AdoptionOption" where
  "WithStateStore store a = a\<lparr>ta_stateStore := store\<rparr>"

definition WithSourceScope :: "Scope \<Rightarrow> ('s, 'n, 'd) AdoptionOption" where
  "WithSourceScope scope a = a\<lparr>ta_sourceScope := scope\<rparr>"

definition WithScanPageSize :: "u64 \<Rightarrow> ('s, 'n, 'd) AdoptionOption" where
  "WithScanPageSize sz a = a\<lparr>ta_pageSize := sz\<rparr>"

definition WithWriteEnabled :: "('s, 'n, 'd) AdoptionOption" where
  "WithWriteEnabled a = a\<lparr>ta_write := True\<rparr>"

definition WithSourceDeletion :: "('s, 'n, 'd) AdoptionOption" where
  "WithSourceDeletion a = a\<lparr>ta_deleteSource := True\<rparr>"

definition WithAdoptionFence :: "AdoptionFence option \<Rightarrow> ('s, 'n, 'd) AdoptionOption" where
  "WithAdoptionFence fence a = a\<lparr>ta_fence := fence\<rparr>"

definition WithFailFast :: "('s, 'n, 'd) AdoptionOption" where
  "WithFailFast a = a\<lparr>ta_failFast := True\<rparr>"

definition WithPersistenceIDs :: "string list \<Rightarrow> ('s, 'n, 'd) AdoptionOption" where
  "WithPersistenceIDs ids a = a\<lparr>ta_explicitIDs := ta_explicitIDs a @ ids\<rparr>"

definition NewTenantAdopter ::
    "TenantAssignment option \<Rightarrow> ('s, 'n, 'd) AdoptionOption list \<Rightarrow> goerr + ('s, 'n, 'd) TenantAdopter" where
  "NewTenantAdopter assign opts =
     (case assign of
        None \<Rightarrow> Inl ErrAssignmentRequired
      | Some f \<Rightarrow>
          (let a = foldl (\<lambda>a opt. opt a)
                     \<lparr>ta_eventsStore = None, ta_snapshotStore = None, ta_stateStore = None, ta_assign = f,
                      ta_sourceScope = Unscoped, ta_explicitIDs = [], ta_pageSize = 500, ta_write = False,
                      ta_deleteSource = False, ta_failFast = False, ta_fence = None\<rparr> opts in
           if ta_eventsStore a = None \<and> ta_snapshotStore a = None \<and> ta_stateStore a = None
           then Inl ErrNoStoresConfigured
           else if ta_pageSize a = 0 then Inl ErrInvalidScanPageSize
           else if \<not> scope_Valid (ta_sourceScope a)
           then Inl (ErrWrap ''migration: WithSourceScope: '' ErrInvalidScope '''')
           else if ta_write a \<and> ta_fence a = None then Inl ErrAdoptionFenceRequired
           else Inr a))"

section \<open>Receipts\<close>

definition tenantMetadataOf :: "adopt_record \<Rightarrow> metadata" where
  "tenantMetadataOf r =
     (case r of RecEvent e \<Rightarrow> ev_tenant_metadata e | RecSnapshot sn \<Rightarrow> sn_tenant_metadata sn
      | RecState st \<Rightarrow> du_tenant_metadata st)"

definition setTenantMetadata :: "metadata \<Rightarrow> adopt_record \<Rightarrow> adopt_record" where
  "setTenantMetadata md r =
     (case r of RecEvent e \<Rightarrow> RecEvent (e\<lparr>ev_tenant_metadata := md\<rparr>)
      | RecSnapshot sn \<Rightarrow> RecSnapshot (sn\<lparr>sn_tenant_metadata := md\<rparr>)
      | RecState st \<Rightarrow> RecState (st\<lparr>du_tenant_metadata := md\<rparr>))"

definition adoptionReceipt :: "adopt_env \<Rightarrow> adopt_record \<Rightarrow> Scope \<Rightarrow> u64 option \<Rightarrow> goerr + string" where
  "adoptionReceipt env r sourceScope predecessor =
     sum_bind (wrap_err ''compute adoption receipt: '' (ad_marshal env r)) (\<lambda>encoded.
       let scopeToken = (if scope_IsUnscoped sourceScope then ''unscoped''
                         else ''tenant:'' @ strconv_Quote (ad_isPrint env) (scope_TenantID sourceScope));
           recorded = (case predecessor of Some p \<Rightarrow> strconv_FormatUint p | None \<Rightarrow> []);
           hashed = scopeToken @ [CHR 0x00] @ (if predecessor = None then [] else recorded @ [CHR 0x00]) @ encoded;
           prefix = adoptionReceiptVersion @ (if predecessor = None then [] else recorded @ '':'')
       in Inr (prefix @ hex_EncodeToString (sha256_Sum hashed)))"

definition stampAdoptionReceipt ::
    "adopt_env \<Rightarrow> adopt_record \<Rightarrow> Scope \<Rightarrow> metadata \<Rightarrow> u64 option \<Rightarrow> goerr + adopt_record" where
  "stampAdoptionReceipt env r sourceScope md predecessor =
     sum_bind (adoptionReceipt env (setTenantMetadata md r) sourceScope predecessor) (\<lambda>receipt.
       Inr (setTenantMetadata (md(adoptionReceiptKey \<mapsto> receipt)) r))"

text \<open>The predecessor a receipt records, when the text before its first colon is a number as it is printed.\<close>

definition recorded_predecessor :: "string \<Rightarrow> u64 option option" where
  "recorded_predecessor body =
     (if CHR '':'' \<in> set body then
        (let recorded = takeWhile (\<lambda>c. c \<noteq> CHR '':'') body in
         case strconv_ParseUint recorded of
           None \<Rightarrow> None
         | Some v \<Rightarrow> if strconv_FormatUint v \<noteq> recorded then None else Some (Some v))
      else Some None)"

text \<open>\<open>None\<close>: the receipt is missing or does not match.\<close>

definition verifyAdoptionReceipt :: "adopt_env \<Rightarrow> adopt_record \<Rightarrow> Scope \<Rightarrow> u64 option option" where
  "verifyAdoptionReceipt env r sourceScope =
     (case tenantMetadataOf r adoptionReceiptKey of
        None \<Rightarrow> None
      | Some receipt \<Rightarrow>
          (case strings_CutPrefix receipt adoptionReceiptVersion of
             None \<Rightarrow> None
           | Some body \<Rightarrow>
               (case recorded_predecessor body of
                  None \<Rightarrow> None
                | Some predecessor \<Rightarrow>
                    let stripped = setTenantMetadata ((tenantMetadataOf r)(adoptionReceiptKey := None)) r in
                    (case adoptionReceipt env stripped sourceScope predecessor of
                       Inl _ \<Rightarrow> None
                     | Inr want \<Rightarrow> if want \<noteq> receipt then None else Some predecessor))))"

text \<open>Each sequence number's predecessor in sequence order, 0 for the lowest.\<close>

fun chain_predecessors :: "u64 \<Rightarrow> u64 list \<Rightarrow> (u64 \<rightharpoonup> u64) \<Rightarrow> (u64 \<rightharpoonup> u64)" where
  "chain_predecessors previous [] m = m"
| "chain_predecessors previous (n # ns) m = chain_predecessors n ns (m(n \<mapsto> previous))"

definition adoptedPredecessors :: "Event list \<Rightarrow> u64 \<rightharpoonup> u64" where
  "adoptedPredecessors events = chain_predecessors 0 (sort (map ev_sequence_number events)) Map.empty"

section \<open>What a target already holds\<close>

definition not_equivalent :: "adopt_env \<Rightarrow> string \<Rightarrow> RecordKind \<Rightarrow> string \<Rightarrow> goerr" where
  "not_equivalent env pid kind what =
     ErrWrap '''' errTargetNotEquivalent
       ('': persistence_id '' @ strconv_Quote (ad_isPrint env) pid @ '' kind '' @ kind_text kind @ '': '' @ what)"

definition ownedByTenant :: "metadata \<Rightarrow> TenantContext \<Rightarrow> bool" where
  "ownedByTenant md tenant =
     (case tenancy_UnmarshalMetadata md of
        Inl _ \<Rightarrow> False
      | Inr decoded \<Rightarrow> tenancy_VerifyUnchanged tenant decoded = None)"

fun index_existing ::
    "adopt_env \<Rightarrow> string \<Rightarrow> TenantContext \<Rightarrow> Event list \<Rightarrow> (u64 \<rightharpoonup> Event) \<Rightarrow> u64 list
       \<Rightarrow> goerr + (u64 \<rightharpoonup> Event) \<times> u64 list" where
  "index_existing env pid tenant [] bySeq seqs = Inr (bySeq, seqs)"
| "index_existing env pid tenant (e # es) bySeq seqs =
     (let sq = ev_sequence_number e in
      if bySeq sq \<noteq> None
      then Inl (not_equivalent env pid KindEvents (''sequence '' @ strconv_FormatUint sq @ '' appears more than once''))
      else if \<not> ownedByTenant (ev_tenant_metadata e) tenant
      then Inl (not_equivalent env pid KindEvents
                  (''sequence '' @ strconv_FormatUint sq @ '' is not owned by the assigned tenant''))
      else index_existing env pid tenant es (bySeq(sq \<mapsto> e)) (seqs @ [sq]))"

fun expected_held :: "adopt_env \<Rightarrow> string \<Rightarrow> (u64 \<rightharpoonup> Event) \<Rightarrow> Event list \<Rightarrow> u64 \<Rightarrow> goerr + u64" where
  "expected_held env pid bySeq [] maxExpected = Inr maxExpected"
| "expected_held env pid bySeq (e # es) maxExpected =
     (let sq = ev_sequence_number e in
      if bySeq sq \<noteq> Some e
      then Inl (not_equivalent env pid KindEvents (''sequence '' @ strconv_FormatUint sq @ '' differs from the source''))
      else expected_held env pid bySeq es (if maxExpected < sq then sq else maxExpected))"

text \<open>The adopted prefix as a chain of receipts; the sequence numbers after it, or the error.\<close>

fun adopted_chain ::
    "adopt_env \<Rightarrow> string \<Rightarrow> Scope \<Rightarrow> (u64 \<rightharpoonup> Event) \<Rightarrow> u64 list \<Rightarrow> u64 \<Rightarrow> nat \<Rightarrow> goerr + nat \<times> u64 list" where
  "adopted_chain env pid sourceScope bySeq [] previous adopted = Inr (adopted, [])"
| "adopted_chain env pid sourceScope bySeq (sq # seqs) previous adopted =
     (let e = the (bySeq sq) in
      if ev_tenant_metadata e adoptionReceiptKey = None then Inr (adopted, sq # seqs)
      else
        (case verifyAdoptionReceipt env (RecEvent e) sourceScope of
           Some (Some predecessor) \<Rightarrow>
             if predecessor \<noteq> previous
             then Inl (not_equivalent env pid KindEvents
                    (''adopted sequence '' @ strconv_FormatUint sq @ '' follows adopted sequence ''
                     @ strconv_FormatUint previous @ '', but its receipt records '' @ strconv_FormatUint predecessor
                     @ '': the adopted chain is broken''))
             else adopted_chain env pid sourceScope bySeq seqs sq (Suc adopted)
         | _ \<Rightarrow> Inl (not_equivalent env pid KindEvents
                    (''sequence '' @ strconv_FormatUint sq @ '' does not match its adoption receipt''))))"

definition verifyEventsEquivalent ::
    "adopt_env \<Rightarrow> string \<Rightarrow> Event list \<Rightarrow> Event list \<Rightarrow> TenantContext \<Rightarrow> Scope \<Rightarrow> goerr option" where
  "verifyEventsEquivalent env pid expected existing tenant sourceScope =
     (case index_existing env pid tenant existing Map.empty [] of
        Inl err \<Rightarrow> Some err
      | Inr (bySeq, unsorted) \<Rightarrow>
          (let seqs = sort unsorted in
           if expected \<noteq> [] then
             (case expected_held env pid bySeq expected 0 of
                Inl err \<Rightarrow> Some err
              | Inr maxExpected \<Rightarrow>
                  (case filter (\<lambda>sq. sq \<notin> set (map ev_sequence_number expected) \<and> sq < maxExpected) seqs of
                     [] \<Rightarrow> None
                   | sq # _ \<Rightarrow> Some (not_equivalent env pid KindEvents
                                   (''sequence '' @ strconv_FormatUint sq @ '' is not part of the source stream''))))
           else
             (case adopted_chain env pid sourceScope bySeq seqs 0 0 of
                Inl err \<Rightarrow> Some err
              | Inr (adopted, later) \<Rightarrow>
                  if adopted = 0
                  then Some (not_equivalent env pid KindEvents
                         ''the source is gone and no target event carries an adoption receipt, so an adoption cannot be proven'')
                  else
                    (case filter (\<lambda>sq. ev_tenant_metadata (the (bySeq sq)) adoptionReceiptKey \<noteq> None) later of
                       [] \<Rightarrow> None
                     | sq # _ \<Rightarrow> Some (not_equivalent env pid KindEvents
                                     (''adopted sequence '' @ strconv_FormatUint sq @ '' follows events written after adoption''))))))"

definition verifyRecordEquivalent ::
    "adopt_env \<Rightarrow> string \<Rightarrow> RecordKind \<Rightarrow> adopt_record option \<Rightarrow> u64 \<Rightarrow> adopt_record \<Rightarrow> u64 \<Rightarrow> metadata
       \<Rightarrow> TenantContext \<Rightarrow> Scope \<Rightarrow> goerr option" where
  "verifyRecordEquivalent env pid kind expected expectedPos existing existingPos existingMetadata tenant sourceScope =
     (if \<not> ownedByTenant existingMetadata tenant
      then Some (not_equivalent env pid kind ''target record is not owned by the assigned tenant'')
      else
        (case expected of
           None \<Rightarrow>
             if verifyAdoptionReceipt env existing sourceScope \<noteq> Some None
             then Some (not_equivalent env pid kind
                    (''the source is gone and the target record at '' @ strconv_FormatUint existingPos
                     @ '' carries no valid adoption receipt, so an adoption cannot be proven''))
             else None
         | Some want \<Rightarrow>
             if existingPos \<noteq> expectedPos \<or> want \<noteq> existing
             then Some (not_equivalent env pid kind
                    (''target record at '' @ strconv_FormatUint existingPos
                     @ '' is not the exact adoption of the source at '' @ strconv_FormatUint expectedPos))
             else None))"

definition classifyExisting :: "goerr option \<Rightarrow> RecordOutcome" where
  "classifyExisting verdict =
     (case verdict of Some err \<Rightarrow> ro_failed err | None \<Rightarrow> ro_reached StatusAlreadyPresent False)"

section \<open>Read-backs\<close>

text \<open>
  \<open>verifyEventsMatchBySequence\<close>.  The loop over the map of expected events visits them in an order the
  language leaves open, which decides the error reported when several differ: here the order of the
  expected events.
\<close>

definition by_sequence :: "Event list \<Rightarrow> u64 \<rightharpoonup> Event" where
  "by_sequence es = map_of (rev (map (\<lambda>e. (ev_sequence_number e, e)) es))"

definition distinct_count :: "Event list \<Rightarrow> nat" where
  "distinct_count es = length (remdups (map ev_sequence_number es))"

definition verify_error :: "adopt_env \<Rightarrow> string \<Rightarrow> string \<Rightarrow> goerr" where
  "verify_error env pid what =
     ErrNew (''verify target events for persistence_id '' @ strconv_Quote (ad_isPrint env) pid @ '': '' @ what)"

fun match_each :: "adopt_env \<Rightarrow> string \<Rightarrow> u64 list \<Rightarrow> (u64 \<rightharpoonup> Event) \<Rightarrow> (u64 \<rightharpoonup> Event) \<Rightarrow> goerr option" where
  "match_each env pid [] want got = None"
| "match_each env pid (sq # seqs) want got =
     (case got sq of
        None \<Rightarrow> Some (verify_error env pid
                  (''sequence '' @ strconv_FormatUint sq @ '' is missing from the target read-back''))
      | Some e \<Rightarrow>
          if want sq \<noteq> Some e
          then Some (verify_error env pid (''sequence '' @ strconv_FormatUint sq @ '' does not match what was written''))
          else match_each env pid seqs want got)"

definition verifyEventsMatchBySequence :: "adopt_env \<Rightarrow> string \<Rightarrow> Event list \<Rightarrow> Event list \<Rightarrow> goerr option" where
  "verifyEventsMatchBySequence env pid expected written =
     (if distinct_count written \<noteq> length written
      then Some (verify_error env pid ''read-back carries more than one row for a sequence number'')
      else if distinct_count written \<noteq> distinct_count expected
      then Some (verify_error env pid (''wrote '' @ decimal (distinct_count expected)
             @ '' distinct sequence numbers, read back '' @ decimal (distinct_count written)))
      else match_each env pid (remdups (map ev_sequence_number expected)) (by_sequence expected) (by_sequence written))"

text \<open>\<open>sameEventsBySequence\<close>, the text of its error.\<close>

fun first_repeat :: "u64 list \<Rightarrow> u64 list \<Rightarrow> u64 option" where
  "first_repeat seen [] = None"
| "first_repeat seen (n # ns) = (if n \<in> set seen then Some n else first_repeat (n # seen) ns)"

fun same_each :: "(u64 \<rightharpoonup> Event) \<Rightarrow> u64 list \<Rightarrow> Event list \<Rightarrow> string option" where
  "same_each verified seen [] = None"
| "same_each verified seen (e # es) =
     (let sq = ev_sequence_number e in
      if sq \<in> set seen then Some (''source repeats sequence '' @ strconv_FormatUint sq)
      else
        (case verified sq of
           None \<Rightarrow> Some (''source sequence '' @ strconv_FormatUint sq @ '' was not verified'')
         | Some want \<Rightarrow>
             if e \<noteq> want
             then Some (''source sequence '' @ strconv_FormatUint sq @ '' changed after it was verified'')
             else same_each verified (sq # seen) es))"

definition sameEventsBySequence :: "Event list \<Rightarrow> Event list \<Rightarrow> string option" where
  "sameEventsBySequence current verified =
     (if length current \<noteq> length verified
      then Some (''source holds '' @ decimal (length current) @ '' events, '' @ decimal (length verified) @ '' were verified'')
      else
        (case first_repeat [] (map ev_sequence_number verified) of
           Some sq \<Rightarrow> Some (''verified events repeat sequence '' @ strconv_FormatUint sq)
         | None \<Rightarrow> same_each (by_sequence verified) [] current))"

section \<open>Deleting a verified source\<close>

definition source_changed :: "adopt_env \<Rightarrow> string \<Rightarrow> RecordKind \<Rightarrow> string \<Rightarrow> goerr" where
  "source_changed env pid kind what =
     ErrWrap '''' errSourceChangedDuringAdoption
       ('': persistence_id '' @ strconv_Quote (ad_isPrint env) pid @ '' kind '' @ kind_text kind @ '': '' @ what)"

definition deleteVerifiedSourceEvents ::
    "adopt_env \<Rightarrow> 's EventsStore \<Rightarrow> Scope \<Rightarrow> string \<Rightarrow> Event list \<Rightarrow> u64 \<Rightarrow> bool \<Rightarrow> 's \<Rightarrow> RecordOutcome \<times> 's" where
  "deleteVerifiedSourceEvents env api sourceScope pid sourceEvents maxSeq wroteTarget s =
     (case ReplayEvents api sourceScope pid 1 maxReplaySequence maxReplayLimit s of
        Inl err \<Rightarrow> (ro_failed (ErrWrap ''re-read source events: '' err ''''), s)
      | Inr current \<Rightarrow>
          (case sameEventsBySequence current sourceEvents of
             Some what \<Rightarrow> (ro_failed (source_changed env pid KindEvents (what @ ''; nothing was deleted'')), s)
           | None \<Rightarrow>
               (case DeleteEvents api sourceScope pid maxSeq s of
                  (Some err, s') \<Rightarrow> (ro_failed (ErrWrap ''delete source events: '' err ''''), s')
                | (None, s') \<Rightarrow>
                    (case GetLatestEvent api sourceScope pid s' of
                       Inl err \<Rightarrow> (ro_failed (ErrWrap ''re-read source events: '' err ''''), s')
                     | Inr (Some latest) \<Rightarrow>
                         (let sq = ev_sequence_number latest in
                          if maxSeq < sq
                          then (ro_failed (source_changed env pid KindEvents
                                  (''source gained sequence '' @ strconv_FormatUint sq
                                   @ '' during the deletion; the verified events through '' @ strconv_FormatUint maxSeq
                                   @ '' were deleted, but the newer ones remain only in the source'')), s')
                          else (ro_failed (source_changed env pid KindEvents
                                  (''source still holds sequence '' @ strconv_FormatUint sq @ '' after deleting through ''
                                   @ strconv_FormatUint maxSeq @ ''; it was not removed or was recreated'')), s'))
                     | Inr None \<Rightarrow> (ro_reached StatusSourceDeleted wroteTarget, s')))))"

definition deleteVerifiedSourceSnapshot ::
    "adopt_env \<Rightarrow> 'n SnapshotStoreApi \<Rightarrow> Scope \<Rightarrow> string \<Rightarrow> Snapshot \<Rightarrow> bool \<Rightarrow> 'n \<Rightarrow> RecordOutcome \<times> 'n" where
  "deleteVerifiedSourceSnapshot env api sourceScope pid verified wroteTarget s =
     (case GetLatestSnapshot api sourceScope pid s of
        Inl err \<Rightarrow> (ro_failed (ErrWrap ''re-read source snapshot: '' err ''''), s)
      | Inr current \<Rightarrow>
          if current \<noteq> Some verified
          then (ro_failed (source_changed env pid KindSnapshot
                  (''the source snapshot changed after it was verified (verified sequence ''
                   @ strconv_FormatUint (sn_sequence_number verified) @ ''); nothing was deleted'')), s)
          else
            (case DeleteSnapshots api sourceScope pid (sn_sequence_number verified) s of
               (Some err, s') \<Rightarrow> (ro_failed (ErrWrap ''delete source snapshot: '' err ''''), s')
             | (None, s') \<Rightarrow>
                 (case GetLatestSnapshot api sourceScope pid s' of
                    Inl err \<Rightarrow> (ro_failed (ErrWrap ''re-read source snapshot: '' err ''''), s')
                  | Inr (Some latest) \<Rightarrow>
                      (let sq = sn_sequence_number latest; v = sn_sequence_number verified in
                       if v < sq
                       then (ro_failed (source_changed env pid KindSnapshot
                               (''source gained a snapshot at '' @ strconv_FormatUint sq
                                @ '' during the deletion; the verified snapshot at '' @ strconv_FormatUint v
                                @ '' was deleted, but the newer one remains only in the source'')), s')
                       else (ro_failed (source_changed env pid KindSnapshot
                               (''source still holds a snapshot at '' @ strconv_FormatUint sq @ '' after deleting through ''
                                @ strconv_FormatUint v @ ''; it was not removed or was recreated'')), s'))
                  | Inr None \<Rightarrow> (ro_reached StatusSourceDeleted wroteTarget, s'))))"

section \<open>The three kinds of records\<close>

record adoptionIntent =
  in_target :: Scope
  in_tenant :: TenantContext
  in_metadata :: metadata

fun stamp_events ::
    "adopt_env \<Rightarrow> Scope \<Rightarrow> metadata \<Rightarrow> (u64 \<rightharpoonup> u64) \<Rightarrow> Event list \<Rightarrow> goerr + Event list" where
  "stamp_events env sourceScope md predecessors [] = Inr []"
| "stamp_events env sourceScope md predecessors (e # es) =
     sum_bind (stampAdoptionReceipt env (RecEvent e) sourceScope md
         (Some (case predecessors (ev_sequence_number e) of Some p \<Rightarrow> p | None \<Rightarrow> 0))) (\<lambda>r.
     sum_bind (stamp_events env sourceScope md predecessors es) (\<lambda>rs. Inr (rec_event r # rs)))"

definition max_sequence :: "Event list \<Rightarrow> u64" where
  "max_sequence es = foldl (\<lambda>m e. if m < ev_sequence_number e then ev_sequence_number e else m) 0 es"

definition afterVerifiedEvents ::
    "adopt_env \<Rightarrow> ('s, 'n, 'd) TenantAdopter \<Rightarrow> 's EventsStore \<Rightarrow> string \<Rightarrow> Event list \<Rightarrow> u64 \<Rightarrow> goerr option \<Rightarrow> 's
       \<Rightarrow> RecordOutcome \<times> 's" where
  "afterVerifiedEvents env a api pid sourceEvents maxSeq verdict s =
     (let outcome = classifyExisting verdict in
      if ro_Status outcome = StatusAlreadyPresent \<and> sourceEvents \<noteq> [] \<and> ta_write a \<and> ta_deleteSource a
      then deleteVerifiedSourceEvents env api (ta_sourceScope a) pid sourceEvents maxSeq False s
      else (outcome, s))"

text \<open>From the write on.\<close>

definition write_adopted_events ::
    "adopt_env \<Rightarrow> ('s, 'n, 'd) TenantAdopter \<Rightarrow> 's EventsStore \<Rightarrow> string \<Rightarrow> adoptionIntent \<Rightarrow> Event list \<Rightarrow> Event list \<Rightarrow> u64
       \<Rightarrow> 's \<Rightarrow> RecordOutcome \<times> 's" where
  "write_adopted_events env a api pid intent sourceEvents expected maxSeq s =
     (case WriteEvents api (in_target intent) expected ExpectGenesis s of
        (Some err, s') \<Rightarrow>
          (case errors_As_conflict err of
             None \<Rightarrow> (ro_failed (ErrWrap ''write target events: '' err ''''), s')
           | Some _ \<Rightarrow>
               (case ReplayEvents api (in_target intent) pid 1 maxReplaySequence maxReplayLimit s' of
                  Inl err \<Rightarrow> (ro_failed (ErrWrap ''check target events: '' err ''''), s')
                | Inr raced \<Rightarrow>
                    afterVerifiedEvents env a api pid sourceEvents maxSeq
                      (verifyEventsEquivalent env pid expected raced (in_tenant intent) (ta_sourceScope a)) s'))
      | (None, s') \<Rightarrow>
          (case ReplayEvents api (in_target intent) pid 1 maxReplaySequence maxReplayLimit s' of
             Inl err \<Rightarrow> (ro_failed (ErrWrap ''verify target events: '' err ''''), s')
           | Inr written \<Rightarrow>
               (case verifyEventsMatchBySequence env pid expected written of
                  Some err \<Rightarrow> (ro_failed err, s')
                | None \<Rightarrow>
                    if ta_deleteSource a
                    then deleteVerifiedSourceEvents env api (ta_sourceScope a) pid sourceEvents maxSeq True s'
                    else (ro_reached StatusCopied True, s'))))"

definition adoptEvents ::
    "adopt_env \<Rightarrow> ('s, 'n, 'd) TenantAdopter \<Rightarrow> 's EventsStore \<Rightarrow> string \<Rightarrow> adoptionIntent \<Rightarrow> 's \<Rightarrow> RecordOutcome \<times> 's" where
  "adoptEvents env a api pid intent s =
     (case ReplayEvents api (ta_sourceScope a) pid 1 maxReplaySequence maxReplayLimit s of
        Inl err \<Rightarrow> (ro_failed (ErrWrap ''read source events: '' err ''''), s)
      | Inr sourceEvents \<Rightarrow>
          (case stamp_events env (ta_sourceScope a) (in_metadata intent) (adoptedPredecessors sourceEvents) sourceEvents of
             Inl err \<Rightarrow> (ro_failed err, s)
           | Inr expected \<Rightarrow>
               (case ReplayEvents api (in_target intent) pid 1 maxReplaySequence maxReplayLimit s of
                  Inl err \<Rightarrow> (ro_failed (ErrWrap ''check target events: '' err ''''), s)
                | Inr existing \<Rightarrow>
                    let maxSeq = max_sequence expected in
                    if existing \<noteq> [] then
                      afterVerifiedEvents env a api pid sourceEvents maxSeq
                        (verifyEventsEquivalent env pid expected existing (in_tenant intent) (ta_sourceScope a)) s
                    else if sourceEvents = [] then (ro_reached StatusNone False, s)
                    else if \<not> ta_write a then (ro_reached StatusCopied True, s)
                    else write_adopted_events env a api pid intent sourceEvents expected maxSeq s)))"

text \<open>The stamped copy of a snapshot or a state, when there is one.\<close>

definition stamp_optional ::
    "adopt_env \<Rightarrow> Scope \<Rightarrow> metadata \<Rightarrow> adopt_record option \<Rightarrow> goerr + adopt_record option" where
  "stamp_optional env sourceScope md r =
     (case r of
        None \<Rightarrow> Inr None
      | Some x \<Rightarrow> sum_bind (stampAdoptionReceipt env x sourceScope md None) (\<lambda>clone. Inr (Some clone)))"

definition write_adopted_snapshot ::
    "adopt_env \<Rightarrow> ('s, 'n, 'd) TenantAdopter \<Rightarrow> 'n SnapshotStoreApi \<Rightarrow> string \<Rightarrow> adoptionIntent \<Rightarrow> Snapshot \<Rightarrow> Snapshot
       \<Rightarrow> 'n \<Rightarrow> RecordOutcome \<times> 'n" where
  "write_adopted_snapshot env a api pid intent snapshot clone s =
     (case WriteSnapshot api (in_target intent) clone s of
        (Some err, s') \<Rightarrow> (ro_failed (ErrWrap ''write target snapshot: '' err ''''), s')
      | (None, s') \<Rightarrow>
          (case GetLatestSnapshot api (in_target intent) pid s' of
             Inl err \<Rightarrow> (ro_failed (ErrWrap ''verify target snapshot: '' err ''''), s')
           | Inr written \<Rightarrow>
               if written \<noteq> Some clone
               then (ro_failed (ErrNew (''verify target snapshot for persistence_id '' @ strconv_Quote (ad_isPrint env) pid
                       @ '': read-back does not match what was written (expected sequence ''
                       @ strconv_FormatUint (sn_sequence_number snapshot) @ '')'')), s')
               else if ta_deleteSource a
               then deleteVerifiedSourceSnapshot env api (ta_sourceScope a) pid snapshot True s'
               else (ro_reached StatusCopied True, s')))"

definition adoptSnapshot ::
    "adopt_env \<Rightarrow> ('s, 'n, 'd) TenantAdopter \<Rightarrow> 'n SnapshotStoreApi \<Rightarrow> string \<Rightarrow> adoptionIntent \<Rightarrow> 'n \<Rightarrow> RecordOutcome \<times> 'n" where
  "adoptSnapshot env a api pid intent s =
     (case GetLatestSnapshot api (ta_sourceScope a) pid s of
        Inl err \<Rightarrow> (ro_failed (ErrWrap ''read source snapshot: '' err ''''), s)
      | Inr snapshot \<Rightarrow>
          (case stamp_optional env (ta_sourceScope a) (in_metadata intent) (map_option RecSnapshot snapshot) of
             Inl err \<Rightarrow> (ro_failed err, s)
           | Inr clone \<Rightarrow>
               (case GetLatestSnapshot api (in_target intent) pid s of
                  Inl err \<Rightarrow> (ro_failed (ErrWrap ''check target snapshot: '' err ''''), s)
                | Inr (Some existing) \<Rightarrow>
                    (let outcome = classifyExisting (verifyRecordEquivalent env pid KindSnapshot clone
                           (case clone of Some c \<Rightarrow> sn_sequence_number (rec_snapshot c) | None \<Rightarrow> 0) (RecSnapshot existing)
                           (sn_sequence_number existing) (sn_tenant_metadata existing) (in_tenant intent) (ta_sourceScope a)) in
                     case snapshot of
                       Some sn \<Rightarrow>
                         if ro_Status outcome = StatusAlreadyPresent \<and> ta_write a \<and> ta_deleteSource a
                         then deleteVerifiedSourceSnapshot env api (ta_sourceScope a) pid sn False s
                         else (outcome, s)
                     | None \<Rightarrow> (outcome, s))
                | Inr None \<Rightarrow>
                    (case snapshot of
                       None \<Rightarrow> (ro_reached StatusNone False, s)
                     | Some sn \<Rightarrow>
                         if \<not> ta_write a then (ro_reached StatusCopied True, s)
                         else write_adopted_snapshot env a api pid intent sn (rec_snapshot (the clone)) s))))"

definition classify_target_state ::
    "adopt_env \<Rightarrow> ('s, 'n, 'd) TenantAdopter \<Rightarrow> 'd StateStore \<Rightarrow> string \<Rightarrow> adoptionIntent \<Rightarrow> adopt_record option \<Rightarrow> 'd
       \<Rightarrow> RecordOutcome" where
  "classify_target_state env a api pid intent clone s =
     (case GetLatestState api (in_target intent) pid s of
        Inl err \<Rightarrow> ro_failed (ErrWrap ''check target state: '' err '''')
      | Inr None \<Rightarrow> ro_reached StatusNone False
      | Inr (Some existing) \<Rightarrow>
          classifyExisting (verifyRecordEquivalent env pid KindDurableState clone
            (case clone of Some c \<Rightarrow> du_version_number (rec_state c) | None \<Rightarrow> 0) (RecState existing)
            (du_version_number existing) (du_tenant_metadata existing) (in_tenant intent) (ta_sourceScope a)))"

definition write_adopted_state ::
    "adopt_env \<Rightarrow> ('s, 'n, 'd) TenantAdopter \<Rightarrow> 'd StateStore \<Rightarrow> string \<Rightarrow> adoptionIntent \<Rightarrow> DurableState \<Rightarrow> adopt_record \<Rightarrow> 'd
       \<Rightarrow> RecordOutcome \<times> 'd" where
  "write_adopted_state env a api pid intent state clone s =
     (case WriteState api (in_target intent) (rec_state clone) ExpectGenesis s of
        (Some err, s') \<Rightarrow>
          (if errors_As_conflict err = None then (ro_failed (ErrWrap ''write target state: '' err ''''), s')
           else
             (let outcome = classify_target_state env a api pid intent (Some clone) s' in
              if ro_Status outcome \<noteq> StatusNone then (outcome, s')
              else (ro_failed (ErrWrap ''write target state: '' err ''''), s')))
      | (None, s') \<Rightarrow>
          (case GetLatestState api (in_target intent) pid s' of
             Inl err \<Rightarrow> (ro_failed (ErrWrap ''verify target state: '' err ''''), s')
           | Inr written \<Rightarrow>
               if written \<noteq> Some (rec_state clone)
               then (ro_failed (ErrNew (''verify target state for persistence_id '' @ strconv_Quote (ad_isPrint env) pid
                       @ '': read-back does not match what was written (expected version ''
                       @ strconv_FormatUint (du_version_number state) @ '')'')), s')
               else (ro_reached StatusCopied True, s')))"

definition adoptState ::
    "adopt_env \<Rightarrow> ('s, 'n, 'd) TenantAdopter \<Rightarrow> 'd StateStore \<Rightarrow> string \<Rightarrow> adoptionIntent \<Rightarrow> 'd \<Rightarrow> RecordOutcome \<times> 'd" where
  "adoptState env a api pid intent s =
     (case GetLatestState api (ta_sourceScope a) pid s of
        Inl err \<Rightarrow> (ro_failed (ErrWrap ''read source state: '' err ''''), s)
      | Inr state \<Rightarrow>
          (case stamp_optional env (ta_sourceScope a) (in_metadata intent) (map_option RecState state) of
             Inl err \<Rightarrow> (ro_failed err, s)
           | Inr clone \<Rightarrow>
               (let outcome = classify_target_state env a api pid intent clone s in
                if ro_Status outcome \<noteq> StatusNone then (outcome, s)
                else
                  (case state of
                     None \<Rightarrow> (ro_reached StatusNone False, s)
                   | Some st \<Rightarrow>
                       if \<not> ta_write a then (ro_reached StatusCopied True, s)
                       else write_adopted_state env a api pid intent st (the clone) s))))"

section \<open>Fences\<close>

definition fenceOrderKey :: "Scope \<Rightarrow> string" where
  "fenceOrderKey scope = (if scope_IsUnscoped scope then ''0'' else ''1'' @ scope_TenantID scope)"

text \<open>The scopes acquired so far with whether a release function came with them, the last one first.\<close>

fun acquire_each ::
    "AdoptionFence \<Rightarrow> string \<Rightarrow> Scope list \<Rightarrow> (Scope \<times> bool) list \<Rightarrow> fence_event list
       \<Rightarrow> goerr option \<times> (Scope \<times> bool) list \<times> fence_event list" where
  "acquire_each fence pid [] releases tr = (None, releases, tr)"
| "acquire_each fence pid (sc # scs) releases tr =
     (case fence tr sc pid of
        Inl err \<Rightarrow> (Some err, releases, tr)
      | Inr given \<Rightarrow> acquire_each fence pid scs ((sc, given) # releases) (tr @ [FenceAcquired sc pid]))"

definition release_all :: "string \<Rightarrow> (Scope \<times> bool) list \<Rightarrow> fence_event list \<Rightarrow> fence_event list" where
  "release_all pid releases tr = tr @ map (\<lambda>(sc, _). FenceReleased sc pid) (filter snd releases)"

definition acquireFences ::
    "('s, 'n, 'd) TenantAdopter \<Rightarrow> string \<Rightarrow> Scope \<Rightarrow> fence_event list \<Rightarrow> (goerr + (Scope \<times> bool) list) \<times> fence_event list" where
  "acquireFences a pid target tr =
     (case acquire_each (the (ta_fence a)) pid (sort_key fenceOrderKey [ta_sourceScope a, target]) [] tr of
        (Some err, releases, tr') \<Rightarrow> (Inl err, release_all pid releases tr')
      | (None, releases, tr') \<Rightarrow> (Inr releases, tr'))"

section \<open>One aggregate\<close>

definition applyKind ::
    "RecordKind \<Rightarrow> string \<Rightarrow> RecordOutcome \<Rightarrow> AdoptionReport \<Rightarrow> AdoptionFailure option \<times> AdoptionReport" where
  "applyKind kind pid outcome report =
     (if ro_Status outcome = StatusFailed then
        (let f = \<lparr>af_PersistenceID = pid, af_Kind = Some kind, af_Err = the (ro_Err outcome)\<rparr> in
         (Some f, report\<lparr>ar_Failures := ar_Failures report @ [f]\<rparr>))
      else (None, report))"

text \<open>A failure before or after the record kinds: counted and recorded.\<close>

definition fail_aggregate :: "string \<Rightarrow> goerr \<Rightarrow> AdoptionReport \<Rightarrow> AdoptionFailure \<times> AdoptionReport" where
  "fail_aggregate pid err report =
     (let f = \<lparr>af_PersistenceID = pid, af_Kind = None, af_Err = err\<rparr> in
      (f, report\<lparr>ar_Failed := Suc (ar_Failed report), ar_Failures := ar_Failures report @ [f]\<rparr>))"

text \<open>The kinds in their order, each only when none before it failed.\<close>

record ('s, 'n, 'd) kinds_state =
  ks_outcome :: AggregateOutcome
  ks_failure :: "AdoptionFailure option"
  ks_report :: AdoptionReport
  ks_world :: "('s, 'n, 'd) adopt_world"

definition adopt_kinds ::
    "adopt_env \<Rightarrow> ('s, 'n, 'd) TenantAdopter \<Rightarrow> string \<Rightarrow> adoptionIntent \<Rightarrow> AggregateOutcome \<Rightarrow> AdoptionReport
       \<Rightarrow> ('s, 'n, 'd) adopt_world \<Rightarrow> ('s, 'n, 'd) kinds_state" where
  "adopt_kinds env a pid intent outcome report w =
     (let k0 = \<lparr>ks_outcome = outcome, ks_failure = None, ks_report = report, ks_world = w\<rparr>;
          k1 = (case ta_eventsStore a of
                  None \<Rightarrow> k0
                | Some (api, _) \<Rightarrow>
                    (let (o1, s) = adoptEvents env a api pid intent (aw_events (ks_world k0));
                         (f, rep) = applyKind KindEvents pid o1 (ks_report k0)
                     in k0\<lparr>ks_outcome := (ks_outcome k0)\<lparr>ao_Events := o1\<rparr>, ks_failure := f, ks_report := rep,
                           ks_world := (ks_world k0)\<lparr>aw_events := s\<rparr>\<rparr>));
          k2 = (if ks_failure k1 \<noteq> None then k1
                else case ta_snapshotStore a of
                  None \<Rightarrow> k1
                | Some (api, _) \<Rightarrow>
                    (let (o2, s) = adoptSnapshot env a api pid intent (aw_snaps (ks_world k1));
                         (f, rep) = applyKind KindSnapshot pid o2 (ks_report k1)
                     in k1\<lparr>ks_outcome := (ks_outcome k1)\<lparr>ao_Snapshot := o2\<rparr>, ks_failure := f, ks_report := rep,
                           ks_world := (ks_world k1)\<lparr>aw_snaps := s\<rparr>\<rparr>))
      in if ks_failure k2 \<noteq> None then k2
         else case ta_stateStore a of
           None \<Rightarrow> k2
         | Some (api, _) \<Rightarrow>
             (let (o3, s) = adoptState env a api pid intent (aw_states (ks_world k2));
                  (f, rep) = applyKind KindDurableState pid o3 (ks_report k2)
              in k2\<lparr>ks_outcome := (ks_outcome k2)\<lparr>ao_DurableState := o3\<rparr>, ks_failure := f, ks_report := rep,
                    ks_world := (ks_world k2)\<lparr>aw_states := s\<rparr>\<rparr>))"

text \<open>Whether some kind that was tried found a record, wrote its target, deleted its source.\<close>

definition ao_kinds :: "AggregateOutcome \<Rightarrow> RecordOutcome list" where
  "ao_kinds outcome = [ao_Events outcome, ao_Snapshot outcome, ao_DurableState outcome]"

definition ao_found :: "AggregateOutcome \<Rightarrow> bool" where
  "ao_found outcome \<longleftrightarrow> (\<exists>o1 \<in> set (ao_kinds outcome). ro_Status o1 \<noteq> StatusUnset \<and> ro_Status o1 \<noteq> StatusNone)"

definition ao_copied :: "AggregateOutcome \<Rightarrow> bool" where
  "ao_copied outcome \<longleftrightarrow> (\<exists>o1 \<in> set (ao_kinds outcome). ro_wroteTarget o1)"

definition ao_deleted :: "AggregateOutcome \<Rightarrow> bool" where
  "ao_deleted outcome \<longleftrightarrow> (\<exists>o1 \<in> set (ao_kinds outcome). ro_Status o1 = StatusSourceDeleted)"

definition count_aggregate ::
    "bool \<Rightarrow> AggregateOutcome \<Rightarrow> AdoptionFailure option \<Rightarrow> AdoptionReport \<Rightarrow> AdoptionFailure option \<times> AdoptionReport" where
  "count_aggregate writing outcome failure report =
     (let bump = (\<lambda>b n. if b then Suc n else n :: nat);
          copied = ao_copied outcome; deleted = ao_deleted outcome;
          report = report\<lparr>ar_Aggregates := ar_Aggregates report @ [outcome]\<rparr> in
      if failure \<noteq> None then
        (failure, report\<lparr>ar_Failed := Suc (ar_Failed report), ar_Copied := bump copied (ar_Copied report),
                         ar_SourceDeleted := bump deleted (ar_SourceDeleted report)\<rparr>)
      else if \<not> ao_found outcome then
        (let (f, report) = fail_aggregate (ao_PersistenceID outcome) errNoSourceRecords report in (Some f, report))
      else if copied then
        (None, if \<not> writing then report\<lparr>ar_Copied := Suc (ar_Copied report)\<rparr>
               else report\<lparr>ar_Copied := Suc (ar_Copied report), ar_Verified := Suc (ar_Verified report),
                           ar_SourceDeleted := bump deleted (ar_SourceDeleted report)\<rparr>)
      else
        (None, report\<lparr>ar_AlreadyPresent := Suc (ar_AlreadyPresent report),
                      ar_SourceDeleted := bump deleted (ar_SourceDeleted report)\<rparr>))"

text \<open>The result says whether the run must stop, and the failure recorded last, if any.\<close>

type_synonym ('s, 'n, 'd) aggregate_result = "(bool \<times> AdoptionFailure option) \<times> AdoptionReport \<times> ('s, 'n, 'd) adopt_world"

definition fail_with ::
    "('s, 'n, 'd) TenantAdopter \<Rightarrow> string \<Rightarrow> goerr \<Rightarrow> AdoptionReport \<Rightarrow> ('s, 'n, 'd) adopt_world \<Rightarrow> ('s, 'n, 'd) aggregate_result" where
  "fail_with a pid err report w =
     (let (f, report') = fail_aggregate pid err report in ((ta_failFast a, Some f), report', w))"

definition adopt_aggregate ::
    "adopt_env \<Rightarrow> ('s, 'n, 'd) TenantAdopter \<Rightarrow> string \<Rightarrow> string \<Rightarrow> adoptionIntent \<Rightarrow> AdoptionReport \<Rightarrow> ('s, 'n, 'd) adopt_world
       \<Rightarrow> ('s, 'n, 'd) aggregate_result" where
  "adopt_aggregate env a pid tenantID intent report w =
     (let outcome = \<lparr>ao_PersistenceID = pid, ao_Tenant = tenantID, ao_Events = ro_unset, ao_Snapshot = ro_unset,
                      ao_DurableState = ro_unset\<rparr>;
          k = adopt_kinds env a pid intent outcome report w;
          (f, report') = count_aggregate (ta_write a) (ks_outcome k) (ks_failure k) (ks_report k)
      in ((ta_failFast a \<and> f \<noteq> None, f), report', ks_world k))"

text \<open>A run that writes holds both fences meanwhile.\<close>

definition fenced_aggregate ::
    "adopt_env \<Rightarrow> ('s, 'n, 'd) TenantAdopter \<Rightarrow> string \<Rightarrow> string \<Rightarrow> adoptionIntent \<Rightarrow> AdoptionReport \<Rightarrow> ('s, 'n, 'd) adopt_world
       \<Rightarrow> ('s, 'n, 'd) aggregate_result" where
  "fenced_aggregate env a pid tenantID intent report w =
     (if ta_write a then
        (case acquireFences a pid (in_target intent) (aw_fences w) of
           (Inl err, tr) \<Rightarrow> fail_with a pid (ErrWrap ''acquire adoption fence: '' err '''') report (w\<lparr>aw_fences := tr\<rparr>)
         | (Inr releases, tr) \<Rightarrow>
             (case adopt_aggregate env a pid tenantID intent report (w\<lparr>aw_fences := tr\<rparr>) of
                (r, report', w') \<Rightarrow> (r, report', w'\<lparr>aw_fences := release_all pid releases (aw_fences w')\<rparr>)))
      else adopt_aggregate env a pid tenantID intent report w)"

definition processAggregate ::
    "adopt_env \<Rightarrow> ('s, 'n, 'd) TenantAdopter \<Rightarrow> string \<Rightarrow> AdoptionReport \<Rightarrow> ('s, 'n, 'd) adopt_world
       \<Rightarrow> ('s, 'n, 'd) aggregate_result" where
  "processAggregate env a pid report w =
     (case ta_assign a pid of
        Inl err \<Rightarrow> fail_with a pid (ErrWrap ''tenant assignment: '' err '''') report w
      | Inr None \<Rightarrow> ((False, None), report\<lparr>ar_SkippedByAssignment := Suc (ar_SkippedByAssignment report)\<rparr>, w)
      | Inr (Some tenantID) \<Rightarrow>
          (let report' = report\<lparr>ar_Assigned := Suc (ar_Assigned report)\<rparr> in
           case NewTenantScope tenantID of
             Inl err \<Rightarrow> fail_with a pid (ErrWrap (''assigned tenant '' @ strconv_Quote (ad_isPrint env) tenantID
                               @ '' is not a valid target scope: '') err '''') report' w
           | Inr target \<Rightarrow>
               (case NewTenantContext (scope_TenantID target) of
                  Inl err \<Rightarrow> fail_with a pid (ErrWrap (''building tenant context for '' @ strconv_Quote (ad_isPrint env) tenantID
                               @ '': '') (ErrTenancy err) '''') report' w
                | Inr tenantContext \<Rightarrow>
                    if scope_Equal target (ta_sourceScope a) then fail_with a pid errTargetIsSource report' w
                    else fenced_aggregate env a pid tenantID
                           \<lparr>in_target = target, in_tenant = tenantContext, in_metadata = tenancy_MarshalMetadata tenantContext\<rparr>
                           report' w)))"
section \<open>A run\<close>

definition pingStores :: "('s, 'n, 'd) TenantAdopter \<Rightarrow> ('s, 'n, 'd) adopt_world \<Rightarrow> goerr option" where
  "pingStores a w =
     (case Option.bind (ta_eventsStore a) (\<lambda>(_, listing). PingEvents listing (aw_events w)) of
        Some err \<Rightarrow> Some (ErrWrap ''migration: events store not reachable: '' err '''')
      | None \<Rightarrow>
          (case Option.bind (ta_snapshotStore a) (\<lambda>(_, ping). ping (aw_snaps w)) of
             Some err \<Rightarrow> Some (ErrWrap ''migration: snapshot store not reachable: '' err '''')
           | None \<Rightarrow>
               map_option (\<lambda>err. ErrWrap ''migration: state store not reachable: '' err '''')
                 (Option.bind (ta_stateStore a) (\<lambda>(_, ping). ping (aw_states w)))))"

definition add_ids :: "string list \<Rightarrow> string list \<Rightarrow> string list" where
  "add_ids ids page = foldl (\<lambda>ids pid. if pid \<in> set ids then ids else ids @ [pid]) ids page"

text \<open>The loop over the pages; \<open>None\<close> when the listing never ends.\<close>

partial_function (option) list_pages ::
    "'s EventsListing \<Rightarrow> Scope \<Rightarrow> u64 \<Rightarrow> string \<Rightarrow> string list \<Rightarrow> 's \<Rightarrow> (goerr + string list) option" where
  "list_pages listing scope pageSize pageToken ids s =
     (case PersistenceIDs listing scope pageSize pageToken s of
        Inl err \<Rightarrow> Some (Inl (ErrWrap ''migration: failed to list persistence IDs: '' err ''''))
      | Inr (page, nextToken) \<Rightarrow>
          if nextToken = [] \<or> page = [] then Some (Inr (add_ids ids page))
          else list_pages listing scope pageSize nextToken (add_ids ids page) s)"

declare list_pages.simps [code]

definition collectPersistenceIDs ::
    "('s, 'n, 'd) TenantAdopter \<Rightarrow> ('s, 'n, 'd) adopt_world \<Rightarrow> (goerr + string list) option" where
  "collectPersistenceIDs a w =
     (case ta_eventsStore a of
        None \<Rightarrow> Some (Inr (add_ids [] (ta_explicitIDs a)))
      | Some (_, listing) \<Rightarrow>
          map_option (\<lambda>r. sum_bind r (\<lambda>ids. Inr (add_ids ids (ta_explicitIDs a))))
            (list_pages listing (ta_sourceScope a) (ta_pageSize a) [] [] (aw_events w)))"

fun process_each ::
    "adopt_env \<Rightarrow> ('s, 'n, 'd) TenantAdopter \<Rightarrow> string list \<Rightarrow> AdoptionReport \<Rightarrow> ('s, 'n, 'd) adopt_world
       \<Rightarrow> AdoptionFailure option \<times> AdoptionReport \<times> ('s, 'n, 'd) adopt_world" where
  "process_each env a [] report w = (None, report, w)"
| "process_each env a (pid # ids) report w =
     (case processAggregate env a pid (report\<lparr>ar_Scanned := Suc (ar_Scanned report)\<rparr>) w of
        ((stop, failure), report', w') \<Rightarrow>
          if failure \<noteq> None \<and> stop then (failure, report', w') else process_each env a ids report' w')"

text \<open>A report and the failure that stopped the run, or an error before any aggregate; \<open>None\<close> when listing never ends.\<close>

definition ta_Run ::
    "adopt_env \<Rightarrow> ('s, 'n, 'd) TenantAdopter \<Rightarrow> ('s, 'n, 'd) adopt_world
       \<Rightarrow> (goerr + AdoptionFailure option \<times> AdoptionReport \<times> ('s, 'n, 'd) adopt_world) option" where
  "ta_Run env a w =
     (case pingStores a w of
        Some err \<Rightarrow> Some (Inl err)
      | None \<Rightarrow>
          map_option (\<lambda>r. sum_bind r (\<lambda>ids. Inr (process_each env a ids (new_report (\<not> ta_write a)) w)))
            (collectPersistenceIDs a w))"

end
