(* ===== verification/Adoption_Correct.thy ===== *)
theory Adoption_Correct
  imports Adoption
begin

text \<open>
  The tenant adoption over stores that keep their contracts: receipts verify, what is deleted was
  copied, nothing else changes, and a second run of a completed adoption changes nothing.
\<close>

section \<open>Receipts\<close>

definition receipt_char :: "char \<Rightarrow> bool" where
  "receipt_char c \<longleftrightarrow> byte_val c < 128 \<and> byte_val c \<noteq> 58"

lemma receipt_char_colon: "receipt_char c \<Longrightarrow> c \<noteq> CHR '':''"
  by (auto simp: receipt_char_def byte_val_def)

lemma hex_char_receipt: "d < 16 \<Longrightarrow> receipt_char (hex_char d)"
  by (simp add: receipt_char_def hex_char_def byte_val_def)

lemma hex_digits_receipt: "c \<in> set (hex_digits n v) \<Longrightarrow> receipt_char c"
  by (induction n arbitrary: v) (auto simp: hex_char_receipt)

lemma hex_EncodeToString_receipt: "c \<in> set (hex_EncodeToString bs) \<Longrightarrow> receipt_char c"
  using hex_digits_receipt unfolding hex_EncodeToString_def set_concat set_map by blast

lemma decimal_receipt: "c \<in> set (strconv_FormatUint v) \<Longrightarrow> receipt_char c"
proof -
  assume "c \<in> set (strconv_FormatUint v)"
  then have "is_digit c" using decimal_digits [of "unat v"] by (simp add: strconv_FormatUint_def list_all_iff)
  then show ?thesis by (auto simp: is_digit_def digit_val_def receipt_char_def Let_def split: if_splits)
qed

text \<open>The two shapes of a receipt, and what is read from them.\<close>

lemma adoptionReceipt_shape:
  assumes "adoptionReceipt env r sc p = Inr receipt"
  obtains digest where "receipt = adoptionReceiptVersion @ (case p of Some v \<Rightarrow> strconv_FormatUint v @ '':'' | None \<Rightarrow> []) @ digest"
    "\<forall>c \<in> set digest. receipt_char c"
  using assms that hex_EncodeToString_receipt
  by (cases p) (auto simp: adoptionReceipt_def Let_def return_iffs)

lemma recorded_predecessor_receipt:
  assumes "\<forall>c \<in> set digest. receipt_char c"
  shows "recorded_predecessor ((case p of Some v \<Rightarrow> strconv_FormatUint v @ '':'' | None \<Rightarrow> []) @ digest) = Some p"
proof (cases p)
  case None
  with assms receipt_char_colon show ?thesis by (auto simp: recorded_predecessor_def)
next
  case (Some v)
  have "takeWhile (\<lambda>c. c \<noteq> CHR '':'') (strconv_FormatUint v @ '':'' @ digest) = strconv_FormatUint v"
    using decimal_receipt [of _ v] receipt_char_colon by (subst takeWhile_append2) auto
  with Some show ?thesis by (simp add: recorded_predecessor_def Let_def)
qed

lemma setTenantMetadata_simps [simp]:
  "tenantMetadataOf (setTenantMetadata md r) = md"
  "setTenantMetadata md (setTenantMetadata md' r) = setTenantMetadata md r"
  by (cases r; simp add: tenantMetadataOf_def setTenantMetadata_def)+

text \<open>A stamped record verifies against the scope it was stamped for, with the predecessor it was given.\<close>

lemma stamped_verifies:
  assumes "stampAdoptionReceipt env r sc md p = Inr r'" and "md adoptionReceiptKey = None"
  shows "verifyAdoptionReceipt env r' sc = Some p"
proof -
  from assms(1) obtain receipt where rc: "adoptionReceipt env (setTenantMetadata md r) sc p = Inr receipt"
    and r': "r' = setTenantMetadata (md(adoptionReceiptKey \<mapsto> receipt)) r"
    by (auto simp: stampAdoptionReceipt_def return_iffs)
  obtain digest where d: "receipt = adoptionReceiptVersion @ (case p of Some v \<Rightarrow> strconv_FormatUint v @ '':'' | None \<Rightarrow> []) @ digest"
    "\<forall>c \<in> set digest. receipt_char c"
    by (rule adoptionReceipt_shape [OF rc])
  have "(md(adoptionReceiptKey \<mapsto> receipt))(adoptionReceiptKey := None) = md" using assms(2) by (simp add: fun_eq_iff)
  with recorded_predecessor_receipt [of digest p] d rc show ?thesis
    by (simp add: verifyAdoptionReceipt_def r')
qed

lemma receipt_text:
  assumes "adoptionReceipt env r sc p = Inr receipt"
  shows "utf8_ValidString receipt"
proof (rule ascii_ValidString)
  obtain digest where d: "receipt = adoptionReceiptVersion @ (case p of Some v \<Rightarrow> strconv_FormatUint v @ '':'' | None \<Rightarrow> []) @ digest"
    "\<forall>c \<in> set digest. receipt_char c"
    by (rule adoptionReceipt_shape [OF assms])
  then show "list_all (\<lambda>c. byte_val c < 128) receipt"
    using decimal_receipt by (auto simp: list_all_iff adoptionReceiptVersion_def receipt_char_def byte_val_def split: option.splits)
qed

section \<open>Stamped copies\<close>

text \<open>The tenant of an adoption and the metadata its copies carry besides the receipt.\<close>

definition adopts_for :: "adoptionIntent \<Rightarrow> bool" where
  "adopts_for intent \<longleftrightarrow>
     wf_TenantContext (in_tenant intent) \<and> tc_scope (in_tenant intent) = ScopeTenant
     \<and> in_metadata intent = tenancy_MarshalMetadata (in_tenant intent) \<and> wf_scope (in_target intent)"

text \<open>A record of the target that is the copy of one of the source: the same but for the tenant metadata.\<close>

definition adopted_event :: "adopt_env \<Rightarrow> Scope \<Rightarrow> adoptionIntent \<Rightarrow> Event \<Rightarrow> Event \<Rightarrow> bool" where
  "adopted_event env src intent e e' \<longleftrightarrow>
     (\<exists>receipt p. e' = e\<lparr>ev_tenant_metadata := (in_metadata intent)(adoptionReceiptKey \<mapsto> receipt)\<rparr>
        \<and> verifyAdoptionReceipt env (RecEvent e') src = Some (Some p))"

lemma receipt_key_free:
  assumes "adopts_for intent" shows "in_metadata intent adoptionReceiptKey = None"
  using assms by (simp add: adopts_for_def tenancy_MarshalMetadata_def meta_key_defs adoptionReceiptKey_def)

lemma owned_stamped:
  assumes "adopts_for intent"
  shows "ownedByTenant ((in_metadata intent)(adoptionReceiptKey \<mapsto> receipt)) (in_tenant intent)"
proof -
  have "tenancy_UnmarshalMetadata ((in_metadata intent)(adoptionReceiptKey \<mapsto> receipt)) = tenancy_UnmarshalMetadata (in_metadata intent)"
    using assms by (simp add: adopts_for_def tenancy_MarshalMetadata_def tenancy_UnmarshalMetadata_def md_get_def meta_key_defs adoptionReceiptKey_def)
  with assms show ?thesis by (simp add: ownedByTenant_def adopts_for_def Unmarshal_Marshal)
qed

lemma stamped_event:
  assumes "adopts_for intent" and "stampAdoptionReceipt env (RecEvent e) src (in_metadata intent) (Some p) = Inr r"
  shows "adopted_event env src intent e (rec_event r)"
    and "verifyAdoptionReceipt env (RecEvent (rec_event r)) src = Some (Some p)"
    and "plain_event e \<Longrightarrow> plain_event (rec_event r)"
proof -
  from assms(2) obtain receipt where rc: "adoptionReceipt env (setTenantMetadata (in_metadata intent) (RecEvent e)) src (Some p) = Inr receipt"
    and r: "r = RecEvent (e\<lparr>ev_tenant_metadata := (in_metadata intent)(adoptionReceiptKey \<mapsto> receipt)\<rparr>)"
    by (auto simp: stampAdoptionReceipt_def return_iffs) (simp add: setTenantMetadata_def)
  show v: "verifyAdoptionReceipt env (RecEvent (rec_event r)) src = Some (Some p)"
    using stamped_verifies [OF assms(2) receipt_key_free [OF assms(1)]] r by simp
  with r show "adopted_event env src intent e (rec_event r)" by (auto simp: adopted_event_def)
  have "utf8_ValidString adoptionReceiptKey" by (rule ascii_ValidString) (simp add: adoptionReceiptKey_def byte_val_def)
  with receipt_text [OF rc] tenant_metadata_text assms(1)
  have "text_metadata ((in_metadata intent)(adoptionReceiptKey \<mapsto> receipt))"
    by (auto simp: text_metadata_def adopts_for_def)
  then show "plain_event e \<Longrightarrow> plain_event (rec_event r)" by (simp add: plain_event_def r)
qed

lemma adopted_event_simps:
  assumes "adopted_event env src intent e e'"
  shows "ev_sequence_number e' = ev_sequence_number e" "ev_persistence_id e' = ev_persistence_id e" "ev_event e' = ev_event e"
    "ev_tenant_metadata e' adoptionReceiptKey \<noteq> None"
  using assms by (auto simp: adopted_event_def)

lemma adopted_event_owned:
  "adopted_event env src intent e e' \<Longrightarrow> adopts_for intent \<Longrightarrow> ownedByTenant (ev_tenant_metadata e') (in_tenant intent)"
  using owned_stamped by (auto simp: adopted_event_def)

section \<open>Journals as lists\<close>

text \<open>Sequence numbers as the actors give them: positive, and below \<open>2 ^ 63\<close>.\<close>

definition numbered :: "(u64 \<rightharpoonup> Event) \<Rightarrow> bool" where
  "numbered j \<longleftrightarrow> (\<forall>n \<in> dom j. 0 < n \<and> unat n < 2 ^ 63)"

definition keyed :: "(u64 \<rightharpoonup> Event) \<Rightarrow> bool" where
  "keyed j \<longleftrightarrow> (\<forall>n e. j n = Some e \<longrightarrow> ev_sequence_number e = n)"

definition journal_events :: "(u64 \<rightharpoonup> Event) \<Rightarrow> Event list" where
  "journal_events j = map (\<lambda>n. the (j n)) (sorted_list_of_set (dom j))"

lemma journal_events_sequences: "keyed j \<Longrightarrow> map ev_sequence_number (journal_events j) = sorted_list_of_set (dom j)"
  by (auto simp: journal_events_def keyed_def intro!: map_idI)

lemma journal_events_distinct: "keyed j \<Longrightarrow> distinct (map ev_sequence_number (journal_events j))"
  by (simp add: journal_events_sequences)

lemma journal_events_set: "set (journal_events j) = ran j"
  by (force simp: journal_events_def ran_def dom_def)

lemma journal_events_mem: "keyed j \<Longrightarrow> e \<in> set (journal_events j) \<longleftrightarrow> j (ev_sequence_number e) = Some e"
  by (auto simp: journal_events_set ran_def keyed_def)

lemma journal_events_Nil [simp]: "journal_events j = [] \<longleftrightarrow> j = Map.empty"
  by (simp add: journal_events_def)

lemma journal_events_empty [simp]: "journal_events Map.empty = []"
  by simp

lemma replay_everything:
  assumes "numbered j"
  shows "take (unat maxReplayLimit) (journal_range j 1 maxReplaySequence) = journal_events j"
proof -
  have "1 \<le> n" if "n \<in> dom j" for n
    using assms that by (simp add: numbered_def word_le_nat_alt word_less_nat_alt Suc_le_eq)
  then have d: "{n \<in> dom j. 1 \<le> n \<and> n \<le> maxReplaySequence} = dom j"
    by (auto simp: maxReplaySequence_def)
  have "unat ` dom j \<subseteq> {1..<2 ^ 63}" using assms by (auto simp: numbered_def word_less_nat_alt Suc_le_eq)
  then have "card (unat ` dom j) \<le> card {1..<2 ^ 63 :: nat}" by (rule card_mono [rotated]) simp
  moreover have "card (unat ` dom j) = card (dom j)" by (rule card_image) (simp add: inj_on_def word_unat_eq_iff)
  ultimately have "length (journal_events j) \<le> unat maxReplayLimit"
    by (simp add: journal_events_def maxReplayLimit_def)
  then show ?thesis by (simp add: journal_range_def d journal_events_def)
qed

section \<open>What the checks say\<close>

lemma ev_override_Cons: "ev_override m (e # es) = ev_override (m(ev_sequence_number e \<mapsto> e)) es" "ev_override m [] = m"
  by (simp_all add: ev_override_def)

lemma index_existing_Inr:
  assumes "index_existing env pid t es m seqs = Inr (m', seqs')"
  shows "m' = ev_override m es \<and> seqs' = seqs @ map ev_sequence_number es"
  using assms
proof (induction es arbitrary: m seqs)
  case (Cons e es)
  then have "index_existing env pid t es (m(ev_sequence_number e \<mapsto> e)) (seqs @ [ev_sequence_number e]) = Inr (m', seqs')"
    by (simp add: Let_def split: if_splits)
  from Cons.IH [OF this] show ?case by (simp add: ev_override_Cons del: fun_upd_apply)
qed (simp add: ev_override_def)

lemma index_existing_ok:
  assumes "distinct (map ev_sequence_number es)" and "\<forall>e \<in> set es. m (ev_sequence_number e) = None \<and> ownedByTenant (ev_tenant_metadata e) t"
  shows "index_existing env pid t es m seqs = Inr (ev_override m es, seqs @ map ev_sequence_number es)"
  using assms
proof (induction es arbitrary: m seqs)
  case (Cons e es)
  then have "index_existing env pid t es (m(ev_sequence_number e \<mapsto> e)) (seqs @ [ev_sequence_number e]) =
      Inr (ev_override (m(ev_sequence_number e \<mapsto> e)) es, (seqs @ [ev_sequence_number e]) @ map ev_sequence_number es)"
    by (intro Cons.IH) (auto simp: image_iff)
  with Cons.prems show ?case by (simp add: ev_override_Cons Let_def del: fun_upd_apply)
qed (simp add: ev_override_def)

lemma expected_held_Inr: "expected_held env pid m es k = Inr k' \<Longrightarrow> \<forall>e \<in> set es. m (ev_sequence_number e) = Some e"
  by (induction es arbitrary: k) (auto simp: Let_def split: if_splits)

lemma expected_held_ok: "\<forall>e \<in> set es. m (ev_sequence_number e) = Some e \<Longrightarrow> \<exists>k'. expected_held env pid m es k = Inr k'"
  by (induction es arbitrary: k) (auto simp: Let_def)

lemma ev_override_mem: "ev_override m es n = Some e \<Longrightarrow> e \<in> set es \<and> ev_sequence_number e = n \<or> m n = Some e"
  by (induction es arbitrary: m) (fastforce simp: ev_override_def split: if_splits)+

lemma ev_override_dom: "dom (ev_override m es) = dom m \<union> set (map ev_sequence_number es)"
  by (induction es arbitrary: m) (auto simp: ev_override_Cons)

lemma ev_override_at: "distinct (map ev_sequence_number es) \<Longrightarrow> e \<in> set es \<Longrightarrow> ev_override m es (ev_sequence_number e) = Some e"
proof (induction es arbitrary: m)
  case (Cons x es)
  have other: "ev_override m es n = m n" if "n \<notin> set (map ev_sequence_number es)" for n and m :: "u64 \<rightharpoonup> Event"
    using that by (induction es arbitrary: m) (auto simp: ev_override_Cons)
  show ?case
  proof (cases "e = x")
    case True
    with Cons.prems(1) other [of "ev_sequence_number x" "m(ev_sequence_number x \<mapsto> x)"] show ?thesis by (simp add: ev_override_Cons)
  next
    case False
    with Cons show ?thesis by (simp add: ev_override_Cons)
  qed
qed simp

lemma events_equivalent_holds:
  assumes "verifyEventsEquivalent env pid expected existing t sc = None" and "e \<in> set expected"
  shows "e \<in> set existing"
proof -
  obtain m seqs where i: "index_existing env pid t existing Map.empty [] = Inr (m, seqs)"
    using assms(1) by (auto simp: verifyEventsEquivalent_def split: sum.splits)
  then have "\<exists>k. expected_held env pid m expected 0 = Inr k"
    using assms by (cases expected) (auto simp: verifyEventsEquivalent_def simp del: expected_held.simps split: sum.splits)
  then have "m (ev_sequence_number e) = Some e" using expected_held_Inr assms(2) by blast
  with index_existing_Inr [OF i] ev_override_mem [of Map.empty existing] show ?thesis by auto
qed

lemma by_sequence_mem: "by_sequence es n = Some e \<Longrightarrow> e \<in> set es \<and> ev_sequence_number e = n"
  by (auto simp: by_sequence_def dest: map_of_SomeD)

lemma by_sequence_distinct: "distinct (map ev_sequence_number es) \<Longrightarrow> e \<in> set es \<Longrightarrow> by_sequence es (ev_sequence_number e) = Some e"
  unfolding by_sequence_def by (rule map_of_is_SomeI) (simp_all add: rev_map [symmetric] o_def)

lemma match_each_None: "match_each env pid seqs want got = None \<Longrightarrow> n \<in> set seqs \<Longrightarrow> \<exists>e. got n = Some e \<and> want n = Some e"
  by (induction seqs) (auto split: option.splits if_splits)

lemma events_match_holds:
  assumes "verifyEventsMatchBySequence env pid expected written = None" and "distinct (map ev_sequence_number expected)"
    and "e \<in> set expected"
  shows "e \<in> set written"
proof -
  have "match_each env pid (remdups (map ev_sequence_number expected)) (by_sequence expected) (by_sequence written) = None"
    using assms(1) by (simp add: verifyEventsMatchBySequence_def split: if_splits)
  from match_each_None [OF this, of "ev_sequence_number e"] assms(3)
  obtain e' where e': "by_sequence written (ev_sequence_number e) = Some e'" "by_sequence expected (ev_sequence_number e) = Some e'"
    by fastforce
  then have "e' = e" using by_sequence_distinct [OF assms(2,3)] by simp
  with by_sequence_mem [OF e'(1)] show ?thesis by simp
qed

lemma list_all2_member: "list_all2 P xs ys \<Longrightarrow> x \<in> set xs \<Longrightarrow> \<exists>y \<in> set ys. P x y"
  by (induction rule: list_all2_induct) auto

lemma list_all2_flipI: "list_all2 P xs ys \<Longrightarrow> list_all2 (\<lambda>y x. P x y) ys xs"
  by (induction rule: list_all2_induct) auto

lemma stamp_events_Inr:
  assumes "stamp_events env src (in_metadata intent) ps es = Inr ex" and "adopts_for intent"
  shows "map ev_sequence_number ex = map ev_sequence_number es
    \<and> list_all2 (\<lambda>e e'. adopted_event env src intent e e' \<and> (plain_event e \<longrightarrow> plain_event e')
          \<and> verifyAdoptionReceipt env (RecEvent e') src =
              Some (Some (case ps (ev_sequence_number e) of Some p \<Rightarrow> p | None \<Rightarrow> 0))) es ex"
  using assms(1)
proof (induction es arbitrary: ex)
  case (Cons e es)
  from Cons.prems obtain r rs where r: "stampAdoptionReceipt env (RecEvent e) src (in_metadata intent)
      (Some (case ps (ev_sequence_number e) of Some p \<Rightarrow> p | None \<Rightarrow> 0)) = Inr r"
    and rs: "stamp_events env src (in_metadata intent) ps es = Inr rs" and ex: "ex = rec_event r # rs"
    by (auto simp: return_iffs)
  note st = stamped_event [OF assms(2) r]
  from Cons.IH [OF rs] st adopted_event_simps(1) [OF st(1)] show ?case by (simp add: ex)
qed simp

section \<open>Events\<close>

text \<open>
  What an adoption may do to the journals: it changes the source and the target of one aggregate
  only, the target keeps what it held, and of the source an event is removed only when the target
  holds its copy.
\<close>

context events_store
begin

definition copied_in :: "adopt_env \<Rightarrow> Scope \<Rightarrow> adoptionIntent \<Rightarrow> string \<Rightarrow> 's \<Rightarrow> 's \<Rightarrow> bool" where
  "copied_in env src intent pid s s' \<longleftrightarrow>
     (\<forall>n e. journal s src pid n = Some e \<longrightarrow>
        (\<exists>e'. journal s' (in_target intent) pid n = Some e' \<and> adopted_event env src intent e e'))"

definition adoption_step :: "adopt_env \<Rightarrow> Scope \<Rightarrow> adoptionIntent \<Rightarrow> string \<Rightarrow> 's \<Rightarrow> 's \<Rightarrow> bool" where
  "adoption_step env src intent pid s s' \<longleftrightarrow>
     inv s' \<and> (\<forall>sc p. p \<noteq> pid \<or> sc \<noteq> src \<and> sc \<noteq> in_target intent \<longrightarrow> journal s' sc p = journal s sc p)
     \<and> journal s (in_target intent) pid \<subseteq>\<^sub>m journal s' (in_target intent) pid
     \<and> journal s' src pid \<subseteq>\<^sub>m journal s src pid
     \<and> (\<forall>n e. journal s src pid n = Some e \<longrightarrow> journal s' src pid n = Some e
          \<or> (\<exists>e'. journal s' (in_target intent) pid n = Some e' \<and> adopted_event env src intent e e'))"

lemma adoption_step_same: "inv s' \<Longrightarrow> journal s' = journal s \<Longrightarrow> adoption_step env src intent pid s s'"
  by (simp add: adoption_step_def)

lemma adoption_step_trans:
  assumes "adoption_step env src intent pid s s1" and "adoption_step env src intent pid s1 s2"
  shows "adoption_step env src intent pid s s2"
proof -
  let ?t = "in_target intent"
  note a = assms(1) [unfolded adoption_step_def] and b = assms(2) [unfolded adoption_step_def]
  have t: "journal s ?t pid \<subseteq>\<^sub>m journal s2 ?t pid" and u: "journal s2 src pid \<subseteq>\<^sub>m journal s src pid"
    using a b map_le_trans by blast+
  have "journal s2 src pid n = Some e \<or> (\<exists>e'. journal s2 ?t pid n = Some e' \<and> adopted_event env src intent e e')"
    if "journal s src pid n = Some e" for n e
  proof -
    from a that consider "journal s1 src pid n = Some e" | e' where "journal s1 ?t pid n = Some e'" "adopted_event env src intent e e'"
      by blast
    then show ?thesis
    proof cases
      case 1
      with b show ?thesis by blast
    next
      case 2
      with b have "journal s2 ?t pid n = Some e'" by (metis domI map_le_def)
      with 2 show ?thesis by blast
    qed
  qed
  with a b t u show ?thesis by (simp add: adoption_step_def)
qed

lemma journal_keyed: "inv s \<Longrightarrow> keyed (journal s sc pid)"
  using journal_key by (auto simp: keyed_def)

lemma replay_all:
  assumes "inv s" and "wf_scope sc" and "numbered (journal s sc pid)"
    and "ReplayEvents api sc pid 1 maxReplaySequence maxReplayLimit s = Inr evs"
  shows "evs = journal_events (journal s sc pid)"
  using replay_ok [OF assms(1,2) _ assms(4)] replay_everything [OF assms(3)] by (simp add: maxReplayLimit_def)

lemma delete_source_step:
  assumes i: "inv s" and wf: "wf_scope src" "src \<noteq> in_target intent" and c: "copied_in env src intent pid s s"
    and d: "deleteVerifiedSourceEvents env api src pid evs k wrote s = (out, s')"
  shows "adoption_step env src intent pid s s'" and "ro_Status out = StatusSourceDeleted \<or> ro_Status out = StatusFailed"
    and "ro_Status out = StatusSourceDeleted \<Longrightarrow> journal s' src pid = Map.empty" and "copied_in env src intent pid s s'"
proof -
  have same: "journal s' = journal s \<and> inv s' \<and> ro_Status out = StatusFailed
    \<or> (DeleteEvents api src pid k s = (None, s')
        \<and> (ro_Status out = StatusFailed \<or> ro_Status out = StatusSourceDeleted \<and> GetLatestEvent api src pid s' = Inr None))"
    using d i delete_err [OF i]
    by (auto simp: deleteVerifiedSourceEvents_def ro_failed_def ro_reached_def Let_def
        split: sum.splits option.splits prod.splits if_splits)
  then show "ro_Status out = StatusSourceDeleted \<or> ro_Status out = StatusFailed" by auto
  have gone: "journal s' src pid = Map.empty" if "inv s'" "GetLatestEvent api src pid s' = Inr None"
  proof (rule ccontr)
    assume ne: "journal s' src pid \<noteq> Map.empty"
    then have "Max (dom (journal s' src pid)) \<in> dom (journal s' src pid)" by (intro Max_in) simp_all
    then obtain e where "journal s' src pid (Max (dom (journal s' src pid))) = Some e" by blast
    with latest_ok [OF that(1) wf(1) that(2)] ne show False by (simp add: journal_latest_def)
  qed
  from same consider "journal s' = journal s" "inv s'" "ro_Status out = StatusFailed"
    | "inv s'" "journal s' = (journal s)(src := (journal s src)(pid := journal s src pid |` {n. k < n}))"
        "ro_Status out = StatusSourceDeleted \<longrightarrow> journal s' src pid = Map.empty"
  proof (elim disjE)
    assume "DeleteEvents api src pid k s = (None, s')
        \<and> (ro_Status out = StatusFailed \<or> ro_Status out = StatusSourceDeleted \<and> GetLatestEvent api src pid s' = Inr None)"
    then have r: "DeleteEvents api src pid k s = (None, s')"
      "ro_Status out = StatusFailed \<or> ro_Status out = StatusSourceDeleted \<and> GetLatestEvent api src pid s' = Inr None" by blast+
    note k = delete_ok [OF i wf(1) r(1)]
    have "ro_Status out = StatusSourceDeleted \<longrightarrow> journal s' src pid = Map.empty" using r(2) gone k by (elim disjE) simp_all
    with k that(2) show thesis by blast
  qed (use that(1) in blast)
  then have all: "adoption_step env src intent pid s s' \<and> copied_in env src intent pid s s'
      \<and> (ro_Status out = StatusSourceDeleted \<longrightarrow> journal s' src pid = Map.empty)"
  proof cases
    case 1
    with c show ?thesis by (simp add: adoption_step_same copied_in_def)
  next
    case 2
    have t: "journal s' (in_target intent) = journal s (in_target intent)" using 2(2) wf(2) by simp
    have "adoption_step env src intent pid s s'"
      using c 2(1) wf(2) unfolding adoption_step_def t
      by (auto simp: 2(2) copied_in_def map_le_def restrict_map_def)
    moreover have "copied_in env src intent pid s s'" using c by (simp add: copied_in_def t)
    ultimately show ?thesis using 2(3) by blast
  qed
  then show "adoption_step env src intent pid s s'" "copied_in env src intent pid s s'" by blast+
  show "ro_Status out = StatusSourceDeleted \<Longrightarrow> journal s' src pid = Map.empty" using all by blast
qed

end

context events_store
begin

lemma stamped_copies:
  assumes "stamp_events env src (in_metadata intent) ps (journal_events (journal s src pid)) = Inr ex"
    and "adopts_for intent" and "inv s" and "inv s'" and sub: "set ex \<subseteq> set (journal_events (journal s' (in_target intent) pid))"
  shows "copied_in env src intent pid s s'"
  unfolding copied_in_def
proof (intro allI impI)
  fix n e
  assume e: "journal s src pid n = Some e"
  then have mem: "e \<in> set (journal_events (journal s src pid))" by (auto simp: journal_events_set ran_def)
  obtain e' where e': "e' \<in> set ex" "adopted_event env src intent e e'"
    using list_all2_member [OF conjunct2 [OF stamp_events_Inr [OF assms(1,2)]] mem] by blast
  have "ev_sequence_number e' = n" using adopted_event_simps(1) [OF e'(2)] journal_key [OF assms(3) e] by simp
  with e'(1) sub journal_events_mem [OF journal_keyed [OF assms(4)], of e'] have "journal s' (in_target intent) pid n = Some e'" by auto
  with e'(2) show "\<exists>e'. journal s' (in_target intent) pid n = Some e' \<and> adopted_event env src intent e e'" by blast
qed

text \<open>What an adoption of the events leads to, from a state in which it starts.\<close>

definition events_outcome ::
    "adopt_env \<Rightarrow> bool \<Rightarrow> bool \<Rightarrow> Scope \<Rightarrow> adoptionIntent \<Rightarrow> string \<Rightarrow> 's \<Rightarrow> RecordOutcome \<Rightarrow> 's \<Rightarrow> bool" where
  "events_outcome env writing deleting src intent pid s out s' \<longleftrightarrow>
     adoption_step env src intent pid s s'
     \<and> (\<not> writing \<longrightarrow> s' = s) \<and> (\<not> deleting \<longrightarrow> journal s' src pid = journal s src pid)
     \<and> (writing \<longrightarrow> ro_Status out \<in> {StatusCopied, StatusAlreadyPresent, StatusSourceDeleted} \<longrightarrow> copied_in env src intent pid s s')
     \<and> (ro_Status out = StatusSourceDeleted \<longrightarrow> journal s' src pid = Map.empty)
     \<and> ro_Status out \<noteq> StatusUnset \<and> (ro_Status out = StatusNone \<longrightarrow> journal s src pid = Map.empty)"

lemma events_outcome_same:
  "inv s \<Longrightarrow> ro_Status out = StatusFailed \<Longrightarrow> inv s' \<Longrightarrow> journal s' = journal s \<Longrightarrow> (\<not> writing \<longrightarrow> s' = s) \<Longrightarrow>
    events_outcome env writing deleting src intent pid s out s'"
  by (simp add: events_outcome_def adoption_step_same)

lemma delete_outcome:
  assumes "inv s" and "wf_scope src" "src \<noteq> in_target intent" and "copied_in env src intent pid s s"
    and "deleteVerifiedSourceEvents env api src pid evs k wrote s = (out, s')"
  shows "events_outcome env True True src intent pid s out s'"
  using delete_source_step [OF assms] by (auto simp: events_outcome_def)

lemma after_verified_outcome:
  assumes i: "inv s" and wf: "wf_scope (ta_sourceScope a)" "ta_sourceScope a \<noteq> in_target intent" and ad: "adopts_for intent"
    and st: "stamp_events env (ta_sourceScope a) (in_metadata intent) ps (journal_events (journal s (ta_sourceScope a) pid)) = Inr ex"
    and d: "afterVerifiedEvents env a api pid (journal_events (journal s (ta_sourceScope a) pid)) k
      (verifyEventsEquivalent env pid ex (journal_events (journal s (in_target intent) pid)) (in_tenant intent) (ta_sourceScope a)) s = (out, s')"
  shows "events_outcome env (ta_write a) (ta_deleteSource a) (ta_sourceScope a) intent pid s out s'"
proof (cases "verifyEventsEquivalent env pid ex (journal_events (journal s (in_target intent) pid)) (in_tenant intent) (ta_sourceScope a)")
  case (Some err)
  with d i show ?thesis by (auto simp: afterVerifiedEvents_def classifyExisting_def ro_failed_def intro!: events_outcome_same)
next
  case None
  have c: "copied_in env (ta_sourceScope a) intent pid s s"
    by (rule stamped_copies [OF st ad i i]) (use events_equivalent_holds [OF None] in blast)
  have "afterVerifiedEvents env a api pid (journal_events (journal s (ta_sourceScope a) pid)) k None s =
      (if journal s (ta_sourceScope a) pid \<noteq> Map.empty \<and> ta_write a \<and> ta_deleteSource a
      then deleteVerifiedSourceEvents env api (ta_sourceScope a) pid (journal_events (journal s (ta_sourceScope a) pid)) k False s
      else (ro_reached StatusAlreadyPresent False, s))"
    by (simp add: afterVerifiedEvents_def classifyExisting_def ro_reached_def)
  note d' = d [unfolded None this]
  show ?thesis
  proof (cases "journal s (ta_sourceScope a) pid \<noteq> Map.empty \<and> ta_write a \<and> ta_deleteSource a")
    case True
    with d' delete_outcome [OF i wf c] show ?thesis by auto
  next
    case False
    with d' c i show ?thesis by (auto simp: events_outcome_def ro_reached_def adoption_step_same)
  qed
qed

end

context events_store
begin

lemma events_outcome_shift:
  assumes "journal s1 = journal s" and "events_outcome env True deleting src intent pid s1 out s'"
  shows "events_outcome env True deleting src intent pid s out s'"
  using assms by (simp add: events_outcome_def adoption_step_def copied_in_def)

lemma written_journal:
  assumes i: "inv s" and wf: "wf_scope tgt" and ex: "ex \<noteq> []" "\<forall>e \<in> set ex. ev_persistence_id e = pid" "list_all plain_event ex"
    "distinct (map ev_sequence_number ex)"
    and t: "journal s tgt pid = Map.empty" and w: "WriteEvents api tgt ex ExpectGenesis s = (None, s1)"
  shows "inv s1" and "journal s1 = (journal s)(tgt := (journal s tgt)(pid := ev_override Map.empty ex))"
proof -
  have "fresh_events (journal s tgt pid) ex" using ex(4) t by (simp add: fresh_events_def)
  with write_ok [OF i wf ex(1-3) w] t
  show "inv s1" "journal s1 = (journal s)(tgt := (journal s tgt)(pid := ev_override Map.empty ex))" by simp_all
qed

lemma read_back_outcome:
  assumes i: "inv s" and wf: "wf_scope (ta_sourceScope a)" "ta_sourceScope a \<noteq> in_target intent" and ad: "adopts_for intent"
    and i1: "inv s1" and j1: "journal s1 = (journal s)(in_target intent := (journal s (in_target intent))(pid := j))" and nj: "numbered j"
    and tgt: "journal s (in_target intent) pid = Map.empty" and wr: "ta_write a"
    and st: "stamp_events env (ta_sourceScope a) (in_metadata intent) ps (journal_events (journal s (ta_sourceScope a) pid)) = Inr ex"
    and ds: "distinct (map ev_sequence_number ex)" and w: "WriteEvents api (in_target intent) ex ExpectGenesis s = (None, s1)"
    and d: "write_adopted_events env a api pid intent (journal_events (journal s (ta_sourceScope a) pid)) ex k s = (out, s')"
  shows "events_outcome env (ta_write a) (ta_deleteSource a) (ta_sourceScope a) intent pid s out s'"
proof -
  let ?src = "ta_sourceScope a" and ?tgt = "in_target intent"
  have wt: "wf_scope ?tgt" using ad by (simp add: adopts_for_def)
  have same: "journal s1 ?src = journal s ?src" using j1 wf(2) by simp
  have step: "adoption_step env ?src intent pid s s1" using i1 wf(2) tgt by (auto simp: adoption_step_def j1)
  have nt: "numbered (journal s1 ?tgt pid)" using nj by (simp add: j1)
  show ?thesis
  proof (cases "ReplayEvents api ?tgt pid 1 maxReplaySequence maxReplayLimit s1")
    case (Inl e)
    then have "s' = s1" "ro_Status out = StatusFailed" using d by (auto simp: write_adopted_events_def w ro_failed_def)
    with step same wr show ?thesis by (simp add: events_outcome_def)
  next
    case (Inr evs)
    from replay_all [OF i1 wt nt Inr] have evs: "evs = journal_events (journal s1 ?tgt pid)" .
    show ?thesis
    proof (cases "verifyEventsMatchBySequence env pid ex evs")
      case (Some e)
      then have "s' = s1" "ro_Status out = StatusFailed" using d Inr by (auto simp: write_adopted_events_def w ro_failed_def)
      with step same wr show ?thesis by (simp add: events_outcome_def)
    next
      case None
      have c: "copied_in env ?src intent pid s s1"
        by (rule stamped_copies [OF st ad i i1]) (use events_match_holds [OF None ds] evs in blast)
      have "write_adopted_events env a api pid intent (journal_events (journal s ?src pid)) ex k s =
          (if ta_deleteSource a then deleteVerifiedSourceEvents env api ?src pid (journal_events (journal s ?src pid)) k True s1
           else (ro_reached StatusCopied True, s1))"
        by (simp add: write_adopted_events_def w Inr None)
      note d' = d [unfolded this]
      show ?thesis
      proof (cases "ta_deleteSource a")
        case True
        have "copied_in env ?src intent pid s1 s1" using c by (simp add: copied_in_def same)
        from delete_outcome [OF i1 wf this] d' True
        have o: "events_outcome env True True ?src intent pid s1 out s'" by simp
        with adoption_step_trans [OF step] True wr same show ?thesis by (auto simp: events_outcome_def copied_in_def)
      next
        case False
        with d' step same c wr show ?thesis by (auto simp: events_outcome_def ro_reached_def)
      qed
    qed
  qed
qed

lemma stamped_batch:
  assumes i: "inv s" and ad: "adopts_for intent" and pl: "\<forall>e \<in> ran (journal s src pid). plain_event e"
    and st: "stamp_events env src (in_metadata intent) ps (journal_events (journal s src pid)) = Inr ex"
  shows "map ev_sequence_number ex = sorted_list_of_set (dom (journal s src pid))"
    and "ex = [] \<longleftrightarrow> journal s src pid = Map.empty"
    and "\<forall>e \<in> set ex. ev_persistence_id e = pid" and "list_all plain_event ex" and "sorted_wrt (<) (map ev_sequence_number ex)"
proof -
  note sp = stamp_events_Inr [OF st ad]
  show sq: "map ev_sequence_number ex = sorted_list_of_set (dom (journal s src pid))"
    using sp journal_events_sequences [OF journal_keyed [OF i]] by simp
  then show "sorted_wrt (<) (map ev_sequence_number ex)" by simp
  show "ex = [] \<longleftrightarrow> journal s src pid = Map.empty" using conjunct1 [OF sp] by (metis journal_events_Nil map_is_Nil_conv)
  have cp: "\<exists>e. e \<in> ran (journal s src pid) \<and> adopted_event env src intent e e' \<and> (plain_event e \<longrightarrow> plain_event e')"
    if "e' \<in> set ex" for e'
    using list_all2_member [OF list_all2_flipI [OF conjunct2 [OF sp]] that] by (auto simp: journal_events_set)
  show "\<forall>e \<in> set ex. ev_persistence_id e = pid"
    using cp adopted_event_simps(2) journal_key [OF i] by (fastforce simp: ran_def)
  show "list_all plain_event ex" using cp pl by (auto simp: list_all_iff)
qed

lemma write_outcome:
  assumes i: "inv s" and wf: "wf_scope (ta_sourceScope a)" "ta_sourceScope a \<noteq> in_target intent" and ad: "adopts_for intent"
    and src: "journal s (ta_sourceScope a) pid \<noteq> Map.empty" "numbered (journal s (ta_sourceScope a) pid)"
      "\<forall>e \<in> ran (journal s (ta_sourceScope a) pid). plain_event e"
    and tgt: "journal s (in_target intent) pid = Map.empty" and wr: "ta_write a"
    and st: "stamp_events env (ta_sourceScope a) (in_metadata intent) ps (journal_events (journal s (ta_sourceScope a) pid)) = Inr ex"
    and d: "write_adopted_events env a api pid intent (journal_events (journal s (ta_sourceScope a) pid)) ex k s = (out, s')"
  shows "events_outcome env (ta_write a) (ta_deleteSource a) (ta_sourceScope a) intent pid s out s'"
proof -
  let ?src = "ta_sourceScope a" and ?tgt = "in_target intent"
  obtain r s1 where w: "WriteEvents api ?tgt ex ExpectGenesis s = (r, s1)" by (cases "WriteEvents api ?tgt ex ExpectGenesis s")
  have wt: "wf_scope ?tgt" using ad by (simp add: adopts_for_def)
  show ?thesis
  proof (cases r)
    case (Some err)
    note k1 = write_err [OF i w [unfolded Some]]
    then have inv1: "inv s1" and j: "journal s1 = journal s" by auto
    have nt: "numbered (journal s1 ?tgt pid)" using j tgt by (simp add: numbered_def)
    show ?thesis
    proof (cases "errors_As_conflict err = None \<or> (\<exists>e. ReplayEvents api ?tgt pid 1 maxReplaySequence maxReplayLimit s1 = Inl e)")
      case True
      then have "s' = s1 \<and> ro_Status out = StatusFailed"
        using d by (auto simp: write_adopted_events_def w Some ro_failed_def split: option.splits)
      with i inv1 j wr show ?thesis by (simp add: events_outcome_same)
    next
      case False
      then obtain c evs where c: "errors_As_conflict err = Some c" "ReplayEvents api ?tgt pid 1 maxReplaySequence maxReplayLimit s1 = Inr evs"
        by (meson old.sum.exhaust not_None_eq)
      from replay_all [OF inv1 wt nt c(2)] have evs: "evs = journal_events (journal s1 ?tgt pid)" .
      have "afterVerifiedEvents env a api pid (journal_events (journal s1 ?src pid)) k
          (verifyEventsEquivalent env pid ex (journal_events (journal s1 ?tgt pid)) (in_tenant intent) ?src) s1 = (out, s')"
        using d by (simp add: write_adopted_events_def w Some c evs j)
      from after_verified_outcome [OF inv1 wf ad _ this] st j wr events_outcome_shift [OF j] show ?thesis by simp
    qed
  next
    case None
    note ba = stamped_batch [OF i ad src(3) st]
    have ne: "ex \<noteq> []" using ba(2) src(1) by simp
    have ds: "distinct (map ev_sequence_number ex)" using ba(5) by (simp add: strict_sorted_iff)
    note k1 = written_journal [OF i wt ne ba(3,4) ds tgt w [unfolded None]]
    have "numbered (ev_override Map.empty ex)" using src(2) ba(1) by (simp add: numbered_def ev_override_dom)
    from read_back_outcome [OF i wf ad k1 this tgt wr st ds w [unfolded None] d] show ?thesis .
  qed
qed

end

text \<open>What an aggregate must be like: readable sequence numbers on both sides, payloads in the source.\<close>

context events_store
begin

definition adoptable :: "Scope \<Rightarrow> Scope \<Rightarrow> string \<Rightarrow> 's \<Rightarrow> bool" where
  "adoptable src tgt pid s \<longleftrightarrow>
     numbered (journal s src pid) \<and> numbered (journal s tgt pid) \<and> (\<forall>e \<in> ran (journal s src pid). plain_event e)"

text \<open>What is decided once both sides are read.\<close>

definition events_decision ::
    "adopt_env \<Rightarrow> ('s, 'n, 'd) TenantAdopter \<Rightarrow> adoptionIntent \<Rightarrow> string \<Rightarrow> Event list \<Rightarrow> 's \<Rightarrow> RecordOutcome \<times> 's" where
  "events_decision env a intent pid ex s =
     (let source = journal_events (journal s (ta_sourceScope a) pid) in
      if journal s (in_target intent) pid \<noteq> Map.empty then
        afterVerifiedEvents env a api pid source (max_sequence ex)
          (verifyEventsEquivalent env pid ex (journal_events (journal s (in_target intent) pid)) (in_tenant intent) (ta_sourceScope a)) s
      else if journal s (ta_sourceScope a) pid = Map.empty then (ro_reached StatusNone False, s)
      else if \<not> ta_write a then (ro_reached StatusCopied True, s)
      else write_adopted_events env a api pid intent source ex (max_sequence ex) s)"

lemma adoptEvents_cases:
  assumes i: "inv s" and wf: "wf_scope (ta_sourceScope a)" and ad: "adopts_for intent"
    and ok: "adoptable (ta_sourceScope a) (in_target intent) pid s"
    and d: "adoptEvents env a api pid intent s = (out, s')"
  obtains (failed) err where "out = ro_failed err" "s' = s"
  | (read) ex where
      "stamp_events env (ta_sourceScope a) (in_metadata intent) (adoptedPredecessors (journal_events (journal s (ta_sourceScope a) pid)))
         (journal_events (journal s (ta_sourceScope a) pid)) = Inr ex"
      "events_decision env a intent pid ex s = (out, s')"
proof -
  let ?src = "ta_sourceScope a" and ?tgt = "in_target intent"
  let ?replay = "\<lambda>sc. ReplayEvents api sc pid 1 maxReplaySequence maxReplayLimit s"
  let ?evs = "journal_events (journal s ?src pid)"
  let ?st = "stamp_events env ?src (in_metadata intent) (adoptedPredecessors ?evs) ?evs"
  have wt: "wf_scope ?tgt" using ad by (simp add: adopts_for_def)
  have ns: "numbered (journal s ?src pid)" and nt: "numbered (journal s ?tgt pid)" using ok by (simp_all add: adoptable_def)
  show thesis
  proof (cases "(\<exists>e. ?replay ?src = Inl e) \<or> (\<exists>e. ?st = Inl e) \<or> (\<exists>e. ?replay ?tgt = Inl e)")
    case True
    then have "s' = s \<and> (\<exists>err. out = ro_failed err)"
      using d replay_all [OF i wf ns] by (auto simp: adoptEvents_def split: sum.splits)
    with failed show thesis by blast
  next
    case False
    then obtain evs ex ext where r: "?replay ?src = Inr evs" "?st = Inr ex" "?replay ?tgt = Inr ext" by (meson old.sum.exhaust)
    have e: "evs = ?evs" "ext = journal_events (journal s ?tgt pid)"
      using replay_all [OF i wf ns r(1)] replay_all [OF i wt nt r(3)] by simp_all
    have "adoptEvents env a api pid intent s = events_decision env a intent pid ex s"
      using r by (simp add: adoptEvents_def events_decision_def e Let_def)
    with d read [OF r(2)] show thesis by simp
  qed
qed

lemma adoptEvents_outcome:
  assumes i: "inv s" and wf: "wf_scope (ta_sourceScope a)" "ta_sourceScope a \<noteq> in_target intent" and ad: "adopts_for intent"
    and ok: "adoptable (ta_sourceScope a) (in_target intent) pid s"
    and d: "adoptEvents env a api pid intent s = (out, s')"
  shows "events_outcome env (ta_write a) (ta_deleteSource a) (ta_sourceScope a) intent pid s out s'"
proof -
  let ?src = "ta_sourceScope a" and ?tgt = "in_target intent"
  have ns: "numbered (journal s ?src pid)" and pl: "\<forall>e \<in> ran (journal s ?src pid). plain_event e"
    using ok by (simp_all add: adoptable_def)
  show ?thesis
  using i wf(1) ad ok d
  proof (cases rule: adoptEvents_cases)
    case failed
    with i show ?thesis by (simp add: events_outcome_same ro_failed_def)
  next
    case (read ex)
    consider "journal s ?tgt pid \<noteq> Map.empty" | "journal s ?tgt pid = Map.empty" "journal s ?src pid = Map.empty"
      | "journal s ?tgt pid = Map.empty" "journal s ?src pid \<noteq> Map.empty" "\<not> ta_write a"
      | "journal s ?tgt pid = Map.empty" "journal s ?src pid \<noteq> Map.empty" "ta_write a" by blast
    then show ?thesis
    proof cases
      case 1
      with read(2) [unfolded events_decision_def Let_def] after_verified_outcome [OF i wf ad read(1)] show ?thesis by simp
    next
      case 2
      with read(2) [unfolded events_decision_def Let_def] i show ?thesis by (auto simp: events_outcome_def ro_reached_def adoption_step_same copied_in_def)
    next
      case 3
      with read(2) [unfolded events_decision_def Let_def] i show ?thesis by (auto simp: events_outcome_def ro_reached_def adoption_step_same)
    next
      case 4
      with read(2) [unfolded events_decision_def Let_def] write_outcome [OF i wf ad 4(2) ns pl 4(1,3) read(1)] show ?thesis by simp
    qed
  qed
qed

end

section \<open>Snapshots\<close>

definition adopted_snapshot :: "adopt_env \<Rightarrow> Scope \<Rightarrow> adoptionIntent \<Rightarrow> Snapshot \<Rightarrow> Snapshot \<Rightarrow> bool" where
  "adopted_snapshot env src intent sn sn' \<longleftrightarrow>
     (\<exists>receipt. sn' = sn\<lparr>sn_tenant_metadata := (in_metadata intent)(adoptionReceiptKey \<mapsto> receipt)\<rparr>)
     \<and> verifyAdoptionReceipt env (RecSnapshot sn') src = Some None"

lemma adopted_snapshot_simps:
  assumes "adopted_snapshot env src intent sn sn'"
  shows "sn_sequence_number sn' = sn_sequence_number sn" "sn_persistence_id sn' = sn_persistence_id sn"
  using assms by (auto simp: adopted_snapshot_def)

lemma stamped_snapshot:
  assumes "stamp_optional env src (in_metadata intent) (map_option RecSnapshot sn) = Inr clone" and "adopts_for intent"
  shows "(sn = None \<longrightarrow> clone = None)
    \<and> (\<forall>x. sn = Some x \<longrightarrow> (\<exists>c. clone = Some (RecSnapshot c) \<and> adopted_snapshot env src intent x c))"
proof (cases sn)
  case None
  with assms show ?thesis by (simp add: stamp_optional_def)
next
  case (Some x)
  with assms obtain c where c: "stampAdoptionReceipt env (RecSnapshot x) src (in_metadata intent) None = Inr c" "clone = Some c"
    by (auto simp: stamp_optional_def return_iffs)
  then obtain receipt where "c = RecSnapshot (x\<lparr>sn_tenant_metadata := (in_metadata intent)(adoptionReceiptKey \<mapsto> receipt)\<rparr>)"
    by (auto simp: stampAdoptionReceipt_def return_iffs) (auto simp: setTenantMetadata_def)
  with stamped_verifies [OF c(1) receipt_key_free [OF assms(2)]] c Some show ?thesis by (auto simp: adopted_snapshot_def)
qed

lemma snapshots_latest_None [simp]: "snapshots_latest m = None \<longleftrightarrow> m = Map.empty"
proof -
  have "\<exists>y. m (Max (dom m)) = Some y" if "m \<noteq> Map.empty"
    using Max_in [of "dom m"] that by (auto simp del: Max_in)
  then show ?thesis by (auto simp: snapshots_latest_def)
qed

lemma record_equivalent_holds:
  "verifyRecordEquivalent env pid kind (Some want) p got p' md t sc = None \<Longrightarrow> got = want"
  by (simp add: verifyRecordEquivalent_def split: if_splits)

context snapshot_store
begin

definition snapshot_copied :: "adopt_env \<Rightarrow> Scope \<Rightarrow> adoptionIntent \<Rightarrow> string \<Rightarrow> 's \<Rightarrow> 's \<Rightarrow> bool" where
  "snapshot_copied env src intent pid s s' \<longleftrightarrow>
     (\<forall>sn. snapshots_latest (snaps s src pid) = Some sn \<longrightarrow>
        (\<exists>sn'. snaps s' (in_target intent) pid (sn_sequence_number sn) = Some sn' \<and> adopted_snapshot env src intent sn sn'))"

definition snapshot_outcome ::
    "adopt_env \<Rightarrow> bool \<Rightarrow> bool \<Rightarrow> Scope \<Rightarrow> adoptionIntent \<Rightarrow> string \<Rightarrow> 's \<Rightarrow> RecordOutcome \<Rightarrow> 's \<Rightarrow> bool" where
  "snapshot_outcome env writing deleting src intent pid s out s' \<longleftrightarrow>
     inv s' \<and> (\<forall>sc p. p \<noteq> pid \<or> sc \<noteq> src \<and> sc \<noteq> in_target intent \<longrightarrow> snaps s' sc p = snaps s sc p)
     \<and> snaps s (in_target intent) pid \<subseteq>\<^sub>m snaps s' (in_target intent) pid
     \<and> (snaps s' src pid = snaps s src pid \<or> deleting \<and> snapshot_copied env src intent pid s s')
     \<and> (\<not> writing \<longrightarrow> s' = s)
     \<and> (writing \<longrightarrow> ro_Status out \<in> {StatusCopied, StatusAlreadyPresent, StatusSourceDeleted} \<longrightarrow> snapshot_copied env src intent pid s s')
     \<and> (ro_Status out = StatusSourceDeleted \<longrightarrow> snaps s' src pid = Map.empty)
     \<and> ro_Status out \<noteq> StatusUnset \<and> (ro_Status out = StatusNone \<longrightarrow> snaps s src pid = Map.empty)"

lemma delete_snapshot_outcome:
  assumes i: "inv s" and wf: "wf_scope src" "src \<noteq> in_target intent" and c: "snapshot_copied env src intent pid s s"
    and d: "deleteVerifiedSourceSnapshot env api src pid sn wrote s = (out, s')"
  shows "snapshot_outcome env True True src intent pid s out s'"
proof -
  have "snaps s' = snaps s \<and> inv s' \<and> ro_Status out = StatusFailed
    \<or> (DeleteSnapshots api src pid (sn_sequence_number sn) s = (None, s')
        \<and> (ro_Status out = StatusFailed \<or> ro_Status out = StatusSourceDeleted \<and> GetLatestSnapshot api src pid s' = Inr None))"
    using d i delete_err [OF i]
    by (auto simp: deleteVerifiedSourceSnapshot_def ro_failed_def ro_reached_def Let_def
        split: sum.splits option.splits prod.splits if_splits)
  then show ?thesis
  proof (elim disjE)
    assume "snaps s' = snaps s \<and> inv s' \<and> ro_Status out = StatusFailed"
    with c show ?thesis by (simp add: snapshot_outcome_def)
  next
    assume r: "DeleteSnapshots api src pid (sn_sequence_number sn) s = (None, s')
        \<and> (ro_Status out = StatusFailed \<or> ro_Status out = StatusSourceDeleted \<and> GetLatestSnapshot api src pid s' = Inr None)"
    then have k: "inv s'" "snaps s' = (snaps s)(src := (snaps s src)(pid := snaps s src pid |` {n. sn_sequence_number sn < n}))"
      using delete_ok [OF i wf(1)] by auto
    have "ro_Status out = StatusSourceDeleted \<longrightarrow> snaps s' src pid = Map.empty"
      using r latest_ok [OF k(1) wf(1), of pid None] snapshots_latest_None [of "snaps s' src pid"] by (auto simp del: snapshots_latest_None)
    moreover have t: "snaps s' (in_target intent) = snaps s (in_target intent)" using k(2) wf(2) by simp
    then have "snapshot_copied env src intent pid s s'" using c by (simp add: snapshot_copied_def)
    ultimately show ?thesis using r k t wf(2) by (auto simp: snapshot_outcome_def)
  qed
qed

end

context snapshot_store
begin

lemma snapshot_outcome_failed:
  "inv s' \<Longrightarrow> snaps s' = snaps s \<Longrightarrow> ro_Status out = StatusFailed \<Longrightarrow> (\<not> writing \<longrightarrow> s' = s) \<Longrightarrow>
    snapshot_outcome env writing deleting src intent pid s out s'"
  by (simp add: snapshot_outcome_def)

lemma snapshot_latest_key:
  assumes "inv s" and "snapshots_latest (snaps s sc pid) = Some sn"
  shows "snaps s sc pid (sn_sequence_number sn) = Some sn" and "sn_persistence_id sn = pid"
proof -
  from assms(2) have m: "snaps s sc pid (Max (dom (snaps s sc pid))) = Some sn" by (simp add: snapshots_latest_def split: if_splits)
  from snaps_key [OF assms(1) m] m show "snaps s sc pid (sn_sequence_number sn) = Some sn" "sn_persistence_id sn = pid" by simp_all
qed

lemma write_snapshot_outcome:
  assumes i: "inv s" and wf: "wf_scope (ta_sourceScope a)" "ta_sourceScope a \<noteq> in_target intent" and ad: "adopts_for intent"
    and src: "snapshots_latest (snaps s (ta_sourceScope a) pid) = Some sn" and tgt: "snaps s (in_target intent) pid = Map.empty"
    and wr: "ta_write a" and cl: "adopted_snapshot env (ta_sourceScope a) intent sn clone"
    and d: "write_adopted_snapshot env a api pid intent sn clone s = (out, s')"
  shows "snapshot_outcome env (ta_write a) (ta_deleteSource a) (ta_sourceScope a) intent pid s out s'"
proof -
  let ?src = "ta_sourceScope a" and ?tgt = "in_target intent"
  have wt: "wf_scope ?tgt" using ad by (simp add: adopts_for_def)
  obtain r s1 where w: "WriteSnapshot api ?tgt clone s = (r, s1)" by (cases "WriteSnapshot api ?tgt clone s")
  show ?thesis
  proof (cases r)
    case (Some err)
    then have "s' = s1" "ro_Status out = StatusFailed" using d w by (auto simp: write_adopted_snapshot_def ro_failed_def)
    with write_err [OF i w [unfolded Some]] wr show ?thesis by (simp add: snapshot_outcome_failed)
  next
    case None
    have pid: "sn_persistence_id clone = pid" "sn_sequence_number clone = sn_sequence_number sn"
      using snapshot_latest_key(2) [OF i src] adopted_snapshot_simps [OF cl] by simp_all
    have k: "inv s1" "snaps s1 = (snaps s)(?tgt := (snaps s ?tgt)(pid := (snaps s ?tgt pid)(sn_sequence_number sn \<mapsto> clone)))"
      using write_ok [OF i wt w [unfolded None]] pid by simp_all
    have same: "snaps s1 ?src = snaps s ?src" using k(2) wf(2) by simp
    have c: "snapshot_copied env ?src intent pid s s1" using src cl k(2) by (simp add: snapshot_copied_def)
    have o1: "snapshot_outcome env True (ta_deleteSource a) ?src intent pid s out s1" if "ro_Status out \<in> {StatusFailed, StatusCopied}"
      using that k same c wf(2) tgt by (auto simp: snapshot_outcome_def)
    show ?thesis
    proof (cases "GetLatestSnapshot api ?tgt pid s1 = Inr (Some clone) \<and> ta_deleteSource a")
      case False
      then have "s' = s1 \<and> ro_Status out \<in> {StatusFailed, StatusCopied}"
        using d w None by (auto simp: write_adopted_snapshot_def ro_failed_def ro_reached_def split: sum.splits if_splits)
      with o1 wr show ?thesis by auto
    next
      case True
      then have "deleteVerifiedSourceSnapshot env api ?src pid sn True s1 = (out, s')"
        using d w None by (simp add: write_adopted_snapshot_def)
      moreover have "snapshot_copied env ?src intent pid s1 s1" using c by (simp add: snapshot_copied_def same)
      ultimately have o: "snapshot_outcome env True True ?src intent pid s1 out s'"
        using delete_snapshot_outcome [OF k(1) wf] by blast
      have "snaps s ?tgt pid \<subseteq>\<^sub>m snaps s' ?tgt pid" using tgt by simp
      with o k(2) same wr True wf(2) show ?thesis by (auto simp: snapshot_outcome_def snapshot_copied_def)
    qed
  qed
qed

lemma adoptSnapshot_outcome:
  assumes i: "inv s" and wf: "wf_scope (ta_sourceScope a)" "ta_sourceScope a \<noteq> in_target intent" and ad: "adopts_for intent"
    and d: "adoptSnapshot env a api pid intent s = (out, s')"
  shows "snapshot_outcome env (ta_write a) (ta_deleteSource a) (ta_sourceScope a) intent pid s out s'"
proof -
  let ?src = "ta_sourceScope a" and ?tgt = "in_target intent"
  let ?st = "\<lambda>sn. stamp_optional env ?src (in_metadata intent) (map_option RecSnapshot sn)"
  have wt: "wf_scope ?tgt" using ad by (simp add: adopts_for_def)
  show ?thesis
  proof (cases "(\<exists>e. GetLatestSnapshot api ?src pid s = Inl e) \<or> (\<exists>sn e. GetLatestSnapshot api ?src pid s = Inr sn \<and> ?st sn = Inl e)
      \<or> (\<exists>e. GetLatestSnapshot api ?tgt pid s = Inl e)")
    case True
    then have "s' = s \<and> ro_Status out = StatusFailed"
      using d by (auto simp: adoptSnapshot_def ro_failed_def split: sum.splits)
    with i show ?thesis by (simp add: snapshot_outcome_failed)
  next
    case False
    then obtain sn clone ext where r: "GetLatestSnapshot api ?src pid s = Inr sn" "?st sn = Inr clone" "GetLatestSnapshot api ?tgt pid s = Inr ext"
      by (meson old.sum.exhaust)
    have sn: "sn = snapshots_latest (snaps s ?src pid)" and ext: "ext = snapshots_latest (snaps s ?tgt pid)"
      using latest_ok [OF i wf(1) r(1)] latest_ok [OF i wt r(3)] by simp_all
    note cl = stamped_snapshot [OF r(2) ad]
    show ?thesis
    proof (cases ext)
      case None
      then have tgt: "snaps s ?tgt pid = Map.empty" using ext snapshots_latest_None by metis
      show ?thesis
      proof (cases sn)
        case None
        then have "snaps s ?src pid = Map.empty" using sn snapshots_latest_None by metis
        moreover have "out = ro_reached StatusNone False" "s' = s" using d r None \<open>ext = None\<close> by (auto simp: adoptSnapshot_def)
        ultimately show ?thesis using i by (simp add: snapshot_outcome_def ro_reached_def)
      next
        case (Some x)
        with cl obtain c where c: "clone = Some (RecSnapshot c)" "adopted_snapshot env ?src intent x c" by blast
        have "adoptSnapshot env a api pid intent s =
            (if \<not> ta_write a then (ro_reached StatusCopied True, s) else write_adopted_snapshot env a api pid intent x c s)"
          using r Some \<open>ext = None\<close> c by (simp add: adoptSnapshot_def)
        note d' = d [unfolded this]
        show ?thesis
        proof (cases "ta_write a")
          case True
          with d' write_snapshot_outcome [OF i wf ad _ tgt True c(2)] sn Some show ?thesis by simp
        next
          case False
          with d' i show ?thesis by (auto simp: snapshot_outcome_def ro_reached_def)
        qed
      qed
    next
      case (Some existing)
      let ?v = "verifyRecordEquivalent env pid KindSnapshot clone
          (case clone of Some c \<Rightarrow> sn_sequence_number (rec_snapshot c) | None \<Rightarrow> 0) (RecSnapshot existing)
          (sn_sequence_number existing) (sn_tenant_metadata existing) (in_tenant intent) ?src"
      have eq: "adoptSnapshot env a api pid intent s =
          (if ?v = None \<and> sn \<noteq> None \<and> ta_write a \<and> ta_deleteSource a
           then deleteVerifiedSourceSnapshot env api ?src pid (the sn) False s else (classifyExisting ?v, s))"
        using r Some by (auto simp: adoptSnapshot_def Let_def classifyExisting_def ro_failed_def ro_reached_def split: option.splits)
      have c: "snapshot_copied env ?src intent pid s s" if v: "?v = None"
        unfolding snapshot_copied_def
      proof (intro allI impI)
        fix x assume x: "snapshots_latest (snaps s ?src pid) = Some x"
        with sn cl obtain c where c: "clone = Some (RecSnapshot c)" "adopted_snapshot env ?src intent x c" by auto
        from record_equivalent_holds [OF v [unfolded c(1)]] have "existing = c" by simp
        then have "snapshots_latest (snaps s ?tgt pid) = Some c" using ext Some by simp
        from snapshot_latest_key(1) [OF i this] adopted_snapshot_simps(1) [OF c(2)] c(2)
        show "\<exists>sn'. snaps s ?tgt pid (sn_sequence_number x) = Some sn' \<and> adopted_snapshot env ?src intent x sn'" by auto
      qed
      note d' = d [unfolded eq]
      show ?thesis
      proof (cases "?v = None \<and> sn \<noteq> None \<and> ta_write a \<and> ta_deleteSource a")
        case True
        with d' delete_snapshot_outcome [OF i wf c] show ?thesis by simp
      next
        case False
        with d' i c show ?thesis
          by (auto simp: snapshot_outcome_def classifyExisting_def ro_failed_def ro_reached_def split: option.splits)
      qed
    qed
  qed
qed

end

section \<open>Durable states\<close>

definition adopted_state :: "adopt_env \<Rightarrow> Scope \<Rightarrow> adoptionIntent \<Rightarrow> DurableState \<Rightarrow> DurableState \<Rightarrow> bool" where
  "adopted_state env src intent st st' \<longleftrightarrow>
     (\<exists>receipt. st' = st\<lparr>du_tenant_metadata := (in_metadata intent)(adoptionReceiptKey \<mapsto> receipt)\<rparr>)
     \<and> verifyAdoptionReceipt env (RecState st') src = Some None"

lemma stamped_state:
  assumes "stamp_optional env src (in_metadata intent) (map_option RecState st) = Inr clone" and "adopts_for intent"
  shows "(st = None \<longrightarrow> clone = None)
    \<and> (\<forall>x. st = Some x \<longrightarrow> (\<exists>c. clone = Some (RecState c) \<and> adopted_state env src intent x c))"
proof (cases st)
  case None
  with assms show ?thesis by (simp add: stamp_optional_def)
next
  case (Some x)
  with assms obtain c where c: "stampAdoptionReceipt env (RecState x) src (in_metadata intent) None = Inr c" "clone = Some c"
    by (auto simp: stamp_optional_def return_iffs)
  then obtain receipt where "c = RecState (x\<lparr>du_tenant_metadata := (in_metadata intent)(adoptionReceiptKey \<mapsto> receipt)\<rparr>)"
    by (auto simp: stampAdoptionReceipt_def return_iffs) (auto simp: setTenantMetadata_def)
  with stamped_verifies [OF c(1) receipt_key_free [OF assms(2)]] c Some show ?thesis by (auto simp: adopted_state_def)
qed

text \<open>States are keyed by their persistence id.\<close>

context state_store
begin

definition state_copied :: "adopt_env \<Rightarrow> Scope \<Rightarrow> adoptionIntent \<Rightarrow> string \<Rightarrow> 's \<Rightarrow> 's \<Rightarrow> bool" where
  "state_copied env src intent pid s s' \<longleftrightarrow>
     (\<forall>st. stored s src pid = Some st \<longrightarrow>
        (\<exists>st'. stored s' (in_target intent) pid = Some st' \<and> adopted_state env src intent st st'))"

definition state_outcome ::
    "adopt_env \<Rightarrow> bool \<Rightarrow> Scope \<Rightarrow> adoptionIntent \<Rightarrow> string \<Rightarrow> 's \<Rightarrow> RecordOutcome \<Rightarrow> 's \<Rightarrow> bool" where
  "state_outcome env writing src intent pid s out s' \<longleftrightarrow>
     inv s' \<and> (\<forall>sc p. p \<noteq> pid \<or> sc \<noteq> in_target intent \<longrightarrow> stored s' sc p = stored s sc p)
     \<and> (stored s (in_target intent) pid \<noteq> None \<longrightarrow> stored s' (in_target intent) pid = stored s (in_target intent) pid)
     \<and> (\<not> writing \<longrightarrow> s' = s)
     \<and> (writing \<longrightarrow> ro_Status out \<in> {StatusCopied, StatusAlreadyPresent} \<longrightarrow> state_copied env src intent pid s s')
     \<and> ro_Status out \<noteq> StatusUnset \<and> ro_Status out \<noteq> StatusSourceDeleted
     \<and> (ro_Status out = StatusNone \<longrightarrow> stored s src pid = None)"

lemma state_outcome_failed:
  "inv s' \<Longrightarrow> stored s' = stored s \<Longrightarrow> ro_Status out = StatusFailed \<Longrightarrow> (\<not> writing \<longrightarrow> s' = s) \<Longrightarrow>
    state_outcome env writing src intent pid s out s'"
  by (simp add: state_outcome_def)

lemma classify_outcome:
  assumes i: "inv s" and ad: "adopts_for intent" and clone: "stored s (ta_sourceScope a) pid = None \<longrightarrow> clone = None"
      "\<forall>x. stored s (ta_sourceScope a) pid = Some x \<longrightarrow> (\<exists>c. clone = Some (RecState c) \<and> adopted_state env (ta_sourceScope a) intent x c)"
    and c: "classify_target_state env a api pid intent clone s = out" and st: "ro_Status out \<noteq> StatusNone"
  shows "state_outcome env (ta_write a) (ta_sourceScope a) intent pid s out s"
proof (cases "ro_Status out = StatusFailed")
  case True
  with i show ?thesis by (simp add: state_outcome_failed)
next
  case False
  have wt: "wf_scope (in_target intent)" using ad by (simp add: adopts_for_def)
  from c st False obtain existing where g: "GetLatestState api (in_target intent) pid s = Inr (Some existing)"
    and v: "verifyRecordEquivalent env pid KindDurableState clone
            (case clone of Some c \<Rightarrow> du_version_number (rec_state c) | None \<Rightarrow> 0) (RecState existing)
            (du_version_number existing) (du_tenant_metadata existing) (in_tenant intent) (ta_sourceScope a) = None"
    and out: "out = ro_reached StatusAlreadyPresent False"
    by (auto simp: classify_target_state_def classifyExisting_def ro_failed_def ro_reached_def split: sum.splits option.splits)
  have tgt: "stored s (in_target intent) pid = Some existing" using get_ok [OF i wt g] by simp
  have "state_copied env (ta_sourceScope a) intent pid s s"
    unfolding state_copied_def
  proof (intro allI impI)
    fix x assume "stored s (ta_sourceScope a) pid = Some x"
    with clone(2) obtain c where c: "clone = Some (RecState c)" "adopted_state env (ta_sourceScope a) intent x c" by blast
    from record_equivalent_holds [OF v [unfolded c(1)]] tgt c(2)
    show "\<exists>st'. stored s (in_target intent) pid = Some st' \<and> adopted_state env (ta_sourceScope a) intent x st'" by simp
  qed
  with i out show ?thesis by (simp add: state_outcome_def ro_reached_def)
qed

lemma write_state_outcome:
  assumes i: "inv s" and wf: "ta_sourceScope a \<noteq> in_target intent" and ad: "adopts_for intent" and wr: "ta_write a"
    and src: "stored s (ta_sourceScope a) pid = Some x" "du_persistence_id x = pid" and tgt: "stored s (in_target intent) pid = None"
    and c: "adopted_state env (ta_sourceScope a) intent x c"
    and d: "write_adopted_state env a api pid intent x (RecState c) s = (out, s')"
  shows "state_outcome env (ta_write a) (ta_sourceScope a) intent pid s out s'"
proof -
  let ?src = "ta_sourceScope a" and ?tgt = "in_target intent"
  have wt: "wf_scope ?tgt" using ad by (simp add: adopts_for_def)
  obtain r s1 where w: "WriteState api ?tgt c ExpectGenesis s = (r, s1)" by (cases "WriteState api ?tgt c ExpectGenesis s")
  show ?thesis
  proof (cases r)
    case (Some err)
    note k = write_err [OF i w [unfolded Some]]
    let ?c = "classify_target_state env a api pid intent (Some (RecState c)) s1"
    show ?thesis
    proof (cases "errors_As_conflict err = None \<or> ro_Status ?c = StatusNone")
      case True
      then have "s' = s1 \<and> ro_Status out = StatusFailed" using d w Some by (auto simp: write_adopted_state_def ro_failed_def Let_def split: if_splits)
      with k wr show ?thesis by (simp add: state_outcome_failed)
    next
      case False
      then have o: "out = ?c" "s' = s1" using d w Some by (auto simp: write_adopted_state_def Let_def)
      have "state_outcome env (ta_write a) ?src intent pid s1 ?c s1"
        using classify_outcome [OF _ ad _ _ refl, of s1 a pid "Some (RecState c)" env] k False src c by auto
      with k wr o show ?thesis by (simp add: state_outcome_def state_copied_def)
    qed
  next
    case None
    have "du_persistence_id c = pid" using c src(2) by (auto simp: adopted_state_def)
    with write_ok [OF i wt w [unfolded None]] have k: "inv s1" "stored s1 = (stored s)(?tgt := (stored s ?tgt)(pid \<mapsto> c))" by simp_all
    have "s' = s1 \<and> ro_Status out \<in> {StatusFailed, StatusCopied}"
      using d w None by (auto simp: write_adopted_state_def ro_failed_def ro_reached_def split: sum.splits if_splits)
    with k wr src tgt c wf show ?thesis by (auto simp: state_outcome_def state_copied_def)
  qed
qed

lemma adoptState_outcome:
  assumes i: "inv s" and wf: "wf_scope (ta_sourceScope a)" "ta_sourceScope a \<noteq> in_target intent" and ad: "adopts_for intent"
    and key: "\<forall>x. stored s (ta_sourceScope a) pid = Some x \<longrightarrow> du_persistence_id x = pid"
    and d: "adoptState env a api pid intent s = (out, s')"
  shows "state_outcome env (ta_write a) (ta_sourceScope a) intent pid s out s'"
proof -
  let ?src = "ta_sourceScope a" and ?tgt = "in_target intent"
  let ?st = "\<lambda>st. stamp_optional env ?src (in_metadata intent) (map_option RecState st)"
  have wt: "wf_scope ?tgt" using ad by (simp add: adopts_for_def)
  show ?thesis
  proof (cases "(\<exists>e. GetLatestState api ?src pid s = Inl e) \<or> (\<exists>st e. GetLatestState api ?src pid s = Inr st \<and> ?st st = Inl e)")
    case True
    then have "s' = s \<and> ro_Status out = StatusFailed" using d by (auto simp: adoptState_def ro_failed_def)
    with i show ?thesis by (simp add: state_outcome_failed)
  next
    case False
    then obtain st clone where r: "GetLatestState api ?src pid s = Inr st" "?st st = Inr clone" by (meson old.sum.exhaust)
    have st: "st = stored s ?src pid" using get_ok [OF i wf(1) r(1)] by simp
    note cl = stamped_state [OF r(2) ad, unfolded st]
    let ?c = "classify_target_state env a api pid intent clone s"
    have eq: "adoptState env a api pid intent s =
        (if ro_Status ?c \<noteq> StatusNone then (?c, s) else if st = None then (ro_reached StatusNone False, s)
         else if \<not> ta_write a then (ro_reached StatusCopied True, s)
         else write_adopted_state env a api pid intent (the st) (the clone) s)"
      using r by (auto simp: adoptState_def Let_def split: option.splits)
    note d' = d [unfolded eq]
    consider "ro_Status ?c \<noteq> StatusNone" | "ro_Status ?c = StatusNone" "st = None" | "ro_Status ?c = StatusNone" "st \<noteq> None" "\<not> ta_write a"
      | x where "ro_Status ?c = StatusNone" "st = Some x" "ta_write a" by blast
    then show ?thesis
    proof cases
      case 1
      with d' classify_outcome [OF i ad _ _ refl 1] cl show ?thesis by auto
    next
      case 2
      with d' i st show ?thesis by (auto simp: state_outcome_def ro_reached_def)
    next
      case 3
      with d' i st show ?thesis by (auto simp: state_outcome_def ro_reached_def)
    next
      case (4 x)
      then obtain c where c: "clone = Some (RecState c)" "adopted_state env ?src intent x c" using cl st by auto
      have "stored s ?tgt pid = None"
        using 4(1) get_ok [OF i wt]
        by (auto simp: classify_target_state_def classifyExisting_def ro_failed_def ro_reached_def split: sum.splits option.splits)
      moreover have "write_adopted_state env a api pid intent x (RecState c) s = (out, s')" using d' 4 c(1) by simp
      moreover have "stored s ?src pid = Some x" using 4(2) st by simp
      ultimately show ?thesis using write_state_outcome [OF i wf(2) ad 4(3) _ _ _ c(2)] key by simp
    qed
  qed
qed

end

section \<open>A second run\<close>

lemma chain_predecessors_other: "n \<notin> set ns \<Longrightarrow> chain_predecessors p ns m n = m n"
  by (induction ns arbitrary: p m) auto

lemma adopted_chain_complete:
  assumes "distinct ns"
    and "\<forall>n \<in> set ns. ev_tenant_metadata (the (bySeq n)) adoptionReceiptKey \<noteq> None
      \<and> verifyAdoptionReceipt env (RecEvent (the (bySeq n))) src = Some (chain_predecessors p ns m n)
      \<and> chain_predecessors p ns m n \<noteq> None"
  shows "adopted_chain env pid src bySeq ns p k = Inr (k + length ns, [])"
  using assms
proof (induction ns arbitrary: p m k)
  case (Cons n ns)
  have n: "chain_predecessors p (n # ns) m n = Some p" using Cons.prems(1) by (simp add: chain_predecessors_other)
  have "adopted_chain env pid src bySeq ns n (Suc k) = Inr (Suc k + length ns, [])"
    using Cons.prems by (intro Cons.IH [where m = "m(n \<mapsto> p)"]) (simp_all del: fun_upd_apply)
  with Cons.prems(2) n show ?case by (auto simp: Let_def)
qed simp

lemma chain_predecessors_dom: "dom (chain_predecessors p ns m) = dom m \<union> set ns"
  by (induction ns arbitrary: p m) auto

text \<open>A target that holds exactly the stamped copies passes, whether the source is still there or gone.\<close>

lemma copies_are_equivalent:
  assumes st: "stamp_events env src (in_metadata intent) (adoptedPredecessors evs) evs = Inr ex" and ad: "adopts_for intent"
    and ds: "sorted_wrt (<) (map ev_sequence_number evs)" and ne: "evs \<noteq> []"
  shows "verifyEventsEquivalent env pid ex ex (in_tenant intent) src = None"
    and "verifyEventsEquivalent env pid [] ex (in_tenant intent) src = None"
proof -
  note sp = stamp_events_Inr [OF st ad]
  let ?ns = "map ev_sequence_number ex"
  have sorted: "sorted ?ns" and dist: "distinct ?ns" using ds sp by (simp_all add: strict_sorted_iff)
  have cp: "\<exists>e \<in> set evs. adopted_event env src intent e e'
      \<and> verifyAdoptionReceipt env (RecEvent e') src = Some (Some (case adoptedPredecessors evs (ev_sequence_number e) of Some p \<Rightarrow> p | None \<Rightarrow> 0))"
    if "e' \<in> set ex" for e'
    using list_all2_member [OF list_all2_flipI [OF conjunct2 [OF sp]] that] by blast
  have idx: "index_existing env pid (in_tenant intent) ex Map.empty [] = Inr (ev_override Map.empty ex, ?ns)"
    using index_existing_ok [OF dist, of Map.empty "in_tenant intent" env pid "[]"] cp adopted_event_owned [OF _ ad] by fastforce
  have at: "ev_override Map.empty ex (ev_sequence_number e) = Some e" if "e \<in> set ex" for e
    using dist that by (rule ev_override_at)
  have nex: "ex \<noteq> []" using sp ne by (metis map_is_Nil_conv)
  obtain k where k: "expected_held env pid (ev_override Map.empty ex) ex 0 = Inr k" using expected_held_ok at by blast
  show "verifyEventsEquivalent env pid ex ex (in_tenant intent) src = None"
    using nex by (simp add: verifyEventsEquivalent_def idx k sorted_sort_id [OF sorted] Let_def)
  have "adopted_chain env pid src (ev_override Map.empty ex) ?ns 0 0 = Inr (0 + length ?ns, [])"
  proof (rule adopted_chain_complete [OF dist, where m = Map.empty], intro ballI)
    fix n assume "n \<in> set ?ns"
    then obtain e' where e': "e' \<in> set ex" "n = ev_sequence_number e'" by auto
    from cp [OF e'(1)] obtain e where e: "adopted_event env src intent e e'"
      "verifyAdoptionReceipt env (RecEvent e') src = Some (Some (case adoptedPredecessors evs (ev_sequence_number e) of Some p \<Rightarrow> p | None \<Rightarrow> 0))"
      by blast
    have pr: "adoptedPredecessors evs = chain_predecessors 0 ?ns Map.empty"
      using sp ds by (simp add: adoptedPredecessors_def strict_sorted_iff sorted_sort_id)
    have "n \<in> dom (chain_predecessors 0 ?ns Map.empty)" using e' by (simp add: chain_predecessors_dom)
    then obtain p where p: "chain_predecessors 0 ?ns Map.empty n = Some p" by blast
    with e adopted_event_simps [OF e(1)] e' pr at [OF e'(1)]
    show "ev_tenant_metadata (the (ev_override Map.empty ex n)) adoptionReceiptKey \<noteq> None
      \<and> verifyAdoptionReceipt env (RecEvent (the (ev_override Map.empty ex n))) src = Some (chain_predecessors 0 ?ns Map.empty n)
      \<and> chain_predecessors 0 ?ns Map.empty n \<noteq> None" by auto
  qed
  with nex show "verifyEventsEquivalent env pid [] ex (in_tenant intent) src = None"
    by (simp add: verifyEventsEquivalent_def idx sorted_sort_id [OF sorted])
qed

lemma journal_events_override:
  assumes "sorted_wrt (<) (map ev_sequence_number ex)"
  shows "journal_events (ev_override Map.empty ex) = ex"
proof -
  from assms have d: "distinct (map ev_sequence_number ex)" and s: "sorted (map ev_sequence_number ex)" by (simp_all add: strict_sorted_iff)
  have "sorted_list_of_set (dom (ev_override Map.empty ex)) = map ev_sequence_number ex"
    using sorted_list_of_set.idem_if_sorted_distinct [OF s d] by (simp add: ev_override_dom)
  then have "journal_events (ev_override Map.empty ex) = map (\<lambda>e. the (ev_override Map.empty ex (ev_sequence_number e))) ex"
    by (simp add: journal_events_def)
  also have "\<dots> = ex" using ev_override_at [OF d] by (intro map_idI) simp
  finally show ?thesis .
qed

context events_store
begin

lemma delete_other_scopes:
  assumes "inv s" and "wf_scope src" and "deleteVerifiedSourceEvents env api src pid evs k wrote s = (out, s')" and "sc \<noteq> src"
  shows "journal s' sc = journal s sc"
proof -
  have "s' = s \<or> (\<exists>r. DeleteEvents api src pid k s = (r, s'))"
    using assms(3) by (auto simp: deleteVerifiedSourceEvents_def Let_def split: sum.splits option.splits prod.splits if_splits)
  then show ?thesis
  proof (elim disjE exE)
    fix r assume "DeleteEvents api src pid k s = (r, s')"
    with delete_ok [OF assms(1,2), of pid k s'] delete_err [OF assms(1), of src pid k _ s'] assms(4)
    show ?thesis by (cases r) auto
  qed simp
qed

lemma after_verified_wrote_nothing:
  "afterVerifiedEvents env a api pid evs k v s = (out, s') \<Longrightarrow> \<not> ro_wroteTarget out"
  by (auto simp: afterVerifiedEvents_def classifyExisting_def deleteVerifiedSourceEvents_def ro_failed_def ro_reached_def Let_def
      split: sum.splits option.splits prod.splits if_splits)

lemma delete_wrote:
  "deleteVerifiedSourceEvents env api src pid evs k wrote s = (out, s') \<Longrightarrow> ro_wroteTarget out \<Longrightarrow> ro_Status out = StatusSourceDeleted"
  by (auto simp: deleteVerifiedSourceEvents_def ro_failed_def ro_reached_def Let_def
      split: sum.splits option.splits prod.splits if_splits)

lemma fresh_copy:
  assumes i: "inv s" and wf: "wf_scope (ta_sourceScope a)" "ta_sourceScope a \<noteq> in_target intent" and ad: "adopts_for intent"
    and ok: "adoptable (ta_sourceScope a) (in_target intent) pid s" and wr: "ta_write a"
    and d: "adoptEvents env a api pid intent s = (out, s')" and w: "ro_wroteTarget out"
  obtains ex where "stamp_events env (ta_sourceScope a) (in_metadata intent) (adoptedPredecessors (journal_events (journal s (ta_sourceScope a) pid)))
      (journal_events (journal s (ta_sourceScope a) pid)) = Inr ex" "journal s (ta_sourceScope a) pid \<noteq> Map.empty"
    "journal s' (in_target intent) pid = ev_override Map.empty ex" "ta_deleteSource a \<longrightarrow> ro_Status out = StatusSourceDeleted"
  using i wf(1) ad ok d
proof (cases rule: adoptEvents_cases)
  case failed
  with w show thesis by (simp add: ro_failed_def)
next
  case (read ex)
  let ?src = "ta_sourceScope a" and ?tgt = "in_target intent"
  have wt: "wf_scope ?tgt" using ad by (simp add: adopts_for_def)
  have pl: "\<forall>e \<in> ran (journal s ?src pid). plain_event e" using ok by (simp add: adoptable_def)
  note ba = stamped_batch [OF i ad pl read(1)]
  have t: "journal s ?tgt pid = Map.empty" and ne: "journal s ?src pid \<noteq> Map.empty"
    and wa: "write_adopted_events env a api pid intent (journal_events (journal s ?src pid)) ex (max_sequence ex) s = (out, s')"
    using read(2) w wr
    by (auto simp: events_decision_def Let_def ro_reached_def dest!: after_verified_wrote_nothing split: if_splits)
  from wa w obtain s1 where s1: "WriteEvents api ?tgt ex ExpectGenesis s = (None, s1)"
    and s': "s' = s1 \<and> \<not> ta_deleteSource a \<or> (\<exists>evs k. deleteVerifiedSourceEvents env api ?src pid evs k True s1 = (out, s'))"
    by (auto simp: write_adopted_events_def ro_failed_def dest!: after_verified_wrote_nothing
        split: prod.splits option.splits sum.splits if_splits)
  have ds: "distinct (map ev_sequence_number ex)" using ba(5) by (simp add: strict_sorted_iff)
  have ne': "ex \<noteq> []" using ba(2) ne by simp
  note k = written_journal [OF i wt ne' ba(3,4) ds t s1]
  have "journal s' ?tgt = journal s1 ?tgt" using s' delete_other_scopes [OF k(1) wf(1)] wf(2) by auto
  with k(2) have "journal s' ?tgt pid = ev_override Map.empty ex" by simp
  moreover have "ta_deleteSource a \<longrightarrow> ro_Status out = StatusSourceDeleted"
    using s' delete_wrote w by blast
  ultimately show thesis using that [OF read(1) ne] by blast
qed

text \<open>Adopting again what was just adopted changes nothing and says so.\<close>

lemma adopted_again:
  assumes i: "inv s" and wf: "wf_scope (ta_sourceScope a)" "ta_sourceScope a \<noteq> in_target intent" and ad: "adopts_for intent"
    and ok: "adoptable (ta_sourceScope a) (in_target intent) pid s" and wr: "ta_write a"
    and d: "adoptEvents env a api pid intent s = (out, s')" and w: "ro_wroteTarget out"
    and answers: "\<forall>sc. \<exists>evs. ReplayEvents api sc pid 1 maxReplaySequence maxReplayLimit s' = Inr evs"
  shows "adoptEvents env a api pid intent s' = (ro_reached StatusAlreadyPresent False, s')"
proof -
  let ?src = "ta_sourceScope a" and ?tgt = "in_target intent"
  have wt: "wf_scope ?tgt" using ad by (simp add: adopts_for_def)
  obtain ex where ex: "stamp_events env ?src (in_metadata intent) (adoptedPredecessors (journal_events (journal s ?src pid)))
      (journal_events (journal s ?src pid)) = Inr ex" "journal s ?src pid \<noteq> Map.empty"
    "journal s' ?tgt pid = ev_override Map.empty ex" "ta_deleteSource a \<longrightarrow> ro_Status out = StatusSourceDeleted"
    by (rule fresh_copy [OF i wf ad ok wr d w])
  from adoptEvents_outcome [OF i wf ad ok d] have i': "inv s'"
    and src: "journal s' ?src pid = (if ta_deleteSource a then Map.empty else journal s ?src pid)"
    using ex(4) by (auto simp: events_outcome_def adoption_step_def)
  have pl: "\<forall>e \<in> ran (journal s ?src pid). plain_event e" and ns: "numbered (journal s ?src pid)"
    using ok by (simp_all add: adoptable_def)
  note ba = stamped_batch [OF i ad pl ex(1)]
  have tl: "journal_events (journal s' ?tgt pid) = ex" using journal_events_override [OF ba(5)] ex(3) by simp
  have nt: "numbered (journal s' ?tgt pid)" using ns ba(1) by (simp add: ex(3) numbered_def ev_override_dom)
  have ns': "numbered (journal s' ?src pid)" using src ns by (simp add: numbered_def)
  have "ReplayEvents api ?src pid 1 maxReplaySequence maxReplayLimit s' = Inr (journal_events (journal s' ?src pid))"
    using answers replay_all [OF i' wf(1) ns'] by metis
  moreover have "ReplayEvents api ?tgt pid 1 maxReplaySequence maxReplayLimit s' = Inr ex"
    using answers replay_all [OF i' wt nt] tl by metis
  moreover have "sorted_wrt (<) (map ev_sequence_number (journal_events (journal s ?src pid)))"
    by (simp add: journal_events_sequences journal_keyed [OF i])
  note eqv = copies_are_equivalent [OF ex(1) ad this, of pid]
  have "ex \<noteq> []" using ba(2) ex(2) by simp
  ultimately show ?thesis
    using src ex(1,2) eqv wr
    by (cases "ta_deleteSource a")
      (simp_all add: adoptEvents_def afterVerifiedEvents_def classifyExisting_def ro_reached_def Let_def)
qed

end

end
