(* ===== verification/Adoption_Run.thy ===== *)
theory Adoption_Run
  imports Adoption_Correct Events_Enumeration
begin

text \<open>
  Whole aggregates and whole runs of the tenant adoption, over the three stores together.
\<close>

section \<open>The assigned target\<close>

definition assigned_intent :: "('s, 'n, 'd) TenantAdopter \<Rightarrow> string \<Rightarrow> adoptionIntent option" where
  "assigned_intent a pid =
     (case ta_assign a pid of
        Inr (Some t) \<Rightarrow>
          (case NewTenantScope t of
             Inr target \<Rightarrow>
               (case NewTenantContext (scope_TenantID target) of
                  Inr tc \<Rightarrow> if scope_Equal target (ta_sourceScope a) then None
                            else Some \<lparr>in_target = target, in_tenant = tc, in_metadata = tenancy_MarshalMetadata tc\<rparr>
                | Inl _ \<Rightarrow> None)
           | Inl _ \<Rightarrow> None)
      | _ \<Rightarrow> None)"

lemma assigned_intent_ok:
  assumes "assigned_intent a pid = Some intent" and "wf_scope (ta_sourceScope a)"
  shows "adopts_for intent" and "ta_sourceScope a \<noteq> in_target intent"
proof -
  from assms(1) obtain t target tc where t: "NewTenantScope t = Inr target" "NewTenantContext (scope_TenantID target) = Inr tc"
    "\<not> scope_Equal target (ta_sourceScope a)"
    "intent = \<lparr>in_target = target, in_tenant = tc, in_metadata = tenancy_MarshalMetadata tc\<rparr>"
    by (auto simp: assigned_intent_def split: sum.splits option.splits if_splits)
  from NewTenantScope_wf [OF t(1)] have wf: "wf_scope target" .
  from t(2) have "tc_scope tc = ScopeTenant" by (auto simp: NewTenantContext_def split: sum.splits)
  with t NewTenantContext_wf [OF t(2)] wf show "adopts_for intent" by (simp add: adopts_for_def)
  from t scope_Equal_iff [OF wf assms(2)] show "ta_sourceScope a \<noteq> in_target intent" by auto
qed

lemma processAggregate_assigned:
  assumes "assigned_intent a pid = Some intent"
  shows "\<exists>t. processAggregate env a pid report w =
    fenced_aggregate env a pid t intent (report\<lparr>ar_Assigned := Suc (ar_Assigned report)\<rparr>) w"
  using assms by (auto simp: processAggregate_def assigned_intent_def Let_def split: sum.splits option.splits if_splits)

text \<open>
  Either an aggregate is left alone, with its fences taken and released at most, or it is adopted for
  the assigned target.
\<close>

lemma processAggregate_cases:
  assumes "processAggregate env a pid report w = (r, report', w')"
  obtains (untouched) tr where "w' = w\<lparr>aw_fences := tr\<rparr>" "ar_Aggregates report' = ar_Aggregates report"
      "\<not> ta_write a \<longrightarrow> tr = aw_fences w"
  | (adopted) t intent rep tr w1 tr' where "assigned_intent a pid = Some intent" "ar_Aggregates rep = ar_Aggregates report"
      "adopt_aggregate env a pid t intent rep (w\<lparr>aw_fences := tr\<rparr>) = (r, report', w1)" "w' = w1\<lparr>aw_fences := tr'\<rparr>"
      "\<not> ta_write a \<longrightarrow> tr = aw_fences w \<and> tr' = aw_fences w1"
proof (cases "assigned_intent a pid")
  case None
  then have "w' = w" "ar_Aggregates report' = ar_Aggregates report" using assms
    by (auto simp: processAggregate_def assigned_intent_def fail_with_def fail_aggregate_def Let_def split: sum.splits option.splits prod.splits if_splits)
  then show thesis using untouched [of "aw_fences w"] by simp
next
  case (Some intent)
  then obtain t rep where f: "fenced_aggregate env a pid t intent rep w = (r, report', w')"
    and rep: "ar_Aggregates rep = ar_Aggregates report"
    using assms processAggregate_assigned [OF Some, of env report w] by auto
  show thesis
  proof (cases "ta_write a")
    case False
    with f adopted [OF Some rep, of t "aw_fences w" w' "aw_fences w'"] show thesis by (simp add: fenced_aggregate_def)
  next
    case True
    obtain x tr where x: "acquireFences a pid (in_target intent) (aw_fences w) = (x, tr)"
      by (cases "acquireFences a pid (in_target intent) (aw_fences w)")
    show thesis
    proof (cases x)
      case (Inl err)
      with f True x have "w' = w\<lparr>aw_fences := tr\<rparr>" "ar_Aggregates report' = ar_Aggregates report"
        using rep by (auto simp: fenced_aggregate_def fail_with_def fail_aggregate_def Let_def)
      with untouched True show thesis by blast
    next
      case (Inr releases)
      obtain r1 rep1 w1 where ag: "adopt_aggregate env a pid t intent rep (w\<lparr>aw_fences := tr\<rparr>) = (r1, rep1, w1)"
        by (cases "adopt_aggregate env a pid t intent rep (w\<lparr>aw_fences := tr\<rparr>)")
      with f True x Inr have "r1 = r" "rep1 = report'" "w' = w1\<lparr>aw_fences := release_all pid releases (aw_fences w1)\<rparr>"
        by (simp_all add: fenced_aggregate_def)
      with adopted [OF Some rep, of t tr w1] ag True show thesis by blast
    qed
  qed
qed

section \<open>What a run may do\<close>

text \<open>
  Over the three stores, seen as journals, snapshots and states: nothing of an aggregate without a
  target changes. Otherwise only source and target change, the target keeps what it held, an event
  leaves the source only when the target holds its copy, the snapshots only when the target holds the
  copy of the latest, and a state never.
\<close>

type_synonym 's journals = "'s \<Rightarrow> Scope \<Rightarrow> string \<Rightarrow> u64 \<rightharpoonup> Event"
type_synonym 'n snapshots = "'n \<Rightarrow> Scope \<Rightarrow> string \<Rightarrow> u64 \<rightharpoonup> Snapshot"
type_synonym 'd states = "'d \<Rightarrow> Scope \<Rightarrow> string \<Rightarrow> DurableState option"

definition same_records ::
    "'s journals \<Rightarrow> 'n snapshots \<Rightarrow> 'd states \<Rightarrow> Scope \<Rightarrow> string \<Rightarrow> ('s, 'n, 'd) adopt_world \<Rightarrow> ('s, 'n, 'd) adopt_world \<Rightarrow> bool" where
  "same_records journal snaps stored sc pid w w' \<longleftrightarrow>
     journal (aw_events w') sc pid = journal (aw_events w) sc pid
     \<and> snaps (aw_snaps w') sc pid = snaps (aw_snaps w) sc pid
     \<and> stored (aw_states w') sc pid = stored (aw_states w) sc pid"

definition aggregate_kept ::
    "'s journals \<Rightarrow> 'n snapshots \<Rightarrow> 'd states \<Rightarrow> adopt_env \<Rightarrow> ('s, 'n, 'd) TenantAdopter \<Rightarrow> string
       \<Rightarrow> ('s, 'n, 'd) adopt_world \<Rightarrow> ('s, 'n, 'd) adopt_world \<Rightarrow> bool" where
  "aggregate_kept journal snaps stored env a pid w w' \<longleftrightarrow>
     (case assigned_intent a pid of
        None \<Rightarrow> \<forall>sc. same_records journal snaps stored sc pid w w'
      | Some intent \<Rightarrow>
          (let src = ta_sourceScope a; tgt = in_target intent;
               ev = journal (aw_events w) src pid; ev' = journal (aw_events w') src pid;
               sn = snaps (aw_snaps w) src pid; sn' = snaps (aw_snaps w') src pid
           in (\<forall>sc. sc \<noteq> src \<and> sc \<noteq> tgt \<longrightarrow> same_records journal snaps stored sc pid w w')
              \<and> (\<not> ta_deleteSource a \<longrightarrow> ev' = ev \<and> sn' = sn)
              \<and> journal (aw_events w) tgt pid \<subseteq>\<^sub>m journal (aw_events w') tgt pid \<and> ev' \<subseteq>\<^sub>m ev
              \<and> (\<forall>n e. ev n = Some e \<longrightarrow> ev' n = Some e
                   \<or> (\<exists>e'. journal (aw_events w') tgt pid n = Some e' \<and> adopted_event env src intent e e'))
              \<and> snaps (aw_snaps w) tgt pid \<subseteq>\<^sub>m snaps (aw_snaps w') tgt pid
              \<and> (sn' = sn \<or> (\<forall>x. snapshots_latest sn = Some x \<longrightarrow>
                   (\<exists>x'. snaps (aw_snaps w') tgt pid (sn_sequence_number x) = Some x' \<and> adopted_snapshot env src intent x x')))
              \<and> stored (aw_states w') src pid = stored (aw_states w) src pid
              \<and> (stored (aw_states w) tgt pid \<noteq> None \<longrightarrow> stored (aw_states w') tgt pid = stored (aw_states w) tgt pid)))"

text \<open>
  What the outcome in the report of a writing run promises: a kind that is copied, already present or
  deleted from the source is in the target, and a deleted source is empty.
\<close>

definition outcome_holds ::
    "'s journals \<Rightarrow> 'n snapshots \<Rightarrow> 'd states \<Rightarrow> adopt_env \<Rightarrow> ('s, 'n, 'd) TenantAdopter \<Rightarrow> AggregateOutcome
       \<Rightarrow> ('s, 'n, 'd) adopt_world \<Rightarrow> ('s, 'n, 'd) adopt_world \<Rightarrow> bool" where
  "outcome_holds journal snaps stored env a out w w' \<longleftrightarrow>
     (let src = ta_sourceScope a; pid = ao_PersistenceID out; reached = {StatusCopied, StatusAlreadyPresent, StatusSourceDeleted} in
      \<exists>intent. assigned_intent a pid = Some intent
        \<and> (ro_Status (ao_Events out) \<in> reached \<longrightarrow>
             (\<forall>n e. journal (aw_events w) src pid n = Some e \<longrightarrow>
                (\<exists>e'. journal (aw_events w') (in_target intent) pid n = Some e' \<and> adopted_event env src intent e e')))
        \<and> (ro_Status (ao_Events out) = StatusSourceDeleted \<longrightarrow> journal (aw_events w') src pid = Map.empty)
        \<and> (ro_Status (ao_Snapshot out) \<in> reached \<longrightarrow>
             (\<forall>x. snapshots_latest (snaps (aw_snaps w) src pid) = Some x \<longrightarrow>
                (\<exists>x'. snaps (aw_snaps w') (in_target intent) pid (sn_sequence_number x) = Some x' \<and> adopted_snapshot env src intent x x')))
        \<and> (ro_Status (ao_Snapshot out) = StatusSourceDeleted \<longrightarrow> snaps (aw_snaps w') src pid = Map.empty)
        \<and> (ro_Status (ao_DurableState out) \<in> reached \<longrightarrow>
             (\<forall>x. stored (aw_states w) src pid = Some x \<longrightarrow>
                (\<exists>x'. stored (aw_states w') (in_target intent) pid = Some x' \<and> adopted_state env src intent x x'))))"

text \<open>Both only look at the records of the aggregate.\<close>

lemma aggregate_kept_frame:
  assumes "\<forall>sc. same_records journal snaps stored sc pid w w1" and "\<forall>sc. same_records journal snaps stored sc pid w2 w'"
  shows "aggregate_kept journal snaps stored env a pid w w' = aggregate_kept journal snaps stored env a pid w1 w2"
  using assms by (simp add: aggregate_kept_def same_records_def cong: option.case_cong)

lemma outcome_holds_frame:
  assumes "\<forall>sc. same_records journal snaps stored sc (ao_PersistenceID out) w w1"
    and "\<forall>sc. same_records journal snaps stored sc (ao_PersistenceID out) w2 w'"
  shows "outcome_holds journal snaps stored env a out w w' = outcome_holds journal snaps stored env a out w1 w2"
  using assms by (simp add: outcome_holds_def same_records_def)

section \<open>Counting failures\<close>

lemma adopt_kinds_count: "ar_Failed (ks_report (adopt_kinds env a pid intent out report w)) = ar_Failed report"
  by (simp add: adopt_kinds_def applyKind_def Let_def split: option.split prod.split)

lemma count_aggregate_failed:
  assumes "count_aggregate writing out f report = (f', report')"
  shows "ar_Failed report \<le> ar_Failed report'" and "ar_Failed report' = 0 \<Longrightarrow> f = None \<and> f' = None"
  using assms by (auto simp: count_aggregate_def Let_def fail_aggregate_def split: if_splits)

lemma adopt_aggregate_failed:
  assumes "adopt_aggregate env a pid t intent report w = ((stop, f), report', w')"
  shows "ar_Failed report \<le> ar_Failed report' \<and> (ar_Failed report' = 0 \<longrightarrow> f = None)"
  using assms count_aggregate_failed [where report = "ks_report (adopt_kinds env a pid intent out report w)" for out]
  by (auto simp: adopt_aggregate_def Let_def adopt_kinds_count split: prod.splits)

lemma fail_with_failed: "fail_with a pid err report w = ((stop, f), report', w') \<Longrightarrow> ar_Failed report' = Suc (ar_Failed report)"
  by (auto simp: fail_with_def fail_aggregate_def Let_def)

lemma fenced_aggregate_failed:
  assumes "fenced_aggregate env a pid t intent report w = ((stop, f), report', w')"
  shows "ar_Failed report \<le> ar_Failed report' \<and> (ar_Failed report' = 0 \<longrightarrow> f = None)"
  using assms by (auto simp: fenced_aggregate_def dest!: fail_with_failed adopt_aggregate_failed split: if_splits prod.splits sum.splits)

lemma processAggregate_failed:
  assumes "processAggregate env a pid report w = ((stop, f), report', w')"
  shows "ar_Failed report \<le> ar_Failed report' \<and> (ar_Failed report' = 0 \<longrightarrow> f = None)"
  using assms by (auto simp: processAggregate_def Let_def dest!: fail_with_failed fenced_aggregate_failed split: sum.splits option.splits if_splits)

section \<open>The ids of a run\<close>

lemma add_ids_distinct: "distinct ids \<Longrightarrow> distinct (add_ids ids page)"
  by (induction page arbitrary: ids) (auto simp: add_ids_def)

lemma list_pages_distinct:
  assumes "list_pages (listing :: 's EventsListing) sc sz tok ids s = Some r"
  shows "distinct ids \<longrightarrow> (\<forall>ids'. r = Inr ids' \<longrightarrow> distinct ids')"
proof (rule list_pages.raw_induct [where P = "\<lambda>_ _ _ _ ids _ r. distinct ids \<longrightarrow> (\<forall>ids'. r = Inr ids' \<longrightarrow> distinct ids')", OF _ assms])
  fix rec :: "'s EventsListing \<Rightarrow> Scope \<Rightarrow> u64 \<Rightarrow> string \<Rightarrow> string list \<Rightarrow> 's \<Rightarrow> (goerr + string list) option"
    and listing scope pageSize pageToken ids s y
  assume IH: "\<And>listing scope pageSize pageToken ids s y. rec listing scope pageSize pageToken ids s = Some y \<Longrightarrow>
      distinct ids \<longrightarrow> (\<forall>ids'. y = Inr ids' \<longrightarrow> distinct ids')"
    and y: "(case PersistenceIDs listing scope pageSize pageToken s of
        Inl err \<Rightarrow> Some (Inl (ErrWrap ''migration: failed to list persistence IDs: '' err ''''))
      | Inr (page, nextToken) \<Rightarrow>
          if nextToken = [] \<or> page = [] then Some (Inr (add_ids ids page))
          else rec listing scope pageSize nextToken (add_ids ids page) s) = Some y"
  show "distinct ids \<longrightarrow> (\<forall>ids'. y = Inr ids' \<longrightarrow> distinct ids')"
  proof (cases "PersistenceIDs listing scope pageSize pageToken s")
    case (Inl err)
    then have "y = Inl (ErrWrap ''migration: failed to list persistence IDs: '' err '''')" using y by simp
    then show ?thesis by simp
  next
    case (Inr x)
    then obtain page next' where x: "PersistenceIDs listing scope pageSize pageToken s = Inr (page, next')" by (cases x) simp
    show ?thesis
    proof (cases "next' = [] \<or> page = []")
      case True
      with x y have "y = Inr (add_ids ids page)" by simp
      with add_ids_distinct show ?thesis by simp
    next
      case False
      with x y have "rec listing scope pageSize next' (add_ids ids page) s = Some y" by simp
      from IH [OF this] add_ids_distinct show ?thesis by blast
    qed
  qed
qed

lemma collected_ids_distinct: "collectPersistenceIDs a w = Some (Inr ids) \<Longrightarrow> distinct ids"
  by (auto simp: collectPersistenceIDs_def return_iffs add_ids_distinct dest!: list_pages_distinct split: option.splits)

text \<open>The events store of the testkit lists every id of its scope.\<close>

definition testkit_listing :: "EventStore EventsListing" where
  "testkit_listing = \<lparr>PersistenceIDs = es_PersistenceIDs, PingEvents = (\<lambda>_. None)\<rparr>"

lemma add_ids_set: "set (add_ids ids page) = set ids \<union> set page"
  by (induction page arbitrary: ids) (auto simp: add_ids_def)

lemma guarded_page:
  "(if c then Inl e else if d then Inl e' else Inr (p, if b \<and> 0 < length p then l else [])) = Inr (page, next') \<Longrightarrow> next' \<noteq> [] \<Longrightarrow> page \<noteq> []"
  by (auto split: if_splits)

lemma next_page_nonempty: "es_PersistenceIDs sc sz tok x = Inr (page, next') \<Longrightarrow> next' \<noteq> [] \<Longrightarrow> page \<noteq> []"
  unfolding es_PersistenceIDs_def Let_def by (rule guarded_page)

lemma list_pages_walk:
  "walk_pages fuel sc sz tok x = Some ids \<Longrightarrow>
     \<exists>ids'. list_pages testkit_listing sc sz tok acc x = Some (Inr ids') \<and> set ids' = set acc \<union> set ids"
proof (induction fuel arbitrary: tok acc ids)
  case (Suc fuel)
  then obtain page next' where pg: "es_PersistenceIDs sc sz tok x = Inr (page, next')"
    by (cases "es_PersistenceIDs sc sz tok x") auto
  show ?case
  proof (cases "next' = []")
    case True
    with Suc.prems pg show ?thesis by (subst list_pages.simps) (simp add: testkit_listing_def add_ids_set)
  next
    case False
    then have ne: "page \<noteq> []" using next_page_nonempty [OF pg] by blast
    from False Suc.prems pg obtain rest where rest: "walk_pages fuel sc sz next' x = Some rest" "ids = page @ rest" by auto
    from Suc.IH [OF rest(1), of "add_ids acc page"] obtain ids' where
      "list_pages testkit_listing sc sz next' (add_ids acc page) x = Some (Inr ids')" "set ids' = set (add_ids acc page) \<union> set rest"
      by blast
    with False ne pg rest(2) show ?thesis
      by (subst list_pages.simps) (simp add: testkit_listing_def add_ids_set Un_assoc)
  qed
qed simp

section \<open>Aggregates and runs over stores that keep their contracts\<close>

locale adoption_stores =
  ev: events_store eapi einv journal revision + sn: snapshot_store napi ninv snaps + st: state_store dapi dinv stored
  for eapi :: "'s EventsStore" and einv journal revision and napi :: "'n SnapshotStoreApi" and ninv snaps
    and dapi :: "'d StateStore" and dinv stored
begin

text \<open>The adopter works on these stores, or on some of them.\<close>

definition adopter_on :: "('s, 'n, 'd) TenantAdopter \<Rightarrow> bool" where
  "adopter_on a \<longleftrightarrow>
     wf_scope (ta_sourceScope a) \<and> (\<forall>x. ta_eventsStore a = Some x \<longrightarrow> fst x = eapi)
     \<and> (\<forall>x. ta_snapshotStore a = Some x \<longrightarrow> fst x = napi) \<and> (\<forall>x. ta_stateStore a = Some x \<longrightarrow> fst x = dapi)"

definition stores_ok :: "('s, 'n, 'd) adopt_world \<Rightarrow> bool" where
  "stores_ok w \<longleftrightarrow> einv (aw_events w) \<and> ninv (aw_snaps w) \<and> dinv (aw_states w)"

definition ready :: "('s, 'n, 'd) TenantAdopter \<Rightarrow> string \<Rightarrow> ('s, 'n, 'd) adopt_world \<Rightarrow> bool" where
  "ready a pid w \<longleftrightarrow>
     (\<forall>intent. assigned_intent a pid = Some intent \<longrightarrow>
        ev.adoptable (ta_sourceScope a) (in_target intent) pid (aw_events w)
        \<and> (\<forall>x. stored (aw_states w) (ta_sourceScope a) pid = Some x \<longrightarrow> du_persistence_id x = pid))"

lemma ready_frame: "\<forall>sc. same_records journal snaps stored sc pid w w' \<Longrightarrow> ready a pid w' = ready a pid w"
  by (simp add: ready_def same_records_def ev.adoptable_def)

text \<open>Each kind is skipped or comes to its outcome.\<close>

definition kinds_done ::
    "adopt_env \<Rightarrow> ('s, 'n, 'd) TenantAdopter \<Rightarrow> adoptionIntent \<Rightarrow> string \<Rightarrow> ('s, 'n, 'd) adopt_world \<Rightarrow> AggregateOutcome
       \<Rightarrow> ('s, 'n, 'd) adopt_world \<Rightarrow> bool" where
  "kinds_done env a intent pid w out w' \<longleftrightarrow>
     (ao_Events out = ro_unset \<and> aw_events w' = aw_events w
      \<or> ev.events_outcome env (ta_write a) (ta_deleteSource a) (ta_sourceScope a) intent pid (aw_events w) (ao_Events out) (aw_events w'))
     \<and> (ao_Snapshot out = ro_unset \<and> aw_snaps w' = aw_snaps w
      \<or> sn.snapshot_outcome env (ta_write a) (ta_deleteSource a) (ta_sourceScope a) intent pid (aw_snaps w) (ao_Snapshot out) (aw_snaps w'))
     \<and> (ao_DurableState out = ro_unset \<and> aw_states w' = aw_states w
      \<or> st.state_outcome env (ta_write a) (ta_sourceScope a) intent pid (aw_states w) (ao_DurableState out) (aw_states w'))"

definition kinds_reached ::
    "adopt_env \<Rightarrow> ('s, 'n, 'd) TenantAdopter \<Rightarrow> adoptionIntent \<Rightarrow> string \<Rightarrow> ('s, 'n, 'd) adopt_world \<Rightarrow> AggregateOutcome
       \<Rightarrow> ('s, 'n, 'd) adopt_world \<Rightarrow> bool" where
  "kinds_reached env a intent pid w out w' \<longleftrightarrow>
     (ta_eventsStore a \<noteq> None \<longrightarrow> ro_Status (ao_Events out) \<noteq> StatusFailed
      \<and> ev.events_outcome env (ta_write a) (ta_deleteSource a) (ta_sourceScope a) intent pid (aw_events w) (ao_Events out) (aw_events w'))
     \<and> (ta_snapshotStore a \<noteq> None \<longrightarrow> ro_Status (ao_Snapshot out) \<noteq> StatusFailed
      \<and> sn.snapshot_outcome env (ta_write a) (ta_deleteSource a) (ta_sourceScope a) intent pid (aw_snaps w) (ao_Snapshot out) (aw_snaps w'))
     \<and> (ta_stateStore a \<noteq> None \<longrightarrow> ro_Status (ao_DurableState out) \<noteq> StatusFailed
      \<and> st.state_outcome env (ta_write a) (ta_sourceScope a) intent pid (aw_states w) (ao_DurableState out) (aw_states w'))"

lemma adopt_kinds_done:
  assumes on: "adopter_on a" and i: "stores_ok w" and r: "ready a pid w" and t: "assigned_intent a pid = Some intent"
    and o: "ao_Events out = ro_unset" "ao_Snapshot out = ro_unset" "ao_DurableState out = ro_unset"
    and k: "k = adopt_kinds env a pid intent out report w"
  shows "kinds_done env a intent pid w (ks_outcome k) (ks_world k)"
    and "ao_PersistenceID (ks_outcome k) = ao_PersistenceID out" "ar_Aggregates (ks_report k) = ar_Aggregates report"
    and "aw_fences (ks_world k) = aw_fences w"
    and "ks_failure k = None \<Longrightarrow> kinds_reached env a intent pid w (ks_outcome k) (ks_world k)"
    and "ar_Failed (ks_report k) = ar_Failed report"
proof -
  have wf: "wf_scope (ta_sourceScope a)" using on by (simp add: adopter_on_def)
  note w = wf assigned_intent_ok(2) [OF t wf] assigned_intent_ok(1) [OF t wf]
  have inv: "einv (aw_events w)" "ninv (aw_snaps w)" "dinv (aw_states w)" using i by (simp_all add: stores_ok_def)
  have ok: "ev.adoptable (ta_sourceScope a) (in_target intent) pid (aw_events w)"
    "\<forall>x. stored (aw_states w) (ta_sourceScope a) pid = Some x \<longrightarrow> du_persistence_id x = pid"
    using r t by (simp_all add: ready_def)
  obtain o1 s1 where e: "adoptEvents env a eapi pid intent (aw_events w) = (o1, s1)" by (cases "adoptEvents env a eapi pid intent (aw_events w)")
  obtain o2 s2 where n: "adoptSnapshot env a napi pid intent (aw_snaps w) = (o2, s2)" by (cases "adoptSnapshot env a napi pid intent (aw_snaps w)")
  obtain o3 s3 where d: "adoptState env a dapi pid intent (aw_states w) = (o3, s3)" by (cases "adoptState env a dapi pid intent (aw_states w)")
  note oc = ev.adoptEvents_outcome [OF inv(1) w ok(1) e] sn.adoptSnapshot_outcome [OF inv(2) w n] st.adoptState_outcome [OF inv(3) w ok(2) d]
  have stores: "ta_eventsStore a = None \<or> (\<exists>l. ta_eventsStore a = Some (eapi, l))"
    "ta_snapshotStore a = None \<or> (\<exists>l. ta_snapshotStore a = Some (napi, l))"
    "ta_stateStore a = None \<or> (\<exists>l. ta_stateStore a = Some (dapi, l))"
    using on unfolding adopter_on_def by (metis option.exhaust prod.collapse)+
  have "kinds_done env a intent pid w (ks_outcome k) (ks_world k)
    \<and> ao_PersistenceID (ks_outcome k) = ao_PersistenceID out \<and> ar_Aggregates (ks_report k) = ar_Aggregates report
    \<and> aw_fences (ks_world k) = aw_fences w \<and> ar_Failed (ks_report k) = ar_Failed report
    \<and> (ks_failure k = None \<longrightarrow> kinds_reached env a intent pid w (ks_outcome k) (ks_world k))"
    using stores unfolding k adopt_kinds_def applyKind_def kinds_done_def kinds_reached_def
    by (elim disjE exE; cases "ro_Status o1 = StatusFailed"; cases "ro_Status o2 = StatusFailed"; cases "ro_Status o3 = StatusFailed";
      simp add: e n d o oc Let_def)
  then show "kinds_done env a intent pid w (ks_outcome k) (ks_world k)"
    "ao_PersistenceID (ks_outcome k) = ao_PersistenceID out" "ar_Aggregates (ks_report k) = ar_Aggregates report"
    "aw_fences (ks_world k) = aw_fences w" "ar_Failed (ks_report k) = ar_Failed report"
    "ks_failure k = None \<Longrightarrow> kinds_reached env a intent pid w (ks_outcome k) (ks_world k)"
    by simp_all
qed

text \<open>What that means for the records of each kind.\<close>

lemma events_part:
  assumes "einv s"
    and "out = ro_unset \<and> s' = s \<or> ev.events_outcome env writing deleting src intent pid s out s'"
  shows "ev.adoption_step env src intent pid s s'" and "\<not> deleting \<Longrightarrow> journal s' src pid = journal s src pid"
    and "writing \<Longrightarrow> ro_Status out \<in> {StatusCopied, StatusAlreadyPresent, StatusSourceDeleted} \<Longrightarrow> ev.copied_in env src intent pid s s'"
    and "ro_Status out = StatusSourceDeleted \<Longrightarrow> journal s' src pid = Map.empty" and "\<not> writing \<Longrightarrow> s' = s"
  using assms by (auto simp: ev.events_outcome_def ro_unset_def intro: ev.adoption_step_same)

lemma snapshots_part:
  assumes "ninv s"
    and "out = ro_unset \<and> s' = s \<or> sn.snapshot_outcome env writing deleting src intent pid s out s'"
  shows "ninv s'" and "p \<noteq> pid \<or> sc \<noteq> src \<and> sc \<noteq> in_target intent \<Longrightarrow> snaps s' sc p = snaps s sc p"
    and "snaps s (in_target intent) pid \<subseteq>\<^sub>m snaps s' (in_target intent) pid"
    and "snaps s' src pid = snaps s src pid \<or> deleting \<and> sn.snapshot_copied env src intent pid s s'"
    and "writing \<Longrightarrow> ro_Status out \<in> {StatusCopied, StatusAlreadyPresent, StatusSourceDeleted} \<Longrightarrow> sn.snapshot_copied env src intent pid s s'"
    and "ro_Status out = StatusSourceDeleted \<Longrightarrow> snaps s' src pid = Map.empty" and "\<not> writing \<Longrightarrow> s' = s"
  using assms by (auto simp: sn.snapshot_outcome_def ro_unset_def)

lemma states_part:
  assumes "dinv s"
    and "out = ro_unset \<and> s' = s \<or> st.state_outcome env writing src intent pid s out s'"
  shows "dinv s'" and "p \<noteq> pid \<or> sc \<noteq> in_target intent \<Longrightarrow> stored s' sc p = stored s sc p"
    and "stored s (in_target intent) pid \<noteq> None \<Longrightarrow> stored s' (in_target intent) pid = stored s (in_target intent) pid"
    and "writing \<Longrightarrow> ro_Status out \<in> {StatusCopied, StatusAlreadyPresent, StatusSourceDeleted} \<Longrightarrow> st.state_copied env src intent pid s s'"
    and "\<not> writing \<Longrightarrow> s' = s"
  using assms by (auto simp: st.state_outcome_def ro_unset_def)

lemma kinds_done_kept:
  assumes t: "assigned_intent a pid = Some intent" and i: "stores_ok w" and k: "kinds_done env a intent pid w out w'"
  shows "stores_ok w'" and "p \<noteq> pid \<Longrightarrow> same_records journal snaps stored sc p w w'"
    and "ta_sourceScope a \<noteq> in_target intent \<Longrightarrow> aggregate_kept journal snaps stored env a pid w w'"
    and "ta_write a \<Longrightarrow> ao_PersistenceID out = pid \<Longrightarrow> outcome_holds journal snaps stored env a out w w'"
    and "\<not> ta_write a \<Longrightarrow> aw_fences w' = aw_fences w \<Longrightarrow> w' = w"
proof -
  let ?src = "ta_sourceScope a" and ?tgt = "in_target intent"
  have i': "einv (aw_events w)" "ninv (aw_snaps w)" "dinv (aw_states w)" using i by (simp_all add: stores_ok_def)
  note k' = k [unfolded kinds_done_def]
  note e = events_part [OF i'(1) k' [THEN conjunct1]] and n = snapshots_part [OF i'(2) k' [THEN conjunct2, THEN conjunct1]]
    and d = states_part [OF i'(3) k' [THEN conjunct2, THEN conjunct2]]
  note e1 = e(1) [unfolded ev.adoption_step_def]
  show "stores_ok w'" using e1 n(1) d(1) by (simp add: stores_ok_def)
  show "w' = w" if "\<not> ta_write a" "aw_fences w' = aw_fences w" using that e(5) n(7) d(5) by simp
  show "same_records journal snaps stored sc p w w'" if "p \<noteq> pid" using that e1 n(2) d(2) by (simp add: same_records_def)
  show "aggregate_kept journal snaps stored env a pid w w'" if ne: "?src \<noteq> ?tgt"
  proof -
    have "same_records journal snaps stored sc pid w w'" if "sc \<noteq> ?src \<and> sc \<noteq> ?tgt" for sc
      using that e1 n(2) d(2) by (simp add: same_records_def)
    moreover have "\<not> ta_deleteSource a \<longrightarrow> snaps (aw_snaps w') ?src pid = snaps (aw_snaps w) ?src pid" using n(4) by blast
    moreover have "stored (aw_states w') ?src pid = stored (aw_states w) ?src pid" using d(2) ne by blast
    ultimately show ?thesis
      unfolding aggregate_kept_def t option.case Let_def using e(2) e1 n(3,4) d(3)
      by (intro conjI allI impI) (simp_all add: sn.snapshot_copied_def, blast)
  qed
  show "outcome_holds journal snaps stored env a out w w'" if wr: "ta_write a" and p: "ao_PersistenceID out = pid"
    unfolding outcome_holds_def Let_def p
    using t e(3,4) n(5,6) d(4) wr
    by (intro exI [of _ intent]) (simp add: ev.copied_in_def sn.snapshot_copied_def st.state_copied_def)
qed

lemma count_aggregate_lists:
  "count_aggregate writing out f report = (f', report') \<Longrightarrow> ar_Aggregates report' = ar_Aggregates report @ [out]"
  by (auto simp: count_aggregate_def Let_def fail_aggregate_def split: if_splits)

lemma adopt_aggregate_kept:
  assumes on: "adopter_on a" and i: "stores_ok w" and r: "ready a pid w" and t: "assigned_intent a pid = Some intent"
    and d: "adopt_aggregate env a pid tid intent report w = (res, report', w')"
  obtains out where "kinds_done env a intent pid w out w'" "ao_PersistenceID out = pid"
    "ar_Aggregates report' = ar_Aggregates report @ [out]" "aw_fences w' = aw_fences w"
proof -
  let ?out = "\<lparr>ao_PersistenceID = pid, ao_Tenant = tid, ao_Events = ro_unset, ao_Snapshot = ro_unset, ao_DurableState = ro_unset\<rparr>"
  let ?k = "adopt_kinds env a pid intent ?out report w"
  obtain f rep where c: "count_aggregate (ta_write a) (ks_outcome ?k) (ks_failure ?k) (ks_report ?k) = (f, rep)"
    by (cases "count_aggregate (ta_write a) (ks_outcome ?k) (ks_failure ?k) (ks_report ?k)")
  with d have "report' = rep" "w' = ks_world ?k" by (simp_all add: adopt_aggregate_def Let_def)
  with adopt_kinds_done [OF on i r t, of ?out ?k env report] count_aggregate_lists [OF c] that show thesis by simp
qed

lemma aggregate_kept_refl: "aw_events w' = aw_events w \<Longrightarrow> aw_snaps w' = aw_snaps w \<Longrightarrow> aw_states w' = aw_states w \<Longrightarrow>
    aggregate_kept journal snaps stored env a pid w w'"
  by (simp add: aggregate_kept_def same_records_def Let_def split: option.split)

text \<open>What was done for some ids, with the outcomes reported for them: no other id is touched.\<close>

definition run_kept ::
    "adopt_env \<Rightarrow> ('s, 'n, 'd) TenantAdopter \<Rightarrow> string set \<Rightarrow> ('s, 'n, 'd) adopt_world \<Rightarrow> AggregateOutcome list
       \<Rightarrow> ('s, 'n, 'd) adopt_world \<Rightarrow> bool" where
  "run_kept env a ids w outs w' \<longleftrightarrow>
     stores_ok w' \<and> (\<forall>p sc. p \<notin> ids \<longrightarrow> same_records journal snaps stored sc p w w')
     \<and> (\<forall>p \<in> ids. aggregate_kept journal snaps stored env a p w w')
     \<and> (\<forall>out \<in> set outs. ao_PersistenceID out \<in> ids \<and> (ta_write a \<longrightarrow> outcome_holds journal snaps stored env a out w w'))
     \<and> (\<not> ta_write a \<longrightarrow> w' = w)"

lemma run_kept_same: "stores_ok w' \<Longrightarrow> (\<not> ta_write a \<longrightarrow> w' = w) \<Longrightarrow> aw_events w' = aw_events w \<Longrightarrow> aw_snaps w' = aw_snaps w \<Longrightarrow> aw_states w' = aw_states w \<Longrightarrow>
    run_kept env a ids w [] w'"
  by (simp add: run_kept_def same_records_def aggregate_kept_refl)

lemma run_kept_trans:
  assumes "run_kept env a xs w outs1 w1" and "run_kept env a ys w1 outs2 w2" and "xs \<inter> ys = {}"
  shows "run_kept env a (xs \<union> ys) w (outs1 @ outs2) w2"
proof -
  note a = assms(1) [unfolded run_kept_def] and b = assms(2) [unfolded run_kept_def]
  have same: "same_records journal snaps stored sc p v v" for sc p v by (simp add: same_records_def)
  have fr1: "same_records journal snaps stored sc p w w1" if "p \<notin> xs" for p sc using that a by blast
  have fr2: "same_records journal snaps stored sc p w1 w2" if "p \<notin> ys" for p sc using that b by blast
  have "same_records journal snaps stored sc p w w2" if "p \<notin> xs \<union> ys" for p sc
    using that fr1 [of p sc] fr2 [of p sc] by (simp add: same_records_def)
  moreover have "aggregate_kept journal snaps stored env a p w w2" if "p \<in> xs \<union> ys" for p
  proof (cases "p \<in> xs")
    case True
    with assms(3) a have "p \<notin> ys" "aggregate_kept journal snaps stored env a p w w1" by blast+
    with fr2 aggregate_kept_frame [of journal snaps stored p w w w1 w2] same show ?thesis by simp
  next
    case False
    with that b have "aggregate_kept journal snaps stored env a p w1 w2" by blast
    with fr1 [OF False] aggregate_kept_frame [of journal snaps stored p w w1 w2 w2] same show ?thesis by simp
  qed
  moreover have "outcome_holds journal snaps stored env a out w w2" if "ta_write a" "out \<in> set (outs1 @ outs2)" for out
  proof (cases "out \<in> set outs1")
    case True
    with assms(3) a that(1) have "ao_PersistenceID out \<notin> ys" "outcome_holds journal snaps stored env a out w w1" by blast+
    with fr2 outcome_holds_frame [of journal snaps stored out w w w1 w2] same show ?thesis by simp
  next
    case False
    with that(2) have "out \<in> set outs2" by simp
    with assms(3) that(1) b have "ao_PersistenceID out \<notin> xs" "outcome_holds journal snaps stored env a out w1 w2" by blast+
    with fr1 outcome_holds_frame [of journal snaps stored out w w1 w2 w2] same show ?thesis by simp
  qed
  ultimately show ?thesis using a b by (auto simp: run_kept_def)
qed

lemma processAggregate_kept:
  assumes on: "adopter_on a" and i: "stores_ok w" and r: "ready a pid w"
    and d: "processAggregate env a pid report w = (res, report', w')"
  obtains outs where "ar_Aggregates report' = ar_Aggregates report @ outs" "run_kept env a {pid} w outs w'"
  using d
proof (cases rule: processAggregate_cases)
  case (untouched tr)
  with i run_kept_same [of w' a w] that [of "[]"] show thesis by (simp add: stores_ok_def)
next
  case (adopted t intent rep tr w1 tr')
  let ?w = "w\<lparr>aw_fences := tr\<rparr>"
  have fr: "same_records journal snaps stored sc p w ?w" "same_records journal snaps stored sc p w1 w'" for sc p
    using adopted(4) by (simp_all add: same_records_def)
  have i1: "stores_ok ?w" using i by (simp add: stores_ok_def)
  have r1: "ready a pid ?w" using r ready_frame [of pid w ?w] fr by simp
  obtain out where k: "kinds_done env a intent pid ?w out w1" "ao_PersistenceID out = pid" "ar_Aggregates report' = ar_Aggregates rep @ [out]"
    "aw_fences w1 = aw_fences ?w"
    by (rule adopt_aggregate_kept [OF on i1 r1 adopted(1,3)])
  have ne: "ta_sourceScope a \<noteq> in_target intent" using assigned_intent_ok(2) [OF adopted(1)] on by (simp add: adopter_on_def)
  note kk = kinds_done_kept [OF adopted(1) i1 k(1)]
  have "stores_ok w'" using kk(1) adopted(4) by (simp add: stores_ok_def)
  moreover have "same_records journal snaps stored sc p w w'" if "p \<noteq> pid" for sc p
    using kk(2) [OF that, of sc] fr [of sc p] by (simp add: same_records_def)
  moreover have "aggregate_kept journal snaps stored env a pid w w'"
    using kk(3) [OF ne] aggregate_kept_frame [of journal snaps stored pid w ?w w1 w'] fr by simp
  moreover have "ta_write a \<longrightarrow> outcome_holds journal snaps stored env a out w w'"
    using kk(4) k(2) outcome_holds_frame [of journal snaps stored out w ?w w1 w'] fr by simp
  moreover have "w' = w" if "\<not> ta_write a" using kk(5) that k(4) adopted(4,5) by simp
  ultimately have "run_kept env a {pid} w [out] w'" using k(2) by (simp add: run_kept_def)
  with that k(3) adopted(2) show thesis by simp
qed

lemma process_each_kept:
  assumes on: "adopter_on a" and "stores_ok w" "distinct ids" "\<forall>pid \<in> set ids. ready a pid w"
    and "process_each env a ids report w = (f, report', w')"
  shows "\<exists>outs. ar_Aggregates report' = ar_Aggregates report @ outs \<and> run_kept env a (set ids) w outs w'"
  using assms(2-)
proof (induction ids arbitrary: report w)
  case Nil
  then show ?case using run_kept_same [of w a w] by (auto intro: exI [of _ "[]"])
next
  case (Cons pid ids)
  obtain stop failure rep1 w1 where p: "processAggregate env a pid (report\<lparr>ar_Scanned := Suc (ar_Scanned report)\<rparr>) w = ((stop, failure), rep1, w1)"
    by (metis prod.exhaust)
  have r: "ready a pid w" and ds: "{pid} \<inter> set ids = {}" "distinct ids" using Cons.prems(2,3) by simp_all
  obtain outs1 where k1: "ar_Aggregates rep1 = ar_Aggregates report @ outs1" "run_kept env a {pid} w outs1 w1"
    by (rule processAggregate_kept [OF on Cons.prems(1) r p]) simp
  then have i1: "stores_ok w1" by (simp add: run_kept_def)
  obtain outs2 where k2: "ar_Aggregates report' = ar_Aggregates rep1 @ outs2" "run_kept env a (set ids) w1 outs2 w'"
  proof (cases "failure \<noteq> None \<and> stop")
    case True
    with Cons.prems(4) p have "w' = w1" "report' = rep1" by simp_all
    with run_kept_same [of w1 a w1] i1 that [of "[]"] show thesis by simp
  next
    case False
    with Cons.prems(4) p have d: "process_each env a ids rep1 w1 = (f, report', w')" by (auto split: if_splits)
    have "ready a q w1" if "q \<in> set ids" for q
    proof -
      have "q \<notin> {pid}" using that ds(1) by blast
      with k1(2) have "\<forall>sc. same_records journal snaps stored sc q w w1" by (simp add: run_kept_def)
      with ready_frame Cons.prems(3) that show ?thesis by simp
    qed
    with Cons.IH [OF i1 ds(2) _ d] that show thesis by blast
  qed
  from run_kept_trans [OF k1(2) k2(2) ds(1)] k1(1) k2(1) show ?case by (intro exI [of _ "outs1 @ outs2"]) simp
qed

lemma run_loses_nothing:
  assumes "adopter_on a" and "stores_ok w" and "\<forall>pid. ready a pid w" and "ta_Run env a w = Some (Inr (f, report, w'))"
  shows "\<exists>ids. run_kept env a ids w (ar_Aggregates report) w'"
proof -
  from assms(4) obtain ids where ids: "collectPersistenceIDs a w = Some (Inr ids)"
    "process_each env a ids (new_report (\<not> ta_write a)) w = (f, report, w')"
    by (auto simp: ta_Run_def return_iffs split: option.splits)
  from process_each_kept [OF assms(1,2) collected_ids_distinct [OF ids(1)] _ ids(2)] assms(3) show ?thesis
    by (auto simp: new_report_def)
qed

lemma run_keeps_all:
  assumes "run_kept env a ids w outs w'"
  shows "aggregate_kept journal snaps stored env a pid w w'"
proof (cases "pid \<in> ids")
  case True
  with assms show ?thesis by (simp add: run_kept_def)
next
  case False
  with assms have "\<forall>sc. same_records journal snaps stored sc pid w w'" by (simp add: run_kept_def)
  with aggregate_kept_frame [of journal snaps stored pid w w w w'] aggregate_kept_refl [of w w] show ?thesis
    by (simp add: same_records_def)
qed

text \<open>A run that counts no failure has copied every assigned aggregate.\<close>

definition all_copied ::
    "adopt_env \<Rightarrow> ('s, 'n, 'd) TenantAdopter \<Rightarrow> string \<Rightarrow> ('s, 'n, 'd) adopt_world \<Rightarrow> ('s, 'n, 'd) adopt_world \<Rightarrow> bool" where
  "all_copied env a pid w w' \<longleftrightarrow>
     (\<forall>intent. assigned_intent a pid = Some intent \<longrightarrow>
        (ta_eventsStore a \<noteq> None \<longrightarrow> ev.copied_in env (ta_sourceScope a) intent pid (aw_events w) (aw_events w'))
        \<and> (ta_snapshotStore a \<noteq> None \<longrightarrow> sn.snapshot_copied env (ta_sourceScope a) intent pid (aw_snaps w) (aw_snaps w'))
        \<and> (ta_stateStore a \<noteq> None \<longrightarrow> st.state_copied env (ta_sourceScope a) intent pid (aw_states w) (aw_states w')))"

lemma kinds_reached_copied:
  assumes "kinds_reached env a intent pid w out w'" and "ta_write a" and "assigned_intent a pid = Some intent"
  shows "all_copied env a pid w w'"
proof -
  have st: "st \<in> {StatusCopied, StatusAlreadyPresent, StatusSourceDeleted} \<or> st = StatusNone" if "st \<noteq> StatusFailed" "st \<noteq> StatusUnset" for st
    using that by (cases st) simp_all
  note k = assms(1) [unfolded kinds_reached_def]
  have "ev.copied_in env (ta_sourceScope a) intent pid (aw_events w) (aw_events w')" if "ta_eventsStore a \<noteq> None"
  proof -
    note o = k [THEN conjunct1, THEN mp, OF that]
    from o have "ro_Status (ao_Events out) \<noteq> StatusUnset" by (simp add: ev.events_outcome_def)
    with st o have "ro_Status (ao_Events out) \<in> {StatusCopied, StatusAlreadyPresent, StatusSourceDeleted} \<or> ro_Status (ao_Events out) = StatusNone" by blast
    with o assms(2) show ?thesis by (elim disjE) (simp_all only: ev.events_outcome_def, simp_all add: ev.copied_in_def)
  qed
  moreover have "sn.snapshot_copied env (ta_sourceScope a) intent pid (aw_snaps w) (aw_snaps w')" if "ta_snapshotStore a \<noteq> None"
  proof -
    note o = k [THEN conjunct2, THEN conjunct1, THEN mp, OF that]
    from o have "ro_Status (ao_Snapshot out) \<noteq> StatusUnset" by (simp add: sn.snapshot_outcome_def)
    with st o have "ro_Status (ao_Snapshot out) \<in> {StatusCopied, StatusAlreadyPresent, StatusSourceDeleted} \<or> ro_Status (ao_Snapshot out) = StatusNone" by blast
    with o assms(2) show ?thesis
      by (elim disjE) (simp_all only: sn.snapshot_outcome_def, simp_all add: sn.snapshot_copied_def snapshots_latest_def)
  qed
  moreover have "st.state_copied env (ta_sourceScope a) intent pid (aw_states w) (aw_states w')" if "ta_stateStore a \<noteq> None"
  proof -
    note o = k [THEN conjunct2, THEN conjunct2, THEN mp, OF that]
    from o have "ro_Status (ao_DurableState out) \<noteq> StatusUnset" "ro_Status (ao_DurableState out) \<noteq> StatusSourceDeleted"
      by (simp_all add: st.state_outcome_def)
    with st o have "ro_Status (ao_DurableState out) \<in> {StatusCopied, StatusAlreadyPresent} \<or> ro_Status (ao_DurableState out) = StatusNone" by blast
    with o assms(2) show ?thesis by (elim disjE) (simp_all only: st.state_outcome_def, simp_all add: st.state_copied_def)
  qed
  ultimately show ?thesis using assms(3) by (simp add: all_copied_def)
qed

lemma all_copied_frame:
  assumes "\<forall>sc. same_records journal snaps stored sc pid w w1" and "\<forall>sc. same_records journal snaps stored sc pid w2 w'"
  shows "all_copied env a pid w w' = all_copied env a pid w1 w2"
  using assms by (simp add: all_copied_def same_records_def ev.copied_in_def sn.snapshot_copied_def st.state_copied_def)

lemma adopt_aggregate_copied:
  assumes on: "adopter_on a" and i: "stores_ok w" and r: "ready a pid w" and t: "assigned_intent a pid = Some intent" and wr: "ta_write a"
    and d: "adopt_aggregate env a pid tid intent report w = (res, report', w')" and nf: "ar_Failed report' = 0"
  shows "all_copied env a pid w w'"
proof -
  let ?out = "\<lparr>ao_PersistenceID = pid, ao_Tenant = tid, ao_Events = ro_unset, ao_Snapshot = ro_unset, ao_DurableState = ro_unset\<rparr>"
  let ?k = "adopt_kinds env a pid intent ?out report w"
  obtain f rep where c: "count_aggregate (ta_write a) (ks_outcome ?k) (ks_failure ?k) (ks_report ?k) = (f, rep)"
    by (cases "count_aggregate (ta_write a) (ks_outcome ?k) (ks_failure ?k) (ks_report ?k)")
  with d have "report' = rep" "w' = ks_world ?k" by (simp_all add: adopt_aggregate_def Let_def)
  with adopt_kinds_done(5) [OF on i r t, of ?out ?k env report] count_aggregate_failed(2) [OF c] nf
  have "kinds_reached env a intent pid w (ks_outcome ?k) w'" by simp
  from kinds_reached_copied [OF this wr t] show ?thesis .
qed

lemma processAggregate_copied:
  assumes on: "adopter_on a" and i: "stores_ok w" and r: "ready a pid w" and wr: "ta_write a"
    and d: "processAggregate env a pid report w = (res, report', w')" and nf: "ar_Failed report' = 0"
  shows "all_copied env a pid w w'"
proof (cases "assigned_intent a pid")
  case None
  then show ?thesis by (simp add: all_copied_def)
next
  case (Some intent)
  let ?rep = "report\<lparr>ar_Assigned := Suc (ar_Assigned report)\<rparr>"
  from processAggregate_assigned [OF Some, of env report w] d obtain t where
    f: "fenced_aggregate env a pid t intent ?rep w = (res, report', w')" by metis
  obtain x tr where x: "acquireFences a pid (in_target intent) (aw_fences w) = (x, tr)"
    by (cases "acquireFences a pid (in_target intent) (aw_fences w)")
  from f x wr nf fail_with_failed obtain releases where rel: "x = Inr releases"
    by (cases x) (auto simp: fenced_aggregate_def fail_with_def fail_aggregate_def Let_def)
  let ?w = "w\<lparr>aw_fences := tr\<rparr>"
  obtain r1 rep1 w1 where ag: "adopt_aggregate env a pid t intent ?rep ?w = (r1, rep1, w1)"
    by (cases "adopt_aggregate env a pid t intent ?rep ?w")
  with f x rel wr have e: "rep1 = report'" "aw_events w' = aw_events w1" "aw_snaps w' = aw_snaps w1" "aw_states w' = aw_states w1"
    by (auto simp: fenced_aggregate_def)
  have fr: "same_records journal snaps stored sc p w ?w" "same_records journal snaps stored sc p w1 w'" for sc p
    using e by (simp_all add: same_records_def)
  have "stores_ok ?w" "ready a pid ?w" using i r ready_frame [of pid w ?w] fr by (simp_all add: stores_ok_def)
  from adopt_aggregate_copied [OF on this Some wr ag] nf e(1) all_copied_frame [of pid w ?w w1 w'] fr show ?thesis by simp
qed

lemma process_each_copied:
  assumes on: "adopter_on a" and wr: "ta_write a" and "stores_ok w" "distinct ids" "\<forall>pid \<in> set ids. ready a pid w"
    and "process_each env a ids report w = (f, report', w')" and nf: "ar_Failed report' = 0"
  shows "f = None \<and> (\<forall>pid \<in> set ids. all_copied env a pid w w') \<and> ar_Failed report = 0"
  using assms(3-6)
proof (induction ids arbitrary: report w)
  case Nil
  with nf show ?case by simp
next
  case (Cons pid ids)
  let ?rep = "report\<lparr>ar_Scanned := Suc (ar_Scanned report)\<rparr>"
  obtain stop failure rep1 w1 where p: "processAggregate env a pid ?rep w = ((stop, failure), rep1, w1)"
    by (metis prod.exhaust)
  note pf = processAggregate_failed [OF p]
  have r: "ready a pid w" and ds: "pid \<notin> set ids" "distinct ids" using Cons.prems(2,3) by simp_all
  obtain outs where k: "run_kept env a {pid} w outs w1" by (rule processAggregate_kept [OF on Cons.prems(1) r p])
  then have i1: "stores_ok w1" and fr: "\<And>q sc. q \<noteq> pid \<Longrightarrow> same_records journal snaps stored sc q w w1"
    by (simp_all add: run_kept_def)
  have r1: "\<forall>q \<in> set ids. ready a q w1"
  proof
    fix q assume q: "q \<in> set ids"
    with ds(1) have "q \<noteq> pid" by auto
    with fr have "\<forall>sc. same_records journal snaps stored sc q w w1" by simp
    with ready_frame [OF this] Cons.prems(3) q show "ready a q w1" by simp
  qed
  have "\<not> (failure \<noteq> None \<and> stop)"
  proof
    assume st: "failure \<noteq> None \<and> stop"
    with Cons.prems(4) p have "report' = rep1" by (auto split: if_splits)
    with pf nf st show False by simp
  qed
  with Cons.prems(4) p have d: "process_each env a ids rep1 w1 = (f, report', w')" by (auto split: if_splits)
  from Cons.IH [OF i1 ds(2) r1 d] have ih: "f = None" "\<forall>q \<in> set ids. all_copied env a q w1 w'" "ar_Failed rep1 = 0" by simp_all
  from process_each_kept [OF on i1 ds(2) r1 d] obtain outs2 where "run_kept env a (set ids) w1 outs2 w'" by blast
  with ds(1) have fr2: "\<And>sc. same_records journal snaps stored sc pid w1 w'" by (simp add: run_kept_def)
  have same: "same_records journal snaps stored sc q v v" for sc q v by (simp add: same_records_def)
  have "all_copied env a pid w w1" by (rule processAggregate_copied [OF on Cons.prems(1) r wr p ih(3)])
  with all_copied_frame [of pid w w w1 w'] same fr2 have "all_copied env a pid w w'" by simp
  moreover have "all_copied env a q w w'" if "q \<in> set ids" for q
  proof -
    from that ds(1) have "q \<noteq> pid" by auto
    with fr all_copied_frame [of q w w1 w' w'] same ih(2) that show ?thesis by simp
  qed
  ultimately show ?case using ih(1,3) pf by simp
qed

end

interpretation adk: adoption_stores testkit_EventsStore es_ok es_journal es_revision testkit_SnapshotStore sst_ok sst_snaps
  testkit_StateStore dst_ok dst_stored
  by unfold_locales

end
