(* ===== verification/Spec2Isabelle.thy ===== *)
theory Spec2Isabelle
  imports Events_Enumeration Events_Race State_Store Offset_Store Protocol ES_Properties ES_Tenancy ES_Batch DS_Properties Saga_Properties Projection_Properties Runner Adoption_Run
begin

text \<open>
  A verification development of the Go repository \<open>urd\<close>, an event-sourcing and durable-state
  engine over actors.
\<close>

end
